(* ===== verification/Prelude.thy ===== *)
theory Prelude
  imports Main "HOL-Library.Word" "HOL-Library.AList" "HOL-Library.Log_Nat"
begin

text \<open>
  The shared vocabulary of the development: results and panics, the standard
  library pieces of Rust the modelled code uses (hash maps, saturating
  arithmetic, bounded queues, binary64 floats), and the generic lemmas the
  component theories build on.

  A \<open>Result<T, E>\<close> is the sum \<open>'e + 'a\<close> (\<open>Err\<close> is \<open>Inl\<close>, \<open>Ok\<close> is \<open>Inr\<close>).
  Code that can panic returns an \<open>'a run\<close>. A \<open>HashMap\<close> is an association list
  with distinct keys: its iteration order, which Rust leaves unspecified, is the
  list order, and the theorems about iterating operations never depend on it.
\<close>

named_theorems engine_simps \<open>unfolding rules of the incident engine\<close>
named_theorems rule_simps \<open>unfolding rules of the diagnostic rules\<close>
named_theorems store_simps \<open>unfolding rules of the read models and the repositories\<close>

section \<open>Results, panics and machine integers\<close>

abbreviation Err :: "'e \<Rightarrow> 'e + 'a" where
  "Err \<equiv> Inl"

abbreviation Ok :: "'a \<Rightarrow> 'e + 'a" where
  "Ok \<equiv> Inr"

datatype 'a run = Done 'a | Panicked

type_synonym u8 = "8 word"
type_synonym u16 = "16 word"
type_synonym u32 = "32 word"
type_synonym u64 = "64 word"
type_synonym i64 = int

text \<open>
  Wall-clock instants (\<open>DateTime<Utc>\<close>) and signed durations are nanosecond
  counts; monotonic instants and \<open>std::time::Duration\<close> are natural numbers of
  nanoseconds, so that \<open>saturating_duration_since\<close> is the truncating
  subtraction of \<open>nat\<close>.
\<close>

type_synonym datetime = int
type_synonym chrono_duration = int
type_synonym instant = nat
type_synonym duration = nat

definition from_secs :: "nat \<Rightarrow> duration" where
  "from_secs s = s * 1000000000"

definition saturating_duration_since :: "instant \<Rightarrow> instant \<Rightarrow> duration" where
  "saturating_duration_since later earlier = later - earlier"

definition saturating_sub :: "'w::len word \<Rightarrow> 'w word \<Rightarrow> 'w word" where
  "saturating_sub a b = (if a < b then 0 else a - b)"

definition saturating_inc :: "'w::len word \<Rightarrow> 'w word" where
  "saturating_inc a = (if a = - 1 then a else a + 1)"

lemma unat_saturating_sub: "unat (saturating_sub a b) = unat a - unat b"
proof (cases "a < b")
  case True
  then have "unat a \<le> unat b"
    by (simp add: word_less_nat_alt)
  with True show ?thesis
    by (simp add: saturating_sub_def)
next
  case False
  then show ?thesis
    by (simp add: saturating_sub_def unat_sub linorder_not_less)
qed

lemma unat_saturating_inc:
  "unat (saturating_inc (a :: 'w::len word)) = min (unat a + 1) (2 ^ LENGTH('w) - 1)"
proof (cases "a = - 1")
  case True
  then show ?thesis
    by (simp add: saturating_inc_def unsigned_minus_1_eq_mask mask_eq_exp_minus_1)
next
  case False
  then have "unat (a + 1) = unat a + 1"
    by (metis Suc_eq_plus1 add.commute add_eq_0_iff unatSuc)
  moreover have "unat (a + 1) < 2 ^ LENGTH('w)"
    by (rule unsigned_less)
  ultimately show ?thesis
    using False by (simp add: saturating_inc_def)
qed

lemma saturating_inc_ge1: "1 \<le> saturating_inc (a :: 'w::len word)"
proof -
  have "(2::nat) \<le> 2 ^ LENGTH('w)"
    using self_le_power [of 2 "LENGTH('w)"] by simp
  then show ?thesis
    by (simp add: word_le_nat_alt unat_saturating_inc)
qed

section \<open>Hash maps\<close>

type_synonym ('k, 'v) hash_map = "('k \<times> 'v) list"

definition hm_get :: "('k, 'v) hash_map \<Rightarrow> 'k \<Rightarrow> 'v option" where
  "hm_get m k = map_of m k"

definition hm_contains_key :: "('k, 'v) hash_map \<Rightarrow> 'k \<Rightarrow> bool" where
  "hm_contains_key m k = (hm_get m k \<noteq> None)"

definition hm_insert :: "'k \<Rightarrow> 'v \<Rightarrow> ('k, 'v) hash_map \<Rightarrow> ('k, 'v) hash_map" where
  "hm_insert k v m = AList.update k v m"

definition hm_remove :: "'k \<Rightarrow> ('k, 'v) hash_map \<Rightarrow> ('k, 'v) hash_map" where
  "hm_remove k m = AList.delete k m"

definition hm_retain :: "('k \<Rightarrow> 'v \<Rightarrow> bool) \<Rightarrow> ('k, 'v) hash_map \<Rightarrow> ('k, 'v) hash_map" where
  "hm_retain p m = filter (\<lambda>(k, v). p k v) m"

definition hm_wf :: "('k, 'v) hash_map \<Rightarrow> bool" where
  "hm_wf m = distinct (map fst m)"

text \<open>
  The contract of a hash map, with the lemmas every client uses proved once from
  the laws. \<open>entries\<close> is what iteration yields, in some order.
\<close>

locale hash_map_laws =
  fixes get :: "'m \<Rightarrow> 'k \<Rightarrow> 'v option"
    and insert :: "'k \<Rightarrow> 'v \<Rightarrow> 'm \<Rightarrow> 'm"
    and remove :: "'k \<Rightarrow> 'm \<Rightarrow> 'm"
    and retain :: "('k \<Rightarrow> 'v \<Rightarrow> bool) \<Rightarrow> 'm \<Rightarrow> 'm"
    and entries :: "'m \<Rightarrow> ('k \<times> 'v) list"
    and wf :: "'m \<Rightarrow> bool"
  assumes get_insert: "get (insert k v m) = (get m)(k \<mapsto> v)"
    and get_remove: "get (remove k m) = (get m)(k := None)"
    and get_retain: "wf m \<Longrightarrow>
      get (retain p m) k = (case get m k of None \<Rightarrow> None | Some v \<Rightarrow> if p k v then Some v else None)"
    and entries_get: "wf m \<Longrightarrow> (k, v) \<in> set (entries m) \<longleftrightarrow> get m k = Some v"
    and wf_insert: "wf m \<Longrightarrow> wf (insert k v m)"
    and wf_remove: "wf m \<Longrightarrow> wf (remove k m)"
    and wf_retain: "wf m \<Longrightarrow> wf (retain p m)"
begin

lemma insert_twice: "get (insert k v (insert k w m)) = get (insert k v m)"
  by (simp add: get_insert)

lemma remove_insert: "get m k = None \<Longrightarrow> get (remove k (insert k v m)) = get m"
  by (auto simp: get_insert get_remove)

lemma set_entries_insert:
  assumes "wf m"
  shows "set (entries (insert k v m)) = {(k', v') \<in> set (entries m). k' \<noteq> k} \<union> {(k, v)}"
  using assms by (auto simp: entries_get wf_insert get_insert split: if_splits)

lemma set_entries_remove:
  assumes "wf m"
  shows "set (entries (remove k m)) = {(k', v') \<in> set (entries m). k' \<noteq> k}"
  using assms by (auto simp: entries_get wf_remove get_remove split: if_splits)

lemma retain_all:
  assumes "wf m" and "\<And>k v. get m k = Some v \<Longrightarrow> p k v"
  shows "get (retain p m) = get m"
  using assms by (auto simp: get_retain fun_eq_iff split: option.splits)

end

lemma hm_get_insert [simp]: "hm_get (hm_insert k v m) = (hm_get m)(k \<mapsto> v)"
  by (simp add: hm_get_def hm_insert_def update_conv' fun_eq_iff)

lemma hm_get_remove [simp]: "hm_get (hm_remove k m) = (hm_get m)(k := None)"
  by (simp add: hm_get_def hm_remove_def delete_conv' fun_eq_iff)

lemma hm_get_Nil [simp]: "hm_get [] = Map.empty"
  by (simp add: hm_get_def fun_eq_iff)

lemma hm_wf_Nil [simp]: "hm_wf []"
  by (simp add: hm_wf_def)

lemma hm_get_retain:
  "hm_wf m \<Longrightarrow>
    hm_get (hm_retain p m) k =
      (case hm_get m k of None \<Rightarrow> None | Some v \<Rightarrow> if p k v then Some v else None)"
  unfolding hm_get_def hm_retain_def hm_wf_def
proof (induction m)
  case Nil
  then show ?case by simp
next
  case (Cons x m)
  obtain a b where x: "x = (a, b)"
    by (cases x) simp
  have "a \<notin> set (map fst (filter (\<lambda>(k, v). p k v) m))"
    using Cons.prems x by auto
  then have "map_of (filter (\<lambda>(k, v). p k v) m) a = None"
    by (simp add: map_of_eq_None_iff)
  with Cons x show ?case
    by (auto split: option.splits)
qed

interpretation hm: hash_map_laws hm_get hm_insert hm_remove hm_retain "\<lambda>m. m" hm_wf
proof unfold_locales
  fix m :: "('k, 'v) hash_map" and k v p
  show "hm_get (hm_insert k v m) = (hm_get m)(k \<mapsto> v)" by simp
  show "hm_get (hm_remove k m) = (hm_get m)(k := None)" by simp
  show "hm_wf m \<Longrightarrow> hm_get (hm_retain p m) k =
      (case hm_get m k of None \<Rightarrow> None | Some v \<Rightarrow> if p k v then Some v else None)"
    by (rule hm_get_retain)
  show "hm_wf m \<Longrightarrow> (k, v) \<in> set m \<longleftrightarrow> hm_get m k = Some v"
    by (auto simp: hm_get_def hm_wf_def)
  show "hm_wf m \<Longrightarrow> hm_wf (hm_insert k v m)"
    by (simp add: hm_wf_def hm_insert_def distinct_update)
  show "hm_wf m \<Longrightarrow> hm_wf (hm_remove k m)"
    by (simp add: hm_wf_def hm_remove_def distinct_delete)
  show "hm_wf m \<Longrightarrow> hm_wf (hm_retain p m)"
    by (simp add: hm_wf_def hm_retain_def distinct_map_filter)
qed

lemmas hm_wf_simps [simp] = hm.wf_insert hm.wf_remove hm.wf_retain

lemma hm_contains_key_iff [simp]: "hm_contains_key m k \<longleftrightarrow> k \<in> dom (hm_get m)"
  by (auto simp: hm_contains_key_def)

section \<open>Bounded queues\<close>

text \<open>
  \<open>push_back\<close> followed by \<open>while len > capacity { pop_front }\<close>. The loop is the
  recursion \<open>pop_front_while\<close>; it leaves the last \<open>capacity\<close> elements.
\<close>

fun pop_front_while :: "nat \<Rightarrow> 'a list \<Rightarrow> 'a list" where
  "pop_front_while cap [] = []"
| "pop_front_while cap (x # xs) =
     (if length (x # xs) > cap then pop_front_while cap xs else x # xs)"

definition push_bounded :: "nat \<Rightarrow> 'a \<Rightarrow> 'a list \<Rightarrow> 'a list" where
  "push_bounded cap x q = pop_front_while cap (q @ [x])"

definition last_n :: "nat \<Rightarrow> 'a list \<Rightarrow> 'a list" where
  "last_n n xs = drop (length xs - n) xs"

lemma pop_front_while_last_n: "pop_front_while cap q = last_n cap q"
proof (induction q)
  case Nil
  then show ?case by (simp add: last_n_def)
next
  case (Cons x q)
  then show ?case
    by (auto simp: last_n_def Suc_diff_le)
qed

lemma last_n_snoc: "last_n cap (last_n cap xs @ [x]) = last_n cap (xs @ [x])"
proof (cases "length xs \<le> cap")
  case True
  then show ?thesis by (simp add: last_n_def)
next
  case False
  then have "Suc (length xs - cap) = Suc (length xs) - cap"
    by simp
  with False show ?thesis
    by (simp add: last_n_def)
qed

lemma push_bounded_last_n: "push_bounded cap x (last_n cap xs) = last_n cap (xs @ [x])"
  by (simp add: push_bounded_def pop_front_while_last_n last_n_snoc)

lemma last_n_eq_Nil: "0 < n \<Longrightarrow> last_n n xs = [] \<longleftrightarrow> xs = []"
  by (cases xs) (auto simp: last_n_def)

lemma last_last_n: "0 < n \<Longrightarrow> xs \<noteq> [] \<Longrightarrow> last (last_n n xs) = last xs"
  by (simp add: last_n_def last_drop)

lemma length_push_bounded: "length (push_bounded cap x q) \<le> cap"
  by (simp add: push_bounded_def pop_front_while_last_n last_n_def)

lemma last_push_bounded: "0 < cap \<Longrightarrow> last (push_bounded cap x q) = x"
  by (simp add: push_bounded_def pop_front_while_last_n last_n_def)

lemma push_bounded_not_Nil: "0 < cap \<Longrightarrow> push_bounded cap x q \<noteq> []"
  by (simp add: push_bounded_def pop_front_while_last_n last_n_def)

end
