(* ===== verification/Shared_Types.thy ===== *)
theory Shared_Types
  imports Prelude
begin

text \<open>
  The identifiers and subjects of \<open>shared/types.rs\<close>. A \<open>Uuid\<close> is a 128-bit
  value; the newtypes around it and around \<open>String\<close> are one-constructor
  datatypes. Rendering a \<open>Uuid\<close> is code of the \<open>uuid\<close> crate, so
  \<open>subject_id_str\<close> takes the renderer as its first argument.
\<close>

type_synonym uuid = "128 word"

datatype collector_id = CollectorId string
datatype incident_id = IncidentId uuid
datatype observation_id = ObservationId uuid
datatype observation_batch_id = ObservationBatchId uuid
datatype actor_id = ActorId string
datatype sidecar_id = SidecarId uuid
datatype evidence_ref = EvidenceRef observation_id
datatype host_id = HostId string
datatype bitcoin_node_id = BitcoinNodeId string
datatype bitcoin_peer_id = BitcoinPeerId string
datatype lnd_node_id = LndNodeId string
datatype lnd_peer_id = LndPeerId string
datatype lnd_channel_id = LndChannelId string
datatype lnd_invoice_id = LndInvoiceId string

datatype entity_ref =
    Sidecar sidecar_id
  | Host host_id
  | BitcoinNode bitcoin_node_id
  | BitcoinPeer bitcoin_node_id bitcoin_peer_id
  | LndNode lnd_node_id
  | LndPeer lnd_node_id lnd_peer_id
  | LndChannel lnd_node_id lnd_channel_id
  | LndInvoice lnd_node_id lnd_invoice_id

datatype entity_subject_kind =
    SkSidecar | SkHost | SkBitcoinNode | SkBitcoinPeer
  | SkLndNode | SkLndPeer | SkLndChannel | SkLndInvoice

fun subject_kind :: "entity_ref \<Rightarrow> entity_subject_kind" where
  "subject_kind (Sidecar _) = SkSidecar"
| "subject_kind (Host _) = SkHost"
| "subject_kind (BitcoinNode _) = SkBitcoinNode"
| "subject_kind (BitcoinPeer _ _) = SkBitcoinPeer"
| "subject_kind (LndNode _) = SkLndNode"
| "subject_kind (LndPeer _ _) = SkLndPeer"
| "subject_kind (LndChannel _ _) = SkLndChannel"
| "subject_kind (LndInvoice _ _) = SkLndInvoice"

fun subject_kind_str :: "entity_ref \<Rightarrow> string" where
  "subject_kind_str (Sidecar _) = ''sidecar''"
| "subject_kind_str (Host _) = ''host''"
| "subject_kind_str (BitcoinNode _) = ''bitcoin_node''"
| "subject_kind_str (BitcoinPeer _ _) = ''bitcoin_peer''"
| "subject_kind_str (LndNode _) = ''lnd_node''"
| "subject_kind_str (LndPeer _ _) = ''lnd_peer''"
| "subject_kind_str (LndChannel _ _) = ''lnd_channel''"
| "subject_kind_str (LndInvoice _ _) = ''lnd_invoice''"

fun subject_id_str :: "(uuid \<Rightarrow> string) \<Rightarrow> entity_ref \<Rightarrow> string" where
  "subject_id_str uuid_str (Sidecar (SidecarId u)) = uuid_str u"
| "subject_id_str uuid_str (Host (HostId s)) = s"
| "subject_id_str uuid_str (BitcoinNode (BitcoinNodeId s)) = s"
| "subject_id_str uuid_str (BitcoinPeer (BitcoinNodeId n) (BitcoinPeerId p)) = n @ ''/'' @ p"
| "subject_id_str uuid_str (LndNode (LndNodeId s)) = s"
| "subject_id_str uuid_str (LndPeer (LndNodeId n) (LndPeerId p)) = n @ ''/'' @ p"
| "subject_id_str uuid_str (LndChannel (LndNodeId n) (LndChannelId c)) = n @ ''/'' @ c"
| "subject_id_str uuid_str (LndInvoice (LndNodeId n) (LndInvoiceId i)) = n @ ''/'' @ i"

text \<open>The identifier of the monitored node a subject is scoped under, if it is scoped.\<close>

fun scope_of :: "entity_ref \<Rightarrow> string option" where
  "scope_of (BitcoinPeer (BitcoinNodeId n) _) = Some n"
| "scope_of (LndPeer (LndNodeId n) _) = Some n"
| "scope_of (LndChannel (LndNodeId n) _) = Some n"
| "scope_of (LndInvoice (LndNodeId n) _) = Some n"
| "scope_of _ = None"

lemma subject_kind_str_eq_iff:
  "subject_kind_str a = subject_kind_str b \<longleftrightarrow> subject_kind a = subject_kind b"
  by (cases a; cases b) simp_all

lemma subject_kind_str_no_bar: "CHR ''|'' \<notin> set (subject_kind_str e)"
  by (cases e) simp_all

lemma append_sep_inject:
  assumes "a @ c # b = a' @ c # b'" and "c \<notin> set a" and "c \<notin> set a'"
  shows "a = a' \<and> b = b'"
  using assms
proof (induction a arbitrary: a')
  case Nil
  then show ?case by (cases a') auto
next
  case (Cons x a)
  then show ?case by (cases a') auto
qed

text \<open>
  Two scoped subjects of one kind with the same rendered id are equal when their
  node ids carry no slash.
\<close>

lemma subject_id_str_inject:
  assumes "subject_kind a = subject_kind b"
    and "subject_id_str uuid_str a = subject_id_str uuid_str b"
    and "inj uuid_str"
    and "\<forall>n. scope_of a = Some n \<longrightarrow> CHR ''/'' \<notin> set n"
    and "\<forall>n. scope_of b = Some n \<longrightarrow> CHR ''/'' \<notin> set n"
  shows "a = b"
  using assms
  by (cases "(uuid_str, a)" rule: subject_id_str.cases;
      cases "(uuid_str, b)" rule: subject_id_str.cases)
    (auto dest: append_sep_inject injD)

end
