(* ===== verification/Collector_Types.thy ===== *)
theory Collector_Types
  imports Shared_Types
begin

text \<open>
  The vocabulary collectors share (\<open>collectors/types.rs\<close>) and the clock helpers
  of \<open>collectors/helpers.rs\<close> that do not need observation types.
\<close>

datatype collection_run_id = CollectionRunId uuid

datatype integration_kind =
    BitcoinCoreRpc chrono_duration
  | BitcoinCoreZmq
  | LndGrpcPoll chrono_duration
  | LndGrpcStream
  | LndRest chrono_duration
  | HostIntegration chrono_duration

datatype collector_mode = Polling | Subscription

fun integration_mode :: "integration_kind \<Rightarrow> collector_mode" where
  "integration_mode (BitcoinCoreRpc _) = Polling"
| "integration_mode (LndGrpcPoll _) = Polling"
| "integration_mode (LndRest _) = Polling"
| "integration_mode (HostIntegration _) = Polling"
| "integration_mode BitcoinCoreZmq = Subscription"
| "integration_mode LndGrpcStream = Subscription"

fun integration_interval :: "integration_kind \<Rightarrow> chrono_duration option" where
  "integration_interval (BitcoinCoreRpc i) = Some i"
| "integration_interval (LndGrpcPoll i) = Some i"
| "integration_interval (LndRest i) = Some i"
| "integration_interval (HostIntegration i) = Some i"
| "integration_interval BitcoinCoreZmq = None"
| "integration_interval LndGrpcStream = None"

datatype collector_target =
    TargetBitcoinNode bitcoin_node_id
  | TargetLndNode lnd_node_id
  | TargetHost host_id

record collector_ref =
  cref_id :: collector_id
  cref_integration :: integration_kind
  cref_instance_label :: string

record collector_descriptor =
  desc_id :: collector_id
  desc_integration :: integration_kind
  desc_target :: collector_target
  desc_instance_label :: string
  desc_description :: "string option"

definition descriptor_as_ref :: "collector_descriptor \<Rightarrow> collector_ref" where
  "descriptor_as_ref d =
     \<lparr>cref_id = desc_id d, cref_integration = desc_integration d,
      cref_instance_label = desc_instance_label d\<rparr>"

record collection_context =
  cctx_sidecar_id :: sidecar_id
  cctx_collector_id :: collector_id
  cctx_target :: collector_target
  cctx_now :: datetime
  cctx_run_id :: collection_run_id

datatype collection_error_kind =
    Unreachable | Timeout | AuthenticationFailed | PermissionDenied | ProtocolError
  | DecodeError | InvalidResponse | RateLimitedKind | Misconfigured | UnsupportedVersion
  | InternalKind

record collection_error =
  cerr_kind :: collection_error_kind
  cerr_message :: string

fun is_retryable :: "collection_error_kind \<Rightarrow> bool" where
  "is_retryable Unreachable = True"
| "is_retryable Timeout = True"
| "is_retryable RateLimitedKind = True"
| "is_retryable InternalKind = True"
| "is_retryable _ = False"

text \<open>
  \<open>duration_ms\<close> is the wall-clock distance in whole milliseconds
  (\<open>num_milliseconds\<close> truncates towards zero), or nothing if it is negative.
\<close>

definition num_milliseconds :: "chrono_duration \<Rightarrow> int" where
  "num_milliseconds d = (if d < 0 then - ((- d) div 1000000) else d div 1000000)"

definition duration_ms :: "datetime \<Rightarrow> datetime \<Rightarrow> u64 option" where
  "duration_ms started ended =
     (let ms = num_milliseconds (ended - started)
      in if ms < 0 then None else Some (of_int ms))"

lemma integration_interval_iff:
  "(integration_interval k \<noteq> None) = (integration_mode k = Polling)"
  by (cases k) simp_all

end
