(* ===== verification/Dotted_Name.thy ===== *)
theory Dotted_Name
  imports Prelude
begin

text \<open>
  The shared parser of \<open>shared/parse.rs\<close>, its error values, and the grammar it
  is meant to accept. A \<open>&str\<close> is the list of its bytes.
\<close>

definition MAX_NAME_LEN :: nat where
  "MAX_NAME_LEN = 128"

datatype parse_dotted_name_error =
    Empty
  | TooLong nat
  | BadCharacter nat char
  | EmptySegment nat
  | BadSegmentStart nat
  | NoDot

definition is_ascii_lowercase :: "char \<Rightarrow> bool" where
  "is_ascii_lowercase b = ((97::nat) \<le> of_char b \<and> of_char b \<le> (122::nat))"

definition is_ascii_digit :: "char \<Rightarrow> bool" where
  "is_ascii_digit b = ((48::nat) \<le> of_char b \<and> of_char b \<le> (57::nat))"

definition is_segment_body_byte :: "char \<Rightarrow> bool" where
  "is_segment_body_byte b = (is_ascii_lowercase b \<or> is_ascii_digit b \<or> b = CHR ''_'')"

text \<open>
  The byte scan: \<open>i\<close> is the loop index, \<open>segment_start\<close> and \<open>saw_dot\<close> the two
  loop variables. It returns their final values or the error the loop leaves with.
\<close>

fun scan :: "nat \<Rightarrow> nat \<Rightarrow> bool \<Rightarrow> string \<Rightarrow> parse_dotted_name_error + (nat \<times> bool)" where
  "scan i segment_start saw_dot [] = Ok (segment_start, saw_dot)"
| "scan i segment_start saw_dot (b # bs) =
     (if b = CHR ''.'' then
        (if i = segment_start then Err (EmptySegment i)
         else scan (i + 1) (i + 1) True bs)
      else if i = segment_start then
        (if \<not> is_ascii_lowercase b then
           (if b = CHR ''.'' then Err (EmptySegment i)
            else if is_segment_body_byte b then Err (BadSegmentStart i)
            else Err (BadCharacter i b))
         else scan (i + 1) segment_start saw_dot bs)
      else if \<not> is_segment_body_byte b then Err (BadCharacter i b)
      else scan (i + 1) segment_start saw_dot bs)"

definition parse_dotted_name :: "string \<Rightarrow> parse_dotted_name_error + string" where
  "parse_dotted_name s =
     (if s = [] then Err Empty
      else if length s > MAX_NAME_LEN then Err (TooLong (length s))
      else case scan 0 0 False s of
        Err e \<Rightarrow> Err e
      | Ok (segment_start, saw_dot) \<Rightarrow>
          if segment_start = length s then Err (EmptySegment (length s - 1))
          else if \<not> saw_dot then Err NoDot
          else Ok s)"

text \<open>
  The documented grammar, written without the scan: a name is two or more
  segments joined by dots, each a lowercase letter followed by body bytes.
\<close>

fun segment :: "string \<Rightarrow> bool" where
  "segment [] = False"
| "segment (b # bs) = (is_ascii_lowercase b \<and> list_all is_segment_body_byte bs)"

fun join_dots :: "string list \<Rightarrow> string" where
  "join_dots [] = []"
| "join_dots [s] = s"
| "join_dots (s # ss) = s @ ''.'' @ join_dots ss"

definition dotted_name :: "string \<Rightarrow> bool" where
  "dotted_name s = (\<exists>segs. 2 \<le> length segs \<and> list_all segment segs \<and> s = join_dots segs)"

section \<open>The scan against the grammar\<close>

text \<open>\<open>split_from cur bs\<close> cuts \<open>cur @ bs\<close> at the dots of \<open>bs\<close>.\<close>

fun split_from :: "string \<Rightarrow> string \<Rightarrow> string list" where
  "split_from cur [] = [cur]"
| "split_from cur (b # bs) =
     (if b = CHR ''.'' then cur # split_from [] bs else split_from (cur @ [b]) bs)"

lemma dot_not_body [simp]: "\<not> is_segment_body_byte CHR ''.''"
  by (simp add: is_segment_body_byte_def is_ascii_lowercase_def is_ascii_digit_def)

lemma lowercase_body: "is_ascii_lowercase b \<Longrightarrow> is_segment_body_byte b"
  by (simp add: is_segment_body_byte_def)

lemma segment_no_dot: "segment s \<Longrightarrow> CHR ''.'' \<notin> set s"
  by (cases s) (auto simp: list_all_iff dest: lowercase_body)

lemma split_from_prefix: "\<exists>t rest. split_from cur bs = (cur @ t) # rest"
proof (induction bs arbitrary: cur)
  case Nil
  then show ?case by simp
next
  case (Cons b bs)
  from Cons.IH [of "cur @ [b]"] obtain t rest where
    "split_from (cur @ [b]) bs = (cur @ [b] @ t) # rest"
    by auto
  then show ?case by auto
qed

lemma join_split_from: "join_dots (split_from cur bs) = cur @ bs"
proof (induction bs arbitrary: cur)
  case Nil
  then show ?case by simp
next
  case (Cons b bs)
  obtain t rest where "split_from [] bs = t # rest"
    using split_from_prefix [of "[]" bs] by auto
  with Cons.IH [of "[]"] Cons.IH [of "cur @ [b]"] show ?case
    by simp
qed

lemma split_from_segment:
  "CHR ''.'' \<notin> set s \<Longrightarrow> split_from cur (s @ bs) = split_from (cur @ s) bs"
  by (induction s arbitrary: cur) auto

lemma split_join_dots:
  "list_all segment segs \<Longrightarrow> segs \<noteq> [] \<Longrightarrow> split_from [] (join_dots segs) = segs"
proof (induction segs rule: join_dots.induct)
  case 1
  then show ?case by simp
next
  case (2 s)
  then show ?case
    using split_from_segment [of s "[]" "[]"] by (simp add: segment_no_dot)
next
  case (3 s s' ss)
  then show ?case
    by (simp add: segment_no_dot split_from_segment)
qed

lemma length_split_from: "2 \<le> length (split_from cur bs) \<longleftrightarrow> CHR ''.'' \<in> set bs"
proof (induction bs arbitrary: cur)
  case Nil
  then show ?case by simp
next
  case (Cons b bs)
  obtain t rest where "split_from [] bs = t # rest"
    using split_from_prefix [of "[]" bs] by auto
  with Cons show ?case by simp
qed

lemma dotted_name_split:
  "dotted_name s \<longleftrightarrow> CHR ''.'' \<in> set s \<and> list_all segment (split_from [] s)"
proof
  assume "dotted_name s"
  then obtain segs where segs: "2 \<le> length segs" "list_all segment segs" "s = join_dots segs"
    by (auto simp: dotted_name_def)
  then have "split_from [] s = segs"
    using split_join_dots [of segs] by (cases segs) auto
  with segs show "CHR ''.'' \<in> set s \<and> list_all segment (split_from [] s)"
    using length_split_from [of "[]" s] by simp
next
  assume "CHR ''.'' \<in> set s \<and> list_all segment (split_from [] s)"
  then show "dotted_name s"
    unfolding dotted_name_def
    by (intro exI [of _ "split_from [] s"]) (simp add: length_split_from join_split_from)
qed

lemma not_all_segment_split_from:
  assumes "\<And>t. \<not> segment (cur @ t)"
  shows "\<not> list_all segment (split_from cur bs)"
  using assms split_from_prefix [of cur bs] by auto

lemma segment_snoc: "segment cur \<Longrightarrow> segment (cur @ [b]) \<longleftrightarrow> is_segment_body_byte b"
  by (cases cur) auto

lemma segment_append_body: "segment cur \<Longrightarrow> segment (cur @ b # t) \<Longrightarrow> is_segment_body_byte b"
  by (cases cur) auto

definition scan_accepts :: "nat \<Rightarrow> (parse_dotted_name_error + (nat \<times> bool)) \<Rightarrow> bool" where
  "scan_accepts n r = (case r of Err _ \<Rightarrow> False | Ok (segment_start, _) \<Rightarrow> segment_start \<noteq> n)"

lemma scan_iff:
  assumes "cur = [] \<or> segment cur" and "i = segment_start + length cur"
  shows "scan_accepts (i + length bs) (scan i segment_start saw_dot bs)
    \<longleftrightarrow> list_all segment (split_from cur bs)"
  using assms
proof (induction bs arbitrary: i segment_start saw_dot cur)
  case Nil
  then show ?case by (auto simp: scan_accepts_def)
next
  case (Cons b bs)
  show ?case
  proof (cases "b = CHR ''.''")
    case True
    with Cons.IH [of "[]" "i + 1" "i + 1" True] Cons.prems show ?thesis
      by (auto simp: scan_accepts_def)
  next
    case no_dot: False
    show ?thesis
    proof (cases "cur = []")
      case True
      then have "is_ascii_lowercase b \<Longrightarrow> segment (cur @ [b])"
        by simp
      moreover have "\<not> is_ascii_lowercase b \<Longrightarrow> \<not> list_all segment (split_from (cur @ [b]) bs)"
        using True by (intro not_all_segment_split_from) simp
      ultimately show ?thesis
        using Cons.IH [of "cur @ [b]" "i + 1" segment_start saw_dot] Cons.prems True no_dot
        by (auto simp: scan_accepts_def)
    next
      case False
      with Cons.prems have cur: "segment cur" "i \<noteq> segment_start"
        by auto
      then have "\<not> is_segment_body_byte b \<Longrightarrow> \<not> list_all segment (split_from (cur @ [b]) bs)"
        by (intro not_all_segment_split_from) (auto dest: segment_append_body)
      with cur show ?thesis
        using Cons.IH [of "cur @ [b]" "i + 1" segment_start saw_dot] Cons.prems no_dot
        by (auto simp: scan_accepts_def segment_snoc)
    qed
  qed
qed

lemma scan_saw_dot:
  "scan i segment_start saw_dot bs = Ok (s', d') \<Longrightarrow> d' \<longleftrightarrow> saw_dot \<or> CHR ''.'' \<in> set bs"
  by (induction i segment_start saw_dot bs rule: scan.induct) (auto split: if_splits)

lemma parse_dotted_name_iff:
  "parse_dotted_name s = Ok t \<longleftrightarrow> t = s \<and> length s \<le> MAX_NAME_LEN \<and> dotted_name s"
proof -
  have acc: "scan_accepts (length s) (scan 0 0 False s) \<longleftrightarrow> list_all segment (split_from [] s)"
    using scan_iff [of "[]" 0 0 s False] by simp
  have ne: "dotted_name s \<Longrightarrow> s \<noteq> []"
    by (auto simp: dotted_name_split)
  show ?thesis
    using acc ne scan_saw_dot [of 0 0 False s]
    by (auto simp: parse_dotted_name_def dotted_name_split scan_accepts_def
        split: sum.splits if_splits)
qed

lemma parse_dotted_name_Ok: "parse_dotted_name s = Ok t \<Longrightarrow> t = s"
  by (simp add: parse_dotted_name_iff)

section \<open>Error positions\<close>

text \<open>The byte an error points at, relative to the whole input.\<close>

fun error_at :: "string \<Rightarrow> parse_dotted_name_error \<Rightarrow> bool" where
  "error_at s (BadCharacter pos c) =
     (pos < length s \<and> s ! pos = c \<and> \<not> is_segment_body_byte c \<and> c \<noteq> CHR ''.'')"
| "error_at s (EmptySegment pos) =
     (pos < length s \<and> s ! pos = CHR ''.'' \<and>
      (pos = 0 \<or> s ! (pos - 1) = CHR ''.'' \<or> pos = length s - 1))"
| "error_at s (BadSegmentStart pos) =
     (pos < length s \<and> is_segment_body_byte (s ! pos) \<and> \<not> is_ascii_lowercase (s ! pos) \<and>
      (pos = 0 \<or> s ! (pos - 1) = CHR ''.''))"
| "error_at s (TooLong got) = (got = length s \<and> MAX_NAME_LEN < got)"
| "error_at s NoDot = (CHR ''.'' \<notin> set s)"
| "error_at s Empty = (s = [])"

text \<open>The loop invariant: a segment starts at the front or right behind a dot.\<close>

definition starts_segment :: "string \<Rightarrow> nat \<Rightarrow> bool" where
  "starts_segment pre n = (n \<le> length pre \<and> (n = 0 \<or> pre ! (n - 1) = CHR ''.''))"

lemma starts_segment_0 [simp]: "starts_segment pre 0"
  by (simp add: starts_segment_def)

lemma starts_segment_snoc: "starts_segment pre n \<Longrightarrow> starts_segment (pre @ [b]) n"
  by (auto simp: starts_segment_def nth_append)

lemma starts_segment_dot: "starts_segment (pre @ ''.'') (Suc (length pre))"
  by (simp add: starts_segment_def)

lemma starts_segment_here:
  "starts_segment pre (length pre) \<Longrightarrow>
    length pre = 0 \<or> (pre @ bs) ! (length pre - 1) = CHR ''.''"
  unfolding starts_segment_def by (cases "pre = []") (simp_all add: nth_append)

lemma scan_error_at:
  assumes "scan (length pre) segment_start saw_dot bs = Err e"
    and "starts_segment pre segment_start"
  shows "error_at (pre @ bs) e"
  using assms
proof (induction bs arbitrary: pre segment_start saw_dot)
  case Nil
  then show ?case by simp
next
  case (Cons b bs)
  have IH: "error_at (pre @ b # bs) e"
    if "scan (Suc (length pre)) n d bs = Err e" "starts_segment (pre @ [b]) n" for n d
    using that Cons.IH [of "pre @ [b]" n d] by simp
  show ?case
  proof (cases "b = CHR ''.''")
    case True
    with Cons.prems IH [of "Suc (length pre)" True] starts_segment_dot [of pre]
      starts_segment_here [of pre "b # bs"] show ?thesis
      by (auto split: if_splits)
  next
    case False
    with Cons.prems IH [of segment_start saw_dot] starts_segment_snoc [of pre segment_start b]
      starts_segment_here [of pre "b # bs"] show ?thesis
      by (auto split: if_splits)
  qed
qed

lemma scan_trailing_dot:
  assumes "scan (length pre) segment_start saw_dot bs = Ok (n, d)"
    and "starts_segment pre segment_start"
  shows "starts_segment (pre @ bs) n"
  using assms
proof (induction bs arbitrary: pre segment_start saw_dot)
  case Nil
  then show ?case by auto
next
  case (Cons b bs)
  have IH: "starts_segment (pre @ b # bs) n"
    if "scan (Suc (length pre)) m d' bs = Ok (n, d)" "starts_segment (pre @ [b]) m" for m d'
    using that Cons.IH [of "pre @ [b]" m d'] by simp
  show ?case
    using Cons.prems IH starts_segment_dot [of pre] starts_segment_snoc [of pre segment_start b]
    by (auto split: if_splits)
qed

lemma parse_error_at:
  assumes "parse_dotted_name s = Err e"
  shows "error_at s e"
proof (cases "scan 0 0 False s")
  case (Inl x)
  with assms scan_error_at [of "[]" 0 False s] show ?thesis
    by (auto simp: parse_dotted_name_def starts_segment_def split: if_splits)
next
  case (Inr p)
  obtain n d where p: "p = (n, d)" by (cases p)
  with assms Inr scan_trailing_dot [of "[]" 0 False s n d] scan_saw_dot [of 0 0 False s n d] show ?thesis
    by (auto simp: parse_dotted_name_def starts_segment_def split: if_splits)
qed

section \<open>Name newtypes\<close>

text \<open>
  Ten newtypes wrap a validated name. Each has a \<open>parse\<close>, an \<open>as_str\<close> and a
  \<open>from_well_known\<close>; serde goes through \<open>try_from\<close> (\<open>parse\<close>) and \<open>into\<close>
  (\<open>as_str\<close>). The locale is the contract a newtype gives its clients.
\<close>

locale name_newtype =
  fixes wrap :: "string \<Rightarrow> 'n"
    and as_str :: "'n \<Rightarrow> string"
    and parse :: "string \<Rightarrow> parse_dotted_name_error + 'n"
  assumes as_str_wrap: "as_str (wrap s) = s"
    and wrap_as_str: "wrap (as_str n) = n"
    and parse_wrap: "parse s = map_sum id wrap (parse_dotted_name s)"
begin

lemma parse_Ok_iff: "parse s = Ok n \<longleftrightarrow> as_str n = s \<and> length s \<le> MAX_NAME_LEN \<and> dotted_name s"
proof -
  have "parse s = Ok n \<longleftrightarrow> parse_dotted_name s = Ok (as_str n)"
    using as_str_wrap wrap_as_str by (cases "parse_dotted_name s") (auto simp: parse_wrap)
  then show ?thesis
    by (simp add: parse_dotted_name_iff)
qed

lemma parse_as_str: "parse s = Ok n \<Longrightarrow> parse (as_str n) = Ok n"
  by (simp add: parse_Ok_iff)

lemma as_str_inject: "as_str a = as_str b \<Longrightarrow> a = b"
  using wrap_as_str by metis

lemma parse_from_well_known:
  "length s \<le> MAX_NAME_LEN \<Longrightarrow> dotted_name s \<Longrightarrow> parse s = Ok (wrap s)"
  by (simp add: parse_Ok_iff as_str_wrap)

end

lemma split_from_length: "length (split_from cur bs) = Suc (length (filter (\<lambda>b. b = CHR ''.'') bs))"
  by (induction bs arbitrary: cur) auto

text \<open>C38. The parser accepts exactly the documented grammar and its errors point at their cause.
  An accepted text is returned unchanged, is at most 128 bytes long and is the join of
  its two or more segments; a rejected one is outside the grammar or too long, and the
  error names a position and a byte at which this can be seen.\<close>

theorem parse_dotted_name_correct:
  "case parse_dotted_name s of
     Ok t \<Rightarrow> t = s \<and> length s \<le> MAX_NAME_LEN \<and>
       2 \<le> length (split_from [] s) \<and> list_all segment (split_from [] s) \<and> join_dots (split_from [] s) = t
   | Err e \<Rightarrow> error_at s e \<and> \<not> (length s \<le> MAX_NAME_LEN \<and> dotted_name s)"
proof (cases "parse_dotted_name s")
  case (Inl e)
  then have "\<not> (length s \<le> MAX_NAME_LEN \<and> dotted_name s)"
    using parse_dotted_name_iff [of s s] by auto
  with Inl show ?thesis
    using parse_error_at [OF Inl] by auto
next
  case (Inr t)
  then have t: "t = s" "length s \<le> MAX_NAME_LEN" "CHR ''.'' \<in> set s" "list_all segment (split_from [] s)"
    by (auto simp: parse_dotted_name_iff dotted_name_split)
  from t(3) have "filter (\<lambda>b. b = CHR ''.'') s \<noteq> []"
    by (auto simp: filter_empty_conv)
  then have "2 \<le> length (split_from [] s)"
    by (cases "filter (\<lambda>b. b = CHR ''.'') s") (auto simp: split_from_length)
  with t show ?thesis
    by (simp add: Inr join_split_from)
qed

end
