(* ===== verification/Incident_Types.thy ===== *)
theory Incident_Types
  imports Shared_Types Dotted_Name
begin

text \<open>
  Incidents, their kinds and fingerprints, lifecycle events
  (\<open>incidents/types.rs\<close>) and the canonical kind names
  (\<open>incidents/well_known.rs\<close>).
\<close>

section \<open>Kinds\<close>

datatype incident_kind = IncidentKind string

fun incident_kind_as_str :: "incident_kind \<Rightarrow> string" where
  "incident_kind_as_str (IncidentKind s) = s"

definition incident_kind_parse :: "string \<Rightarrow> parse_dotted_name_error + incident_kind" where
  "incident_kind_parse s = map_sum id IncidentKind (parse_dotted_name s)"

definition incident_kind_from_well_known :: "string \<Rightarrow> incident_kind" where
  "incident_kind_from_well_known name = IncidentKind name"

interpretation kind_name: name_newtype IncidentKind incident_kind_as_str incident_kind_parse
proof unfold_locales
  fix s n
  show "incident_kind_as_str (IncidentKind s) = s" by simp
  show "IncidentKind (incident_kind_as_str n) = n" by (cases n) simp
  show "incident_kind_parse s = map_sum id IncidentKind (parse_dotted_name s)"
    by (rule incident_kind_parse_def)
qed

definition BITCOIN_RPC_UNREACHABLE :: string where
  "BITCOIN_RPC_UNREACHABLE = ''bitcoin.rpc_unreachable''"
definition BITCOIN_NO_PEERS :: string where
  "BITCOIN_NO_PEERS = ''bitcoin.no_peers''"
definition BITCOIN_TIP_LAG_OR_IBD_STALLED :: string where
  "BITCOIN_TIP_LAG_OR_IBD_STALLED = ''bitcoin.tip_lag_or_ibd_stalled''"
definition LND_CHANNEL_INACTIVE :: string where
  "LND_CHANNEL_INACTIVE = ''lnd.channel_inactive''"
definition LND_CHAIN_BACKEND_LAG :: string where
  "LND_CHAIN_BACKEND_LAG = ''lnd.chain_backend_lag''"
definition BITHOUND_LND_UNREACHABLE :: string where
  "BITHOUND_LND_UNREACHABLE = ''bithound.lnd_unreachable''"
definition BITHOUND_LND_AUTH_FAILED :: string where
  "BITHOUND_LND_AUTH_FAILED = ''bithound.lnd_auth_failed''"
definition BITHOUND_LND_TLS_INVALID :: string where
  "BITHOUND_LND_TLS_INVALID = ''bithound.lnd_tls_invalid''"

definition well_known_kinds :: "string list" where
  "well_known_kinds =
     [BITCOIN_RPC_UNREACHABLE, BITCOIN_NO_PEERS, BITCOIN_TIP_LAG_OR_IBD_STALLED,
      LND_CHANNEL_INACTIVE, LND_CHAIN_BACKEND_LAG, BITHOUND_LND_UNREACHABLE,
      BITHOUND_LND_AUTH_FAILED, BITHOUND_LND_TLS_INVALID]"

lemmas well_known_kind_defs =
  BITCOIN_RPC_UNREACHABLE_def BITCOIN_NO_PEERS_def BITCOIN_TIP_LAG_OR_IBD_STALLED_def
  LND_CHANNEL_INACTIVE_def LND_CHAIN_BACKEND_LAG_def BITHOUND_LND_UNREACHABLE_def
  BITHOUND_LND_AUTH_FAILED_def BITHOUND_LND_TLS_INVALID_def

section \<open>Incidents\<close>

record incident_fingerprint =
  fp_subject :: entity_ref
  fp_kind :: incident_kind
  fp_dimension :: "string option"

definition as_key :: "(uuid \<Rightarrow> string) \<Rightarrow> incident_fingerprint \<Rightarrow> string" where
  "as_key uuid_str f =
     (let dim = (case fp_dimension f of None \<Rightarrow> ''-'' | Some d \<Rightarrow> d)
      in subject_kind_str (fp_subject f) @ ''|'' @ subject_id_str uuid_str (fp_subject f) @ ''|'' @
         incident_kind_as_str (fp_kind f) @ ''|'' @ dim)"

datatype incident_severity = SevInfo | SevWarning | SevCritical

datatype incident_status = StOpen | StAcknowledged | StResolved | StSuppressed

record incident =
  inc_id :: incident_id
  inc_fingerprint :: incident_fingerprint
  inc_kind :: incident_kind
  inc_subject :: entity_ref
  inc_severity :: incident_severity
  inc_status :: incident_status
  inc_opened_at :: datetime
  inc_updated_at :: datetime
  inc_resolved_at :: "datetime option"
  inc_signal_observation_ids :: "observation_id list"
  inc_evidence :: "evidence_ref list"
  inc_summary :: string
  inc_evidence_summary :: "string list"

datatype incident_notification_event_kind = KindOpened | KindEscalated | KindResolved

datatype incident_lifecycle_event =
    Opened incident
  | Escalated incident incident_severity incident_severity
  | Resolved incident

fun notification_kind :: "incident_lifecycle_event \<Rightarrow> incident_notification_event_kind" where
  "notification_kind (Opened _) = KindOpened"
| "notification_kind (Escalated _ _ _) = KindEscalated"
| "notification_kind (Resolved _) = KindResolved"

fun lifecycle_incident :: "incident_lifecycle_event \<Rightarrow> incident" where
  "lifecycle_incident (Opened i) = i"
| "lifecycle_incident (Escalated i _ _) = i"
| "lifecycle_incident (Resolved i) = i"

section \<open>The storage key of a fingerprint\<close>

text \<open>
  What keeps \<open>as_key\<close> injective: no bar in a subject id or a kind, no slash in the
  node id of a scoped subject, and no dimension that is the placeholder itself.
\<close>

definition key_safe :: "(uuid \<Rightarrow> string) \<Rightarrow> incident_fingerprint \<Rightarrow> bool" where
  "key_safe uuid_str f =
     (CHR ''|'' \<notin> set (subject_id_str uuid_str (fp_subject f)) \<and>
      (case scope_of (fp_subject f) of None \<Rightarrow> True | Some n \<Rightarrow> CHR ''/'' \<notin> set n) \<and>
      CHR ''|'' \<notin> set (incident_kind_as_str (fp_kind f)) \<and>
      fp_dimension f \<noteq> Some ''-'')"

lemma body_not_bar: "is_segment_body_byte b \<Longrightarrow> b \<noteq> CHR ''|''"
  by (auto simp: is_segment_body_byte_def is_ascii_lowercase_def is_ascii_digit_def)

lemma segment_chars: "segment s \<Longrightarrow> b \<in> set s \<Longrightarrow> is_segment_body_byte b"
  by (cases s) (auto simp: list_all_iff dest: lowercase_body)

lemma join_dots_chars:
  "list_all segment ss \<Longrightarrow> b \<in> set (join_dots ss) \<Longrightarrow> b = CHR ''.'' \<or> is_segment_body_byte b"
  by (induction ss rule: join_dots.induct) (auto dest: segment_chars)

text \<open>A parsed kind never carries the separator, so only the operator's ids matter.\<close>

lemma parsed_kind_no_bar:
  "incident_kind_parse s = Ok k \<Longrightarrow> CHR ''|'' \<notin> set (incident_kind_as_str k)"
  by (auto simp: kind_name.parse_Ok_iff dotted_name_def dest: join_dots_chars body_not_bar)

lemma as_key_inject:
  assumes "as_key uuid_str f = as_key uuid_str g"
    and inj: "inj uuid_str" and f: "key_safe uuid_str f" and g: "key_safe uuid_str g"
  shows "f = g"
proof -
  let ?id = "subject_id_str uuid_str" and ?dim = "case_option ''-'' (\<lambda>d. d)"
  have kind: "subject_kind_str (fp_subject f) = subject_kind_str (fp_subject g)"
    and rest: "?id (fp_subject f) @ CHR ''|'' # incident_kind_as_str (fp_kind f) @ CHR ''|'' # ?dim (fp_dimension f)
      = ?id (fp_subject g) @ CHR ''|'' # incident_kind_as_str (fp_kind g) @ CHR ''|'' # ?dim (fp_dimension g)"
    using append_sep_inject [OF assms(1) [unfolded as_key_def Let_def append_Cons append_Nil]]
    by (auto simp: subject_kind_str_no_bar)
  have ids: "?id (fp_subject f) = ?id (fp_subject g)"
    and rest': "incident_kind_as_str (fp_kind f) @ CHR ''|'' # ?dim (fp_dimension f)
      = incident_kind_as_str (fp_kind g) @ CHR ''|'' # ?dim (fp_dimension g)"
    using append_sep_inject [OF rest] f g by (auto simp: key_safe_def)
  have k: "incident_kind_as_str (fp_kind f) = incident_kind_as_str (fp_kind g)"
    and d: "?dim (fp_dimension f) = ?dim (fp_dimension g)"
    using append_sep_inject [OF rest'] f g by (auto simp: key_safe_def)
  have "fp_subject f = fp_subject g"
    using kind ids inj f g
    by (intro subject_id_str_inject) (auto simp: subject_kind_str_eq_iff key_safe_def)
  moreover have "fp_kind f = fp_kind g"
    using k by (rule kind_name.as_str_inject)
  moreover have "fp_dimension f = fp_dimension g"
    using d f g by (auto simp: key_safe_def split: option.splits)
  ultimately show ?thesis
    by (simp add: incident_fingerprint.equality)
qed

end
