(* ===== verification/Float64.thy ===== *)
theory Float64
  imports Prelude
begin

text \<open>
  IEEE 754 binary64 as far as the modelled code uses it: comparison, subtraction
  with rounding to nearest, ties to even, and absolute value. A finite float is
  the rational it denotes (the two zeros are one value, which comparison cannot
  tell apart); a not-a-number is different from everything, itself included.
\<close>

datatype f64 = Fin rat | PosInf | NegInf | NaN

definition pow2 :: "int \<Rightarrow> rat" where
  "pow2 e = (if 0 \<le> e then 2 ^ nat e else 1 / 2 ^ nat (- e))"

text \<open>The exponent of the leading binary digit of a positive rational.\<close>

definition ilog2 :: "rat \<Rightarrow> int" where
  "ilog2 x =
     (let (p, q) = quotient_of x;
          k = int (floorlog 2 (nat p)) - int (floorlog 2 (nat q))
      in if pow2 k \<le> x then k else k - 1)"

definition round_half_even :: "rat \<Rightarrow> int" where
  "round_half_even x =
     (let f = \<lfloor>x\<rfloor>; d = x - of_int f
      in if d < 1 / 2 then f else if d > 1 / 2 then f + 1
         else if even f then f else f + 1)"

definition f64_round :: "rat \<Rightarrow> f64" where
  "f64_round x =
     (if x = 0 then Fin 0
      else let u = pow2 (max (- 1074) (ilog2 \<bar>x\<bar> - 52));
               r = of_int (round_half_even (x / u)) * u
           in if r \<ge> 2 ^ 1024 then PosInf else if r \<le> - (2 ^ 1024) then NegInf else Fin r)"

fun f64_neg :: "f64 \<Rightarrow> f64" where
  "f64_neg (Fin a) = Fin (- a)"
| "f64_neg PosInf = NegInf"
| "f64_neg NegInf = PosInf"
| "f64_neg NaN = NaN"

fun f64_add :: "f64 \<Rightarrow> f64 \<Rightarrow> f64" where
  "f64_add NaN _ = NaN"
| "f64_add _ NaN = NaN"
| "f64_add (Fin a) (Fin b) = f64_round (a + b)"
| "f64_add PosInf NegInf = NaN"
| "f64_add NegInf PosInf = NaN"
| "f64_add PosInf _ = PosInf"
| "f64_add _ PosInf = PosInf"
| "f64_add NegInf _ = NegInf"
| "f64_add _ NegInf = NegInf"

definition f64_sub :: "f64 \<Rightarrow> f64 \<Rightarrow> f64" where
  "f64_sub a b = f64_add a (f64_neg b)"

fun f64_abs :: "f64 \<Rightarrow> f64" where
  "f64_abs (Fin a) = Fin \<bar>a\<bar>"
| "f64_abs NaN = NaN"
| "f64_abs _ = PosInf"

fun f64_gt :: "f64 \<Rightarrow> f64 \<Rightarrow> bool" where
  "f64_gt NaN _ = False"
| "f64_gt _ NaN = False"
| "f64_gt (Fin a) (Fin b) = (a > b)"
| "f64_gt PosInf b = (b \<noteq> PosInf)"
| "f64_gt (Fin _) b = (b = NegInf)"
| "f64_gt NegInf _ = False"

definition f64_eq :: "f64 \<Rightarrow> f64 \<Rightarrow> bool" where
  "f64_eq a b = (a = b \<and> a \<noteq> NaN)"

lemma f64_sub_self [simp]: "f64_sub (Fin a) (Fin a) = Fin 0"
  by (simp add: f64_sub_def f64_round_def)

lemma f64_eq_refl_iff [simp]: "f64_eq a a \<longleftrightarrow> a \<noteq> NaN"
  by (simp add: f64_eq_def)

lemma f64_eq_sym: "f64_eq a b \<longleftrightarrow> f64_eq b a"
  by (auto simp: f64_eq_def)

lemma f64_eq_trans: "f64_eq a b \<Longrightarrow> f64_eq b c \<Longrightarrow> f64_eq a c"
  by (auto simp: f64_eq_def)

lemma f64_gt_irrefl [simp]: "\<not> f64_gt a a"
  by (cases a) simp_all

lemma f64_gt_trans: "f64_gt a b \<Longrightarrow> f64_gt b c \<Longrightarrow> f64_gt a c"
  by (cases a; cases b; cases c) simp_all

section \<open>Bounds of rounding\<close>

lemma pow2_powi: "pow2 e = 2 powi e"
  by (simp add: pow2_def power_int_def inverse_eq_divide power_one_over)

lemma pow2_pos: "0 < pow2 e"
  by (simp add: pow2_def)

lemma pow2_mono: "a \<le> b \<Longrightarrow> pow2 a \<le> pow2 b"
  by (simp add: pow2_powi power_int_increasing)

text \<open>The leading digit is not above the number.\<close>

lemma pow2_ilog2_le:
  assumes "0 < x"
  shows "pow2 (ilog2 x) \<le> x"
proof -
  obtain p q where pq: "quotient_of x = (p, q)" by (cases "quotient_of x")
  have q: "0 < q" and x: "x = of_int p / of_int q"
    using quotient_of_denom_pos [OF pq] quotient_of_div [OF pq] by auto
  then have p: "0 < p"
    using assms by (simp add: zero_less_divide_iff)
  let ?k = "int (floorlog 2 (nat p)) - int (floorlog 2 (nat q))"
  have bp: "2 ^ (floorlog 2 (nat p) - 1) \<le> nat p" and bq: "nat q < 2 ^ floorlog 2 (nat q)"
    using floorlog_bounds [of "nat p" 2] floorlog_bounds [of "nat q" 2] p q by auto
  have "0 < floorlog 2 (nat p)"
    using p by (simp add: floorlog_def)
  then have "pow2 (?k - 1) = 2 ^ (floorlog 2 (nat p) - 1) / 2 ^ floorlog 2 (nat q)"
    by (simp add: pow2_powi power_int_diff power_int_def nat_diff_distrib' of_nat_diff field_simps power_diff nat_add_distrib)
  also have "\<dots> \<le> of_nat (nat p) / of_nat (nat q)"
    using bp bq q by (intro frac_le) (auto simp del: of_nat_nat simp: of_nat_le_iff [symmetric] less_imp_le 
      simp flip: of_nat_le_iff of_nat_less_iff)
  finally have "pow2 (?k - 1) \<le> x"
    using p q x by simp
  then show ?thesis
    by (simp add: ilog2_def pq Let_def)
qed


lemma round_half_even_le: "x \<le> of_int k \<Longrightarrow> round_half_even x \<le> k"
proof -
  assume x: "x \<le> of_int k"
  show ?thesis
  proof (cases "\<lfloor>x\<rfloor> < k")
    case True
    then show ?thesis by (auto simp: round_half_even_def Let_def)
  next
    case False
    with x have "x = of_int k" by (simp add: not_less le_floor_iff)
    then show ?thesis by (simp add: round_half_even_def)
  qed
qed

lemma round_half_even_nonneg: "0 \<le> x \<Longrightarrow> 0 \<le> round_half_even x"
  by (auto simp: round_half_even_def Let_def)

text \<open>Rounding keeps a number between zero and an integer of moderate size there.\<close>

lemma f64_round_bounded:
  assumes "0 \<le> x" and "x \<le> of_int n" and "n \<le> 2 ^ 52"
  shows "\<exists>r. f64_round x = Fin r \<and> 0 \<le> r \<and> r \<le> of_int n"
proof (cases "x = 0")
  case True
  then show ?thesis using assms by (simp add: f64_round_def)
next
  case False
  let ?e = "max (- 1074) (ilog2 \<bar>x\<bar> - 52)"
  have "pow2 (ilog2 x) \<le> x"
    using False assms(1) by (intro pow2_ilog2_le) simp
  also have "x \<le> 2 ^ 52"
  proof -
    have "(of_int n :: rat) \<le> of_int (2 ^ 52)" using assms(3) by (simp only: of_int_le_iff)
    with assms(2) show ?thesis by simp
  qed
  finally have "\<not> 53 \<le> ilog2 x"
    using pow2_mono [of 53 "ilog2 x"] by (auto simp: pow2_def [of 53])
  then have e: "?e \<le> 0"
    using assms(1) by simp
  let ?u = "pow2 ?e"
  obtain m :: nat where m: "1 = of_nat m * ?u"
    using e by (auto simp: pow2_def intro: that [of "2 ^ nat (- ?e)"])
  have u: "0 < ?u" by (rule pow2_pos)
  let ?k = "round_half_even (x / ?u)"
  have "x / ?u \<le> of_int n / ?u"
    using assms(2) u by (simp add: divide_right_mono)
  also have "of_int n / ?u = of_int (n * int m)"
    using m u by (simp add: field_simps)
  finally have hi: "?k \<le> n * int m"
    by (rule round_half_even_le)
  have lo: "0 \<le> ?k"
    using assms(1) u by (intro round_half_even_nonneg) simp
  have "of_int ?k * ?u \<le> of_int (n * int m) * ?u"
    using hi u by (intro mult_right_mono) (simp_all only: of_int_le_iff less_imp_le)
  also have "\<dots> = of_int n"
    using m by (simp add: mult.assoc)
  finally have r: "of_int ?k * ?u \<le> of_int n" .
  have "(of_int n :: rat) \<le> of_int (2 ^ 52)"
    using assms(3) by (simp only: of_int_le_iff)
  then have small: "of_int ?k * ?u < 2 ^ 1024"
    using r by simp
  have pos: "0 \<le> of_int ?k * ?u"
    using lo u by simp
  then have "\<not> of_int ?k * ?u \<le> - (2 ^ 1024)"
    by (simp add: not_le order_less_le_trans [of "- (2 ^ 1024)" 0])
  then have "f64_round x = Fin (of_int ?k * ?u)"
    using False small by (simp add: f64_round_def Let_def del: power_numeral)
  with r pos show ?thesis by blast
qed

end
