(* ===== verification/Observations.thy ===== *)
theory Observations
  imports Collector_Types Incident_Types Float64
begin

text \<open>
  Observations and their ten payloads (\<open>observations/types.rs\<close> and the files
  under \<open>observations/types/\<close>), probe windows and batches. A \<open>BTreeMap\<close> is the
  list of its entries. The id an observation constructor draws from
  \<open>Uuid::now_v7\<close> is its first argument.
\<close>

section \<open>Names\<close>

datatype capability_name = CapabilityName string

fun capability_name_as_str :: "capability_name \<Rightarrow> string" where
  "capability_name_as_str (CapabilityName s) = s"

definition capability_name_parse :: "string \<Rightarrow> parse_dotted_name_error + capability_name" where
  "capability_name_parse s = map_sum id CapabilityName (parse_dotted_name s)"

interpretation capability_name: name_newtype CapabilityName capability_name_as_str capability_name_parse
proof unfold_locales
  fix s n
  show "CapabilityName (capability_name_as_str n) = n" by (cases n) simp
qed (simp_all add: capability_name_parse_def)

datatype diagnosis_name = DiagnosisName string

fun diagnosis_name_as_str :: "diagnosis_name \<Rightarrow> string" where
  "diagnosis_name_as_str (DiagnosisName s) = s"

definition diagnosis_name_parse :: "string \<Rightarrow> parse_dotted_name_error + diagnosis_name" where
  "diagnosis_name_parse s = map_sum id DiagnosisName (parse_dotted_name s)"

interpretation diagnosis_name: name_newtype DiagnosisName diagnosis_name_as_str diagnosis_name_parse
proof unfold_locales
  fix s n
  show "DiagnosisName (diagnosis_name_as_str n) = n" by (cases n) simp
qed (simp_all add: diagnosis_name_parse_def)

datatype event_name = EventName string

fun event_name_as_str :: "event_name \<Rightarrow> string" where
  "event_name_as_str (EventName s) = s"

definition event_name_parse :: "string \<Rightarrow> parse_dotted_name_error + event_name" where
  "event_name_parse s = map_sum id EventName (parse_dotted_name s)"

interpretation event_name: name_newtype EventName event_name_as_str event_name_parse
proof unfold_locales
  fix s n
  show "EventName (event_name_as_str n) = n" by (cases n) simp
qed (simp_all add: event_name_parse_def)

datatype health_target_id = HealthTargetId string

fun health_target_id_as_str :: "health_target_id \<Rightarrow> string" where
  "health_target_id_as_str (HealthTargetId s) = s"

definition health_target_id_parse :: "string \<Rightarrow> parse_dotted_name_error + health_target_id" where
  "health_target_id_parse s = map_sum id HealthTargetId (parse_dotted_name s)"

interpretation health_target_id: name_newtype HealthTargetId health_target_id_as_str health_target_id_parse
proof unfold_locales
  fix s n
  show "HealthTargetId (health_target_id_as_str n) = n" by (cases n) simp
qed (simp_all add: health_target_id_parse_def)

datatype signal_name = SignalName string

fun signal_name_as_str :: "signal_name \<Rightarrow> string" where
  "signal_name_as_str (SignalName s) = s"

definition signal_name_parse :: "string \<Rightarrow> parse_dotted_name_error + signal_name" where
  "signal_name_parse s = map_sum id SignalName (parse_dotted_name s)"

interpretation signal_name: name_newtype SignalName signal_name_as_str signal_name_parse
proof unfold_locales
  fix s n
  show "SignalName (signal_name_as_str n) = n" by (cases n) simp
qed (simp_all add: signal_name_parse_def)

datatype inventory_name = InventoryName string

fun inventory_name_as_str :: "inventory_name \<Rightarrow> string" where
  "inventory_name_as_str (InventoryName s) = s"

definition inventory_name_parse :: "string \<Rightarrow> parse_dotted_name_error + inventory_name" where
  "inventory_name_parse s = map_sum id InventoryName (parse_dotted_name s)"

interpretation inventory_name: name_newtype InventoryName inventory_name_as_str inventory_name_parse
proof unfold_locales
  fix s n
  show "InventoryName (inventory_name_as_str n) = n" by (cases n) simp
qed (simp_all add: inventory_name_parse_def)

datatype metric_name = MetricName string

fun metric_name_as_str :: "metric_name \<Rightarrow> string" where
  "metric_name_as_str (MetricName s) = s"

definition metric_name_parse :: "string \<Rightarrow> parse_dotted_name_error + metric_name" where
  "metric_name_parse s = map_sum id MetricName (parse_dotted_name s)"

interpretation metric_name: name_newtype MetricName metric_name_as_str metric_name_parse
proof unfold_locales
  fix s n
  show "MetricName (metric_name_as_str n) = n" by (cases n) simp
qed (simp_all add: metric_name_parse_def)

datatype state_name = StateName string

fun state_name_as_str :: "state_name \<Rightarrow> string" where
  "state_name_as_str (StateName s) = s"

definition state_name_parse :: "string \<Rightarrow> parse_dotted_name_error + state_name" where
  "state_name_parse s = map_sum id StateName (parse_dotted_name s)"

interpretation state_name: name_newtype StateName state_name_as_str state_name_parse
proof unfold_locales
  fix s n
  show "StateName (state_name_as_str n) = n" by (cases n) simp
qed (simp_all add: state_name_parse_def)

datatype transition_name = TransitionName string

fun transition_name_as_str :: "transition_name \<Rightarrow> string" where
  "transition_name_as_str (TransitionName s) = s"

definition transition_name_parse :: "string \<Rightarrow> parse_dotted_name_error + transition_name" where
  "transition_name_parse s = map_sum id TransitionName (parse_dotted_name s)"

interpretation transition_name: name_newtype TransitionName transition_name_as_str transition_name_parse
proof unfold_locales
  fix s n
  show "TransitionName (transition_name_as_str n) = n" by (cases n) simp
qed (simp_all add: transition_name_parse_def)

text \<open>
  \<open>from_well_known\<close> lifts a constant without parsing it (the parse is a
  \<open>debug_assert!\<close>); \<open>for_incident_kind\<close> appends a segment to a kind's name.
\<close>

definition state_name_from_well_known :: "string \<Rightarrow> state_name" where
  "state_name_from_well_known name = StateName name"

definition health_target_id_from_well_known :: "string \<Rightarrow> health_target_id" where
  "health_target_id_from_well_known name = HealthTargetId name"

definition signal_name_for_incident_kind :: "incident_kind \<Rightarrow> signal_name" where
  "signal_name_for_incident_kind kind = SignalName (incident_kind_as_str kind @ ''.signal'')"

section \<open>Payloads\<close>

datatype confidence = ConfLow | ConfMedium | ConfHigh
datatype signal_severity = SigInfo | SigWarning | SigCritical
datatype signal_status = Active | Cleared

record incident_signal_observation =
  sig_signal :: signal_name
  sig_incident_kind :: incident_kind
  sig_severity :: signal_severity
  sig_status :: signal_status
  sig_confidence :: confidence
  sig_evidence :: "evidence_ref list"

datatype capability_status = CapAvailable | CapUnavailable | CapDegraded | CapUnknown

record capability_observation =
  cap_capability :: capability_name
  cap_status :: capability_status
  cap_reason :: "string option"

record diagnosis_observation =
  diag_diagnosis :: diagnosis_name
  diag_summary :: string
  diag_confidence :: confidence
  diag_likely_causes :: "string list"
  diag_recommended_actions :: "string list"
  diag_evidence :: "evidence_ref list"

datatype event_severity = EvDebug | EvInfo | EvNotice | EvWarning | EvError | EvCritical

record event_observation =
  ev_name :: event_name
  ev_severity :: event_severity
  ev_body :: "string option"

datatype health_status = HealthOk | HealthWarning | HealthCritical | HealthUnknown

record health_error =
  herr_code :: string
  herr_message :: string
  herr_retryable :: "bool option"

record health_check_observation =
  health_target :: health_target_id
  health_status_of :: health_status
  health_latency_ms :: "u64 option"
  health_message :: "string option"
  health_error_of :: "health_error option"

datatype heartbeat_status = HbAlive | HbDegraded

record collector_status =
  cs_collector :: string
  cs_status :: health_status
  cs_last_success_at :: "datetime option"
  cs_last_error_at :: "datetime option"
  cs_last_error_code :: "string option"

record heartbeat_observation =
  hb_sequence :: u64
  hb_sidecar_time :: datetime
  hb_monotonic_uptime_ms :: "u64 option"
  hb_sidecar_version :: string
  hb_status :: heartbeat_status
  hb_collector_statuses :: "collector_status list"

datatype inventory_value =
    InvString string | InvBool bool | InvU64 u64 | InvI64 i64 | InvF64 f64
  | InvStringList "string list"

record inventory_observation =
  invt_name :: inventory_name
  invt_facts :: "(string \<times> inventory_value) list"

datatype metric_kind = Gauge | Counter | Delta | HistogramKind | SummaryKind

datatype numeric_value = NumU64 u64 | NumI64 i64 | NumF64 f64

record histogram_bucket =
  hist_le :: f64
  hist_bucket_count :: u64

record histogram_value =
  hist_buckets :: "histogram_bucket list"
  hist_count :: u64
  hist_sum :: f64

record quantile_value =
  q_quantile :: f64
  q_value :: f64

record summary_value =
  sum_quantiles :: "quantile_value list"
  sum_count :: "u64 option"
  sum_sum :: "f64 option"

datatype metric_value =
    Numeric numeric_value
  | Histogram histogram_value
  | Summary summary_value

datatype metric_unit =
    Dimensionless | Count | Bytes | VirtualBytes | WeightUnits | Seconds | Milliseconds
  | Satoshis | MilliSatoshis | Ratio | CustomUnit string

record metric_observation =
  met_name :: metric_name
  met_kind :: metric_kind
  met_value :: metric_value
  met_unit :: metric_unit

text \<open>
  Equality of metric values is the derived \<open>PartialEq\<close>: structural, with the
  floats compared as floats.
\<close>

fun numeric_eq :: "numeric_value \<Rightarrow> numeric_value \<Rightarrow> bool" where
  "numeric_eq (NumU64 a) (NumU64 b) = (a = b)"
| "numeric_eq (NumI64 a) (NumI64 b) = (a = b)"
| "numeric_eq (NumF64 a) (NumF64 b) = f64_eq a b"
| "numeric_eq _ _ = False"

definition bucket_eq :: "histogram_bucket \<Rightarrow> histogram_bucket \<Rightarrow> bool" where
  "bucket_eq a b = (f64_eq (hist_le a) (hist_le b) \<and> hist_bucket_count a = hist_bucket_count b)"

definition histogram_eq :: "histogram_value \<Rightarrow> histogram_value \<Rightarrow> bool" where
  "histogram_eq a b =
     (list_all2 bucket_eq (hist_buckets a) (hist_buckets b) \<and> hist_count a = hist_count b \<and>
      f64_eq (hist_sum a) (hist_sum b))"

definition quantile_eq :: "quantile_value \<Rightarrow> quantile_value \<Rightarrow> bool" where
  "quantile_eq a b = (f64_eq (q_quantile a) (q_quantile b) \<and> f64_eq (q_value a) (q_value b))"

definition summary_eq :: "summary_value \<Rightarrow> summary_value \<Rightarrow> bool" where
  "summary_eq a b =
     (list_all2 quantile_eq (sum_quantiles a) (sum_quantiles b) \<and> sum_count a = sum_count b \<and>
      rel_option f64_eq (sum_sum a) (sum_sum b))"

fun metric_value_eq :: "metric_value \<Rightarrow> metric_value \<Rightarrow> bool" where
  "metric_value_eq (Numeric a) (Numeric b) = numeric_eq a b"
| "metric_value_eq (Histogram a) (Histogram b) = histogram_eq a b"
| "metric_value_eq (Summary a) (Summary b) = summary_eq a b"
| "metric_value_eq _ _ = False"

fun metric_validate :: "metric_kind \<Rightarrow> metric_value \<Rightarrow> string + unit" where
  "metric_validate Gauge (Numeric _) = Ok ()"
| "metric_validate Delta (Numeric _) = Ok ()"
| "metric_validate Counter (Numeric (NumU64 _)) = Ok ()"
| "metric_validate HistogramKind (Histogram _) = Ok ()"
| "metric_validate SummaryKind (Summary _) = Ok ()"
| "metric_validate _ _ = Err ''invalid metric value''"

datatype state_atom =
    AtomString string | AtomBool bool | AtomU64 u64 | AtomI64 i64 | AtomF64 f64

record transition_observation =
  trans_name :: transition_name
  trans_from :: state_atom
  trans_to :: state_atom
  trans_reason :: "string option"

fun transition_validate :: "state_atom \<Rightarrow> state_atom \<Rightarrow> string + unit" where
  "transition_validate (AtomString _) (AtomString _) = Ok ()"
| "transition_validate (AtomBool _) (AtomBool _) = Ok ()"
| "transition_validate (AtomU64 _) (AtomU64 _) = Ok ()"
| "transition_validate (AtomI64 _) (AtomI64 _) = Ok ()"
| "transition_validate (AtomF64 _) (AtomF64 _) = Ok ()"
| "transition_validate _ _ = Err ''state atoms must be of the same type''"

section \<open>State observations\<close>

record bitcoin_blockchain_state =
  bc_chain :: string
  bc_blocks :: u64
  bc_headers :: u64
  bc_best_block_hash :: "string option"
  bc_verification_progress :: f64
  bc_initial_block_download :: bool
  bc_pruned :: bool
  bc_size_on_disk_bytes :: u64

record bitcoin_mempool_state =
  mp_loaded :: bool
  mp_tx_count :: u64
  mp_bytes :: u64
  mp_usage_bytes :: u64
  mp_max_mempool_bytes :: u64

record bitcoin_network_state =
  nw_version :: u64
  nw_subversion :: string
  nw_protocol_version :: u64
  nw_connections :: u64
  nw_connections_in :: "u64 option"
  nw_connections_out :: "u64 option"
  nw_network_active :: "bool option"

record bitcoin_peer_summary_state =
  ps_peer_count :: u64
  ps_inbound_count :: "u64 option"
  ps_outbound_count :: "u64 option"
  ps_block_relay_only_count :: "u64 option"

record lnd_node_state =
  ln_identity_pubkey :: string
  ln_alias :: "string option"
  ln_version :: "string option"
  ln_num_active_channels :: u64
  ln_num_inactive_channels :: "u64 option"
  ln_num_pending_channels :: u64
  ln_num_peers :: u64
  ln_block_height :: u64
  ln_synced_to_chain :: bool
  ln_synced_to_graph :: "bool option"

record lnd_wallet_state =
  lw_total_balance_sat :: u64
  lw_confirmed_balance_sat :: u64
  lw_unconfirmed_balance_sat :: u64

record lnd_channel_summary_state =
  cs_active_channels :: u64
  cs_inactive_channels :: u64
  cs_pending_channels :: u64
  cs_total_capacity_sat :: "u64 option"
  cs_local_balance_sat :: u64
  cs_remote_balance_sat :: u64
  cs_unsettled_balance_sat :: "u64 option"

record lnd_channel_state =
  ch_remote_pubkey :: string
  ch_capacity_sat :: u64
  ch_local_balance_sat :: u64
  ch_remote_balance_sat :: u64
  ch_active :: bool
  ch_private :: bool
  ch_initiator :: bool
  ch_csv_delay :: u32
  ch_commit_fee_sat :: u64
  ch_lifetime_seconds :: u64
  ch_last_update_height :: "u64 option"
  ch_short_channel_id :: "string option"
  ch_peer_online :: "bool option"

record host_state =
  hs_hostname :: "string option"
  hs_os :: "string option"
  hs_kernel :: "string option"
  hs_uptime_seconds :: "u64 option"
  hs_cpu_count :: "u64 option"
  hs_memory_total_bytes :: "u64 option"
  hs_disk_total_bytes :: "u64 option"
  hs_disk_available_bytes :: "u64 option"

datatype state_observation =
    StateBitcoinBlockchain bitcoin_blockchain_state
  | StateBitcoinMempool bitcoin_mempool_state
  | StateBitcoinNetwork bitcoin_network_state
  | StateBitcoinPeerSummary bitcoin_peer_summary_state
  | StateLndNode lnd_node_state
  | StateLndWallet lnd_wallet_state
  | StateLndChannelSummary lnd_channel_summary_state
  | StateLndChannel lnd_channel_state
  | StateHost host_state

definition BITCOIN_BLOCKCHAIN :: string where "BITCOIN_BLOCKCHAIN = ''bitcoin.blockchain''"
definition BITCOIN_MEMPOOL :: string where "BITCOIN_MEMPOOL = ''bitcoin.mempool''"
definition BITCOIN_NETWORK :: string where "BITCOIN_NETWORK = ''bitcoin.network''"
definition BITCOIN_PEER_SUMMARY :: string where "BITCOIN_PEER_SUMMARY = ''bitcoin.peer_summary''"
definition LND_NODE :: string where "LND_NODE = ''lnd.node''"
definition LND_WALLET :: string where "LND_WALLET = ''lnd.wallet''"
definition LND_CHANNEL_SUMMARY :: string where "LND_CHANNEL_SUMMARY = ''lnd.channel_summary''"
definition LND_CHANNEL_DETAIL :: string where "LND_CHANNEL_DETAIL = ''lnd.channel_detail''"
definition HOST_SYSTEM :: string where "HOST_SYSTEM = ''host.system''"

lemmas state_name_defs =
  BITCOIN_BLOCKCHAIN_def BITCOIN_MEMPOOL_def BITCOIN_NETWORK_def BITCOIN_PEER_SUMMARY_def
  LND_NODE_def LND_WALLET_def LND_CHANNEL_SUMMARY_def LND_CHANNEL_DETAIL_def HOST_SYSTEM_def

definition well_known_state_names :: "string list" where
  "well_known_state_names =
     [BITCOIN_BLOCKCHAIN, BITCOIN_MEMPOOL, BITCOIN_NETWORK, BITCOIN_PEER_SUMMARY, LND_NODE,
      LND_WALLET, LND_CHANNEL_SUMMARY, LND_CHANNEL_DETAIL, HOST_SYSTEM]"

definition state_observation_name :: "state_observation \<Rightarrow> state_name" where
  "state_observation_name s = state_name_from_well_known
     (case s of
        StateBitcoinBlockchain _ \<Rightarrow> BITCOIN_BLOCKCHAIN
      | StateBitcoinMempool _ \<Rightarrow> BITCOIN_MEMPOOL
      | StateBitcoinNetwork _ \<Rightarrow> BITCOIN_NETWORK
      | StateBitcoinPeerSummary _ \<Rightarrow> BITCOIN_PEER_SUMMARY
      | StateLndNode _ \<Rightarrow> LND_NODE
      | StateLndWallet _ \<Rightarrow> LND_WALLET
      | StateLndChannelSummary _ \<Rightarrow> LND_CHANNEL_SUMMARY
      | StateLndChannel _ \<Rightarrow> LND_CHANNEL_DETAIL
      | StateHost _ \<Rightarrow> HOST_SYSTEM)"

section \<open>Observations\<close>

datatype observation_origin = Collected | Computed | Imported | UserReported

fun origin_as_str :: "observation_origin \<Rightarrow> string" where
  "origin_as_str Collected = ''Collected''"
| "origin_as_str Computed = ''Computed''"
| "origin_as_str Imported = ''Imported''"
| "origin_as_str UserReported = ''UserReported''"

record observation_source =
  src_sidecar_id :: sidecar_id
  src_collector :: collector_ref

datatype attribute_value =
    AttrString string | AttrBool bool | AttrI64 i64 | AttrU64 u64 | AttrF64 f64

type_synonym attributes = "(string \<times> attribute_value) list"

definition empty_attrs :: attributes where
  "empty_attrs = []"

datatype observation_payload =
    PCapability capability_observation
  | PDiagnosis diagnosis_observation
  | PEvent event_observation
  | PHeartbeat heartbeat_observation
  | PHealth health_check_observation
  | PIncidentSignal incident_signal_observation
  | PInventory inventory_observation
  | PMetric metric_observation
  | PState state_observation
  | PTransition transition_observation

record observation_context =
  octx_source :: observation_source
  octx_subject :: entity_ref
  octx_observed_at :: datetime
  octx_origin :: observation_origin

record observation =
  obs_id :: observation_id
  obs_observed_at :: datetime
  obs_received_at :: "datetime option"
  obs_source :: observation_source
  obs_subject :: entity_ref
  obs_origin :: observation_origin
  obs_attributes :: attributes
  obs_payload :: observation_payload

text \<open>Every constructor of \<open>Observation\<close> fills the envelope from the context.\<close>

definition observation_with ::
    "uuid \<Rightarrow> observation_context \<Rightarrow> attributes \<Rightarrow> observation_payload \<Rightarrow> observation" where
  "observation_with uid ctx attrs payload =
     \<lparr>obs_id = ObservationId uid, obs_observed_at = octx_observed_at ctx, obs_received_at = None,
      obs_source = octx_source ctx, obs_subject = octx_subject ctx, obs_origin = octx_origin ctx,
      obs_attributes = attrs, obs_payload = payload\<rparr>"

definition observation_metric where
  "observation_metric uid ctx name kind v unit attrs =
     observation_with uid ctx attrs
       (PMetric \<lparr>met_name = name, met_kind = kind, met_value = v, met_unit = unit\<rparr>)"

definition observation_capability where
  "observation_capability uid ctx name status reason attrs =
     observation_with uid ctx attrs
       (PCapability \<lparr>cap_capability = name, cap_status = status, cap_reason = reason\<rparr>)"

definition observation_event where
  "observation_event uid ctx name severity body attrs =
     observation_with uid ctx attrs
       (PEvent \<lparr>ev_name = name, ev_severity = severity, ev_body = body\<rparr>)"

definition observation_heartbeat where
  "observation_heartbeat uid ctx sequence sidecar_time uptime version status collectors attrs =
     observation_with uid ctx attrs
       (PHeartbeat \<lparr>hb_sequence = sequence, hb_sidecar_time = sidecar_time,
          hb_monotonic_uptime_ms = uptime, hb_sidecar_version = version, hb_status = status,
          hb_collector_statuses = collectors\<rparr>)"

definition observation_health where
  "observation_health uid ctx target status latency message error attrs =
     observation_with uid ctx attrs
       (PHealth \<lparr>health_target = target, health_status_of = status, health_latency_ms = latency,
          health_message = message, health_error_of = error\<rparr>)"

definition observation_inventory where
  "observation_inventory uid ctx name facts attrs =
     observation_with uid ctx attrs (PInventory \<lparr>invt_name = name, invt_facts = facts\<rparr>)"

definition observation_state where
  "observation_state uid ctx state attrs = observation_with uid ctx attrs (PState state)"

definition observation_transition where
  "observation_transition uid ctx name f t reason attrs =
     observation_with uid ctx attrs
       (PTransition \<lparr>trans_name = name, trans_from = f, trans_to = t, trans_reason = reason\<rparr>)"

definition observation_incident_signal where
  "observation_incident_signal uid ctx signal attrs =
     observation_with uid ctx attrs (PIncidentSignal signal)"

definition observation_diagnosis where
  "observation_diagnosis uid ctx diagnosis attrs =
     observation_with uid ctx attrs (PDiagnosis diagnosis)"

section \<open>Probe windows and batches\<close>

record probe_window =
  pw_started_at :: datetime
  pw_completed_at :: datetime

datatype probe_window_error = Inverted

definition probe_window_new :: "datetime \<Rightarrow> datetime \<Rightarrow> probe_window_error + probe_window" where
  "probe_window_new started_at completed_at =
     (if completed_at < started_at then Err Inverted
      else Ok \<lparr>pw_started_at = started_at, pw_completed_at = completed_at\<rparr>)"

definition probe_window_duration :: "probe_window \<Rightarrow> chrono_duration" where
  "probe_window_duration w = pw_completed_at w - pw_started_at w"

text \<open>The fallback window is built with an \<open>unwrap\<close>, hence the \<open>run\<close>.\<close>

definition safe_probe_window :: "datetime \<Rightarrow> datetime \<Rightarrow> probe_window run" where
  "safe_probe_window started_at completed_at =
     (case probe_window_new started_at completed_at of
        Ok w \<Rightarrow> Done w
      | Err _ \<Rightarrow>
          (case probe_window_new completed_at completed_at of
             Ok w \<Rightarrow> Done w
           | Err _ \<Rightarrow> Panicked))"

datatype probe_result =
    ProbeOk "observation list"
  | ProbeFailed health_check_observation "observation list" collection_error

record observation_batch =
  batch_id :: observation_batch_id
  batch_collector :: collector_ref
  batch_sidecar_id :: sidecar_id
  batch_window :: probe_window
  batch_result :: probe_result

section \<open>Facts about the vocabulary\<close>

lemmas observation_defs [store_simps] =
  observation_with_def observation_metric_def observation_capability_def observation_event_def
  observation_heartbeat_def observation_health_def observation_inventory_def
  observation_state_def observation_transition_def observation_incident_signal_def
  observation_diagnosis_def

lemma dotted_name_snoc_segment:
  "dotted_name s \<Longrightarrow> segment t \<Longrightarrow> dotted_name (s @ CHR ''.'' # t)"
proof -
  assume s: "dotted_name s" and t: "segment t"
  obtain segs where segs: "2 \<le> length segs" "list_all segment segs" "s = join_dots segs"
    using s by (auto simp: dotted_name_def)
  have join: "ss \<noteq> [] \<Longrightarrow> join_dots (ss @ [t]) = join_dots ss @ CHR ''.'' # t" for ss
    by (induction ss rule: join_dots.induct) auto
  have "segs \<noteq> []"
    using segs(1) by auto
  with segs t show ?thesis
    unfolding dotted_name_def by (intro exI [of _ "segs @ [t]"]) (simp add: join)
qed

lemma segment_signal: "segment ''signal''"
  by (simp add: is_segment_body_byte_def is_ascii_lowercase_def)

lemma safe_probe_window_cases:
  "safe_probe_window s e =
     Done \<lparr>pw_started_at = (if e < s then e else s), pw_completed_at = e\<rparr>"
  by (simp add: safe_probe_window_def probe_window_new_def)

end
