(* ===== verification/Kind_Registry.thy ===== *)
theory Kind_Registry
  imports Observations
begin

text \<open>
  The incident-kind registry (\<open>incidents/kinds.rs\<close>) and the drafts it validates
  (\<open>diagnostics/types.rs\<close>). Reading TOML is code of the \<open>toml\<close> crate: the loader
  takes the decoder \<open>from_str\<close> as an argument. The built-in catalog
  \<open>config/default_kinds.toml\<close> is \<open>default_kinds\<close>, in decoded form.
\<close>

section \<open>Drafts\<close>

record incident_signal_draft =
  draft_subject :: entity_ref
  draft_signal :: signal_name
  draft_kind :: incident_kind
  draft_dimension :: "string option"
  draft_severity :: signal_severity
  draft_status :: signal_status
  draft_confidence :: confidence
  draft_evidence :: "evidence_ref list"

definition compute_fingerprint :: "incident_signal_draft \<Rightarrow> incident_fingerprint" where
  "compute_fingerprint d =
     \<lparr>fp_subject = draft_subject d, fp_kind = draft_kind d, fp_dimension = draft_dimension d\<rparr>"

section \<open>The registry\<close>

datatype kind_source = Builtin | UserConfig

record incident_kind_spec =
  spec_name :: incident_kind
  spec_allowed_subjects :: "entity_subject_kind list"
  spec_allows_dimension :: bool
  spec_dimension_label :: "string option"
  spec_min_open_confidence :: confidence
  spec_source :: kind_source

record kind_registry =
  reg_kinds :: "(incident_kind, incident_kind_spec) hash_map"

datatype registry_error =
    InvalidToml string
  | DuplicateKind incident_kind
  | CannotOverrideBuiltin incident_kind
  | UnknownSubjectKind string

datatype draft_error =
    UnknownKind incident_kind
  | DisallowedSubject incident_kind entity_subject_kind "entity_subject_kind list"
  | DimensionRequired incident_kind
  | DimensionForbidden incident_kind

record kind_entry_toml =
  ent_name :: incident_kind
  ent_allowed_subjects :: "string list"
  ent_allows_dimension :: bool
  ent_dimension_label :: "string option"
  ent_min_open_confidence :: "confidence option"

definition parse_subject_kind :: "string \<Rightarrow> registry_error + entity_subject_kind" where
  "parse_subject_kind name =
     (if name = ''Sidecar'' then Ok SkSidecar
      else if name = ''Host'' then Ok SkHost
      else if name = ''BitcoinNode'' then Ok SkBitcoinNode
      else if name = ''BitcoinPeer'' then Ok SkBitcoinPeer
      else if name = ''LndNode'' then Ok SkLndNode
      else if name = ''LndPeer'' then Ok SkLndPeer
      else if name = ''LndChannel'' then Ok SkLndChannel
      else if name = ''LndInvoice'' then Ok SkLndInvoice
      else Err (UnknownSubjectKind name))"

fun parse_subject_kinds :: "string list \<Rightarrow> registry_error + entity_subject_kind list" where
  "parse_subject_kinds [] = Ok []"
| "parse_subject_kinds (name # names) =
     (case parse_subject_kind name of
        Err e \<Rightarrow> Err e
      | Ok k \<Rightarrow> (case parse_subject_kinds names of Err e \<Rightarrow> Err e | Ok ks \<Rightarrow> Ok (k # ks)))"

definition parse_entry ::
    "kind_entry_toml \<Rightarrow> kind_source \<Rightarrow> registry_error + incident_kind_spec" where
  "parse_entry entry source =
     (case parse_subject_kinds (ent_allowed_subjects entry) of
        Err e \<Rightarrow> Err e
      | Ok subjects \<Rightarrow>
          Ok \<lparr>spec_name = ent_name entry, spec_allowed_subjects = subjects,
              spec_allows_dimension = ent_allows_dimension entry,
              spec_dimension_label = ent_dimension_label entry,
              spec_min_open_confidence =
                (case ent_min_open_confidence entry of None \<Rightarrow> ConfMedium | Some c \<Rightarrow> c),
              spec_source = source\<rparr>)"

type_synonym kind_map = "(incident_kind, incident_kind_spec) hash_map"

fun insert_entries :: "kind_map \<Rightarrow> kind_source \<Rightarrow> kind_entry_toml list \<Rightarrow> registry_error + kind_map" where
  "insert_entries kinds source [] = Ok kinds"
| "insert_entries kinds source (entry # rest) =
     (case parse_entry entry source of
        Err e \<Rightarrow> Err e
      | Ok spec \<Rightarrow>
          (case hm_get kinds (spec_name spec) of
             Some existing \<Rightarrow>
               Err (if spec_source existing = Builtin \<and> source = UserConfig
                    then CannotOverrideBuiltin (spec_name spec)
                    else DuplicateKind (spec_name spec))
           | None \<Rightarrow> insert_entries (hm_insert (spec_name spec) spec kinds) source rest))"

definition insert_from_toml ::
    "(string \<Rightarrow> string + kind_entry_toml list) \<Rightarrow> kind_map \<Rightarrow> string \<Rightarrow> kind_source \<Rightarrow>
     registry_error + kind_map" where
  "insert_from_toml from_str kinds toml_str source =
     (case from_str toml_str of
        Err e \<Rightarrow> Err (InvalidToml e)
      | Ok entries \<Rightarrow> insert_entries kinds source entries)"

definition load_from_toml_strs ::
    "(string \<Rightarrow> string + kind_entry_toml list) \<Rightarrow> string \<Rightarrow> string option \<Rightarrow>
     registry_error + kind_registry" where
  "load_from_toml_strs from_str builtin_toml user_toml =
     (case insert_from_toml from_str [] builtin_toml Builtin of
        Err e \<Rightarrow> Err e
      | Ok kinds \<Rightarrow>
          (case user_toml of
             None \<Rightarrow> Ok \<lparr>reg_kinds = kinds\<rparr>
           | Some user \<Rightarrow>
               (case insert_from_toml from_str kinds user UserConfig of
                  Err e \<Rightarrow> Err e
                | Ok kinds' \<Rightarrow> Ok \<lparr>reg_kinds = kinds'\<rparr>)))"

definition registry_lookup :: "kind_registry \<Rightarrow> incident_kind \<Rightarrow> incident_kind_spec option" where
  "registry_lookup reg kind = hm_get (reg_kinds reg) kind"

definition registry_kinds :: "kind_registry \<Rightarrow> incident_kind list" where
  "registry_kinds reg = map fst (reg_kinds reg)"

definition validate_draft :: "kind_registry \<Rightarrow> incident_signal_draft \<Rightarrow> draft_error + unit" where
  "validate_draft reg draft =
     (case hm_get (reg_kinds reg) (draft_kind draft) of
        None \<Rightarrow> Err (UnknownKind (draft_kind draft))
      | Some spec \<Rightarrow>
          let sk = subject_kind (draft_subject draft) in
          if sk \<notin> set (spec_allowed_subjects spec)
          then Err (DisallowedSubject (draft_kind draft) sk (spec_allowed_subjects spec))
          else (case (spec_allows_dimension spec, draft_dimension draft \<noteq> None) of
                  (True, False) \<Rightarrow> Err (DimensionRequired (draft_kind draft))
                | (False, True) \<Rightarrow> Err (DimensionForbidden (draft_kind draft))
                | _ \<Rightarrow> Ok ()))"

section \<open>The built-in catalog\<close>

definition default_kind ::
    "string \<Rightarrow> string \<Rightarrow> string option \<Rightarrow> confidence \<Rightarrow> kind_entry_toml" where
  "default_kind name subject label conf =
     \<lparr>ent_name = IncidentKind name, ent_allowed_subjects = [subject],
      ent_allows_dimension = (label \<noteq> None), ent_dimension_label = label,
      ent_min_open_confidence = Some conf\<rparr>"

definition default_kinds :: "kind_entry_toml list" where
  "default_kinds =
     [default_kind ''bitcoin.rpc_unreachable'' ''BitcoinNode'' None ConfHigh,
      default_kind ''bitcoin.no_peers'' ''BitcoinNode'' None ConfHigh,
      default_kind ''bitcoin.tip_lag_or_ibd_stalled'' ''BitcoinNode'' None ConfHigh,
      default_kind ''lnd.channel_inactive'' ''LndChannel'' None ConfMedium,
      default_kind ''lnd.chain_backend_lag'' ''LndNode'' None ConfHigh,
      default_kind ''bithound.lnd_unreachable'' ''Sidecar'' (Some ''collector_id'') ConfHigh,
      default_kind ''bithound.lnd_auth_failed'' ''Sidecar'' (Some ''collector_id'') ConfHigh,
      default_kind ''bithound.lnd_tls_invalid'' ''Sidecar'' (Some ''collector_id'') ConfHigh]"

section \<open>What loading and validating guarantee\<close>

lemma validate_draft_iff:
  "validate_draft reg d = Ok () \<longleftrightarrow>
     (\<exists>spec. registry_lookup reg (draft_kind d) = Some spec \<and>
        subject_kind (draft_subject d) \<in> set (spec_allowed_subjects spec) \<and>
        spec_allows_dimension spec = (draft_dimension d \<noteq> None))"
  by (auto simp: validate_draft_def registry_lookup_def Let_def
      split: option.splits bool.splits)

lemma parse_entry_fields:
  "parse_entry e src = Ok spec \<Longrightarrow> spec_name spec = ent_name e \<and> spec_source spec = src"
  by (auto simp: parse_entry_def split: sum.splits)

text \<open>
  A successful insertion pass keeps every earlier binding, adds exactly the
  entries' names, each with the pass's source, and needs the names to be new.
\<close>

lemma insert_entries_keeps:
  assumes "insert_entries kinds src es = Ok kinds'" and "hm_get kinds k = Some spec"
  shows "hm_get kinds' k = Some spec"
  using assms
proof (induction kinds src es rule: insert_entries.induct)
  case (1 kinds source)
  then show ?case by simp
next
  case (2 kinds source e es)
  then obtain s where s: "parse_entry e source = Ok s"
    and new: "hm_get kinds (spec_name s) = None"
    and rest: "insert_entries (hm_insert (spec_name s) s kinds) source es = Ok kinds'"
    by (auto split: sum.splits option.splits)
  have "k \<noteq> spec_name s"
    using new 2(3) by auto
  with 2(1) [OF s new rest] 2(3) show ?case
    by simp
qed

lemma insert_entries_new:
  assumes "insert_entries kinds src es = Ok kinds'" and "hm_get kinds' k = Some spec"
    and "hm_get kinds k = None"
  shows "spec_source spec = src \<and> spec_name spec = k \<and> k \<in> ent_name ` set es"
  using assms
proof (induction kinds src es rule: insert_entries.induct)
  case (1 kinds source)
  then show ?case by simp
next
  case (2 kinds source e es)
  then obtain s where s: "parse_entry e source = Ok s"
    and new: "hm_get kinds (spec_name s) = None"
    and rest: "insert_entries (hm_insert (spec_name s) s kinds) source es = Ok kinds'"
    by (auto split: sum.splits option.splits)
  show ?case
  proof (cases "k = spec_name s")
    case True
    then have "hm_get kinds' k = Some s"
      using insert_entries_keeps [OF rest] by simp
    with 2(3) True parse_entry_fields [OF s] show ?thesis
      by simp
  next
    case False
    with 2(1) [OF s new rest 2(3)] 2(4) show ?thesis
      by simp
  qed
qed

lemma insert_entries_distinct_Ok:
  assumes "distinct (map ent_name es)" and "\<forall>e \<in> set es. hm_get kinds (ent_name e) = None"
    and "\<forall>e \<in> set es. parse_subject_kinds (ent_allowed_subjects e) \<in> range Inr"
  shows "\<exists>kinds'. insert_entries kinds src es = Ok kinds'"
  using assms
proof (induction es arbitrary: kinds)
  case Nil
  then show ?case by simp
next
  case (Cons e es)
  then obtain ks where ks: "parse_subject_kinds (ent_allowed_subjects e) = Ok ks"
    by auto
  then obtain spec where spec: "parse_entry e src = Ok spec"
    by (simp add: parse_entry_def)
  then have name: "spec_name spec = ent_name e"
    using parse_entry_fields by blast
  have other: "ent_name x \<noteq> ent_name e" if "x \<in> set es" for x
    using Cons.prems(1) that by (metis distinct.simps(2) image_eqI list.set_map list.simps(9))
  have "\<exists>kinds'. insert_entries (hm_insert (spec_name spec) spec kinds) src es = Ok kinds'"
    using Cons.prems other name by (intro Cons.IH) auto
  then show ?case
    using spec name Cons.prems(2) by simp
qed

lemma insert_entries_wf: "insert_entries kinds src es = Ok kinds' \<Longrightarrow> hm_wf kinds \<Longrightarrow> hm_wf kinds'"
  by (induction kinds src es rule: insert_entries.induct)
    (auto split: sum.splits option.splits)

lemma load_from_toml_strs_cases:
  assumes "load_from_toml_strs from_str builtin (Some user) = Ok reg"
  obtains es us kinds kinds' where "from_str builtin = Ok es"
    "insert_entries [] Builtin es = Ok kinds" "from_str user = Ok us"
    "insert_entries kinds UserConfig us = Ok kinds'" "reg = \<lparr>reg_kinds = kinds'\<rparr>"
  using assms by (auto simp: load_from_toml_strs_def insert_from_toml_def split: sum.splits)

text \<open>The registry of the built-in catalog alone, decoded from any text that decodes to it.\<close>

definition builtin_registry :: kind_registry where
  "builtin_registry =
     (case insert_entries [] Builtin default_kinds of
        Err e \<Rightarrow> \<lparr>reg_kinds = []\<rparr>
      | Ok kinds \<Rightarrow> \<lparr>reg_kinds = kinds\<rparr>)"

lemma default_kinds_load:
  assumes "from_str text = Ok default_kinds"
  shows "load_from_toml_strs from_str text None = Ok builtin_registry"
proof -
  have "\<exists>kinds. insert_entries [] Builtin default_kinds = Ok kinds"
    by (rule insert_entries_distinct_Ok)
      (simp_all add: default_kinds_def default_kind_def parse_subject_kind_def)
  then show ?thesis
    using assms
    by (auto simp: load_from_toml_strs_def insert_from_toml_def builtin_registry_def)
qed

lemma builtin_registry_lookup:
  "registry_lookup builtin_registry (IncidentKind BITCOIN_RPC_UNREACHABLE) \<noteq> None"
  "map_option spec_allowed_subjects
     (registry_lookup builtin_registry (IncidentKind BITCOIN_RPC_UNREACHABLE)) = Some [SkBitcoinNode]"
  by (simp_all add: builtin_registry_def registry_lookup_def default_kinds_def default_kind_def
      parse_entry_def parse_subject_kind_def well_known_kind_defs)

text \<open>User catalogs are additive.
  Loading the built-in catalog together with a user catalog succeeds only if the
  built-in catalog alone loads; every kind of the built-in registry keeps its
  specification, and every other kind of the merged registry comes from the user
  catalog. So a user file can never change what a built-in kind accepts.\<close>

lemma registry_user_catalog_additive:
  assumes "load_from_toml_strs from_str builtin (Some user) = Ok reg"
  shows "\<exists>base. load_from_toml_strs from_str builtin None = Ok base \<and>
    (\<forall>k spec. registry_lookup base k = Some spec \<longrightarrow>
       registry_lookup reg k = Some spec \<and> spec_source spec = Builtin) \<and>
    (\<forall>k spec. registry_lookup reg k = Some spec \<longrightarrow> registry_lookup base k = None \<longrightarrow>
       spec_source spec = UserConfig \<and> spec_name spec = k)"
proof -
  from assms obtain es us kinds kinds' where
    b: "from_str builtin = Ok es" "insert_entries [] Builtin es = Ok kinds"
    and u: "from_str user = Ok us" "insert_entries kinds UserConfig us = Ok kinds'"
    and reg: "reg = \<lparr>reg_kinds = kinds'\<rparr>"
    by (rule load_from_toml_strs_cases)
  have "load_from_toml_strs from_str builtin None = Ok \<lparr>reg_kinds = kinds\<rparr>"
    using b by (simp add: load_from_toml_strs_def insert_from_toml_def)
  moreover have "hm_get kinds k = Some spec \<longrightarrow>
      hm_get kinds' k = Some spec \<and> spec_source spec = Builtin" for k spec
    using insert_entries_keeps [OF u(2)] insert_entries_new [OF b(2)] by simp
  moreover have "hm_get kinds' k = Some spec \<longrightarrow> hm_get kinds k = None \<longrightarrow>
      spec_source spec = UserConfig \<and> spec_name spec = k" for k spec
    using insert_entries_new [OF u(2)] by simp
  ultimately show ?thesis
    by (intro exI [of _ "\<lparr>reg_kinds = kinds\<rparr>"]) (simp add: registry_lookup_def reg)
qed

definition sample_user_kinds :: "kind_entry_toml list" where
  "sample_user_kinds = [default_kind ''acme.disk_full'' ''Host'' (Some ''mount'') ConfLow]"

definition sample_decoder :: "string \<Rightarrow> string + kind_entry_toml list" where
  "sample_decoder s = (if s = ''builtin'' then Ok default_kinds else Ok sample_user_kinds)"

end
