(* ===== verification/Incident_Engine.thy ===== *)
theory Incident_Engine
  imports Kind_Registry
begin

text \<open>
  The incident engine (\<open>incidents/engine.rs\<close>, \<open>incidents/events.rs\<close>): the
  single-writer map of open incidents and the command handler. The two fresh
  \<open>Uuid\<close>s a signal may draw (the observation's and the incident's) are arguments;
  the \<open>expect\<close> after validation and the panic of \<open>new\<close> are \<open>Panicked\<close>.

  Contents: the model; the abstract lifecycle automaton of one fingerprint and
  the refinement of the engine to it; the invariant of the open map; the order
  and the content of the emitted events.
\<close>

section \<open>Commands, events and state\<close>

datatype incident_command =
    RecordSignal incident_signal_draft
  | Acknowledge incident_id actor_id datetime
  | ResolveCmd incident_id actor_id datetime string

datatype engine_error = DraftInvalid draft_error | NotYetImplemented string

datatype incident_event =
    SignalRecorded observation
  | IncidentTouched incident
  | Lifecycle incident_lifecycle_event
  | DraftBelowConfidenceFloor incident_kind confidence confidence

type_synonym open_map = "(incident_fingerprint, incident) hash_map"

record incident_engine =
  eng_kinds :: kind_registry
  eng_sidecar_id :: sidecar_id
  eng_signal_source :: observation_source
  eng_open_incidents :: open_map

section \<open>Ranks\<close>

fun severity_from_signal :: "signal_severity \<Rightarrow> incident_severity" where
  "severity_from_signal SigInfo = SevInfo"
| "severity_from_signal SigWarning = SevWarning"
| "severity_from_signal SigCritical = SevCritical"

fun severity_rank :: "incident_severity \<Rightarrow> u8" where
  "severity_rank SevInfo = 0"
| "severity_rank SevWarning = 1"
| "severity_rank SevCritical = 2"

definition max_severity :: "incident_severity \<Rightarrow> incident_severity \<Rightarrow> incident_severity" where
  "max_severity a b = (if severity_rank a \<ge> severity_rank b then a else b)"

fun confidence_rank :: "confidence \<Rightarrow> u8" where
  "confidence_rank ConfLow = 0"
| "confidence_rank ConfMedium = 1"
| "confidence_rank ConfHigh = 2"

section \<open>Operations\<close>

fun open_map_of :: "open_map \<Rightarrow> incident list \<Rightarrow> open_map run" where
  "open_map_of m [] = Done m"
| "open_map_of m (incident # rest) =
     (let fp = inc_fingerprint incident in
      if hm_get m fp \<noteq> None then Panicked else open_map_of (hm_insert fp incident m) rest)"

definition incident_engine_new ::
    "kind_registry \<Rightarrow> sidecar_id \<Rightarrow> observation_source \<Rightarrow> incident list \<Rightarrow> incident_engine run" where
  "incident_engine_new kinds sidecar source open_incidents =
     (case open_map_of [] open_incidents of
        Panicked \<Rightarrow> Panicked
      | Done m \<Rightarrow> Done \<lparr>eng_kinds = kinds, eng_sidecar_id = sidecar, eng_signal_source = source,
                       eng_open_incidents = m\<rparr>)"

definition build_signal_observation ::
    "uuid \<Rightarrow> incident_engine \<Rightarrow> incident_signal_draft \<Rightarrow> datetime \<Rightarrow> observation" where
  "build_signal_observation obs_uuid e draft now =
     (let ctx = \<lparr>octx_source = eng_signal_source e, octx_subject = draft_subject draft,
                 octx_observed_at = now, octx_origin = Computed\<rparr>;
          signal = \<lparr>sig_signal = draft_signal draft, sig_incident_kind = draft_kind draft,
                    sig_severity = draft_severity draft, sig_status = draft_status draft,
                    sig_confidence = draft_confidence draft, sig_evidence = draft_evidence draft\<rparr>
      in observation_incident_signal obs_uuid ctx signal [])"

definition handle_active ::
    "observation_id \<Rightarrow> uuid \<Rightarrow> confidence \<Rightarrow> incident_signal_draft \<Rightarrow> datetime \<Rightarrow> open_map \<Rightarrow>
     open_map \<times> incident_event list" where
  "handle_active observation_id inc_uuid floor_conf draft now m =
     (if confidence_rank (draft_confidence draft) < confidence_rank floor_conf
      then (m, [DraftBelowConfidenceFloor (draft_kind draft) (draft_confidence draft) floor_conf])
      else
        let fingerprint = compute_fingerprint draft;
            draft_sev = severity_from_signal (draft_severity draft)
        in case hm_get m fingerprint of
             Some existing \<Rightarrow>
               let prev = inc_severity existing;
                   new = max_severity prev draft_sev;
                   touched = existing\<lparr>inc_severity := new, inc_updated_at := now,
                     inc_signal_observation_ids := inc_signal_observation_ids existing @ [observation_id],
                     inc_evidence := inc_evidence existing @ draft_evidence draft\<rparr>
               in (hm_insert fingerprint touched m,
                   IncidentTouched touched #
                   (if severity_rank new > severity_rank prev
                    then [Lifecycle (Escalated touched prev new)] else []))
           | None \<Rightarrow>
               let new_incident =
                 \<lparr>inc_id = IncidentId inc_uuid, inc_fingerprint = fingerprint,
                  inc_kind = draft_kind draft, inc_subject = draft_subject draft,
                  inc_severity = draft_sev, inc_status = StOpen, inc_opened_at = now,
                  inc_updated_at = now, inc_resolved_at = None,
                  inc_signal_observation_ids = [observation_id], inc_evidence = draft_evidence draft,
                  inc_summary = signal_name_as_str (draft_signal draft),
                  inc_evidence_summary = []\<rparr>
               in (hm_insert fingerprint new_incident m,
                   [IncidentTouched new_incident, Lifecycle (Opened new_incident)]))"

definition handle_cleared ::
    "observation_id \<Rightarrow> incident_signal_draft \<Rightarrow> datetime \<Rightarrow> open_map \<Rightarrow> open_map \<times> incident_event list" where
  "handle_cleared observation_id draft now m =
     (let fingerprint = compute_fingerprint draft in
      case hm_get m fingerprint of
        None \<Rightarrow> (m, [])
      | Some existing \<Rightarrow>
          let resolved = existing\<lparr>inc_status := StResolved, inc_updated_at := now,
                inc_resolved_at := Some now,
                inc_signal_observation_ids := inc_signal_observation_ids existing @ [observation_id]\<rparr>
          in (hm_remove fingerprint m, [IncidentTouched resolved, Lifecycle (Resolved resolved)]))"

definition handle_record_signal ::
    "uuid \<Rightarrow> uuid \<Rightarrow> incident_engine \<Rightarrow> incident_signal_draft \<Rightarrow> datetime \<Rightarrow>
     (incident_engine \<times> (engine_error + incident_event list)) run" where
  "handle_record_signal obs_uuid inc_uuid e draft now =
     (case validate_draft (eng_kinds e) draft of
        Err err \<Rightarrow> Done (e, Err (DraftInvalid err))
      | Ok _ \<Rightarrow>
          (case registry_lookup (eng_kinds e) (draft_kind draft) of
             None \<Rightarrow> Panicked
           | Some spec \<Rightarrow>
               let observation = build_signal_observation obs_uuid e draft now;
                   (m, events) =
                     (case draft_status draft of
                        Active \<Rightarrow> handle_active (obs_id observation) inc_uuid
                          (spec_min_open_confidence spec) draft now (eng_open_incidents e)
                      | Cleared \<Rightarrow> handle_cleared (obs_id observation) draft now (eng_open_incidents e))
               in Done (e\<lparr>eng_open_incidents := m\<rparr>, Ok (SignalRecorded observation # events))))"

definition engine_handle ::
    "uuid \<Rightarrow> uuid \<Rightarrow> incident_engine \<Rightarrow> incident_command \<Rightarrow> datetime \<Rightarrow>
     (incident_engine \<times> (engine_error + incident_event list)) run" where
  "engine_handle obs_uuid inc_uuid e cmd now =
     (case cmd of
        RecordSignal draft \<Rightarrow> handle_record_signal obs_uuid inc_uuid e draft now
      | Acknowledge _ _ _ \<Rightarrow> Done (e, Err (NotYetImplemented ''Acknowledge''))
      | ResolveCmd _ _ _ _ \<Rightarrow> Done (e, Err (NotYetImplemented ''Resolve'')))"

lemmas engine_defs [engine_simps] =
  engine_handle_def handle_record_signal_def handle_active_def handle_cleared_def

section \<open>Ranks are a total order\<close>

lemma severity_rank_inject [simp]: "severity_rank a = severity_rank b \<longleftrightarrow> a = b"
  by (cases a; cases b) simp_all

lemma max_severity_rank:
  "severity_rank (max_severity a b) = max (severity_rank a) (severity_rank b)"
  by (auto simp: max_severity_def max_def)

lemma max_severity_warning_critical: "max_severity SevWarning SevCritical = SevCritical"
  by (simp add: max_severity_def word_le_nat_alt)

lemma max_severity_ge: "severity_rank a \<le> severity_rank (max_severity a b)"
  by (simp add: max_severity_rank)

section \<open>The handler is total\<close>

text \<open>
  The \<open>expect\<close> on the registry lookup is unreachable: validation has already
  found the kind. What is left is an error with the engine untouched, or the
  events with the new open map.
\<close>

definition signal_effect ::
    "uuid \<Rightarrow> uuid \<Rightarrow> incident_engine \<Rightarrow> incident_kind_spec \<Rightarrow> incident_signal_draft \<Rightarrow> datetime \<Rightarrow>
     open_map \<times> incident_event list" where
  "signal_effect obs_uuid inc_uuid e spec draft now =
     (case draft_status draft of
        Active \<Rightarrow> handle_active (ObservationId obs_uuid) inc_uuid (spec_min_open_confidence spec) draft now
          (eng_open_incidents e)
      | Cleared \<Rightarrow> handle_cleared (ObservationId obs_uuid) draft now (eng_open_incidents e))"

lemma obs_id_build_signal [simp]: "obs_id (build_signal_observation u e d now) = ObservationId u"
  by (simp add: build_signal_observation_def Let_def store_simps)

lemma handle_record_signal_cases:
  "handle_record_signal u v e d now =
     (case validate_draft (eng_kinds e) d of
        Err err \<Rightarrow> Done (e, Err (DraftInvalid err))
      | Ok _ \<Rightarrow>
          let r = signal_effect u v e (the (registry_lookup (eng_kinds e) (draft_kind d))) d now
          in Done (e\<lparr>eng_open_incidents := fst r\<rparr>,
               Ok (SignalRecorded (build_signal_observation u e d now) # snd r)))"
proof (cases "validate_draft (eng_kinds e) d")
  case (Inl err)
  then show ?thesis by (simp add: handle_record_signal_def)
next
  case (Inr x)
  then have "validate_draft (eng_kinds e) d = Ok ()" by simp
  then obtain spec where "registry_lookup (eng_kinds e) (draft_kind d) = Some spec"
    by (auto simp: validate_draft_iff)
  with Inr show ?thesis
    by (simp add: handle_record_signal_def signal_effect_def Let_def case_prod_unfold
        split: signal_status.split)
qed

lemma engine_handle_not_panicked: "engine_handle u v e cmd now \<noteq> Panicked"
  by (cases cmd)
    (auto simp: engine_handle_def handle_record_signal_cases Let_def split: sum.split)

lemma engine_handle_ErrD:
  "engine_handle u v e cmd now = Done (e', Err err) \<Longrightarrow> e' = e"
  by (cases cmd)
    (auto simp: engine_handle_def handle_record_signal_cases Let_def split: sum.splits)

lemma engine_handle_OkE:
  assumes "engine_handle u v e cmd now = Done (e', Ok evs)"
  obtains draft spec where "cmd = RecordSignal draft"
    and "validate_draft (eng_kinds e) draft = Ok ()"
    and "registry_lookup (eng_kinds e) (draft_kind draft) = Some spec"
    and "e' = e\<lparr>eng_open_incidents := fst (signal_effect u v e spec draft now)\<rparr>"
    and "evs = SignalRecorded (build_signal_observation u e draft now) #
          snd (signal_effect u v e spec draft now)"
proof -
  obtain draft where cmd: "cmd = RecordSignal draft"
    and r: "handle_record_signal u v e draft now = Done (e', Ok evs)"
    using assms by (cases cmd) (auto simp: engine_handle_def)
  have ok: "validate_draft (eng_kinds e) draft = Ok ()"
    using r by (cases "validate_draft (eng_kinds e) draft")
      (auto simp: handle_record_signal_cases)
  then obtain spec where "registry_lookup (eng_kinds e) (draft_kind draft) = Some spec"
    by (auto simp: validate_draft_iff)
  with that [OF cmd ok] r ok show thesis
    by (simp add: handle_record_signal_cases Let_def)
qed

section \<open>The invariant of the open map\<close>

text \<open>
  Every open incident is filed under its own fingerprint, agrees with it on kind
  and subject, is \<open>Open\<close> and unresolved, and lists at least one signal.
\<close>

definition open_incident_ok :: "incident_fingerprint \<Rightarrow> incident \<Rightarrow> bool" where
  "open_incident_ok fp i =
     (inc_fingerprint i = fp \<and> inc_kind i = fp_kind fp \<and> inc_subject i = fp_subject fp \<and>
      inc_status i = StOpen \<and> inc_resolved_at i = None \<and> inc_signal_observation_ids i \<noteq> [])"

definition open_map_ok :: "open_map \<Rightarrow> bool" where
  "open_map_ok m = (hm_wf m \<and> list_all (\<lambda>(fp, i). open_incident_ok fp i) m)"

definition engine_inv :: "incident_engine \<Rightarrow> bool" where
  "engine_inv e = open_map_ok (eng_open_incidents e)"

lemma open_map_ok_iff:
  "open_map_ok m \<longleftrightarrow> hm_wf m \<and> (\<forall>fp i. hm_get m fp = Some i \<longrightarrow> open_incident_ok fp i)"
  by (auto simp: open_map_ok_def list_all_iff hm.entries_get [symmetric])

lemma open_map_ok_insert:
  "open_map_ok m \<Longrightarrow> open_incident_ok fp i \<Longrightarrow> open_map_ok (hm_insert fp i m)"
  by (simp add: open_map_ok_iff)

lemma open_map_ok_remove: "open_map_ok m \<Longrightarrow> open_map_ok (hm_remove fp m)"
  by (simp add: open_map_ok_iff)

lemma open_map_ok_getD: "open_map_ok m \<Longrightarrow> hm_get m fp = Some i \<Longrightarrow> open_incident_ok fp i"
  by (simp add: open_map_ok_iff)

lemma handle_active_ok: "open_map_ok m \<Longrightarrow> open_map_ok (fst (handle_active oid v fl d now m))"
  by (auto simp: handle_active_def Let_def open_incident_ok_def compute_fingerprint_def
      intro!: open_map_ok_insert dest: open_map_ok_getD split: option.split)

lemma handle_cleared_ok: "open_map_ok m \<Longrightarrow> open_map_ok (fst (handle_cleared oid d now m))"
  by (auto simp: handle_cleared_def Let_def intro!: open_map_ok_remove split: option.split)

lemma engine_handle_inv:
  assumes "engine_inv e" and "engine_handle u v e cmd now = Done (e', r)"
  shows "engine_inv e'"
proof (cases r)
  case (Inl err)
  then show ?thesis using assms engine_handle_ErrD by blast
next
  case (Inr evs)
  with assms show ?thesis
    by (auto elim!: engine_handle_OkE simp: engine_inv_def signal_effect_def handle_active_ok
        handle_cleared_ok split: signal_status.split)
qed

section \<open>The lifecycle automaton of a fingerprint\<close>

text \<open>
  The abstract specification. Of an open incident it keeps the identity and the
  severity. A session is \<open>Opened\<close>, then escalations that each start from the
  current severity and strictly raise it, then \<open>Resolved\<close>; every event carries
  the same incident. Any other event is a protocol violation (\<open>None\<close>).
\<close>

type_synonym lifecycle_state = "(incident_id \<times> incident_severity) option"

fun lifecycle_step :: "lifecycle_state \<Rightarrow> incident_lifecycle_event \<Rightarrow> lifecycle_state option" where
  "lifecycle_step None (Opened i) =
     (if inc_status i = StOpen \<and> inc_resolved_at i = None
      then Some (Some (inc_id i, inc_severity i)) else None)"
| "lifecycle_step (Some (k, sev)) (Escalated i prev new) =
     (if inc_id i = k \<and> prev = sev \<and> inc_severity i = new \<and> inc_status i = StOpen \<and>
         severity_rank prev < severity_rank new
      then Some (Some (k, new)) else None)"
| "lifecycle_step (Some (k, sev)) (Resolved i) =
     (if inc_id i = k \<and> inc_severity i = sev \<and> inc_status i = StResolved \<and>
         inc_resolved_at i = Some (inc_updated_at i)
      then Some None else None)"
| "lifecycle_step _ _ = None"

fun lifecycle_run :: "lifecycle_state \<Rightarrow> incident_lifecycle_event list \<Rightarrow> lifecycle_state option" where
  "lifecycle_run st [] = Some st"
| "lifecycle_run st (ev # evs) =
     (case lifecycle_step st ev of None \<Rightarrow> None | Some st' \<Rightarrow> lifecycle_run st' evs)"

fun lifecycle_for :: "incident_fingerprint \<Rightarrow> incident_event list \<Rightarrow> incident_lifecycle_event list" where
  "lifecycle_for fp [] = []"
| "lifecycle_for fp (Lifecycle l # evs) =
     (if inc_fingerprint (lifecycle_incident l) = fp then l # lifecycle_for fp evs
      else lifecycle_for fp evs)"
| "lifecycle_for fp (_ # evs) = lifecycle_for fp evs"

text \<open>The abstraction: what the automaton of \<open>fp\<close> sees of the engine.\<close>

definition view :: "incident_engine \<Rightarrow> incident_fingerprint \<Rightarrow> lifecycle_state" where
  "view e fp = map_option (\<lambda>i. (inc_id i, inc_severity i)) (hm_get (eng_open_incidents e) fp)"

definition map_view :: "open_map \<Rightarrow> incident_fingerprint \<Rightarrow> lifecycle_state" where
  "map_view m fp = map_option (\<lambda>i. (inc_id i, inc_severity i)) (hm_get m fp)"

text \<open>The events of a command, none when it is rejected.\<close>

definition events_of :: "engine_error + incident_event list \<Rightarrow> incident_event list" where
  "events_of r = (case r of Err _ \<Rightarrow> [] | Ok evs \<Rightarrow> evs)"

lemma lifecycle_run_append:
  "lifecycle_run st (xs @ ys) =
     (case lifecycle_run st xs of None \<Rightarrow> None | Some st' \<Rightarrow> lifecycle_run st' ys)"
  by (induction xs arbitrary: st) (auto split: option.split)

lemma lifecycle_for_append: "lifecycle_for fp (xs @ ys) = lifecycle_for fp xs @ lifecycle_for fp ys"
  by (induction fp xs rule: lifecycle_for.induct) auto

lemma handle_active_simulates:
  assumes "open_map_ok m" and "handle_active oid v fl d now m = (m', evs)"
  shows "lifecycle_run (map_view m fp) (lifecycle_for fp evs) = Some (map_view m' fp)"
proof (cases "hm_get m (compute_fingerprint d)")
  case None
  with assms(2) show ?thesis
    by (auto simp: handle_active_def Let_def map_view_def split: if_splits)
next
  case (Some i)
  then have "open_incident_ok (compute_fingerprint d) i"
    using assms(1) open_map_ok_getD by blast
  with Some assms(2) show ?thesis
    using max_severity_ge [of "inc_severity i"]
    by (auto simp: handle_active_def Let_def map_view_def open_incident_ok_def
        order.strict_iff_order dest: sym split: if_splits)
qed

lemma handle_cleared_simulates:
  assumes "open_map_ok m" and "handle_cleared oid d now m = (m', evs)"
  shows "lifecycle_run (map_view m fp) (lifecycle_for fp evs) = Some (map_view m' fp)"
  using assms
  by (auto simp: handle_cleared_def Let_def map_view_def open_incident_ok_def
      split: option.splits dest!: open_map_ok_getD)

lemma engine_handle_simulates:
  assumes "engine_inv e" and "engine_handle u v e cmd now = Done (e', r)"
  shows "lifecycle_run (view e fp) (lifecycle_for fp (events_of r)) = Some (view e' fp)"
proof (cases r)
  case (Inl err)
  then show ?thesis
    using assms by (auto simp: events_of_def dest: engine_handle_ErrD)
next
  case (Inr evs)
  with assms(2) obtain d spec where
    e': "e' = e\<lparr>eng_open_incidents := fst (signal_effect u v e spec d now)\<rparr>"
    and evs: "evs = SignalRecorded (build_signal_observation u e d now) # snd (signal_effect u v e spec d now)"
    by (auto elim!: engine_handle_OkE)
  have "lifecycle_run (map_view (eng_open_incidents e) fp)
      (lifecycle_for fp (snd (signal_effect u v e spec d now))) =
    Some (map_view (fst (signal_effect u v e spec d now)) fp)"
    using assms(1)
    by (cases "draft_status d")
      (auto simp: signal_effect_def engine_inv_def intro: handle_active_simulates handle_cleared_simulates)
  with Inr e' evs show ?thesis
    by (simp add: events_of_def view_def map_view_def)
qed

section \<open>Command sequences\<close>

text \<open>
  A sequence of commands, each with its clock reading and its fresh ids. As in
  \<open>evaluate_rules\<close>, a rejected command contributes no event and the next one runs.
\<close>

type_synonym engine_input = "uuid \<times> uuid \<times> incident_command \<times> datetime"

fun engine_run ::
    "incident_engine \<Rightarrow> engine_input list \<Rightarrow> (incident_engine \<times> incident_event list) run" where
  "engine_run e [] = Done (e, [])"
| "engine_run e ((u, v, cmd, now) # rest) =
     (case engine_handle u v e cmd now of
        Panicked \<Rightarrow> Panicked
      | Done (e', r) \<Rightarrow>
          (case engine_run e' rest of
             Panicked \<Rightarrow> Panicked
           | Done (e'', evs) \<Rightarrow> Done (e'', events_of r @ evs)))"

lemma engine_run_stepE:
  assumes "engine_run e ((u, v, cmd, now) # rest) = Done (e'', evs)"
  obtains e' r evs' where "engine_handle u v e cmd now = Done (e', r)"
    and "engine_run e' rest = Done (e'', evs')" and "evs = events_of r @ evs'"
  using assms by (auto split: run.splits)

lemma engine_run_total: "engine_run e inputs \<noteq> Panicked"
proof (induction e inputs rule: engine_run.induct)
  case (2 e u v cmd now rest)
  obtain e' r where h: "engine_handle u v e cmd now = Done (e', r)"
    using engine_handle_not_panicked by (metis run.exhaust surj_pair)
  with 2 [OF h refl] show ?case
    by (auto split: run.splits)
qed simp

lemma engine_run_inv:
  "engine_run e inputs = Done (e', evs) \<Longrightarrow> engine_inv e \<Longrightarrow> engine_inv e'"
proof (induction inputs arbitrary: e evs)
  case (Cons x inputs)
  obtain u v cmd now where x: "x = (u, v, cmd, now)" by (metis surj_pair)
  with Cons show ?case
    by (metis engine_handle_inv engine_run_stepE)
qed simp

text \<open>
  Replaying the touched incidents over a view of the open map: an open incident
  is upserted, any other one is dropped. This is what a repository that saves
  each touched incident and lists the open ones computes.
\<close>

fun replay :: "(incident_fingerprint \<rightharpoonup> incident) \<Rightarrow> incident_event \<Rightarrow> (incident_fingerprint \<rightharpoonup> incident)" where
  "replay m (IncidentTouched i) =
     (if inc_status i = StOpen then m(inc_fingerprint i \<mapsto> i) else m(inc_fingerprint i := None))"
| "replay m _ = m"

lemma handle_active_replay:
  assumes "open_map_ok m"
  shows "hm_get (fst (handle_active oid v fl d now m)) =
    foldl replay (hm_get m) (snd (handle_active oid v fl d now m))"
  using assms
  by (auto simp: handle_active_def Let_def open_incident_ok_def split: option.split
      dest!: open_map_ok_getD)

lemma handle_cleared_replay:
  assumes "open_map_ok m"
  shows "hm_get (fst (handle_cleared oid d now m)) =
    foldl replay (hm_get m) (snd (handle_cleared oid d now m))"
  using assms
  by (auto simp: handle_cleared_def Let_def open_incident_ok_def split: option.split
      dest!: open_map_ok_getD)

lemma engine_handle_replay:
  assumes "engine_inv e" and "engine_handle u v e cmd now = Done (e', r)"
  shows "hm_get (eng_open_incidents e') = foldl replay (hm_get (eng_open_incidents e)) (events_of r)"
proof (cases r)
  case (Inl err)
  then show ?thesis
    using assms by (auto simp: events_of_def dest: engine_handle_ErrD)
next
  case (Inr evs)
  with assms show ?thesis
    by (auto elim!: engine_handle_OkE simp: engine_inv_def signal_effect_def events_of_def
        handle_active_replay handle_cleared_replay split: signal_status.split)
qed

lemma engine_run_replay:
  "engine_run e inputs = Done (e', evs) \<Longrightarrow> engine_inv e \<Longrightarrow>
    hm_get (eng_open_incidents e') = foldl replay (hm_get (eng_open_incidents e)) evs"
proof (induction inputs arbitrary: e evs)
  case (Cons x inputs)
  obtain u v cmd now where x: "x = (u, v, cmd, now)" by (metis surj_pair)
  obtain e1 r evs' where
    s: "engine_handle u v e cmd now = Done (e1, r)" "engine_run e1 inputs = Done (e', evs')"
      "evs = events_of r @ evs'"
    using Cons.prems(1) [unfolded x] by (rule engine_run_stepE)
  show ?case
    using Cons.IH [OF s(2) engine_handle_inv [OF Cons.prems(2) s(1)]]
      engine_handle_replay [OF Cons.prems(2) s(1)] s(3) by simp
qed simp

section \<open>What holds of an open incident while it stays open\<close>

text \<open>\<open>evolves i j\<close>: \<open>j\<close> is \<open>i\<close> after further signals of the same incident.\<close>

definition evolves :: "incident \<Rightarrow> incident \<Rightarrow> bool" where
  "evolves i j =
     (inc_id j = inc_id i \<and> inc_fingerprint j = inc_fingerprint i \<and> inc_kind j = inc_kind i \<and>
      inc_subject j = inc_subject i \<and> inc_opened_at j = inc_opened_at i \<and>
      inc_summary j = inc_summary i \<and>
      severity_rank (inc_severity i) \<le> severity_rank (inc_severity j) \<and>
      take (length (inc_signal_observation_ids i)) (inc_signal_observation_ids j) =
        inc_signal_observation_ids i \<and>
      take (length (inc_evidence i)) (inc_evidence j) = inc_evidence i)"

lemma handle_active_evolves:
  assumes "hm_get m fp = Some i"
  shows "\<exists>j. hm_get (fst (handle_active oid v fl d now m)) fp = Some j \<and> evolves i j"
  using assms by (auto simp: handle_active_def Let_def evolves_def max_severity_ge split: option.split)

lemma handle_cleared_frame:
  assumes "hm_get m fp = Some i"
  shows "hm_get (fst (handle_cleared oid d now m)) fp \<in> {None, Some i}"
  using assms by (auto simp: handle_cleared_def Let_def split: option.split)

lemma evolves_refl: "evolves i i"
  by (simp add: evolves_def)

lemma engine_handle_evolves:
  assumes "hm_get (eng_open_incidents e) fp = Some i"
    and "engine_handle u v e cmd now = Done (e', r)"
    and "hm_get (eng_open_incidents e') fp = Some j"
  shows "evolves i j"
proof (cases r)
  case (Inl err)
  then show ?thesis
    using assms by (auto simp: evolves_refl dest: engine_handle_ErrD)
next
  case (Inr evs)
  with assms(2) obtain d spec where
    e': "e' = e\<lparr>eng_open_incidents := fst (signal_effect u v e spec d now)\<rparr>"
    by (auto elim!: engine_handle_OkE)
  show ?thesis
  proof (cases "draft_status d")
    case Active
    with assms(3) e' show ?thesis
      using handle_active_evolves
        [OF assms(1), of "ObservationId u" v "spec_min_open_confidence spec" d now]
      by (auto simp: signal_effect_def)
  next
    case Cleared
    with assms(3) e' show ?thesis
      using handle_cleared_frame [OF assms(1), of "ObservationId u" d now]
      by (auto simp: signal_effect_def evolves_refl)
  qed
qed

section \<open>Building the engine\<close>

lemma open_map_of_fps:
  "open_map_of m incs \<noteq> Panicked \<longleftrightarrow>
     distinct (map inc_fingerprint incs) \<and> (\<forall>i \<in> set incs. hm_get m (inc_fingerprint i) = None)"
proof (induction m incs rule: open_map_of.induct)
  case (2 m inc rest)
  have "(\<forall>i \<in> set rest. hm_get (hm_insert (inc_fingerprint inc) inc m) (inc_fingerprint i) = None) \<longleftrightarrow>
      inc_fingerprint inc \<notin> inc_fingerprint ` set rest \<and>
      (\<forall>i \<in> set rest. hm_get m (inc_fingerprint i) = None)"
    by (auto simp: image_iff)
  with 2 show ?case
    by (auto simp: Let_def)
qed simp

lemma open_map_of_get:
  "open_map_of m incs = Done m' \<Longrightarrow>
     hm_get m' fp = Some i \<longleftrightarrow> hm_get m fp = Some i \<or> i \<in> set incs \<and> inc_fingerprint i = fp"
proof (induction m incs rule: open_map_of.induct)
  case (2 m inc rest)
  then have new: "hm_get m (inc_fingerprint inc) = None"
    and rest: "open_map_of (hm_insert (inc_fingerprint inc) inc m) rest = Done m'"
    by (auto simp: Let_def split: if_splits)
  from 2(1) [OF refl _ rest] new show ?case
    by auto
qed simp

lemma open_map_of_wf: "open_map_of m incs = Done m' \<Longrightarrow> hm_wf m \<Longrightarrow> hm_wf m'"
  by (induction m incs rule: open_map_of.induct) (auto simp: Let_def split: if_splits)

lemma incident_engine_new_DoneD:
  assumes "incident_engine_new kinds sidecar source incs = Done e"
  shows "hm_get (eng_open_incidents e) fp = Some i \<longleftrightarrow> i \<in> set incs \<and> inc_fingerprint i = fp"
    and "hm_wf (eng_open_incidents e)" and "eng_kinds e = kinds" and "eng_signal_source e = source"
  using assms
  by (auto simp: incident_engine_new_def open_map_of_get open_map_of_wf split: run.splits)

section \<open>Properties\<close>

text \<open>C1. The engine follows the lifecycle protocol.
  Over any sequence of commands no handler panics, and for every fingerprint the
  lifecycle events the engine emits are a run of the lifecycle automaton from the
  engine's view of that fingerprint before to its view after: at most one incident
  is open per fingerprint, \<open>Opened\<close> only when none is, \<open>Escalated\<close> only upwards from
  the current severity, \<open>Resolved\<close> only for the incident that is open.\<close>

theorem engine_lifecycle_protocol:
  assumes "engine_inv e"
  shows "\<exists>e' evs. engine_run e inputs = Done (e', evs) \<and> engine_inv e' \<and>
    (\<forall>fp. lifecycle_run (view e fp) (lifecycle_for fp evs) = Some (view e' fp))"
  using assms
proof (induction inputs arbitrary: e)
  case (Cons x inputs)
  obtain u v cmd now where x: "x = (u, v, cmd, now)" by (metis surj_pair)
  obtain e1 r where h: "engine_handle u v e cmd now = Done (e1, r)"
    using engine_handle_not_panicked by (metis run.exhaust surj_pair)
  note sim = engine_handle_simulates [OF Cons.prems h]
  from Cons.IH [OF engine_handle_inv [OF Cons.prems h]] obtain e' evs where
    rest: "engine_run e1 inputs = Done (e', evs)" "engine_inv e'"
      "\<forall>fp. lifecycle_run (view e1 fp) (lifecycle_for fp evs) = Some (view e' fp)"
    by blast
  with x h sim show ?case
    by (simp add: lifecycle_for_append lifecycle_run_append)
qed simp

definition sample_source :: observation_source where
  "sample_source = \<lparr>src_sidecar_id = SidecarId 1,
     src_collector = \<lparr>cref_id = CollectorId ''engine'', cref_integration = BitcoinCoreZmq,
       cref_instance_label = ''engine''\<rparr>\<rparr>"

definition sample_engine :: incident_engine where
  "sample_engine = \<lparr>eng_kinds = builtin_registry, eng_sidecar_id = SidecarId 1,
     eng_signal_source = sample_source, eng_open_incidents = []\<rparr>"

definition sample_draft :: "signal_severity \<Rightarrow> signal_status \<Rightarrow> incident_signal_draft" where
  "sample_draft sev st =
     \<lparr>draft_subject = BitcoinNode (BitcoinNodeId ''n''),
      draft_signal = SignalName ''bitcoin.no_peers.signal'',
      draft_kind = IncidentKind BITCOIN_NO_PEERS, draft_dimension = None, draft_severity = sev,
      draft_status = st, draft_confidence = ConfHigh, draft_evidence = []\<rparr>"

definition sample_inputs :: "engine_input list" where
  "sample_inputs =
     [(1, 2, RecordSignal (sample_draft SigWarning Active), 10),
      (3, 4, RecordSignal (sample_draft SigCritical Active), 20),
      (5, 6, RecordSignal (sample_draft SigCritical Cleared), 30)]"

lemma sample_draft_sel [simp]:
  "draft_kind (sample_draft sev st) = IncidentKind BITCOIN_NO_PEERS"
  "draft_dimension (sample_draft sev st) = None"
  "draft_severity (sample_draft sev st) = sev"
  "draft_status (sample_draft sev st) = st"
  "draft_confidence (sample_draft sev st) = ConfHigh"
  "draft_subject (sample_draft sev st) = BitcoinNode (BitcoinNodeId ''n'')"
  by (simp_all add: sample_draft_def)

lemma builtin_no_peers_spec:
  "registry_lookup builtin_registry (IncidentKind BITCOIN_NO_PEERS) =
     Some \<lparr>spec_name = IncidentKind BITCOIN_NO_PEERS, spec_allowed_subjects = [SkBitcoinNode],
       spec_allows_dimension = False, spec_dimension_label = None,
       spec_min_open_confidence = ConfHigh, spec_source = Builtin\<rparr>"
  by (simp add: builtin_registry_def registry_lookup_def default_kinds_def default_kind_def
      parse_entry_def parse_subject_kind_def well_known_kind_defs)

lemma sample_draft_valid: "validate_draft builtin_registry (sample_draft sev st) = Ok ()"
  by (simp add: validate_draft_iff builtin_no_peers_spec)

lemma sample_run:
  "\<exists>e' evs. engine_run sample_engine sample_inputs = Done (e', evs) \<and>
     map notification_kind (lifecycle_for (compute_fingerprint (sample_draft SigWarning Active)) evs) =
       [KindOpened, KindEscalated, KindResolved] \<and> eng_open_incidents e' = []"
  by (simp add: sample_inputs_def sample_engine_def sample_draft_valid builtin_no_peers_spec
      engine_handle_def handle_record_signal_cases signal_effect_def handle_active_def
      handle_cleared_def Let_def events_of_def compute_fingerprint_def
      max_severity_warning_critical word_less_nat_alt hm_get_def hm_insert_def hm_remove_def)

theorem engine_lifecycle_protocol_witness:
  "engine_inv sample_engine \<and>
   (\<exists>e' evs. engine_run sample_engine sample_inputs = Done (e', evs) \<and> engine_inv e' \<and>
      (\<forall>fp. lifecycle_run None (lifecycle_for fp evs) = Some (view e' fp)))"
proof -
  have inv: "engine_inv sample_engine"
    by (simp add: engine_inv_def open_map_ok_def sample_engine_def)
  moreover have "view sample_engine fp = None" for fp
    by (simp add: view_def sample_engine_def)
  ultimately show ?thesis
    using engine_lifecycle_protocol [OF inv, of sample_inputs] by simp
qed

text \<open>C2. The open map is the replay of the touched incidents.
  After any sequence of commands the open map equals the map before it with every
  \<open>IncidentTouched\<close> event applied in order: open incidents upserted by fingerprint,
  resolved ones removed. A reader who only sees the events knows the engine's state.\<close>

theorem engine_state_is_replay:
  assumes "engine_inv e"
  shows "\<exists>e' evs. engine_run e inputs = Done (e', evs) \<and>
    hm_get (eng_open_incidents e') = foldl replay (hm_get (eng_open_incidents e)) evs"
proof -
  obtain e' evs where "engine_run e inputs = Done (e', evs)"
    using engine_run_total by (metis run.exhaust surj_pair)
  with engine_run_replay [OF this assms] show ?thesis
    by blast
qed

theorem engine_state_is_replay_witness:
  "\<exists>e' evs. engine_run sample_engine sample_inputs = Done (e', evs) \<and>
     hm_get (eng_open_incidents e') = foldl replay Map.empty evs"
proof -
  have inv: "engine_inv sample_engine"
    by (simp add: engine_inv_def open_map_ok_def sample_engine_def)
  show ?thesis
    using engine_state_is_replay [OF inv, of sample_inputs] by (simp add: sample_engine_def)
qed

text \<open>C4. An open incident only grows.
  If a fingerprint is open before and after a command, the two incidents have the
  same id, kind, subject, opening time and summary; the severity has not dropped,
  and the recorded signals and the evidence extend the earlier ones.\<close>

theorem engine_open_incident_grows:
  assumes "hm_get (eng_open_incidents e) fp = Some i"
    and "engine_handle u v e cmd now = Done (e', r)"
    and "hm_get (eng_open_incidents e') fp = Some j"
  shows "evolves i j"
  using assms by (rule engine_handle_evolves)

theorem engine_open_incident_grows_witness:
  "\<exists>e1 e2 r i j. engine_handle 3 4 e1 (RecordSignal (sample_draft SigCritical Active)) 20 = Done (e2, r) \<and>
     hm_get (eng_open_incidents e1) (compute_fingerprint (sample_draft SigWarning Active)) = Some i \<and>
     hm_get (eng_open_incidents e2) (compute_fingerprint (sample_draft SigWarning Active)) = Some j \<and>
     inc_severity i = SevWarning \<and> inc_severity j = SevCritical \<and> evolves i j"
proof -
  let ?fp = "compute_fingerprint (sample_draft SigWarning Active)"
  obtain e1 r1 i where s1:
    "engine_handle 1 2 sample_engine (RecordSignal (sample_draft SigWarning Active)) 10 = Done (e1, r1)"
    "hm_get (eng_open_incidents e1) ?fp = Some i" "eng_kinds e1 = builtin_registry"
    "inc_severity i = SevWarning"
    by (simp add: sample_engine_def sample_draft_valid builtin_no_peers_spec
        engine_handle_def handle_record_signal_cases signal_effect_def handle_active_def
        Let_def compute_fingerprint_def)
  moreover obtain e2 r2 j where s2:
    "engine_handle 3 4 e1 (RecordSignal (sample_draft SigCritical Active)) 20 = Done (e2, r2)"
    "hm_get (eng_open_incidents e2) ?fp = Some j" "inc_severity j = SevCritical"
    using s1(2,3,4)
    by (simp add: sample_draft_valid builtin_no_peers_spec
        engine_handle_def handle_record_signal_cases signal_effect_def handle_active_def
        Let_def compute_fingerprint_def max_severity_warning_critical)
  ultimately show ?thesis
    using engine_open_incident_grows [OF s1(2) s2(1,2)] by blast
qed

text \<open>Building the engine panics exactly on a duplicate fingerprint.
  Otherwise the open map holds exactly the given incidents, each under its own
  fingerprint.\<close>

lemma incident_engine_new_spec:
  "(incident_engine_new kinds sidecar source incs = Panicked \<longleftrightarrow>
      \<not> distinct (map inc_fingerprint incs)) \<and>
   (\<forall>e. incident_engine_new kinds sidecar source incs = Done e \<longrightarrow>
      eng_kinds e = kinds \<and> eng_signal_source e = source \<and>
      (\<forall>fp i. hm_get (eng_open_incidents e) fp = Some i \<longleftrightarrow> i \<in> set incs \<and> inc_fingerprint i = fp))"
  using open_map_of_fps [of "[]" incs]
  by (auto simp: incident_engine_new_def open_map_of_get split: run.splits)

text \<open>The order of the events of one accepted command.\<close>

fun event_order :: "incident_event list \<Rightarrow> bool" where
  "event_order [SignalRecorded _] = True"
| "event_order [SignalRecorded _, DraftBelowConfidenceFloor _ _ _] = True"
| "event_order [SignalRecorded _, IncidentTouched _] = True"
| "event_order [SignalRecorded _, IncidentTouched i, Lifecycle l] = (lifecycle_incident l = i)"
| "event_order _ = False"

lemma signal_effect_order: "event_order (SignalRecorded obs # snd (signal_effect u v e spec d now))"
  by (cases "draft_status d"; cases "hm_get (eng_open_incidents e) (compute_fingerprint d)")
    (simp_all add: signal_effect_def handle_active_def handle_cleared_def Let_def)

text \<open>C3. What the handler accepts.
  A signal is accepted exactly when the registry knows its kind, allows its subject
  and agrees on the dimension; a rejected command, the two unimplemented ones
  included, leaves the engine as it was. An accepted command emits
  \<open>SignalRecorded\<close> first, then at most \<open>IncidentTouched\<close> and one lifecycle event of
  that very incident, or the single note that the confidence is below the floor.\<close>

theorem engine_handle_outcome:
  "\<exists>e' r. engine_handle u v e cmd now = Done (e', r) \<and>
     ((\<exists>evs. r = Ok evs) \<longleftrightarrow> (\<exists>d. cmd = RecordSignal d \<and> validate_draft (eng_kinds e) d = Ok ())) \<and>
     (case r of Err _ \<Rightarrow> e' = e | Ok evs \<Rightarrow> event_order evs)"
proof (cases "\<exists>d. cmd = RecordSignal d \<and> validate_draft (eng_kinds e) d = Ok ()")
  case False
  then show ?thesis
    by (cases cmd) (auto simp: engine_handle_def handle_record_signal_cases split: sum.split)
next
  case True
  then show ?thesis
    by (auto simp: engine_handle_def handle_record_signal_cases Let_def signal_effect_order)
qed

end
