(* ===== verification/Projections.thy ===== *)
theory Projections
  imports Incident_Engine
begin

text \<open>
  The six read-model projections (\<open>read_models/projections\<close>). Four keep the latest
  observation per key, two keep bounded histories. The locales \<open>latest_projection\<close>
  and \<open>ring_projection\<close> state the two contracts, relate a projection to the whole
  history of applied observations, and are interpreted on the six models.
\<close>

section \<open>The projections\<close>

record 'v projected =
  pr_value :: 'v
  pr_observation_id :: observation_id
  pr_observed_at :: datetime

datatype projection_error = InvalidPayload string | InternalConsistency string

definition project :: "observation \<Rightarrow> 'v \<Rightarrow> 'v projected" where
  "project obs v =
     \<lparr>pr_value = v, pr_observation_id = obs_id obs, pr_observed_at = obs_observed_at obs\<rparr>"

subsection \<open>Latest state\<close>

record state_projection =
  sp_by_key :: "(entity_ref \<times> state_name, state_observation projected) hash_map"

definition state_projection_new :: state_projection where
  "state_projection_new = \<lparr>sp_by_key = []\<rparr>"

definition get_latest ::
    "state_projection \<Rightarrow> entity_ref \<Rightarrow> state_name \<Rightarrow> state_observation projected option" where
  "get_latest p subject name = hm_get (sp_by_key p) (subject, name)"

definition state_for_subject :: "state_projection \<Rightarrow> entity_ref \<Rightarrow> state_observation projected list" where
  "state_for_subject p subject = map snd (filter (\<lambda>((s, _), _). s = subject) (sp_by_key p))"

definition state_apply :: "state_projection \<Rightarrow> observation \<Rightarrow> projection_error + state_projection" where
  "state_apply p obs =
     (case obs_payload obs of
        PState state \<Rightarrow>
          let key = (obs_subject obs, state_observation_name state) in
          (case hm_get (sp_by_key p) key of
             Some existing \<Rightarrow>
               if pr_observed_at existing \<ge> obs_observed_at obs then Ok p
               else Ok (p\<lparr>sp_by_key := hm_insert key (project obs state) (sp_by_key p)\<rparr>)
           | None \<Rightarrow> Ok (p\<lparr>sp_by_key := hm_insert key (project obs state) (sp_by_key p)\<rparr>))
      | _ \<Rightarrow> Ok p)"

subsection \<open>Latest health check\<close>

record health_projection =
  hp_by_key :: "(entity_ref \<times> health_target_id, health_check_observation projected) hash_map"

definition health_projection_new :: health_projection where
  "health_projection_new = \<lparr>hp_by_key = []\<rparr>"

definition current_health ::
    "health_projection \<Rightarrow> entity_ref \<Rightarrow> health_target_id \<Rightarrow> health_check_observation projected option" where
  "current_health p subject target = hm_get (hp_by_key p) (subject, target)"

definition health_for_subject ::
    "health_projection \<Rightarrow> entity_ref \<Rightarrow> health_check_observation projected list" where
  "health_for_subject p subject = map snd (filter (\<lambda>((s, _), _). s = subject) (hp_by_key p))"

definition health_apply :: "health_projection \<Rightarrow> observation \<Rightarrow> projection_error + health_projection" where
  "health_apply p obs =
     (case obs_payload obs of
        PHealth health \<Rightarrow>
          let key = (obs_subject obs, health_target health) in
          (case hm_get (hp_by_key p) key of
             Some existing \<Rightarrow>
               if pr_observed_at existing \<ge> obs_observed_at obs then Ok p
               else Ok (p\<lparr>hp_by_key := hm_insert key (project obs health) (hp_by_key p)\<rparr>)
           | None \<Rightarrow> Ok (p\<lparr>hp_by_key := hm_insert key (project obs health) (hp_by_key p)\<rparr>))
      | _ \<Rightarrow> Ok p)"

subsection \<open>Latest capability\<close>

record capability_projection =
  cp_by_key :: "(entity_ref \<times> capability_name, capability_observation projected) hash_map"

definition capability_projection_new :: capability_projection where
  "capability_projection_new = \<lparr>cp_by_key = []\<rparr>"

definition current_capability ::
    "capability_projection \<Rightarrow> entity_ref \<Rightarrow> capability_name \<Rightarrow> capability_observation projected option" where
  "current_capability p subject capability = hm_get (cp_by_key p) (subject, capability)"

definition capability_for_subject ::
    "capability_projection \<Rightarrow> entity_ref \<Rightarrow> capability_observation projected list" where
  "capability_for_subject p subject = map snd (filter (\<lambda>((s, _), _). s = subject) (cp_by_key p))"

definition capability_apply ::
    "capability_projection \<Rightarrow> observation \<Rightarrow> projection_error + capability_projection" where
  "capability_apply p obs =
     (case obs_payload obs of
        PCapability c \<Rightarrow>
          let key = (obs_subject obs, cap_capability c) in
          (case hm_get (cp_by_key p) key of
             Some existing \<Rightarrow>
               if pr_observed_at existing \<ge> obs_observed_at obs then Ok p
               else Ok (p\<lparr>cp_by_key := hm_insert key (project obs c) (cp_by_key p)\<rparr>)
           | None \<Rightarrow> Ok (p\<lparr>cp_by_key := hm_insert key (project obs c) (cp_by_key p)\<rparr>))
      | _ \<Rightarrow> Ok p)"

subsection \<open>Latest incident signal\<close>

record incident_signal_projection =
  isp_by_key :: "(entity_ref \<times> signal_name, incident_signal_observation projected) hash_map"

definition incident_signal_projection_new :: incident_signal_projection where
  "incident_signal_projection_new = \<lparr>isp_by_key = []\<rparr>"

definition current_signal ::
    "incident_signal_projection \<Rightarrow> entity_ref \<Rightarrow> signal_name \<Rightarrow>
     incident_signal_observation projected option" where
  "current_signal p subject signal = hm_get (isp_by_key p) (subject, signal)"

definition active_signals_for ::
    "incident_signal_projection \<Rightarrow> entity_ref \<Rightarrow> incident_signal_observation projected list" where
  "active_signals_for p subject =
     map snd (filter (\<lambda>((s, _), v). s = subject \<and> sig_status (pr_value v) = Active) (isp_by_key p))"

definition active_signals_for_incident_kind ::
    "incident_signal_projection \<Rightarrow> entity_ref \<Rightarrow> incident_kind \<Rightarrow>
     incident_signal_observation projected list" where
  "active_signals_for_incident_kind p subject kind =
     map snd (filter (\<lambda>((s, _), v). s = subject \<and> sig_status (pr_value v) = Active \<and>
       sig_incident_kind (pr_value v) = kind) (isp_by_key p))"

definition incident_signal_apply ::
    "incident_signal_projection \<Rightarrow> observation \<Rightarrow> projection_error + incident_signal_projection" where
  "incident_signal_apply p obs =
     (case obs_payload obs of
        PIncidentSignal signal \<Rightarrow>
          let key = (obs_subject obs, sig_signal signal) in
          (case hm_get (isp_by_key p) key of
             Some existing \<Rightarrow>
               if pr_observed_at existing \<ge> obs_observed_at obs then Ok p
               else Ok (p\<lparr>isp_by_key := hm_insert key (project obs signal) (isp_by_key p)\<rparr>)
           | None \<Rightarrow> Ok (p\<lparr>isp_by_key := hm_insert key (project obs signal) (isp_by_key p)\<rparr>))
      | _ \<Rightarrow> Ok p)"

subsection \<open>Metric rings\<close>

definition DEFAULT_METRIC_SERIES_CAPACITY :: nat where
  "DEFAULT_METRIC_SERIES_CAPACITY = 1000"

record metric_projection =
  mpr_capacity :: nat
  mpr_by_key :: "(entity_ref \<times> metric_name, metric_observation projected list) hash_map"

definition metric_with_capacity :: "nat \<Rightarrow> metric_projection run" where
  "metric_with_capacity cap =
     (if cap > 0 then Done \<lparr>mpr_capacity = cap, mpr_by_key = []\<rparr> else Panicked)"

definition latest_metric ::
    "metric_projection \<Rightarrow> entity_ref \<Rightarrow> metric_name \<Rightarrow> metric_observation projected option" where
  "latest_metric p subject name =
     (case hm_get (mpr_by_key p) (subject, name) of
        None \<Rightarrow> None
      | Some q \<Rightarrow> if q = [] then None else Some (last q))"

definition metric_samples_since ::
    "metric_projection \<Rightarrow> entity_ref \<Rightarrow> metric_name \<Rightarrow> datetime \<Rightarrow> metric_observation projected list" where
  "metric_samples_since p subject name since =
     (case hm_get (mpr_by_key p) (subject, name) of
        None \<Rightarrow> []
      | Some q \<Rightarrow> filter (\<lambda>s. pr_observed_at s > since) q)"

definition unchanged_for ::
    "metric_projection \<Rightarrow> entity_ref \<Rightarrow> metric_name \<Rightarrow> metric_observation projected list option" where
  "unchanged_for p subject name =
     (case hm_get (mpr_by_key p) (subject, name) of
        None \<Rightarrow> None
      | Some q \<Rightarrow>
          if q = [] then None
          else let latest_value = met_value (pr_value (last q));
                   run = takeWhile (\<lambda>s. metric_value_eq (met_value (pr_value s)) latest_value) (rev q)
               in Some (rev run))"

definition metric_apply :: "metric_projection \<Rightarrow> observation \<Rightarrow> projection_error + metric_projection" where
  "metric_apply p obs =
     (case obs_payload obs of
        PMetric metric \<Rightarrow>
          let key = (obs_subject obs, met_name metric);
              q = (case hm_get (mpr_by_key p) key of None \<Rightarrow> [] | Some q \<Rightarrow> q)
          in Ok (p\<lparr>mpr_by_key :=
               hm_insert key (push_bounded (mpr_capacity p) (project obs metric) q) (mpr_by_key p)\<rparr>)
      | _ \<Rightarrow> Ok p)"

subsection \<open>Heartbeat history\<close>

definition DEFAULT_HEARTBEAT_CAPACITY :: nat where
  "DEFAULT_HEARTBEAT_CAPACITY = 256"

record heartbeat_projection =
  hbp_capacity :: nat
  hbp_history :: "heartbeat_observation projected list"

definition heartbeat_with_capacity :: "nat \<Rightarrow> heartbeat_projection run" where
  "heartbeat_with_capacity cap =
     (if cap > 0 then Done \<lparr>hbp_capacity = cap, hbp_history = []\<rparr> else Panicked)"

definition latest_heartbeat :: "heartbeat_projection \<Rightarrow> heartbeat_observation projected option" where
  "latest_heartbeat p = (if hbp_history p = [] then None else Some (last (hbp_history p)))"

definition heartbeats_since ::
    "heartbeat_projection \<Rightarrow> datetime \<Rightarrow> heartbeat_observation projected list" where
  "heartbeats_since p since = filter (\<lambda>s. pr_observed_at s > since) (hbp_history p)"

definition heartbeat_apply ::
    "heartbeat_projection \<Rightarrow> observation \<Rightarrow> projection_error + heartbeat_projection" where
  "heartbeat_apply p obs =
     (case obs_payload obs of
        PHeartbeat hb \<Rightarrow>
          Ok (p\<lparr>hbp_history := push_bounded (hbp_capacity p) (project obs hb) (hbp_history p)\<rparr>)
      | _ \<Rightarrow> Ok p)"

section \<open>Histories\<close>

text \<open>Applying a sequence of observations, stopping at the first error.\<close>

fun apply_all :: "('m \<Rightarrow> observation \<Rightarrow> 'e + 'm) \<Rightarrow> 'm \<Rightarrow> observation list \<Rightarrow> 'e + 'm" where
  "apply_all f m [] = Ok m"
| "apply_all f m (obs # rest) = (case f m obs of Err e \<Rightarrow> Err e | Ok m' \<Rightarrow> apply_all f m' rest)"

text \<open>The samples of key \<open>k\<close> in a history, and the newest one: the first of those with the
  greatest timestamp.\<close>

fun samples :: "(observation \<Rightarrow> ('k \<times> 'v) option) \<Rightarrow> 'k \<Rightarrow> observation list \<Rightarrow> 'v projected list" where
  "samples entry k [] = []"
| "samples entry k (obs # rest) =
     (case entry obs of
        None \<Rightarrow> samples entry k rest
      | Some (k', v) \<Rightarrow>
          if k' = k then project obs v # samples entry k rest else samples entry k rest)"

fun newest :: "'v projected option \<Rightarrow> 'v projected list \<Rightarrow> 'v projected option" where
  "newest acc [] = acc"
| "newest acc (p # ps) =
     newest (case acc of
               None \<Rightarrow> Some p
             | Some q \<Rightarrow> if pr_observed_at q \<ge> pr_observed_at p then Some q else Some p) ps"

lemma newest_Some:
  "newest (Some q) ps = Some p \<Longrightarrow>
     p \<in> set (q # ps) \<and> (\<forall>x \<in> set (q # ps). pr_observed_at x \<le> pr_observed_at p)"
  by (induction ps arbitrary: q) (force split: if_splits)+

lemma newest_Some_ex: "\<exists>p. newest (Some q) ps = Some p"
  by (induction ps arbitrary: q) auto

lemma newest_None_iff: "newest None ps = None \<longleftrightarrow> ps = []"
proof (cases ps)
  case (Cons p ps')
  then show ?thesis
    using newest_Some_ex [of p ps'] by auto
qed simp

lemma newest_maximum:
  "newest None ps = Some p \<Longrightarrow> p \<in> set ps \<and> (\<forall>x \<in> set ps. pr_observed_at x \<le> pr_observed_at p)"
  by (cases ps) (auto dest: newest_Some)

lemma newest_order_independent:
  assumes "set ps = set qs" and "inj_on pr_observed_at (set ps)"
  shows "newest None ps = newest None qs"
proof (cases "newest None ps")
  case None
  then show ?thesis using assms(1) by (simp add: newest_None_iff)
next
  case (Some p)
  then obtain q where q: "newest None qs = Some q"
    using assms(1) by (metis newest_None_iff not_Some_eq set_empty)
  have "pr_observed_at p = pr_observed_at q"
    using newest_maximum [OF Some] newest_maximum [OF q] assms(1) by (intro antisym) auto
  then have "p = q"
    using newest_maximum [OF Some] newest_maximum [OF q] assms by (auto dest: inj_onD)
  with Some q show ?thesis by simp
qed

lemma samples_set:
  "p \<in> set (samples entry k obss) \<longleftrightarrow>
     (\<exists>obs \<in> set obss. \<exists>v. entry obs = Some (k, v) \<and> p = project obs v)"
  by (induction obss) (auto split: option.split)

section \<open>The two contracts\<close>

locale latest_projection =
  fixes upd :: "'m \<Rightarrow> observation \<Rightarrow> projection_error + 'm"
    and get :: "'m \<Rightarrow> 'k \<Rightarrow> 'v projected option"
    and entry :: "observation \<Rightarrow> ('k \<times> 'v) option"
    and empty :: 'm
  assumes get_empty: "get empty k = None"
    and apply_skip: "entry obs = None \<Longrightarrow> upd m obs = Ok m"
    and apply_entry: "entry obs = Some (k, v) \<Longrightarrow>
      \<exists>m'. upd m obs = Ok m' \<and>
        (\<forall>k'. get m' k' = (if k' = k then newest (get m k) [project obs v] else get m k'))"
begin

lemma apply_total: "\<exists>m'. upd m obs = Ok m'"
  using apply_skip apply_entry by (metis not_Some_eq surj_pair)

lemma apply_all_newest:
  "\<exists>m'. apply_all upd m obss = Ok m' \<and>
     (\<forall>k. get m' k = newest (get m k) (samples entry k obss))"
proof (induction obss arbitrary: m)
  case (Cons obs obss)
  show ?case
  proof (cases "entry obs")
    case None
    with Cons.IH [of m] apply_skip show ?thesis by simp
  next
    case (Some kv)
    obtain k v where kv: "kv = (k, v)" by (cases kv)
    obtain m1 where m1: "upd m obs = Ok m1"
      "\<And>k'. get m1 k' = (if k' = k then newest (get m k) [project obs v] else get m k')"
      using apply_entry [of obs k v m] Some kv by auto
    with Cons.IH [of m1] Some kv show ?thesis by auto
  qed
qed simp

lemma history:
  "\<exists>m. apply_all upd empty obss = Ok m \<and> (\<forall>k. get m k = newest None (samples entry k obss))"
  using apply_all_newest [of empty obss] by (simp add: get_empty)

lemma history_order_independent:
  assumes "set obss = set obss'" and "inj_on pr_observed_at (set (samples entry k obss))"
    and "apply_all upd empty obss = Ok m" and "apply_all upd empty obss' = Ok m'"
  shows "get m k = get m' k"
proof -
  have "set (samples entry k obss) = set (samples entry k obss')"
    using assms(1) by (auto simp: samples_set)
  with history [of obss] history [of obss'] assms newest_order_independent show ?thesis
    by (metis sum.inject(2))
qed

end

locale ring_projection =
  fixes upd :: "'m \<Rightarrow> observation \<Rightarrow> projection_error + 'm"
    and series :: "'m \<Rightarrow> 'k \<Rightarrow> 'v projected list"
    and entry :: "observation \<Rightarrow> ('k \<times> 'v) option"
    and capacity :: "'m \<Rightarrow> nat"
  assumes ring_skip: "entry obs = None \<Longrightarrow> upd m obs = Ok m"
    and ring_entry: "entry obs = Some (k, v) \<Longrightarrow>
      \<exists>m'. upd m obs = Ok m' \<and> capacity m' = capacity m \<and>
        (\<forall>k'. series m' k' =
           (if k' = k then push_bounded (capacity m) (project obs v) (series m k) else series m k'))"
begin

lemma ring_history:
  assumes "\<And>k. series m k = last_n (capacity m) (h k)"
  shows "\<exists>m'. apply_all upd m obss = Ok m' \<and> capacity m' = capacity m \<and>
    (\<forall>k. series m' k = last_n (capacity m) (h k @ samples entry k obss))"
  using assms
proof (induction obss arbitrary: m h)
  case (Cons obs obss)
  show ?case
  proof (cases "entry obs")
    case None
    with Cons.IH [of m h] Cons.prems ring_skip show ?thesis by simp
  next
    case (Some kv)
    obtain k v where kv: "kv = (k, v)" by (cases kv)
    obtain m1 where m1: "upd m obs = Ok m1" "capacity m1 = capacity m"
      "\<And>k'. series m1 k' =
         (if k' = k then push_bounded (capacity m) (project obs v) (series m k) else series m k')"
      using ring_entry [of obs k v m] Some kv by auto
    have "series m1 k' = last_n (capacity m1) ((h(k := h k @ [project obs v])) k')" for k'
      using m1 Cons.prems by (simp add: push_bounded_last_n)
    from Cons.IH [OF this] m1 Some kv show ?thesis
      by (auto split: if_splits)
  qed
qed simp

end

section \<open>The six models meet their contract\<close>

text \<open>What an observation contributes to each projection: its key and its value.\<close>

definition state_entry :: "observation \<Rightarrow> ((entity_ref \<times> state_name) \<times> state_observation) option" where
  "state_entry obs = (case obs_payload obs of
     PState st \<Rightarrow> Some ((obs_subject obs, state_observation_name st), st) | _ \<Rightarrow> None)"

definition health_entry ::
    "observation \<Rightarrow> ((entity_ref \<times> health_target_id) \<times> health_check_observation) option" where
  "health_entry obs = (case obs_payload obs of
     PHealth h \<Rightarrow> Some ((obs_subject obs, health_target h), h) | _ \<Rightarrow> None)"

definition capability_entry ::
    "observation \<Rightarrow> ((entity_ref \<times> capability_name) \<times> capability_observation) option" where
  "capability_entry obs = (case obs_payload obs of
     PCapability c \<Rightarrow> Some ((obs_subject obs, cap_capability c), c) | _ \<Rightarrow> None)"

definition signal_entry ::
    "observation \<Rightarrow> ((entity_ref \<times> signal_name) \<times> incident_signal_observation) option" where
  "signal_entry obs = (case obs_payload obs of
     PIncidentSignal g \<Rightarrow> Some ((obs_subject obs, sig_signal g), g) | _ \<Rightarrow> None)"

definition metric_entry ::
    "observation \<Rightarrow> ((entity_ref \<times> metric_name) \<times> metric_observation) option" where
  "metric_entry obs = (case obs_payload obs of
     PMetric m \<Rightarrow> Some ((obs_subject obs, met_name m), m) | _ \<Rightarrow> None)"

definition heartbeat_entry :: "observation \<Rightarrow> (unit \<times> heartbeat_observation) option" where
  "heartbeat_entry obs = (case obs_payload obs of PHeartbeat h \<Rightarrow> Some ((), h) | _ \<Rightarrow> None)"

lemmas entry_defs =
  state_entry_def health_entry_def capability_entry_def signal_entry_def metric_entry_def
  heartbeat_entry_def

interpretation state_view: latest_projection
  state_apply "\<lambda>p (subject, name). get_latest p subject name" state_entry state_projection_new
  by unfold_locales
    (auto simp: get_latest_def state_projection_new_def state_apply_def state_entry_def project_def
      Let_def split: observation_payload.splits option.split)

interpretation health_view: latest_projection
  health_apply "\<lambda>p (subject, target). current_health p subject target" health_entry
  health_projection_new
  by unfold_locales
    (auto simp: current_health_def health_projection_new_def health_apply_def health_entry_def
      project_def Let_def split: observation_payload.splits option.split)

interpretation capability_view: latest_projection
  capability_apply "\<lambda>p (subject, name). current_capability p subject name" capability_entry
  capability_projection_new
  by unfold_locales
    (auto simp: current_capability_def capability_projection_new_def capability_apply_def
      capability_entry_def project_def Let_def split: observation_payload.splits option.split)

interpretation signal_view: latest_projection
  incident_signal_apply "\<lambda>p (subject, name). current_signal p subject name" signal_entry
  incident_signal_projection_new
  by unfold_locales
    (auto simp: current_signal_def incident_signal_projection_new_def incident_signal_apply_def
      signal_entry_def project_def Let_def split: observation_payload.splits option.split)

definition metric_series ::
    "metric_projection \<Rightarrow> entity_ref \<times> metric_name \<Rightarrow> metric_observation projected list" where
  "metric_series p k = (case hm_get (mpr_by_key p) k of None \<Rightarrow> [] | Some q \<Rightarrow> q)"

interpretation metric_view: ring_projection metric_apply metric_series metric_entry mpr_capacity
  by unfold_locales
    (auto simp: metric_series_def metric_apply_def metric_entry_def Let_def
      split: observation_payload.splits)

interpretation heartbeat_view: ring_projection
  heartbeat_apply "\<lambda>p u. hbp_history p" heartbeat_entry hbp_capacity
  by unfold_locales
    (auto simp: heartbeat_apply_def heartbeat_entry_def split: observation_payload.splits)

section \<open>Queries on a ring\<close>

lemma latest_metric_series:
  "latest_metric p s n = (if metric_series p (s, n) = [] then None else Some (last (metric_series p (s, n))))"
  by (simp add: latest_metric_def metric_series_def split: option.split)

lemma metric_samples_since_series:
  "metric_samples_since p s n since = filter (\<lambda>x. pr_observed_at x > since) (metric_series p (s, n))"
  by (simp add: metric_samples_since_def metric_series_def split: option.split)

text \<open>
  The trailing run: the longest suffix of the series whose values all equal the
  latest one. It stops at the first sample that differs.
\<close>

lemma unchanged_for_suffix:
  assumes "unchanged_for p s n = Some run"
  defines "q \<equiv> metric_series p (s, n)"
  defines "same \<equiv> (\<lambda>x. metric_value_eq (met_value (pr_value x)) (met_value (pr_value (last q))))"
  shows "\<exists>old. q = old @ run \<and> (\<forall>x \<in> set run. same x) \<and> (old \<noteq> [] \<longrightarrow> \<not> same (last old))"
proof -
  have q: "q \<noteq> []" "run = rev (takeWhile same (rev q))"
    using assms(1) by (auto simp: unchanged_for_def metric_series_def q_def same_def Let_def
        split: option.splits if_splits)
  let ?old = "rev (dropWhile same (rev q))"
  have "q = ?old @ run"
    using q(2) by (metis rev_append rev_rev_ident takeWhile_dropWhile_id)
  moreover have "\<forall>x \<in> set run. same x"
    using q(2) set_takeWhileD by fastforce
  moreover have "\<not> same (last ?old)" if "?old \<noteq> []"
    using that hd_dropWhile by (metis hd_rev rev_is_Nil_conv rev_rev_ident)
  ultimately show ?thesis by blast
qed

end
