(* ===== verification/Read_Model_Store.thy ===== *)
theory Read_Model_Store
  imports Projections
begin

text \<open>
  The read-model store (\<open>read_models/store.rs\<close>): the six projections behind one
  \<open>apply\<close>, its read-model trait methods, and the typed state accessors
  (\<open>read_models/traits/state_ext.rs\<close>).
\<close>

section \<open>The store\<close>

record read_model_store_config =
  rmc_metric_series_capacity :: nat
  rmc_heartbeat_capacity :: nat

definition read_model_store_config_default :: read_model_store_config where
  "read_model_store_config_default =
     \<lparr>rmc_metric_series_capacity = DEFAULT_METRIC_SERIES_CAPACITY,
      rmc_heartbeat_capacity = DEFAULT_HEARTBEAT_CAPACITY\<rparr>"

datatype apply_error = ProjectionFailed projection_error

record read_model_store =
  rms_state :: state_projection
  rms_metric :: metric_projection
  rms_health :: health_projection
  rms_capability :: capability_projection
  rms_heartbeat :: heartbeat_projection
  rms_incident_signal :: incident_signal_projection

definition read_model_store_new :: "read_model_store_config \<Rightarrow> read_model_store run" where
  "read_model_store_new config =
     (case metric_with_capacity (rmc_metric_series_capacity config) of
        Panicked \<Rightarrow> Panicked
      | Done metric \<Rightarrow>
          (case heartbeat_with_capacity (rmc_heartbeat_capacity config) of
             Panicked \<Rightarrow> Panicked
           | Done heartbeat \<Rightarrow>
               Done \<lparr>rms_state = state_projection_new, rms_metric = metric,
                     rms_health = health_projection_new, rms_capability = capability_projection_new,
                     rms_heartbeat = heartbeat,
                     rms_incident_signal = incident_signal_projection_new\<rparr>))"

definition store_apply :: "read_model_store \<Rightarrow> observation \<Rightarrow> apply_error + read_model_store" where
  "store_apply store obs =
     (case obs_payload obs of
        PState _ \<Rightarrow>
          map_sum ProjectionFailed (\<lambda>p. store\<lparr>rms_state := p\<rparr>) (state_apply (rms_state store) obs)
      | PMetric _ \<Rightarrow>
          map_sum ProjectionFailed (\<lambda>p. store\<lparr>rms_metric := p\<rparr>) (metric_apply (rms_metric store) obs)
      | PHealth _ \<Rightarrow>
          map_sum ProjectionFailed (\<lambda>p. store\<lparr>rms_health := p\<rparr>) (health_apply (rms_health store) obs)
      | PCapability _ \<Rightarrow>
          map_sum ProjectionFailed (\<lambda>p. store\<lparr>rms_capability := p\<rparr>)
            (capability_apply (rms_capability store) obs)
      | PHeartbeat _ \<Rightarrow>
          map_sum ProjectionFailed (\<lambda>p. store\<lparr>rms_heartbeat := p\<rparr>)
            (heartbeat_apply (rms_heartbeat store) obs)
      | PIncidentSignal _ \<Rightarrow>
          map_sum ProjectionFailed (\<lambda>p. store\<lparr>rms_incident_signal := p\<rparr>)
            (incident_signal_apply (rms_incident_signal store) obs)
      | PEvent _ \<Rightarrow> Ok store
      | PInventory _ \<Rightarrow> Ok store
      | PTransition _ \<Rightarrow> Ok store
      | PDiagnosis _ \<Rightarrow> Ok store)"

section \<open>Trait methods\<close>

definition store_latest_state where
  "store_latest_state store subject name = get_latest (rms_state store) subject name"

definition store_states_for where
  "store_states_for store subject = state_for_subject (rms_state store) subject"

definition store_latest_metric where
  "store_latest_metric store subject name = latest_metric (rms_metric store) subject name"

definition store_metric_samples_since where
  "store_metric_samples_since store subject name since =
     metric_samples_since (rms_metric store) subject name since"

definition store_unchanged_for where
  "store_unchanged_for store subject name = unchanged_for (rms_metric store) subject name"

definition store_current_health where
  "store_current_health store subject target = current_health (rms_health store) subject target"

definition store_current_capability where
  "store_current_capability store subject name = current_capability (rms_capability store) subject name"

definition store_capabilities_for where
  "store_capabilities_for store subject = capability_for_subject (rms_capability store) subject"

definition store_latest_heartbeat where
  "store_latest_heartbeat store = latest_heartbeat (rms_heartbeat store)"

definition store_heartbeats_since where
  "store_heartbeats_since store since = heartbeats_since (rms_heartbeat store) since"

definition store_current_signal where
  "store_current_signal store subject name = current_signal (rms_incident_signal store) subject name"

definition store_active_signals_for where
  "store_active_signals_for store subject = active_signals_for (rms_incident_signal store) subject"

definition store_active_signals_for_incident_kind where
  "store_active_signals_for_incident_kind store subject kind =
     active_signals_for_incident_kind (rms_incident_signal store) subject kind"

section \<open>Typed state accessors\<close>

text \<open>A \<open>StateReadModel\<close> is its \<open>latest_state\<close> method.\<close>

type_synonym latest_state_fn = "entity_ref \<Rightarrow> state_name \<Rightarrow> state_observation projected option"

definition unwrap_state ::
    "(state_observation \<Rightarrow> 'v option) \<Rightarrow> state_observation projected option \<Rightarrow> 'v projected option" where
  "unwrap_state from_state projected =
     (case projected of
        None \<Rightarrow> None
      | Some p \<Rightarrow>
          (case from_state (pr_value p) of
             None \<Rightarrow> None
           | Some v \<Rightarrow> Some \<lparr>pr_value = v, pr_observation_id = pr_observation_id p,
                            pr_observed_at = pr_observed_at p\<rparr>))"

fun blockchain_from_state where
  "blockchain_from_state (StateBitcoinBlockchain s) = Some s" | "blockchain_from_state _ = None"
fun mempool_from_state where
  "mempool_from_state (StateBitcoinMempool s) = Some s" | "mempool_from_state _ = None"
fun network_from_state where
  "network_from_state (StateBitcoinNetwork s) = Some s" | "network_from_state _ = None"
fun peer_summary_from_state where
  "peer_summary_from_state (StateBitcoinPeerSummary s) = Some s" | "peer_summary_from_state _ = None"
fun lnd_node_from_state where
  "lnd_node_from_state (StateLndNode s) = Some s" | "lnd_node_from_state _ = None"
fun lnd_wallet_from_state where
  "lnd_wallet_from_state (StateLndWallet s) = Some s" | "lnd_wallet_from_state _ = None"
fun channel_summary_from_state where
  "channel_summary_from_state (StateLndChannelSummary s) = Some s" | "channel_summary_from_state _ = None"
fun host_from_state where
  "host_from_state (StateHost s) = Some s" | "host_from_state _ = None"

definition bitcoin_blockchain :: "latest_state_fn \<Rightarrow> bitcoin_node_id \<Rightarrow> bitcoin_blockchain_state projected option" where
  "bitcoin_blockchain st node =
     unwrap_state blockchain_from_state (st (BitcoinNode node) (state_name_from_well_known BITCOIN_BLOCKCHAIN))"

definition bitcoin_mempool :: "latest_state_fn \<Rightarrow> bitcoin_node_id \<Rightarrow> bitcoin_mempool_state projected option" where
  "bitcoin_mempool st node =
     unwrap_state mempool_from_state (st (BitcoinNode node) (state_name_from_well_known BITCOIN_MEMPOOL))"

definition bitcoin_network :: "latest_state_fn \<Rightarrow> bitcoin_node_id \<Rightarrow> bitcoin_network_state projected option" where
  "bitcoin_network st node =
     unwrap_state network_from_state (st (BitcoinNode node) (state_name_from_well_known BITCOIN_NETWORK))"

definition bitcoin_peer_summary :: "latest_state_fn \<Rightarrow> bitcoin_node_id \<Rightarrow> bitcoin_peer_summary_state projected option" where
  "bitcoin_peer_summary st node =
     unwrap_state peer_summary_from_state
       (st (BitcoinNode node) (state_name_from_well_known BITCOIN_PEER_SUMMARY))"

definition lnd_node :: "latest_state_fn \<Rightarrow> lnd_node_id \<Rightarrow> lnd_node_state projected option" where
  "lnd_node st node = unwrap_state lnd_node_from_state (st (LndNode node) (state_name_from_well_known LND_NODE))"

definition lnd_wallet :: "latest_state_fn \<Rightarrow> lnd_node_id \<Rightarrow> lnd_wallet_state projected option" where
  "lnd_wallet st node = unwrap_state lnd_wallet_from_state (st (LndNode node) (state_name_from_well_known LND_WALLET))"

definition lnd_channel_summary :: "latest_state_fn \<Rightarrow> lnd_node_id \<Rightarrow> lnd_channel_summary_state projected option" where
  "lnd_channel_summary st node =
     unwrap_state channel_summary_from_state (st (LndNode node) (state_name_from_well_known LND_CHANNEL_SUMMARY))"

definition host_system :: "latest_state_fn \<Rightarrow> host_id \<Rightarrow> host_state projected option" where
  "host_system st host = unwrap_state host_from_state (st (Host host) (state_name_from_well_known HOST_SYSTEM))"

section \<open>Routing\<close>

text \<open>
  A store holds, for each projection, what applying the observations one by one
  to that projection alone would hold: the routing by payload loses nothing.
\<close>

lemma store_apply_fields:
  "\<exists>store'. store_apply store obs = Ok store' \<and>
     state_apply (rms_state store) obs = Ok (rms_state store') \<and>
     metric_apply (rms_metric store) obs = Ok (rms_metric store') \<and>
     health_apply (rms_health store) obs = Ok (rms_health store') \<and>
     capability_apply (rms_capability store) obs = Ok (rms_capability store') \<and>
     heartbeat_apply (rms_heartbeat store) obs = Ok (rms_heartbeat store') \<and>
     incident_signal_apply (rms_incident_signal store) obs = Ok (rms_incident_signal store')"
  by (cases "obs_payload obs")
    (simp_all add: store_apply_def state_apply_def metric_apply_def health_apply_def
      capability_apply_def heartbeat_apply_def incident_signal_apply_def Let_def
      split: option.split)

lemma store_apply_all_fields:
  "\<exists>store'. apply_all store_apply store obss = Ok store' \<and>
     apply_all state_apply (rms_state store) obss = Ok (rms_state store') \<and>
     apply_all metric_apply (rms_metric store) obss = Ok (rms_metric store') \<and>
     apply_all health_apply (rms_health store) obss = Ok (rms_health store') \<and>
     apply_all capability_apply (rms_capability store) obss = Ok (rms_capability store') \<and>
     apply_all heartbeat_apply (rms_heartbeat store) obss = Ok (rms_heartbeat store') \<and>
     apply_all incident_signal_apply (rms_incident_signal store) obss = Ok (rms_incident_signal store')"
proof (induction obss arbitrary: store)
  case (Cons obs obss)
  obtain store1 where s1: "store_apply store obs = Ok store1"
    "state_apply (rms_state store) obs = Ok (rms_state store1)"
    "metric_apply (rms_metric store) obs = Ok (rms_metric store1)"
    "health_apply (rms_health store) obs = Ok (rms_health store1)"
    "capability_apply (rms_capability store) obs = Ok (rms_capability store1)"
    "heartbeat_apply (rms_heartbeat store) obs = Ok (rms_heartbeat store1)"
    "incident_signal_apply (rms_incident_signal store) obs = Ok (rms_incident_signal store1)"
    using store_apply_fields by blast
  with Cons.IH [of store1] show ?case by simp
qed simp

lemma store_apply_total: "\<exists>store'. store_apply store obs = Ok store'"
  using store_apply_fields by blast

lemma read_model_store_new_Done:
  "read_model_store_new cfg = Done store \<longleftrightarrow>
     0 < rmc_metric_series_capacity cfg \<and> 0 < rmc_heartbeat_capacity cfg \<and>
     store = \<lparr>rms_state = state_projection_new,
       rms_metric = \<lparr>mpr_capacity = rmc_metric_series_capacity cfg, mpr_by_key = []\<rparr>,
       rms_health = health_projection_new, rms_capability = capability_projection_new,
       rms_heartbeat = \<lparr>hbp_capacity = rmc_heartbeat_capacity cfg, hbp_history = []\<rparr>,
       rms_incident_signal = incident_signal_projection_new\<rparr>"
  by (auto simp: read_model_store_new_def metric_with_capacity_def heartbeat_with_capacity_def)

text \<open>The typed accessors agree with the store: a state filed under a name has that name.\<close>

lemma state_entry_Some:
  "state_entry obs = Some ((s, n), v) \<longleftrightarrow>
     obs_payload obs = PState v \<and> obs_subject obs = s \<and> state_observation_name v = n"
  by (cases "obs_payload obs") (auto simp: state_entry_def)

lemma state_name_of_sample:
  "p \<in> set (samples state_entry (s, n) obss) \<Longrightarrow> state_observation_name (pr_value p) = n"
  by (auto simp: samples_set state_entry_Some project_def)

lemmas state_name_simps = state_observation_name_def state_name_from_well_known_def state_name_defs

text \<open>The variant of a state is determined by its name.\<close>

lemma from_state_of_name:
  "state_observation_name v = state_name_from_well_known BITCOIN_BLOCKCHAIN \<Longrightarrow> blockchain_from_state v \<noteq> None"
  "state_observation_name v = state_name_from_well_known BITCOIN_MEMPOOL \<Longrightarrow> mempool_from_state v \<noteq> None"
  "state_observation_name v = state_name_from_well_known BITCOIN_NETWORK \<Longrightarrow> network_from_state v \<noteq> None"
  "state_observation_name v = state_name_from_well_known BITCOIN_PEER_SUMMARY \<Longrightarrow> peer_summary_from_state v \<noteq> None"
  "state_observation_name v = state_name_from_well_known LND_NODE \<Longrightarrow> lnd_node_from_state v \<noteq> None"
  "state_observation_name v = state_name_from_well_known LND_WALLET \<Longrightarrow> lnd_wallet_from_state v \<noteq> None"
  "state_observation_name v = state_name_from_well_known LND_CHANNEL_SUMMARY \<Longrightarrow> channel_summary_from_state v \<noteq> None"
  "state_observation_name v = state_name_from_well_known HOST_SYSTEM \<Longrightarrow> host_from_state v \<noteq> None"
  by (cases v; simp add: state_name_simps)+

lemma reached_state_name:
  assumes "read_model_store_new cfg = Done store" and "apply_all store_apply store obss = Ok store'"
    and "store_latest_state store' s n = Some p"
  shows "state_observation_name (pr_value p) = n"
proof -
  have "apply_all state_apply state_projection_new obss = Ok (rms_state store')"
    using store_apply_all_fields [of store obss] assms(1,2) by (auto simp: read_model_store_new_Done)
  then have "newest None (samples state_entry (s, n) obss) = Some p"
    using state_view.history [of obss] assms(3) by (simp add: store_latest_state_def)
  then show ?thesis
    using newest_maximum state_name_of_sample by blast
qed

text \<open>What an answer says besides its payload.\<close>

definition provenance :: "'v projected option \<Rightarrow> (observation_id \<times> datetime) option" where
  "provenance q = map_option (\<lambda>p. (pr_observation_id p, pr_observed_at p)) q"

lemma unwrap_state_provenance:
  assumes "\<And>p. q = Some p \<Longrightarrow> from_state (pr_value p) \<noteq> None"
  shows "provenance (unwrap_state from_state q) = provenance q"
  using assms by (cases q) (auto simp: unwrap_state_def provenance_def)

section \<open>Properties\<close>

text \<open>C31. The latest-value queries are functions of the history.
  After any sequence of observations applied to a new store no projection has
  failed, and each of the four latest-value queries answers with the first of the
  newest matching observations of the whole sequence, or nothing when none
  matches: observations of other kinds, subjects or names never interfere, and a
  late or replayed older observation never overwrites a newer one.\<close>

theorem store_latest_from_history:
  assumes "read_model_store_new cfg = Done store"
  shows "\<exists>store'. apply_all store_apply store obss = Ok store' \<and>
    (\<forall>s n. store_latest_state store' s n = newest None (samples state_entry (s, n) obss)) \<and>
    (\<forall>s t. store_current_health store' s t = newest None (samples health_entry (s, t) obss)) \<and>
    (\<forall>s c. store_current_capability store' s c = newest None (samples capability_entry (s, c) obss)) \<and>
    (\<forall>s g. store_current_signal store' s g = newest None (samples signal_entry (s, g) obss))"
proof -
  obtain store' where s': "apply_all store_apply store obss = Ok store'"
    "apply_all state_apply state_projection_new obss = Ok (rms_state store')"
    "apply_all health_apply health_projection_new obss = Ok (rms_health store')"
    "apply_all capability_apply capability_projection_new obss = Ok (rms_capability store')"
    "apply_all incident_signal_apply incident_signal_projection_new obss = Ok (rms_incident_signal store')"
    using store_apply_all_fields [of store obss] assms by (auto simp: read_model_store_new_Done)
  then show ?thesis
    using state_view.history [of obss] health_view.history [of obss]
      capability_view.history [of obss] signal_view.history [of obss]
    by (simp add: store_latest_state_def store_current_health_def store_current_capability_def
        store_current_signal_def)
qed

text \<open>C32. The bounded histories are the tail of the sequence.
  A metric series holds exactly the last \<open>metric_series_capacity\<close> samples of its
  subject and name in arrival order, and the heartbeat history the last
  \<open>heartbeat_capacity\<close> heartbeats; \<open>latest_metric\<close> is the last arrival.\<close>

theorem store_rings_from_history:
  assumes "read_model_store_new cfg = Done store"
  shows "\<exists>store'. apply_all store_apply store obss = Ok store' \<and>
    (\<forall>s n since. store_metric_samples_since store' s n since =
       filter (\<lambda>p. pr_observed_at p > since)
         (last_n (rmc_metric_series_capacity cfg) (samples metric_entry (s, n) obss))) \<and>
    (\<forall>s n. store_latest_metric store' s n =
       (let h = samples metric_entry (s, n) obss in if h = [] then None else Some (last h))) \<and>
    (\<forall>since. store_heartbeats_since store' since =
       filter (\<lambda>p. pr_observed_at p > since)
         (last_n (rmc_heartbeat_capacity cfg) (samples heartbeat_entry () obss)))"
proof -
  let ?m = "\<lparr>mpr_capacity = rmc_metric_series_capacity cfg, mpr_by_key = []\<rparr>"
  let ?h = "\<lparr>hbp_capacity = rmc_heartbeat_capacity cfg, hbp_history = []\<rparr>"
  have pos: "0 < rmc_metric_series_capacity cfg"
    using assms by (simp add: read_model_store_new_Done)
  obtain store' where s': "apply_all store_apply store obss = Ok store'"
    "apply_all metric_apply ?m obss = Ok (rms_metric store')"
    "apply_all heartbeat_apply ?h obss = Ok (rms_heartbeat store')"
    using store_apply_all_fields [of store obss] assms by (auto simp: read_model_store_new_Done)
  have series: "metric_series (rms_metric store') k =
      last_n (rmc_metric_series_capacity cfg) (samples metric_entry k obss)" for k
    using metric_view.ring_history [of ?m "\<lambda>_. []" obss] s'(2)
    by (cases k) (simp add: metric_series_def last_n_def)
  have "hbp_history (rms_heartbeat store') =
      last_n (rmc_heartbeat_capacity cfg) (samples heartbeat_entry () obss)"
    using heartbeat_view.ring_history [of ?h "\<lambda>_. []" obss] s'(3) by (simp add: last_n_def)
  with s'(1) series pos show ?thesis
    by (intro exI [of _ store'])
      (simp add: store_metric_samples_since_def metric_samples_since_series store_latest_metric_def
        latest_metric_series store_heartbeats_since_def heartbeats_since_def last_n_eq_Nil last_last_n)
qed

definition sample_metric :: "uuid \<Rightarrow> datetime \<Rightarrow> f64 \<Rightarrow> observation" where
  "sample_metric u t x =
     observation_metric u \<lparr>octx_source = sample_source, octx_subject = BitcoinNode (BitcoinNodeId ''n''),
       octx_observed_at = t, octx_origin = Collected\<rparr> (MetricName ''bitcoin.lag'') Gauge
       (Numeric (NumF64 x)) Count []"

definition sample_state :: "uuid \<Rightarrow> datetime \<Rightarrow> bool \<Rightarrow> observation" where
  "sample_state u t b =
     observation_state u \<lparr>octx_source = sample_source, octx_subject = LndNode (LndNodeId ''l''),
       octx_observed_at = t, octx_origin = Collected\<rparr>
       (StateLndNode \<lparr>ln_identity_pubkey = ''pk'', ln_alias = None, ln_version = None,
         ln_num_active_channels = 0, ln_num_inactive_channels = None, ln_num_pending_channels = 0,
         ln_num_peers = 0, ln_block_height = 0, ln_synced_to_chain = b, ln_synced_to_graph = None\<rparr>) []"

definition sample_config :: read_model_store_config where
  "sample_config = \<lparr>rmc_metric_series_capacity = 2, rmc_heartbeat_capacity = 1\<rparr>"

lemma sample_store_new: "\<exists>store. read_model_store_new sample_config = Done store"
  by (simp add: read_model_store_new_Done sample_config_def)

theorem store_latest_from_history_witness:
  "\<exists>store store' p. read_model_store_new sample_config = Done store \<and>
     apply_all store_apply store [sample_state 1 20 True, sample_state 2 10 False] = Ok store' \<and>
     store_latest_state store' (LndNode (LndNodeId ''l'')) (state_name_from_well_known LND_NODE) = Some p \<and>
     pr_observation_id p = ObservationId 1"
proof -
  let ?obss = "[sample_state 1 20 True, sample_state 2 10 False]"
  obtain store where new: "read_model_store_new sample_config = Done store"
    using sample_store_new by blast
  obtain store' where s': "apply_all store_apply store ?obss = Ok store'"
    "\<And>s n. store_latest_state store' s n = newest None (samples state_entry (s, n) ?obss)"
    using store_latest_from_history [OF new, of ?obss] by blast
  have "\<exists>p. newest None (samples state_entry
      (LndNode (LndNodeId ''l''), state_name_from_well_known LND_NODE) ?obss) = Some p \<and>
      pr_observation_id p = ObservationId 1"
    by (simp add: sample_state_def store_simps state_entry_def project_def state_name_simps)
  with new s' show ?thesis by metis
qed

theorem store_rings_from_history_witness:
  "\<exists>store store' p q. read_model_store_new sample_config = Done store \<and>
     apply_all store_apply store [sample_metric 1 10 NaN, sample_metric 2 11 NaN, sample_metric 3 12 NaN]
       = Ok store' \<and>
     store_metric_samples_since store' (BitcoinNode (BitcoinNodeId ''n'')) (MetricName ''bitcoin.lag'') 0 = [p, q] \<and>
     pr_observation_id p = ObservationId 2 \<and> pr_observation_id q = ObservationId 3"
proof -
  let ?obss = "[sample_metric 1 10 NaN, sample_metric 2 11 NaN, sample_metric 3 12 NaN]"
  let ?k = "(BitcoinNode (BitcoinNodeId ''n''), MetricName ''bitcoin.lag'')"
  obtain store where new: "read_model_store_new sample_config = Done store"
    using sample_store_new by blast
  obtain store' where s': "apply_all store_apply store ?obss = Ok store'"
    "\<And>s n since. store_metric_samples_since store' s n since =
       filter (\<lambda>p. pr_observed_at p > since)
         (last_n (rmc_metric_series_capacity sample_config) (samples metric_entry (s, n) ?obss))"
    using store_rings_from_history [OF new, of ?obss] by blast
  have "\<exists>p q. filter (\<lambda>p. pr_observed_at p > 0)
         (last_n (rmc_metric_series_capacity sample_config) (samples metric_entry ?k ?obss)) = [p, q] \<and>
      pr_observation_id p = ObservationId 2 \<and> pr_observation_id q = ObservationId 3"
    by (simp add: sample_metric_def store_simps metric_entry_def project_def sample_config_def last_n_def)
  with new s' show ?thesis by metis
qed



text \<open>The typed accessors miss nothing.
  In every store reached from a new one, a typed accessor answers exactly when the
  untyped query for its name does, with the same observation id and timestamp: a
  state filed under a well-known name always has the variant of that name.\<close>

lemma typed_accessors_complete:
  assumes "read_model_store_new cfg = Done store" and "apply_all store_apply store obss = Ok store'"
  defines "st \<equiv> store_latest_state store'"
  shows "provenance (bitcoin_blockchain st n) =
      provenance (st (BitcoinNode n) (state_name_from_well_known BITCOIN_BLOCKCHAIN)) \<and>
    provenance (bitcoin_mempool st n) =
      provenance (st (BitcoinNode n) (state_name_from_well_known BITCOIN_MEMPOOL)) \<and>
    provenance (bitcoin_network st n) =
      provenance (st (BitcoinNode n) (state_name_from_well_known BITCOIN_NETWORK)) \<and>
    provenance (bitcoin_peer_summary st n) =
      provenance (st (BitcoinNode n) (state_name_from_well_known BITCOIN_PEER_SUMMARY)) \<and>
    provenance (lnd_node st l) = provenance (st (LndNode l) (state_name_from_well_known LND_NODE)) \<and>
    provenance (lnd_wallet st l) = provenance (st (LndNode l) (state_name_from_well_known LND_WALLET)) \<and>
    provenance (lnd_channel_summary st l) =
      provenance (st (LndNode l) (state_name_from_well_known LND_CHANNEL_SUMMARY)) \<and>
    provenance (host_system st h) = provenance (st (Host h) (state_name_from_well_known HOST_SYSTEM))"
proof -
  note named = reached_state_name [OF assms(1,2), folded st_def]
  show ?thesis
    unfolding bitcoin_blockchain_def bitcoin_mempool_def bitcoin_network_def
      bitcoin_peer_summary_def lnd_node_def lnd_wallet_def lnd_channel_summary_def host_system_def
    by (intro conjI unwrap_state_provenance; rule from_state_of_name; erule named)
qed

text \<open>The unchanged run is the maximal suffix of equal values.
  \<open>unchanged_for\<close> answers exactly when the series has a sample; the answer is a
  suffix of the series whose values all equal the latest one, and the sample before
  it differs. It is empty exactly when the latest value is not equal to itself,
  that is when it holds a not-a-number.\<close>

lemma unchanged_for_maximal_run:
  fixes store :: read_model_store and s :: entity_ref and n :: metric_name
  defines "q \<equiv> metric_series (rms_metric store) (s, n)"
  defines "v \<equiv> met_value (pr_value (last q))"
  shows "(store_unchanged_for store s n = None \<longleftrightarrow> q = []) \<and>
    (\<forall>run. store_unchanged_for store s n = Some run \<longrightarrow>
       (\<exists>old. q = old @ run \<and>
          (\<forall>p \<in> set run. metric_value_eq (met_value (pr_value p)) v) \<and>
          (old \<noteq> [] \<longrightarrow> \<not> metric_value_eq (met_value (pr_value (last old))) v)) \<and>
       (run = [] \<longleftrightarrow> \<not> metric_value_eq v v))"
proof -
  have none: "store_unchanged_for store s n = None \<longleftrightarrow> q = []"
    by (auto simp: q_def store_unchanged_for_def unchanged_for_def metric_series_def Let_def
        split: option.split)
  moreover have "\<exists>old. q = old @ run \<and>
          (\<forall>p \<in> set run. metric_value_eq (met_value (pr_value p)) v) \<and>
          (old \<noteq> [] \<longrightarrow> \<not> metric_value_eq (met_value (pr_value (last old))) v)"
      and "run = [] \<longleftrightarrow> \<not> metric_value_eq v v"
    if run: "store_unchanged_for store s n = Some run" for run
  proof -
    obtain old where old: "q = old @ run"
      "\<forall>p \<in> set run. metric_value_eq (met_value (pr_value p)) v"
      "old \<noteq> [] \<longrightarrow> \<not> metric_value_eq (met_value (pr_value (last old))) v"
      using unchanged_for_suffix [OF run [unfolded store_unchanged_for_def]]
      unfolding q_def v_def by blast
    then show "\<exists>old. q = old @ run \<and>
          (\<forall>p \<in> set run. metric_value_eq (met_value (pr_value p)) v) \<and>
          (old \<noteq> [] \<longrightarrow> \<not> metric_value_eq (met_value (pr_value (last old))) v)"
      by blast
    have "q \<noteq> []"
      using none run by auto
    then show "run = [] \<longleftrightarrow> \<not> metric_value_eq v v"
      using old by (cases "run = []") (auto simp: v_def)
  qed
  ultimately show ?thesis by blast
qed

text \<open>A series whose latest value is a not-a-number has an empty unchanged run.\<close>

end
