(* ===== verification/Diagnostics.thy ===== *)
theory Diagnostics
  imports Read_Model_Store
begin

text \<open>
  The context handed to a diagnostic rule (\<open>diagnostics/types.rs\<close>), the contract
  of \<open>DiagnosticRule\<close> (\<open>diagnostics/traits.rs\<close>) and what follows from it.

  A trait object is the record of its methods. An \<open>anyhow::Error\<close> is its message.
  The locale \<open>diagnostic_rule_laws\<close> states what every rule promises of one
  evaluation: it returns at most one draft, about the evaluated subject and the
  rule's own kind, and clears only what it has raised. \<open>latched_rule\<close> adds that the
  latch never forgets, \<open>debounced_rule\<close> that a raise needs a condition held for the
  rule's window. The theorems about whole evaluation sequences are proved here once.
\<close>

section \<open>The context\<close>

record state_read_model =
  rm_latest_state :: latest_state_fn
  rm_states_for :: "entity_ref \<Rightarrow> state_observation projected list"

record metric_read_model =
  rm_latest_metric :: "entity_ref \<Rightarrow> metric_name \<Rightarrow> metric_observation projected option"
  rm_metric_samples_since ::
    "entity_ref \<Rightarrow> metric_name \<Rightarrow> datetime \<Rightarrow> metric_observation projected list"
  rm_unchanged_for :: "entity_ref \<Rightarrow> metric_name \<Rightarrow> metric_observation projected list option"

record health_read_model =
  rm_current_health :: "entity_ref \<Rightarrow> health_target_id \<Rightarrow> health_check_observation projected option"

record capability_read_model =
  rm_current_capability :: "entity_ref \<Rightarrow> capability_name \<Rightarrow> capability_observation projected option"
  rm_capabilities_for :: "entity_ref \<Rightarrow> capability_observation projected list"

record heartbeat_read_model =
  rm_latest_heartbeat :: "heartbeat_observation projected option"
  rm_heartbeats_since :: "datetime \<Rightarrow> heartbeat_observation projected list"

record incident_signal_read_model =
  rm_current_signal :: "entity_ref \<Rightarrow> signal_name \<Rightarrow> incident_signal_observation projected option"
  rm_active_signals_for :: "entity_ref \<Rightarrow> incident_signal_observation projected list"
  rm_active_signals_for_incident_kind ::
    "entity_ref \<Rightarrow> incident_kind \<Rightarrow> incident_signal_observation projected list"

record diagnostic_context =
  ctx_now :: datetime
  ctx_monotonic_now :: instant
  ctx_subject :: entity_ref
  ctx_state :: state_read_model
  ctx_metrics :: metric_read_model
  ctx_health :: health_read_model
  ctx_capabilities :: capability_read_model
  ctx_heartbeats :: heartbeat_read_model
  ctx_signals :: incident_signal_read_model

text \<open>The store as the six trait objects of a context.\<close>

definition store_context :: "read_model_store \<Rightarrow> datetime \<Rightarrow> instant \<Rightarrow> entity_ref \<Rightarrow> diagnostic_context" where
  "store_context store now monotonic_now subject =
     \<lparr>ctx_now = now, ctx_monotonic_now = monotonic_now, ctx_subject = subject,
      ctx_state = \<lparr>rm_latest_state = store_latest_state store, rm_states_for = store_states_for store\<rparr>,
      ctx_metrics = \<lparr>rm_latest_metric = store_latest_metric store,
        rm_metric_samples_since = store_metric_samples_since store,
        rm_unchanged_for = store_unchanged_for store\<rparr>,
      ctx_health = \<lparr>rm_current_health = store_current_health store\<rparr>,
      ctx_capabilities = \<lparr>rm_current_capability = store_current_capability store,
        rm_capabilities_for = store_capabilities_for store\<rparr>,
      ctx_heartbeats = \<lparr>rm_latest_heartbeat = store_latest_heartbeat store,
        rm_heartbeats_since = store_heartbeats_since store\<rparr>,
      ctx_signals = \<lparr>rm_current_signal = store_current_signal store,
        rm_active_signals_for = store_active_signals_for store,
        rm_active_signals_for_incident_kind = store_active_signals_for_incident_kind store\<rparr>\<rparr>"

type_synonym anyhow_error = string
type_synonym 'r evaluation = "('r \<times> (anyhow_error + incident_signal_draft list)) run"

section \<open>The table of a rule\<close>

text \<open>
  Every rule keeps a table of per-subject entries and opens an evaluation with the
  same lines: prune the table, insert a default entry for the subject if it has
  none, take a mutable reference to the entry, update it and collect the drafts.
  \<open>keep\<close> is what the rule's \<open>prune_stale\<close> retains, \<open>step\<close> the rest of the body.
\<close>

definition with_entry ::
    "('e \<Rightarrow> bool) \<Rightarrow> 'e \<Rightarrow> ('e \<Rightarrow> 'e \<times> incident_signal_draft list) \<Rightarrow> entity_ref \<Rightarrow>
     (entity_ref, 'e) hash_map \<Rightarrow> ((entity_ref, 'e) hash_map \<times> incident_signal_draft list) run" where
  "with_entry keep dflt step subject state =
     (let state = hm_retain (\<lambda>_ entry. keep entry) state;
          state = (if \<not> hm_contains_key state subject then hm_insert subject dflt state else state)
      in case hm_get state subject of
           None \<Rightarrow> Panicked
         | Some entry \<Rightarrow>
             let (entry', drafts) = step entry in Done (hm_insert subject entry' state, drafts))"

text \<open>The entry the step sees: the stored one if it survives pruning, else the default.\<close>

definition entry_of :: "('e \<Rightarrow> bool) \<Rightarrow> 'e \<Rightarrow> entity_ref \<Rightarrow> (entity_ref, 'e) hash_map \<Rightarrow> 'e" where
  "entry_of keep dflt subject state =
     (case hm_get state subject of None \<Rightarrow> dflt | Some e \<Rightarrow> if keep e then e else dflt)"

lemma with_entry_Done:
  assumes "hm_wf m"
  shows "\<exists>m'. with_entry keep dflt step s m = Done (m', snd (step (entry_of keep dflt s m))) \<and> hm_wf m' \<and>
    (\<forall>x. hm_get m' x =
       (if x = s then Some (fst (step (entry_of keep dflt s m)))
        else (case hm_get m x of None \<Rightarrow> None | Some e \<Rightarrow> if keep e then Some e else None)))"
proof (cases "hm_get (hm_retain (\<lambda>_. keep) m) s")
  case None
  then have "entry_of keep dflt s m = dflt"
    using assms by (auto simp: entry_of_def hm_get_retain split: option.splits if_splits)
  with None assms show ?thesis
    by (auto simp: with_entry_def Let_def hm_get_retain case_prod_unfold hm_contains_key_def
        simp del: hm_contains_key_iff)
next
  case (Some e)
  then have "entry_of keep dflt s m = e"
    using assms by (auto simp: entry_of_def hm_get_retain split: option.splits if_splits)
  with Some assms show ?thesis
    by (auto simp: with_entry_def Let_def hm_get_retain case_prod_unfold hm_contains_key_def
        simp del: hm_contains_key_iff)
qed

lemma with_entryE:
  assumes "with_entry keep dflt step s m = Done (m', ds)" and "hm_wf m"
  obtains "hm_wf m'" and "ds = snd (step (entry_of keep dflt s m))"
    and "hm_get m' s = Some (fst (step (entry_of keep dflt s m)))"
    and "\<And>x. x \<noteq> s \<Longrightarrow> hm_get m' x =
      (case hm_get m x of None \<Rightarrow> None | Some e \<Rightarrow> if keep e then Some e else None)"
  using with_entry_Done [OF assms(2), of keep dflt step s] assms(1) by auto

lemma with_entry_total: "hm_wf m \<Longrightarrow> with_entry keep dflt step s m \<noteq> Panicked"
  using with_entry_Done by (metis run.distinct(1))

section \<open>What a draft of a rule looks like\<close>

definition own_draft ::
    "incident_kind \<Rightarrow> entity_subject_kind \<Rightarrow> confidence \<Rightarrow> entity_ref \<Rightarrow> incident_signal_draft \<Rightarrow> bool" where
  "own_draft kind sk min_conf subject d =
     (draft_subject d = subject \<and> subject_kind subject = sk \<and> draft_kind d = kind \<and>
      draft_signal d = signal_name_for_incident_kind kind \<and> draft_dimension d = None \<and>
      confidence_rank min_conf \<le> confidence_rank (draft_confidence d))"

text \<open>
  How the latch of the evaluated subject moves with the drafts: a clear needs a
  raise; a raise sets the latch; no draft never sets it. The strict form adds that
  a raise needs an unset latch and that no draft leaves the latch alone.
\<close>

fun latch_step :: "bool \<Rightarrow> incident_signal_draft list \<Rightarrow> bool \<Rightarrow> bool" where
  "latch_step before [] after = (after \<longrightarrow> before)"
| "latch_step before [d] after =
     (case draft_status d of Active \<Rightarrow> after | Cleared \<Rightarrow> before \<and> \<not> after)"
| "latch_step before _ after = False"

fun strict_latch_step :: "bool \<Rightarrow> incident_signal_draft list \<Rightarrow> bool \<Rightarrow> bool" where
  "strict_latch_step before [] after = (after = before)"
| "strict_latch_step before [d] after =
     (case draft_status d of Active \<Rightarrow> \<not> before \<and> after | Cleared \<Rightarrow> before \<and> \<not> after)"
| "strict_latch_step before _ after = False"

lemma strict_latch_step_imp: "strict_latch_step b ds a \<Longrightarrow> latch_step b ds a"
  by (cases "(b, ds, a)" rule: latch_step.cases) (auto split: signal_status.splits)

lemma strict_latch_step_weaken: "strict_latch_step b ds a \<Longrightarrow> b \<longrightarrow> c \<Longrightarrow> latch_step c ds a"
  by (cases "(b, ds, a)" rule: latch_step.cases) (auto split: signal_status.splits)

section \<open>Evaluation sequences\<close>

fun rule_run ::
    "('r \<Rightarrow> diagnostic_context \<Rightarrow> 'r evaluation) \<Rightarrow> 'r \<Rightarrow> diagnostic_context list \<Rightarrow>
     ('r \<times> incident_signal_draft list) run" where
  "rule_run evaluate r [] = Done (r, [])"
| "rule_run evaluate r (ctx # rest) =
     (case evaluate r ctx of
        Panicked \<Rightarrow> Panicked
      | Done (r', res) \<Rightarrow>
          (case rule_run evaluate r' rest of
             Panicked \<Rightarrow> Panicked
           | Done (r'', ds) \<Rightarrow> Done (r'', (case res of Err _ \<Rightarrow> ds | Ok d \<Rightarrow> d @ ds))))"

definition drafts_about :: "entity_ref \<Rightarrow> incident_signal_draft list \<Rightarrow> incident_signal_draft list" where
  "drafts_about s ds = filter (\<lambda>d. draft_subject d = s) ds"

text \<open>
  The two protocols over the statuses a subject sees, from \<open>b\<close> (a raise is
  outstanding): every clear follows a raise not yet cleared; and strict alternation.
\<close>

fun clears_only_raised :: "bool \<Rightarrow> signal_status list \<Rightarrow> bool" where
  "clears_only_raised b [] = True"
| "clears_only_raised b (Active # ss) = clears_only_raised True ss"
| "clears_only_raised b (Cleared # ss) = (b \<and> clears_only_raised False ss)"

fun alternates :: "bool \<Rightarrow> signal_status list \<Rightarrow> bool" where
  "alternates b [] = True"
| "alternates b (Active # ss) = (\<not> b \<and> alternates True ss)"
| "alternates b (Cleared # ss) = (b \<and> alternates False ss)"

lemma drafts_about_append: "drafts_about s (xs @ ys) = drafts_about s xs @ drafts_about s ys"
  by (simp add: drafts_about_def)

lemma clears_only_raised_mono: "clears_only_raised b ss \<Longrightarrow> (b \<longrightarrow> c) \<Longrightarrow> clears_only_raised c ss"
  by (induction b ss arbitrary: c rule: clears_only_raised.induct) auto

section \<open>The contract of a rule\<close>

locale diagnostic_rule_laws =
  fixes evaluate :: "'r \<Rightarrow> diagnostic_context \<Rightarrow> 'r evaluation"
    and ok :: "'r \<Rightarrow> bool"
    and emitted :: "'r \<Rightarrow> entity_ref \<Rightarrow> bool"
    and kind :: incident_kind
    and sk :: entity_subject_kind
    and min_conf :: confidence
  assumes returns: "ok r \<Longrightarrow> \<exists>r' ds. evaluate r ctx = Done (r', Ok ds)"
    and keeps_ok: "ok r \<Longrightarrow> evaluate r ctx = Done (r', Ok ds) \<Longrightarrow> ok r'"
    and own: "ok r \<Longrightarrow> evaluate r ctx = Done (r', Ok ds) \<Longrightarrow> d \<in> set ds \<Longrightarrow>
      own_draft kind sk min_conf (ctx_subject ctx) d"
    and latch: "ok r \<Longrightarrow> evaluate r ctx = Done (r', Ok ds) \<Longrightarrow>
      latch_step (emitted r (ctx_subject ctx)) ds (emitted r' (ctx_subject ctx))"
    and frame: "ok r \<Longrightarrow> evaluate r ctx = Done (r', Ok ds) \<Longrightarrow> s \<noteq> ctx_subject ctx \<Longrightarrow>
      emitted r' s \<Longrightarrow> emitted r s"
begin

lemma at_most_one: "ok r \<Longrightarrow> evaluate r ctx = Done (r', Ok ds) \<Longrightarrow> length ds \<le> 1"
  using latch [of r ctx r' ds]
  by (cases "(emitted r (ctx_subject ctx), ds, emitted r' (ctx_subject ctx))" rule: latch_step.cases)
    auto

lemma run_returns:
  "ok r \<Longrightarrow> \<exists>r' ds. rule_run evaluate r ctxs = Done (r', ds) \<and> ok r' \<and>
     (\<forall>d \<in> set ds. \<exists>ctx \<in> set ctxs. own_draft kind sk min_conf (ctx_subject ctx) d)"
proof (induction ctxs arbitrary: r)
  case (Cons ctx ctxs)
  obtain r1 d1 where s: "evaluate r ctx = Done (r1, Ok d1)"
    using returns Cons.prems by blast
  from Cons.IH [OF keeps_ok [OF Cons.prems s]] s own [OF Cons.prems s] show ?case
    by fastforce
qed simp

lemma latch_set_by_raise:
  assumes "ok r" and "rule_run evaluate r ctxs = Done (r', ds)" and "emitted r' s"
  shows "emitted r s \<or> (\<exists>d \<in> set ds. draft_subject d = s \<and> draft_status d = Active)"
  using assms
proof (induction ctxs arbitrary: r ds)
  case Nil
  then show ?case by simp
next
  case (Cons ctx ctxs)
  obtain r1 d1 where step: "evaluate r ctx = Done (r1, Ok d1)"
    using returns Cons.prems(1) by blast
  then obtain ds2 where rest: "rule_run evaluate r1 ctxs = Done (r', ds2)" and ds: "ds = d1 @ ds2"
    using Cons.prems(2) by (auto split: run.splits)
  have "emitted r s \<or> (\<exists>d \<in> set d1. draft_subject d = s \<and> draft_status d = Active)" if "emitted r1 s"
  proof (cases "s = ctx_subject ctx")
    case False
    then show ?thesis
      using frame [OF Cons.prems(1) step False that] by simp
  next
    case True
    have "d1 = [] \<longrightarrow> emitted r s" "d1 \<noteq> [] \<longrightarrow> (\<exists>d. d1 = [d] \<and> draft_status d = Active)"
      using latch [OF Cons.prems(1) step] that True
      by (cases "(emitted r s, d1, emitted r1 s)" rule: latch_step.cases;
          simp split: signal_status.splits)+
    moreover have "d \<in> set d1 \<Longrightarrow> draft_subject d = s" for d
      using own [OF Cons.prems(1) step] True by (simp add: own_draft_def)
    ultimately show ?thesis by auto
  qed
  with Cons.IH [OF keeps_ok [OF Cons.prems(1) step] rest Cons.prems(3)] ds show ?case
    by auto
qed

lemma run_clears_only_raised:
  assumes "ok r" and "rule_run evaluate r ctxs = Done (r', ds)"
  shows "clears_only_raised (emitted r s) (map draft_status (drafts_about s ds))"
  using assms
proof (induction ctxs arbitrary: r ds)
  case Nil
  then show ?case by (simp add: drafts_about_def)
next
  case (Cons ctx ctxs)
  obtain r1 d1 where step: "evaluate r ctx = Done (r1, Ok d1)"
    using returns Cons.prems(1) by blast
  then obtain ds2 where rest: "rule_run evaluate r1 ctxs = Done (r', ds2)" and ds: "ds = d1 @ ds2"
    using Cons.prems(2) by (auto split: run.splits)
  have IH: "clears_only_raised (emitted r1 s) (map draft_status (drafts_about s ds2))"
    using Cons.IH [OF keeps_ok [OF Cons.prems(1) step] rest] .
  note own1 = own [OF Cons.prems(1) step]
  show ?case
  proof (cases "s = ctx_subject ctx")
    case True
    then have "drafts_about s d1 = d1"
      using own1 by (auto simp: drafts_about_def own_draft_def)
    then have "drafts_about s ds = d1 @ drafts_about s ds2"
      using ds by (simp add: drafts_about_append)
    then show ?thesis
      using latch [OF Cons.prems(1) step] IH True
      by (cases "(emitted r s, d1, emitted r1 s)" rule: latch_step.cases)
        (auto simp: clears_only_raised_mono split: signal_status.splits)
  next
    case False
    then have "drafts_about s d1 = []"
      using own1 by (auto simp: drafts_about_def own_draft_def filter_empty_conv)
    then show ?thesis
      using IH ds frame [OF Cons.prems(1) step False]
      by (auto simp: drafts_about_append intro: clears_only_raised_mono)
  qed
qed

end

locale latched_rule = diagnostic_rule_laws +
  assumes strict_latch: "ok r \<Longrightarrow> evaluate r ctx = Done (r', Ok ds) \<Longrightarrow>
      strict_latch_step (emitted r (ctx_subject ctx)) ds (emitted r' (ctx_subject ctx))"
    and strict_frame: "ok r \<Longrightarrow> evaluate r ctx = Done (r', Ok ds) \<Longrightarrow> s \<noteq> ctx_subject ctx \<Longrightarrow>
      emitted r' s = emitted r s"
begin

lemma run_alternates:
  assumes "ok r" and "rule_run evaluate r ctxs = Done (r', ds)"
  shows "alternates (emitted r s) (map draft_status (drafts_about s ds))"
  using assms
proof (induction ctxs arbitrary: r ds)
  case Nil
  then show ?case by (simp add: drafts_about_def)
next
  case (Cons ctx ctxs)
  obtain r1 d1 where step: "evaluate r ctx = Done (r1, Ok d1)"
    using returns Cons.prems(1) by blast
  then obtain ds2 where rest: "rule_run evaluate r1 ctxs = Done (r', ds2)" and ds: "ds = d1 @ ds2"
    using Cons.prems(2) by (auto split: run.splits)
  have IH: "alternates (emitted r1 s) (map draft_status (drafts_about s ds2))"
    using Cons.IH [OF keeps_ok [OF Cons.prems(1) step] rest] .
  note own1 = own [OF Cons.prems(1) step]
  show ?case
  proof (cases "s = ctx_subject ctx")
    case True
    then have "drafts_about s d1 = d1"
      using own1 by (auto simp: drafts_about_def own_draft_def)
    then have "drafts_about s ds = d1 @ drafts_about s ds2"
      using ds by (simp add: drafts_about_append)
    then show ?thesis
      using strict_latch [OF Cons.prems(1) step] IH True
      by (cases "(emitted r s, d1, emitted r1 s)" rule: strict_latch_step.cases)
        (auto split: signal_status.splits)
  next
    case False
    then have "drafts_about s d1 = []"
      using own1 by (auto simp: drafts_about_def own_draft_def filter_empty_conv)
    then show ?thesis
      using IH ds strict_frame [OF Cons.prems(1) step False] by (auto simp: drafts_about_append)
  qed
qed

end

section \<open>Debouncing\<close>

text \<open>What a rule reads of the world at one evaluation.\<close>

datatype reading = Holds | Fails | NoInformation

text \<open>
  \<open>held_since rd s hist c0\<close>: in the history of evaluations, oldest first, there is one
  of subject \<open>s\<close> at monotonic time \<open>t\<close> whose reading holds and after which no
  evaluation of \<open>s\<close> read that the condition fails.
\<close>

definition held_since ::
    "(diagnostic_context \<Rightarrow> reading) \<Rightarrow> entity_ref \<Rightarrow> diagnostic_context list \<Rightarrow> instant \<Rightarrow> bool" where
  "held_since rd s hist t =
     (\<exists>earlier c later. hist = earlier @ c # later \<and> ctx_subject c = s \<and> rd c = Holds \<and>
        ctx_monotonic_now c = t \<and> (\<forall>x \<in> set later. ctx_subject x = s \<longrightarrow> rd x \<noteq> Fails))"

lemma held_since_snoc:
  assumes "held_since rd s hist t" and "ctx_subject c = s \<Longrightarrow> rd c \<noteq> Fails"
  shows "held_since rd s (hist @ [c]) t"
proof -
  obtain earlier c0 later where h: "hist = earlier @ c0 # later" "ctx_subject c0 = s" "rd c0 = Holds"
    "ctx_monotonic_now c0 = t" "\<forall>x \<in> set later. ctx_subject x = s \<longrightarrow> rd x \<noteq> Fails"
    using assms(1) by (auto simp: held_since_def)
  then show ?thesis
    unfolding held_since_def using assms(2)
    by (intro exI [of _ earlier] exI [of _ c0] exI [of _ "later @ [c]"]) auto
qed

lemma held_since_now:
  "ctx_subject c = s \<Longrightarrow> rd c = Holds \<Longrightarrow> held_since rd s (hist @ [c]) (ctx_monotonic_now c)"
  unfolding held_since_def by (intro exI [of _ hist] exI [of _ c] exI [of _ "[]"]) simp

locale debounced_rule = diagnostic_rule_laws +
  fixes reads :: "'a \<Rightarrow> diagnostic_context \<Rightarrow> reading"
    and since :: "'a \<Rightarrow> entity_ref \<Rightarrow> instant option"
    and window :: "'a \<Rightarrow> diagnostic_context \<Rightarrow> duration"
  assumes config: "ok r \<Longrightarrow> evaluate r ctx = Done (r', Ok ds) \<Longrightarrow> reads r' = reads r \<and> window r' = window r"
    and since_frame: "ok r \<Longrightarrow> evaluate r ctx = Done (r', Ok ds) \<Longrightarrow> s \<noteq> ctx_subject ctx \<Longrightarrow>
      since r' s = Some t \<Longrightarrow> since r s = Some t"
    and since_fails: "ok r \<Longrightarrow> evaluate r ctx = Done (r', Ok ds) \<Longrightarrow> reads r ctx = Fails \<Longrightarrow>
      since r' (ctx_subject ctx) = None"
    and since_unknown: "ok r \<Longrightarrow> evaluate r ctx = Done (r', Ok ds) \<Longrightarrow> reads r ctx = NoInformation \<Longrightarrow>
      ds = [] \<and> (since r' (ctx_subject ctx) = Some t \<longrightarrow> since r (ctx_subject ctx) = Some t)"
    and since_holds: "ok r \<Longrightarrow> evaluate r ctx = Done (r', Ok ds) \<Longrightarrow> reads r ctx = Holds \<Longrightarrow>
      since r' (ctx_subject ctx) = Some t \<Longrightarrow> t = ctx_monotonic_now ctx \<or> since r (ctx_subject ctx) = Some t"
    and raise: "ok r \<Longrightarrow> evaluate r ctx = Done (r', Ok ds) \<Longrightarrow> d \<in> set ds \<Longrightarrow> draft_status d = Active \<Longrightarrow>
      reads r ctx = Holds \<and>
      (\<exists>t. since r' (ctx_subject ctx) = Some t \<and> window r ctx \<le> ctx_monotonic_now ctx - t)"
    and lower: "ok r \<Longrightarrow> evaluate r ctx = Done (r', Ok ds) \<Longrightarrow> d \<in> set ds \<Longrightarrow> draft_status d = Cleared \<Longrightarrow>
      reads r ctx = Fails"
begin

lemma since_step:
  assumes "ok r" and "evaluate r ctx = Done (r', Ok ds)"
    and "\<And>s t. since r s = Some t \<Longrightarrow> held_since (reads r) s hist t"
    and "since r' s = Some t"
  shows "held_since (reads r) s (hist @ [ctx]) t"
proof (cases "s = ctx_subject ctx")
  case False
  then show ?thesis
    by (intro held_since_snoc assms(3) since_frame [OF assms(1,2) False assms(4)]) simp
next
  case True
  show ?thesis
  proof (cases "reads r ctx")
    case Holds
    then show ?thesis
      using since_holds [OF assms(1,2)] assms(3,4) held_since_snoc held_since_now True by force
  next
    case Fails
    then show ?thesis
      using since_fails [OF assms(1,2)] assms(4) True by simp
  next
    case NoInformation
    then show ?thesis
      using since_unknown [OF assms(1,2)] assms(3,4) True by (simp add: held_since_snoc)
  qed
qed

text \<open>
  Whatever sequence of evaluations led here, a raise means that the condition was
  read as holding at an evaluation at least the window ago and was never read as
  failing since.
\<close>

lemma run_debounced:
  assumes "ok r" and "\<And>s. since r s = None" and "rule_run evaluate r ctxs = Done (r1, ds1)"
  shows "ok r1 \<and> reads r1 = reads r \<and> window r1 = window r \<and>
    (\<forall>s t. since r1 s = Some t \<longrightarrow> held_since (reads r) s ctxs t)"
proof -
  have "ok r1 \<and> reads r1 = reads r \<and> window r1 = window r \<and>
      (\<forall>s t. since r1 s = Some t \<longrightarrow> held_since (reads r) s (hist @ ctxs) t)"
    if "ok r" "\<And>s t. since r s = Some t \<Longrightarrow> held_since (reads r) s hist t"
      "rule_run evaluate r ctxs = Done (r1, ds1)" for r hist ctxs ds1
    using that
  proof (induction ctxs arbitrary: r hist ds1)
    case (Cons ctx ctxs)
    obtain r2 d2 where step: "evaluate r ctx = Done (r2, Ok d2)"
      using returns Cons.prems(1) by blast
    then obtain ds3 where rest: "rule_run evaluate r2 ctxs = Done (r1, ds3)"
      using Cons.prems(3) by (auto split: run.splits)
    note cfg = config [OF Cons.prems(1) step]
    have inv: "held_since (reads r2) s (hist @ [ctx]) t" if "since r2 s = Some t" for s t
      using since_step [OF Cons.prems(1) step Cons.prems(2) that] cfg by simp
    show ?case
      using Cons.IH [OF keeps_ok [OF Cons.prems(1) step] inv rest] cfg by simp
  qed simp
  from this [OF assms(1) _ assms(3), of "[]"] assms(2) show ?thesis by simp
qed

lemma raise_needs_window:
  assumes "ok r" and "\<And>s. since r s = None" and "rule_run evaluate r ctxs = Done (r1, ds1)"
    and "evaluate r1 ctx = Done (r2, Ok ds)" and "d \<in> set ds" and "draft_status d = Active"
  shows "\<exists>t. window r ctx \<le> ctx_monotonic_now ctx - t \<and>
    held_since (reads r) (ctx_subject ctx) (ctxs @ [ctx]) t"
proof -
  note inv = run_debounced [OF assms(1-3)]
  have held: "held_since (reads r1) s ctxs t" if "since r1 s = Some t" for s t
    using inv that by simp
  obtain t where t: "since r2 (ctx_subject ctx) = Some t" "window r1 ctx \<le> ctx_monotonic_now ctx - t"
    using raise [OF _ assms(4-6)] inv by blast
  have "held_since (reads r1) (ctx_subject ctx) (ctxs @ [ctx]) t"
    using since_step [OF _ assms(4) held t(1)] inv by blast
  with t inv show ?thesis by auto
qed

end

section \<open>Responsiveness\<close>

text \<open>
  The other direction. \<open>fresh r s now\<close>: the entry of \<open>s\<close> survives the pruning of an
  evaluation at \<open>now\<close>; it does whenever the last evaluation was less than the
  retention ago.
\<close>

fun gaps_below :: "duration \<Rightarrow> instant \<Rightarrow> diagnostic_context list \<Rightarrow> bool" where
  "gaps_below ret t [] = True"
| "gaps_below ret t (c # cs) =
     (ctx_monotonic_now c - t < ret \<and> gaps_below ret (ctx_monotonic_now c) cs)"

locale responsive_rule = debounced_rule +
  fixes fresh :: "'a \<Rightarrow> entity_ref \<Rightarrow> instant \<Rightarrow> bool"
    and retention :: duration
  assumes since_set: "ok r \<Longrightarrow> evaluate r ctx = Done (r', Ok ds) \<Longrightarrow> reads r ctx = Holds \<Longrightarrow>
      since r' (ctx_subject ctx) \<noteq> None"
    and since_kept: "ok r \<Longrightarrow> evaluate r ctx = Done (r', Ok ds) \<Longrightarrow> reads r ctx = Holds \<Longrightarrow>
      since r (ctx_subject ctx) = Some t \<Longrightarrow> fresh r (ctx_subject ctx) (ctx_monotonic_now ctx) \<Longrightarrow>
      since r' (ctx_subject ctx) = Some t"
    and fresh_after: "ok r \<Longrightarrow> evaluate r ctx = Done (r', Ok ds) \<Longrightarrow> reads r ctx = Holds \<Longrightarrow>
      t - ctx_monotonic_now ctx < retention \<Longrightarrow> fresh r' (ctx_subject ctx) t"
    and due: "ok r \<Longrightarrow> evaluate r ctx = Done (r', Ok ds) \<Longrightarrow> reads r ctx = Holds \<Longrightarrow>
      since r' (ctx_subject ctx) = Some t \<Longrightarrow> window r ctx \<le> ctx_monotonic_now ctx - t \<Longrightarrow>
      emitted r' (ctx_subject ctx)"
begin

lemma held_run:
  assumes "ok r" and "since r s = Some t" and "\<And>u. u - prev < retention \<Longrightarrow> fresh r s u"
    and "\<forall>c \<in> set ctxs. ctx_subject c = s \<and> reads r c = Holds" and "gaps_below retention prev ctxs"
    and "rule_run evaluate r ctxs = Done (r', ds)"
    and "ctxs \<noteq> [] \<Longrightarrow> window r (last ctxs) \<le> ctx_monotonic_now (last ctxs) - t"
    and "ctxs = [] \<Longrightarrow> emitted r s"
  shows "emitted r' s"
  using assms
proof (induction ctxs arbitrary: r ds prev)
  case Nil
  then show ?case by simp
next
  case (Cons c ctxs)
  obtain r1 d1 where step: "evaluate r c = Done (r1, Ok d1)"
    using returns Cons.prems(1) by blast
  then obtain ds2 where rest: "rule_run evaluate r1 ctxs = Done (r', ds2)"
    using Cons.prems(6) by (auto split: run.splits)
  have c: "ctx_subject c = s" "reads r c = Holds"
    using Cons.prems(4) by auto
  note cfg = config [OF Cons.prems(1) step]
  have s1: "since r1 s = Some t"
    using since_kept [OF Cons.prems(1) step c(2)] Cons.prems(2,3,5) c(1) by simp
  show ?case
  proof (rule Cons.IH [OF keeps_ok [OF Cons.prems(1) step] s1 _ _ _ rest])
    show "fresh r1 s u" if "u - ctx_monotonic_now c < retention" for u
      using fresh_after [OF Cons.prems(1) step c(2) that] c(1) by simp
    show "\<forall>x \<in> set ctxs. ctx_subject x = s \<and> reads r1 x = Holds"
      using Cons.prems(4) cfg by simp
    show "gaps_below retention (ctx_monotonic_now c) ctxs"
      using Cons.prems(5) by simp
    show "ctxs \<noteq> [] \<Longrightarrow> window r1 (last ctxs) \<le> ctx_monotonic_now (last ctxs) - t"
      using Cons.prems(7) cfg by simp
    show "ctxs = [] \<Longrightarrow> emitted r1 s"
      using due [OF Cons.prems(1) step c(2)] s1 c(1) Cons.prems(7) by simp
  qed
qed

text \<open>
  A condition read as holding at every evaluation of a subject, with gaps below the
  retention, is raised once the window has passed.
\<close>

lemma holding_is_raised:
  assumes "ok r" and "\<not> emitted r s" and "since r s = None"
    and "\<forall>x \<in> set (c # ctxs). ctx_subject x = s \<and> reads r x = Holds"
    and "gaps_below retention (ctx_monotonic_now c) ctxs"
    and "window r (last (c # ctxs)) \<le> ctx_monotonic_now (last (c # ctxs)) - ctx_monotonic_now c"
  shows "\<exists>r' ds. rule_run evaluate r (c # ctxs) = Done (r', ds) \<and>
    (\<exists>d \<in> set ds. draft_subject d = s \<and> draft_status d = Active)"
proof -
  obtain r1 d1 where step: "evaluate r c = Done (r1, Ok d1)"
    using returns assms(1) by blast
  obtain r' ds where run: "rule_run evaluate r (c # ctxs) = Done (r', ds)"
    using run_returns [OF assms(1)] by blast
  then obtain ds2 where rest: "rule_run evaluate r1 ctxs = Done (r', ds2)"
    using step by (auto split: run.splits)
  have c: "ctx_subject c = s" "reads r c = Holds"
    using assms(4) by auto
  note cfg = config [OF assms(1) step]
  obtain t where "since r1 s = Some t"
    using since_set [OF assms(1) step c(2)] c(1) by auto
  with since_holds [OF assms(1) step c(2)] assms(3) c(1)
  have s1: "since r1 s = Some (ctx_monotonic_now c)" by auto
  have "emitted r' s"
  proof (rule held_run [OF keeps_ok [OF assms(1) step] s1 _ _ assms(5) rest])
    show "fresh r1 s u" if "u - ctx_monotonic_now c < retention" for u
      using fresh_after [OF assms(1) step c(2) that] c(1) by simp
    show "\<forall>x \<in> set ctxs. ctx_subject x = s \<and> reads r1 x = Holds"
      using assms(4) cfg by simp
    show "ctxs \<noteq> [] \<Longrightarrow> window r1 (last ctxs) \<le> ctx_monotonic_now (last ctxs) - ctx_monotonic_now c"
      using assms(6) cfg by simp
    show "ctxs = [] \<Longrightarrow> emitted r1 s"
      using due [OF assms(1) step c(2)] s1 c(1) assms(6) by simp
  qed
  then have "\<exists>d \<in> set ds. draft_subject d = s \<and> draft_status d = Active"
    using latch_set_by_raise [OF assms(1) run] assms(2) by blast
  with run show ?thesis by blast
qed

end

end
