(* ===== verification/Rule_Rpc_Unreachable.thy ===== *)
theory Rule_Rpc_Unreachable
  imports Diagnostics
begin

text \<open>
  The rule \<open>bitcoin.rpc_unreachable\<close>
  (\<open>diagnostics/rules/bitcoin/rpc_unreachable.rs\<close>), the health-target names it
  shares with the Bitcoin collector, and its interpretations of the rule contracts.
\<close>

definition HEALTH_BLOCKCHAIN :: string where
  "HEALTH_BLOCKCHAIN = ''bitcoin.rpc.getblockchaininfo''"
definition HEALTH_MEMPOOL :: string where
  "HEALTH_MEMPOOL = ''bitcoin.rpc.getmempoolinfo''"
definition HEALTH_NETWORK :: string where
  "HEALTH_NETWORK = ''bitcoin.rpc.getnetworkinfo''"
definition HEALTH_PEERS :: string where
  "HEALTH_PEERS = ''bitcoin.rpc.getpeerinfo''"

definition HEALTH_TARGETS :: "string list" where
  "HEALTH_TARGETS = [HEALTH_BLOCKCHAIN, HEALTH_MEMPOOL, HEALTH_NETWORK, HEALTH_PEERS]"

lemmas health_target_defs =
  HEALTH_BLOCKCHAIN_def HEALTH_MEMPOOL_def HEALTH_NETWORK_def HEALTH_PEERS_def

definition ru_DEFAULT_DEBOUNCE :: duration where
  "ru_DEFAULT_DEBOUNCE = from_secs 60"

definition ru_STATE_RETENTION :: duration where
  "ru_STATE_RETENTION = from_secs (60 * 60)"

record ru_subject_state =
  ru_first_all_critical_at :: "instant option"
  ru_active_emitted :: bool
  ru_last_touched_at :: "instant option"

definition ru_subject_state_default :: ru_subject_state where
  "ru_subject_state_default =
     \<lparr>ru_first_all_critical_at = None, ru_active_emitted = False, ru_last_touched_at = None\<rparr>"

record bitcoin_rpc_unreachable_rule =
  ru_debounce :: duration
  ru_state :: "(entity_ref, ru_subject_state) hash_map"

definition ru_with_debounce :: "duration \<Rightarrow> bitcoin_rpc_unreachable_rule" where
  "ru_with_debounce debounce = \<lparr>ru_debounce = debounce, ru_state = []\<rparr>"

definition rpc_unreachable_new :: bitcoin_rpc_unreachable_rule where
  "rpc_unreachable_new = ru_with_debounce ru_DEFAULT_DEBOUNCE"

definition all_four_critical :: "diagnostic_context \<Rightarrow> bool" where
  "all_four_critical ctx =
     list_all (\<lambda>name.
       map_option (\<lambda>p. health_status_of (pr_value p))
         (rm_current_health (ctx_health ctx) (ctx_subject ctx) (health_target_id_from_well_known name))
       = Some HealthCritical) HEALTH_TARGETS"

definition ru_build_draft :: "entity_ref \<Rightarrow> signal_status \<Rightarrow> incident_signal_draft" where
  "ru_build_draft subject status =
     (let kind = incident_kind_from_well_known BITCOIN_RPC_UNREACHABLE in
      \<lparr>draft_subject = subject, draft_signal = signal_name_for_incident_kind kind, draft_kind = kind,
       draft_dimension = None, draft_severity = SigCritical, draft_status = status,
       draft_confidence = ConfHigh, draft_evidence = []\<rparr>)"

definition ru_prune_keep :: "instant \<Rightarrow> ru_subject_state \<Rightarrow> bool" where
  "ru_prune_keep now entry =
     (if ru_active_emitted entry then True
      else case ru_last_touched_at entry of
             Some ts \<Rightarrow> saturating_duration_since now ts < ru_STATE_RETENTION
           | None \<Rightarrow> True)"

definition ru_step ::
    "duration \<Rightarrow> entity_ref \<Rightarrow> instant \<Rightarrow> bool \<Rightarrow> ru_subject_state \<Rightarrow>
     ru_subject_state \<times> incident_signal_draft list" where
  "ru_step debounce subject now all_critical entry0 =
     (let entry = entry0\<lparr>ru_last_touched_at := Some now\<rparr> in
      if all_critical then
        let first = (case ru_first_all_critical_at entry of None \<Rightarrow> now | Some t \<Rightarrow> t);
            entry = entry\<lparr>ru_first_all_critical_at := Some first\<rparr>;
            held = saturating_duration_since now first
        in if \<not> ru_active_emitted entry \<and> held \<ge> debounce
           then (entry\<lparr>ru_active_emitted := True\<rparr>, [ru_build_draft subject Active])
           else (entry, [])
      else
        let entry = entry\<lparr>ru_first_all_critical_at := None\<rparr>
        in if ru_active_emitted entry
           then (entry\<lparr>ru_active_emitted := False\<rparr>, [ru_build_draft subject Cleared])
           else (entry, []))"

definition rpc_unreachable_evaluate ::
    "bitcoin_rpc_unreachable_rule \<Rightarrow> diagnostic_context \<Rightarrow> bitcoin_rpc_unreachable_rule evaluation" where
  "rpc_unreachable_evaluate r ctx =
     (case ctx_subject ctx of
        BitcoinNode _ \<Rightarrow>
          let all_critical = all_four_critical ctx in
          (case with_entry (ru_prune_keep (ctx_monotonic_now ctx)) ru_subject_state_default
                  (ru_step (ru_debounce r) (ctx_subject ctx) (ctx_monotonic_now ctx) all_critical)
                  (ctx_subject ctx) (ru_state r) of
             Panicked \<Rightarrow> Panicked
           | Done (state, drafts) \<Rightarrow> Done (r\<lparr>ru_state := state\<rparr>, Ok drafts))
      | _ \<Rightarrow> Done (r, Ok []))"

section \<open>The contracts\<close>

text \<open>What the evaluation of a Bitcoin node works on.\<close>

definition ru_input :: "diagnostic_context \<Rightarrow> bool option" where
  "ru_input ctx = (case ctx_subject ctx of BitcoinNode _ \<Rightarrow> Some (all_four_critical ctx) | _ \<Rightarrow> None)"

definition ru_reads :: "bitcoin_rpc_unreachable_rule \<Rightarrow> diagnostic_context \<Rightarrow> reading" where
  "ru_reads r ctx =
     (case ru_input ctx of
        None \<Rightarrow> NoInformation | Some all_critical \<Rightarrow> if all_critical then Holds else Fails)"

lemma ru_input_subject: "ru_input ctx = Some b \<Longrightarrow> subject_kind (ctx_subject ctx) = SkBitcoinNode"
  by (auto simp: ru_input_def split: entity_ref.splits)

definition ru_ok :: "bitcoin_rpc_unreachable_rule \<Rightarrow> bool" where
  "ru_ok r = hm_wf (ru_state r)"

definition ru_emitted :: "bitcoin_rpc_unreachable_rule \<Rightarrow> entity_ref \<Rightarrow> bool" where
  "ru_emitted r s = (case hm_get (ru_state r) s of None \<Rightarrow> False | Some e \<Rightarrow> ru_active_emitted e)"

definition ru_since :: "bitcoin_rpc_unreachable_rule \<Rightarrow> entity_ref \<Rightarrow> instant option" where
  "ru_since r s = (case hm_get (ru_state r) s of None \<Rightarrow> None | Some e \<Rightarrow> ru_first_all_critical_at e)"

lemma rpc_unreachable_evaluateE:
  assumes "ru_ok r" and "rpc_unreachable_evaluate r ctx = Done (r', Ok ds)"
  obtains (other) "r' = r" "ds = []" "ru_reads r ctx = NoInformation"
  | (entry) a entry where "ru_input ctx = Some a" "subject_kind (ctx_subject ctx) = SkBitcoinNode"
    "entry = entry_of (ru_prune_keep (ctx_monotonic_now ctx)) ru_subject_state_default
       (ctx_subject ctx) (ru_state r)"
    "ru_ok r'" "r' = r\<lparr>ru_state := ru_state r'\<rparr>"
    "ds = snd (ru_step (ru_debounce r) (ctx_subject ctx) (ctx_monotonic_now ctx) a entry)"
    "hm_get (ru_state r') (ctx_subject ctx) = Some (fst (ru_step (ru_debounce r) (ctx_subject ctx) (ctx_monotonic_now ctx) a entry))"
    "\<And>x. x \<noteq> ctx_subject ctx \<Longrightarrow> hm_get (ru_state r') x =
       (case hm_get (ru_state r) x of
          None \<Rightarrow> None | Some e \<Rightarrow> if ru_prune_keep (ctx_monotonic_now ctx) e then Some e else None)"
proof (cases "ru_input ctx")
  case (Some a)
  then show ?thesis
    using assms entry [OF Some ru_input_subject [OF Some]] unfolding ru_ok_def
    by (auto simp: rpc_unreachable_evaluate_def Let_def ru_input_def split: run.splits entity_ref.splits elim!: with_entryE)
qed (use assms other in \<open>auto simp: rpc_unreachable_evaluate_def ru_reads_def ru_input_def split: entity_ref.splits\<close>)

lemmas ru_defs =
  ru_step_def ru_build_draft_def ru_emitted_def ru_since_def own_draft_def
  entry_of_def ru_subject_state_default_def ru_prune_keep_def saturating_duration_since_def
  incident_kind_from_well_known_def Let_def

lemma ru_step_latch:
  "strict_latch_step (ru_active_emitted e) (snd (ru_step (ru_debounce r) (ctx_subject ctx) (ctx_monotonic_now ctx) a e)) (ru_active_emitted (fst (ru_step (ru_debounce r) (ctx_subject ctx) (ctx_monotonic_now ctx) a e)))"
  by (auto simp: ru_step_def ru_build_draft_def Let_def split: option.split)

lemma ru_step_touched: "ru_last_touched_at (fst (ru_step (ru_debounce r) (ctx_subject ctx) (ctx_monotonic_now ctx) a e)) = Some (ctx_monotonic_now ctx)"
  by (auto simp: ru_step_def Let_def split: option.split)

lemma ru_step_own:
  "d \<in> set (snd (ru_step (ru_debounce r) (ctx_subject ctx) (ctx_monotonic_now ctx) a e)) \<Longrightarrow> subject_kind (ctx_subject ctx) = SkBitcoinNode \<Longrightarrow>
     own_draft (IncidentKind BITCOIN_RPC_UNREACHABLE) SkBitcoinNode ConfHigh (ctx_subject ctx) d"
  by (auto simp: ru_step_def ru_build_draft_def own_draft_def incident_kind_from_well_known_def Let_def word_le_nat_alt
      split: option.splits if_splits)

lemma ru_step_raise:
  "d \<in> set (snd (ru_step (ru_debounce r) (ctx_subject ctx) (ctx_monotonic_now ctx) a e)) \<Longrightarrow> draft_status d = Active \<Longrightarrow>
     a \<and> (\<exists>t. ru_first_all_critical_at (fst (ru_step (ru_debounce r) (ctx_subject ctx) (ctx_monotonic_now ctx) a e)) = Some t \<and>
       ru_debounce r \<le> ctx_monotonic_now ctx - t)"
  by (auto simp: ru_step_def ru_build_draft_def saturating_duration_since_def Let_def split: option.splits if_splits)

lemma ru_step_lower: "d \<in> set (snd (ru_step (ru_debounce r) (ctx_subject ctx) (ctx_monotonic_now ctx) a e)) \<Longrightarrow> draft_status d = Cleared \<Longrightarrow> \<not> a"
  by (auto simp: ru_step_def ru_build_draft_def Let_def split: option.splits if_splits)

lemma ru_entry_emitted:
  "ru_active_emitted (entry_of (ru_prune_keep now) ru_subject_state_default s (ru_state r)) = ru_emitted r s"
  by (auto simp: entry_of_def ru_emitted_def ru_subject_state_default_def ru_prune_keep_def
      split: option.splits)

lemma ru_latch:
  assumes "ru_ok r" and "rpc_unreachable_evaluate r ctx = Done (r', Ok ds)"
  shows "strict_latch_step (ru_emitted r (ctx_subject ctx)) ds (ru_emitted r' (ctx_subject ctx))"
  using assms
proof (cases rule: rpc_unreachable_evaluateE)
  case (entry a e)
  have "ru_emitted r' (ctx_subject ctx) = ru_active_emitted (fst (ru_step (ru_debounce r) (ctx_subject ctx) (ctx_monotonic_now ctx) a e))"
    using entry(7) by (simp add: ru_emitted_def)
  then show ?thesis
    using entry(3,6) ru_step_latch [of e r ctx a] ru_entry_emitted [of "ctx_monotonic_now ctx" "ctx_subject ctx" r]
    by (auto intro: strict_latch_step_weaken)
qed simp

lemma rpc_unreachable_returns: "ru_ok r \<Longrightarrow> \<exists>r' ds. rpc_unreachable_evaluate r ctx = Done (r', Ok ds)"
  by (auto simp: rpc_unreachable_evaluate_def ru_ok_def Let_def with_entry_total split: entity_ref.splits run.split)

lemma rpc_unreachable_ok: "ru_ok r \<Longrightarrow> rpc_unreachable_evaluate r ctx = Done (r', Ok ds) \<Longrightarrow> ru_ok r'"
  by (rule rpc_unreachable_evaluateE) auto

interpretation rpc_unreachable: latched_rule rpc_unreachable_evaluate ru_ok ru_emitted
  "IncidentKind BITCOIN_RPC_UNREACHABLE" SkBitcoinNode ConfHigh
proof unfold_locales
  fix r ctx r' ds d s
  assume r: "ru_ok r"
  show "\<exists>r' ds. rpc_unreachable_evaluate r ctx = Done (r', Ok ds)"
    using r by (rule rpc_unreachable_returns)
  assume e: "rpc_unreachable_evaluate r ctx = Done (r', Ok ds)"
  show "ru_ok r'"
    using r e by (rule rpc_unreachable_ok)
  show "d \<in> set ds \<Longrightarrow> own_draft (IncidentKind BITCOIN_RPC_UNREACHABLE) SkBitcoinNode ConfHigh (ctx_subject ctx) d"
    using r e by (rule rpc_unreachable_evaluateE) (auto intro: ru_step_own)
  show strict: "strict_latch_step (ru_emitted r (ctx_subject ctx)) ds (ru_emitted r' (ctx_subject ctx))"
    using r e by (rule ru_latch)
  show "latch_step (ru_emitted r (ctx_subject ctx)) ds (ru_emitted r' (ctx_subject ctx))"
    using strict by (rule strict_latch_step_imp)
  show frame: "s \<noteq> ctx_subject ctx \<Longrightarrow> ru_emitted r' s = ru_emitted r s"
    using r e by (rule rpc_unreachable_evaluateE) (auto simp: ru_emitted_def ru_prune_keep_def split: option.splits)
  show "s \<noteq> ctx_subject ctx \<Longrightarrow> ru_emitted r' s \<Longrightarrow> ru_emitted r s"
    using frame by simp
qed

interpretation rpc_unreachable: debounced_rule rpc_unreachable_evaluate ru_ok ru_emitted
  "IncidentKind BITCOIN_RPC_UNREACHABLE" SkBitcoinNode ConfHigh ru_reads ru_since "\<lambda>r _. ru_debounce r"
proof unfold_locales
  fix r ctx r' ds d s t
  assume r: "ru_ok r" and e: "rpc_unreachable_evaluate r ctx = Done (r', Ok ds)"
  have same: "r' = r\<lparr>ru_state := ru_state r'\<rparr>"
    using r e by (rule rpc_unreachable_evaluateE) auto
  show "ru_reads r' = ru_reads r \<and> (\<lambda>r _. ru_debounce r) r' = (\<lambda>r _. ru_debounce r) r"
    by (subst (1 2) same) (auto simp: fun_eq_iff ru_reads_def split: option.split)
  show "s \<noteq> ctx_subject ctx \<Longrightarrow> ru_since r' s = Some t \<Longrightarrow> ru_since r s = Some t"
    using r e by (rule rpc_unreachable_evaluateE) (auto simp: ru_since_def split: option.splits if_splits)
  show "ru_reads r ctx = Fails \<Longrightarrow> ru_since r' (ctx_subject ctx) = None"
    using r e by (rule rpc_unreachable_evaluateE) (auto simp: ru_defs ru_reads_def  split: if_splits option.splits option.splits)
  show "ru_reads r ctx = NoInformation \<Longrightarrow>
      ds = [] \<and> (ru_since r' (ctx_subject ctx) = Some t \<longrightarrow> ru_since r (ctx_subject ctx) = Some t)"
    using r e by (rule rpc_unreachable_evaluateE) (auto simp: ru_defs ru_reads_def split: if_splits option.splits option.splits)
  show "ru_reads r ctx = Holds \<Longrightarrow> ru_since r' (ctx_subject ctx) = Some t \<Longrightarrow>
      t = ctx_monotonic_now ctx \<or> ru_since r (ctx_subject ctx) = Some t"
    using r e by (rule rpc_unreachable_evaluateE) (auto simp: ru_defs ru_reads_def  split: if_splits option.splits option.splits)
  show "d \<in> set ds \<Longrightarrow> draft_status d = Active \<Longrightarrow> ru_reads r ctx = Holds \<and>
      (\<exists>t. ru_since r' (ctx_subject ctx) = Some t \<and> (\<lambda>r _. ru_debounce r) r ctx \<le> ctx_monotonic_now ctx - t)"
    using r e by (rule rpc_unreachable_evaluateE) (auto simp: ru_since_def ru_reads_def  dest!: ru_step_raise)
  show "d \<in> set ds \<Longrightarrow> draft_status d = Cleared \<Longrightarrow> ru_reads r ctx = Fails"
    using r e by (rule rpc_unreachable_evaluateE) (auto simp: ru_reads_def dest!: ru_step_lower)
qed

definition ru_fresh :: "bitcoin_rpc_unreachable_rule \<Rightarrow> entity_ref \<Rightarrow> instant \<Rightarrow> bool" where
  "ru_fresh r s now = (case hm_get (ru_state r) s of None \<Rightarrow> False | Some e \<Rightarrow> ru_prune_keep now e)"

interpretation rpc_unreachable: responsive_rule rpc_unreachable_evaluate ru_ok ru_emitted
  "IncidentKind BITCOIN_RPC_UNREACHABLE" SkBitcoinNode ConfHigh ru_reads ru_since "\<lambda>r _. ru_debounce r"
  ru_fresh ru_STATE_RETENTION
proof unfold_locales
  fix r ctx r' ds t
  assume r: "ru_ok r" and e: "rpc_unreachable_evaluate r ctx = Done (r', Ok ds)" and h: "ru_reads r ctx = Holds"
  show "ru_since r' (ctx_subject ctx) \<noteq> None"
    using r e by (rule rpc_unreachable_evaluateE) (use h in \<open>auto simp: ru_defs ru_reads_def  split: if_splits option.splits option.splits\<close>)
  show "ru_since r (ctx_subject ctx) = Some t \<Longrightarrow> ru_fresh r (ctx_subject ctx) (ctx_monotonic_now ctx) \<Longrightarrow>
      ru_since r' (ctx_subject ctx) = Some t"
    using r e by (rule rpc_unreachable_evaluateE)
      (use h in \<open>auto simp: ru_defs ru_reads_def ru_fresh_def  split: if_splits option.splits option.splits\<close>)
  show "t - ctx_monotonic_now ctx < ru_STATE_RETENTION \<Longrightarrow> ru_fresh r' (ctx_subject ctx) t"
    using r e by (rule rpc_unreachable_evaluateE)
      (use h in \<open>auto simp: ru_fresh_def ru_prune_keep_def ru_step_touched ru_reads_def Let_def
        saturating_duration_since_def ru_STATE_RETENTION_def\<close>)
  show "ru_since r' (ctx_subject ctx) = Some t \<Longrightarrow> (\<lambda>r _. ru_debounce r) r ctx \<le> ctx_monotonic_now ctx - t \<Longrightarrow>
      ru_emitted r' (ctx_subject ctx)"
    using r e by (rule rpc_unreachable_evaluateE)
      (use h in \<open>auto simp: ru_defs ru_reads_def   split: if_splits option.splits option.splits\<close>)
qed

end
