(* ===== verification/Rule_No_Peers.thy ===== *)
theory Rule_No_Peers
  imports Diagnostics
begin

text \<open>
  The rule \<open>bitcoin.no_peers\<close> (\<open>diagnostics/rules/bitcoin/no_peers.rs\<close>) and its
  interpretations of the rule contracts.
\<close>

definition np_DEFAULT_DEBOUNCE :: duration where
  "np_DEFAULT_DEBOUNCE = from_secs 60"

definition np_STATE_RETENTION :: duration where
  "np_STATE_RETENTION = from_secs (60 * 60)"

record np_subject_state =
  np_first_seen_at :: "instant option"
  np_active_emitted :: bool
  np_last_touched_at :: "instant option"

definition np_subject_state_default :: np_subject_state where
  "np_subject_state_default =
     \<lparr>np_first_seen_at = None, np_active_emitted = False, np_last_touched_at = None\<rparr>"

record bitcoin_no_peers_rule =
  np_debounce :: duration
  np_state :: "(entity_ref, np_subject_state) hash_map"

definition np_with_debounce :: "duration \<Rightarrow> bitcoin_no_peers_rule" where
  "np_with_debounce debounce = \<lparr>np_debounce = debounce, np_state = []\<rparr>"

definition no_peers_new :: bitcoin_no_peers_rule where
  "no_peers_new = np_with_debounce np_DEFAULT_DEBOUNCE"

datatype np_condition = NpFiring | NpNotFiring | NpUnknown

definition np_classify :: "diagnostic_context \<Rightarrow> bitcoin_node_id \<Rightarrow> np_condition" where
  "np_classify ctx node =
     (case bitcoin_network (rm_latest_state (ctx_state ctx)) node of
        None \<Rightarrow> NpUnknown
      | Some network \<Rightarrow>
          (case bitcoin_peer_summary (rm_latest_state (ctx_state ctx)) node of
             None \<Rightarrow> NpUnknown
           | Some peers \<Rightarrow>
               (case nw_network_active (pr_value network) of
                  None \<Rightarrow> NpUnknown
                | Some network_active \<Rightarrow>
                    if \<not> network_active then NpNotFiring
                    else
                      (case (case nw_connections_out (pr_value network) of
                               Some c \<Rightarrow> Some c | None \<Rightarrow> ps_outbound_count (pr_value peers)) of
                         None \<Rightarrow> NpUnknown
                       | Some outbound \<Rightarrow> if outbound = 0 then NpFiring else NpNotFiring))))"

definition np_build_draft :: "entity_ref \<Rightarrow> signal_status \<Rightarrow> incident_signal_draft" where
  "np_build_draft subject status =
     (let kind = incident_kind_from_well_known BITCOIN_NO_PEERS in
      \<lparr>draft_subject = subject, draft_signal = signal_name_for_incident_kind kind, draft_kind = kind,
       draft_dimension = None, draft_severity = SigCritical, draft_status = status,
       draft_confidence = ConfHigh, draft_evidence = []\<rparr>)"

definition np_prune_keep :: "instant \<Rightarrow> np_subject_state \<Rightarrow> bool" where
  "np_prune_keep now entry =
     (if np_active_emitted entry then True
      else case np_last_touched_at entry of
             Some ts \<Rightarrow> saturating_duration_since now ts < np_STATE_RETENTION
           | None \<Rightarrow> True)"

definition np_step ::
    "duration \<Rightarrow> entity_ref \<Rightarrow> instant \<Rightarrow> np_condition \<Rightarrow> np_subject_state \<Rightarrow>
     np_subject_state \<times> incident_signal_draft list" where
  "np_step debounce subject now condition entry0 =
     (let entry = entry0\<lparr>np_last_touched_at := Some now\<rparr> in
      case condition of
        NpFiring \<Rightarrow>
          let first = (case np_first_seen_at entry of None \<Rightarrow> now | Some t \<Rightarrow> t);
              entry = entry\<lparr>np_first_seen_at := Some first\<rparr>;
              held = saturating_duration_since now first
          in if \<not> np_active_emitted entry \<and> held \<ge> debounce
             then (entry\<lparr>np_active_emitted := True\<rparr>, [np_build_draft subject Active])
             else (entry, [])
      | NpNotFiring \<Rightarrow>
          let entry = entry\<lparr>np_first_seen_at := None\<rparr>
          in if np_active_emitted entry
             then (entry\<lparr>np_active_emitted := False\<rparr>, [np_build_draft subject Cleared])
             else (entry, [])
      | NpUnknown \<Rightarrow> (entry, []))"

definition no_peers_evaluate ::
    "bitcoin_no_peers_rule \<Rightarrow> diagnostic_context \<Rightarrow> bitcoin_no_peers_rule evaluation" where
  "no_peers_evaluate r ctx =
     (case ctx_subject ctx of
        BitcoinNode node_id \<Rightarrow>
          let condition = np_classify ctx node_id in
          (case with_entry (np_prune_keep (ctx_monotonic_now ctx)) np_subject_state_default
                  (np_step (np_debounce r) (ctx_subject ctx) (ctx_monotonic_now ctx) condition)
                  (ctx_subject ctx) (np_state r) of
             Panicked \<Rightarrow> Panicked
           | Done (state, drafts) \<Rightarrow> Done (r\<lparr>np_state := state\<rparr>, Ok drafts))
      | _ \<Rightarrow> Done (r, Ok []))"

section \<open>The contracts\<close>

text \<open>What the evaluation of a Bitcoin node works on.\<close>

definition np_input :: "diagnostic_context \<Rightarrow> np_condition option" where
  "np_input ctx = (case ctx_subject ctx of BitcoinNode node \<Rightarrow> Some (np_classify ctx node) | _ \<Rightarrow> None)"

definition np_reads :: "bitcoin_no_peers_rule \<Rightarrow> diagnostic_context \<Rightarrow> reading" where
  "np_reads r ctx =
     (case np_input ctx of
        None \<Rightarrow> NoInformation
      | Some condition \<Rightarrow>
          (case condition of NpFiring \<Rightarrow> Holds | NpNotFiring \<Rightarrow> Fails | NpUnknown \<Rightarrow> NoInformation))"

lemma np_reads_iff:
  "np_reads r ctx = Holds \<longleftrightarrow> np_input ctx = Some NpFiring"
  "np_reads r ctx = Fails \<longleftrightarrow> np_input ctx = Some NpNotFiring"
  "np_reads r ctx = NoInformation \<longleftrightarrow> np_input ctx \<in> {None, Some NpUnknown}"
  by (auto simp: np_reads_def split: option.split np_condition.splits)

lemma np_input_subject: "np_input ctx = Some b \<Longrightarrow> subject_kind (ctx_subject ctx) = SkBitcoinNode"
  by (auto simp: np_input_def split: entity_ref.splits)

definition np_ok :: "bitcoin_no_peers_rule \<Rightarrow> bool" where
  "np_ok r = hm_wf (np_state r)"

definition np_emitted :: "bitcoin_no_peers_rule \<Rightarrow> entity_ref \<Rightarrow> bool" where
  "np_emitted r s = (case hm_get (np_state r) s of None \<Rightarrow> False | Some e \<Rightarrow> np_active_emitted e)"

definition np_since :: "bitcoin_no_peers_rule \<Rightarrow> entity_ref \<Rightarrow> instant option" where
  "np_since r s = (case hm_get (np_state r) s of None \<Rightarrow> None | Some e \<Rightarrow> np_first_seen_at e)"

lemma no_peers_evaluateE:
  assumes "np_ok r" and "no_peers_evaluate r ctx = Done (r', Ok ds)"
  obtains (other) "r' = r" "ds = []" "np_reads r ctx = NoInformation"
  | (entry) a entry where "np_input ctx = Some a" "subject_kind (ctx_subject ctx) = SkBitcoinNode"
    "entry = entry_of (np_prune_keep (ctx_monotonic_now ctx)) np_subject_state_default
       (ctx_subject ctx) (np_state r)"
    "np_ok r'" "r' = r\<lparr>np_state := np_state r'\<rparr>"
    "ds = snd (np_step (np_debounce r) (ctx_subject ctx) (ctx_monotonic_now ctx) a entry)"
    "hm_get (np_state r') (ctx_subject ctx) = Some (fst (np_step (np_debounce r) (ctx_subject ctx) (ctx_monotonic_now ctx) a entry))"
    "\<And>x. x \<noteq> ctx_subject ctx \<Longrightarrow> hm_get (np_state r') x =
       (case hm_get (np_state r) x of
          None \<Rightarrow> None | Some e \<Rightarrow> if np_prune_keep (ctx_monotonic_now ctx) e then Some e else None)"
proof (cases "np_input ctx")
  case (Some a)
  then show ?thesis
    using assms entry [OF Some np_input_subject [OF Some]] unfolding np_ok_def
    by (auto simp: no_peers_evaluate_def Let_def np_input_def split: run.splits entity_ref.splits elim!: with_entryE)
qed (use assms other in \<open>auto simp: no_peers_evaluate_def np_reads_def np_input_def split: entity_ref.splits\<close>)

lemmas np_defs =
  np_step_def np_build_draft_def np_emitted_def np_since_def own_draft_def
  entry_of_def np_subject_state_default_def np_prune_keep_def saturating_duration_since_def
  incident_kind_from_well_known_def Let_def

lemma np_step_latch:
  "strict_latch_step (np_active_emitted e) (snd (np_step (np_debounce r) (ctx_subject ctx) (ctx_monotonic_now ctx) a e)) (np_active_emitted (fst (np_step (np_debounce r) (ctx_subject ctx) (ctx_monotonic_now ctx) a e)))"
  by (auto simp: np_step_def np_build_draft_def Let_def split: np_condition.split)

lemma np_step_touched: "np_last_touched_at (fst (np_step (np_debounce r) (ctx_subject ctx) (ctx_monotonic_now ctx) a e)) = Some (ctx_monotonic_now ctx)"
  by (auto simp: np_step_def Let_def split: np_condition.split)

lemma np_step_own:
  "d \<in> set (snd (np_step (np_debounce r) (ctx_subject ctx) (ctx_monotonic_now ctx) a e)) \<Longrightarrow> subject_kind (ctx_subject ctx) = SkBitcoinNode \<Longrightarrow>
     own_draft (IncidentKind BITCOIN_NO_PEERS) SkBitcoinNode ConfHigh (ctx_subject ctx) d"
  by (auto simp: np_step_def np_build_draft_def own_draft_def incident_kind_from_well_known_def Let_def word_le_nat_alt
      split: np_condition.splits if_splits)

lemma np_step_raise:
  "d \<in> set (snd (np_step (np_debounce r) (ctx_subject ctx) (ctx_monotonic_now ctx) a e)) \<Longrightarrow> draft_status d = Active \<Longrightarrow>
     a = NpFiring \<and> (\<exists>t. np_first_seen_at (fst (np_step (np_debounce r) (ctx_subject ctx) (ctx_monotonic_now ctx) a e)) = Some t \<and>
       np_debounce r \<le> ctx_monotonic_now ctx - t)"
  by (auto simp: np_step_def np_build_draft_def saturating_duration_since_def Let_def split: np_condition.splits if_splits)

lemma np_step_lower: "d \<in> set (snd (np_step (np_debounce r) (ctx_subject ctx) (ctx_monotonic_now ctx) a e)) \<Longrightarrow> draft_status d = Cleared \<Longrightarrow> a = NpNotFiring"
  by (auto simp: np_step_def np_build_draft_def Let_def split: np_condition.splits if_splits)

lemma np_entry_emitted:
  "np_active_emitted (entry_of (np_prune_keep now) np_subject_state_default s (np_state r)) = np_emitted r s"
  by (auto simp: entry_of_def np_emitted_def np_subject_state_default_def np_prune_keep_def
      split: option.splits)

lemma np_latch:
  assumes "np_ok r" and "no_peers_evaluate r ctx = Done (r', Ok ds)"
  shows "strict_latch_step (np_emitted r (ctx_subject ctx)) ds (np_emitted r' (ctx_subject ctx))"
  using assms
proof (cases rule: no_peers_evaluateE)
  case (entry a e)
  have "np_emitted r' (ctx_subject ctx) = np_active_emitted (fst (np_step (np_debounce r) (ctx_subject ctx) (ctx_monotonic_now ctx) a e))"
    using entry(7) by (simp add: np_emitted_def)
  then show ?thesis
    using entry(3,6) np_step_latch [of e r ctx a] np_entry_emitted [of "ctx_monotonic_now ctx" "ctx_subject ctx" r]
    by (auto intro: strict_latch_step_weaken)
qed simp

lemma no_peers_returns: "np_ok r \<Longrightarrow> \<exists>r' ds. no_peers_evaluate r ctx = Done (r', Ok ds)"
  by (auto simp: no_peers_evaluate_def np_ok_def Let_def with_entry_total split: entity_ref.splits run.split)

lemma no_peers_ok: "np_ok r \<Longrightarrow> no_peers_evaluate r ctx = Done (r', Ok ds) \<Longrightarrow> np_ok r'"
  by (rule no_peers_evaluateE) auto

interpretation no_peers: latched_rule no_peers_evaluate np_ok np_emitted
  "IncidentKind BITCOIN_NO_PEERS" SkBitcoinNode ConfHigh
proof unfold_locales
  fix r ctx r' ds d s
  assume r: "np_ok r"
  show "\<exists>r' ds. no_peers_evaluate r ctx = Done (r', Ok ds)"
    using r by (rule no_peers_returns)
  assume e: "no_peers_evaluate r ctx = Done (r', Ok ds)"
  show "np_ok r'"
    using r e by (rule no_peers_ok)
  show "d \<in> set ds \<Longrightarrow> own_draft (IncidentKind BITCOIN_NO_PEERS) SkBitcoinNode ConfHigh (ctx_subject ctx) d"
    using r e by (rule no_peers_evaluateE) (auto intro: np_step_own)
  show strict: "strict_latch_step (np_emitted r (ctx_subject ctx)) ds (np_emitted r' (ctx_subject ctx))"
    using r e by (rule np_latch)
  show "latch_step (np_emitted r (ctx_subject ctx)) ds (np_emitted r' (ctx_subject ctx))"
    using strict by (rule strict_latch_step_imp)
  show frame: "s \<noteq> ctx_subject ctx \<Longrightarrow> np_emitted r' s = np_emitted r s"
    using r e by (rule no_peers_evaluateE) (auto simp: np_emitted_def np_prune_keep_def split: option.splits)
  show "s \<noteq> ctx_subject ctx \<Longrightarrow> np_emitted r' s \<Longrightarrow> np_emitted r s"
    using frame by simp
qed

interpretation no_peers: debounced_rule no_peers_evaluate np_ok np_emitted
  "IncidentKind BITCOIN_NO_PEERS" SkBitcoinNode ConfHigh np_reads np_since "\<lambda>r _. np_debounce r"
proof unfold_locales
  fix r ctx r' ds d s t
  assume r: "np_ok r" and e: "no_peers_evaluate r ctx = Done (r', Ok ds)"
  have same: "r' = r\<lparr>np_state := np_state r'\<rparr>"
    using r e by (rule no_peers_evaluateE) auto
  show "np_reads r' = np_reads r \<and> (\<lambda>r _. np_debounce r) r' = (\<lambda>r _. np_debounce r) r"
    by (subst (1 2) same) (auto simp: fun_eq_iff np_reads_def split: option.split)
  show "s \<noteq> ctx_subject ctx \<Longrightarrow> np_since r' s = Some t \<Longrightarrow> np_since r s = Some t"
    using r e by (rule no_peers_evaluateE) (auto simp: np_since_def split: option.splits if_splits)
  show "np_reads r ctx = Fails \<Longrightarrow> np_since r' (ctx_subject ctx) = None"
    using r e by (rule no_peers_evaluateE) (auto simp: np_defs np_reads_iff  split: if_splits option.splits option.splits)
  show "np_reads r ctx = NoInformation \<Longrightarrow>
      ds = [] \<and> (np_since r' (ctx_subject ctx) = Some t \<longrightarrow> np_since r (ctx_subject ctx) = Some t)"
    using r e by (rule no_peers_evaluateE) (auto simp: np_defs np_reads_iff split: if_splits option.splits option.splits)
  show "np_reads r ctx = Holds \<Longrightarrow> np_since r' (ctx_subject ctx) = Some t \<Longrightarrow>
      t = ctx_monotonic_now ctx \<or> np_since r (ctx_subject ctx) = Some t"
    using r e by (rule no_peers_evaluateE) (auto simp: np_defs np_reads_iff  split: if_splits option.splits option.splits)
  show "d \<in> set ds \<Longrightarrow> draft_status d = Active \<Longrightarrow> np_reads r ctx = Holds \<and>
      (\<exists>t. np_since r' (ctx_subject ctx) = Some t \<and> (\<lambda>r _. np_debounce r) r ctx \<le> ctx_monotonic_now ctx - t)"
    using r e by (rule no_peers_evaluateE) (auto simp: np_since_def np_reads_iff  dest!: np_step_raise)
  show "d \<in> set ds \<Longrightarrow> draft_status d = Cleared \<Longrightarrow> np_reads r ctx = Fails"
    using r e by (rule no_peers_evaluateE) (auto simp: np_reads_iff dest!: np_step_lower)
qed

definition np_fresh :: "bitcoin_no_peers_rule \<Rightarrow> entity_ref \<Rightarrow> instant \<Rightarrow> bool" where
  "np_fresh r s now = (case hm_get (np_state r) s of None \<Rightarrow> False | Some e \<Rightarrow> np_prune_keep now e)"

interpretation no_peers: responsive_rule no_peers_evaluate np_ok np_emitted
  "IncidentKind BITCOIN_NO_PEERS" SkBitcoinNode ConfHigh np_reads np_since "\<lambda>r _. np_debounce r"
  np_fresh np_STATE_RETENTION
proof unfold_locales
  fix r ctx r' ds t
  assume r: "np_ok r" and e: "no_peers_evaluate r ctx = Done (r', Ok ds)" and h: "np_reads r ctx = Holds"
  show "np_since r' (ctx_subject ctx) \<noteq> None"
    using r e by (rule no_peers_evaluateE) (use h in \<open>auto simp: np_defs np_reads_iff  split: if_splits option.splits option.splits\<close>)
  show "np_since r (ctx_subject ctx) = Some t \<Longrightarrow> np_fresh r (ctx_subject ctx) (ctx_monotonic_now ctx) \<Longrightarrow>
      np_since r' (ctx_subject ctx) = Some t"
    using r e by (rule no_peers_evaluateE)
      (use h in \<open>auto simp: np_defs np_reads_iff np_fresh_def  split: if_splits option.splits option.splits\<close>)
  show "t - ctx_monotonic_now ctx < np_STATE_RETENTION \<Longrightarrow> np_fresh r' (ctx_subject ctx) t"
    using r e by (rule no_peers_evaluateE)
      (use h in \<open>auto simp: np_fresh_def np_prune_keep_def np_step_touched np_reads_def Let_def
        saturating_duration_since_def np_STATE_RETENTION_def\<close>)
  show "np_since r' (ctx_subject ctx) = Some t \<Longrightarrow> (\<lambda>r _. np_debounce r) r ctx \<le> ctx_monotonic_now ctx - t \<Longrightarrow>
      np_emitted r' (ctx_subject ctx)"
    using r e by (rule no_peers_evaluateE)
      (use h in \<open>auto simp: np_defs np_reads_iff   split: if_splits option.splits option.splits\<close>)
qed

end
