(* ===== verification/Rule_Tip_Lag.thy ===== *)
theory Rule_Tip_Lag
  imports Diagnostics
begin

text \<open>
  The rule \<open>bitcoin.tip_lag_or_ibd_stalled\<close>
  (\<open>diagnostics/rules/bitcoin/tip_lag_or_ibd_stalled.rs\<close>). It counts consecutive
  evaluations instead of timing a window; the progress readings are binary64 floats
  and the two float constants are the nearest doubles of 0.999 and 1e-9.
\<close>

definition A1_MAX_HEADER_BLOCK_GAP :: u64 where
  "A1_MAX_HEADER_BLOCK_GAP = 1000"

definition A1_MIN_VERIFICATION_PROGRESS :: f64 where
  "A1_MIN_VERIFICATION_PROGRESS = Fin (8998192055486251 / 9007199254740992)"

definition A1_MIN_PEER_COUNT :: u64 where
  "A1_MIN_PEER_COUNT = 8"

definition A2_MIN_HEADER_BLOCK_GAP :: u64 where
  "A2_MIN_HEADER_BLOCK_GAP = A1_MAX_HEADER_BLOCK_GAP"

definition DEFAULT_A2_FLAT_WINDOW :: duration where
  "DEFAULT_A2_FLAT_WINDOW = from_secs (5 * 60)"

definition PROGRESS_EPSILON :: f64 where
  "PROGRESS_EPSILON = Fin (4835703278458517 / 4835703278458516698824704)"

definition tl_STATE_RETENTION :: duration where
  "tl_STATE_RETENTION = from_secs (60 * 60)"

record tl_subject_state =
  tl_consecutive_firing :: u32
  tl_consecutive_clearing :: u32
  tl_active_emitted :: bool
  tl_last_progress :: "f64 option"
  tl_last_progress_change_at :: "instant option"
  tl_last_touched_at :: "instant option"

definition tl_subject_state_default :: tl_subject_state where
  "tl_subject_state_default =
     \<lparr>tl_consecutive_firing = 0, tl_consecutive_clearing = 0, tl_active_emitted = False,
      tl_last_progress = None, tl_last_progress_change_at = None, tl_last_touched_at = None\<rparr>"

record bitcoin_tip_lag_rule =
  tl_a2_flat_window :: duration
  tl_debounce_ticks :: u32
  tl_state :: "(entity_ref, tl_subject_state) hash_map"

definition tl_with_settings :: "duration \<Rightarrow> u32 \<Rightarrow> bitcoin_tip_lag_rule" where
  "tl_with_settings a2_flat_window debounce_ticks =
     \<lparr>tl_a2_flat_window = a2_flat_window, tl_debounce_ticks = debounce_ticks, tl_state = []\<rparr>"

definition tip_lag_new :: bitcoin_tip_lag_rule where
  "tip_lag_new = tl_with_settings DEFAULT_A2_FLAT_WINDOW 2"

datatype classification = TlFiring | TlNotFiring

definition a1_holds :: "bitcoin_blockchain_state \<Rightarrow> bitcoin_peer_summary_state \<Rightarrow> bool" where
  "a1_holds blockchain peers =
     (if \<not> bc_initial_block_download blockchain then False
      else let gap = saturating_sub (bc_headers blockchain) (bc_blocks blockchain)
           in gap < A1_MAX_HEADER_BLOCK_GAP \<and>
              f64_gt (bc_verification_progress blockchain) A1_MIN_VERIFICATION_PROGRESS \<and>
              ps_peer_count peers \<ge> A1_MIN_PEER_COUNT)"

definition update_state_and_classify ::
    "tl_subject_state \<Rightarrow> bitcoin_blockchain_state \<Rightarrow> bitcoin_peer_summary_state \<Rightarrow> instant \<Rightarrow> duration \<Rightarrow>
     tl_subject_state \<times> classification" where
  "update_state_and_classify state blockchain peers now a2_flat_window =
     (let progress = bc_verification_progress blockchain;
          moved = state\<lparr>tl_last_progress := Some progress, tl_last_progress_change_at := Some now\<rparr>;
          state = (case tl_last_progress state of
                     None \<Rightarrow> moved
                   | Some prev \<Rightarrow>
                       if f64_gt (f64_abs (f64_sub progress prev)) PROGRESS_EPSILON then moved else state);
          last_change = (case tl_last_progress_change_at state of None \<Rightarrow> now | Some t \<Rightarrow> t);
          a1 = a1_holds blockchain peers;
          a2 = (let gap = saturating_sub (bc_headers blockchain) (bc_blocks blockchain);
                    elapsed_since_change = saturating_duration_since now last_change
                in gap \<ge> A2_MIN_HEADER_BLOCK_GAP \<and> elapsed_since_change \<ge> a2_flat_window)
      in (state, if a1 \<or> a2 then TlFiring else TlNotFiring))"

definition tl_build_draft :: "entity_ref \<Rightarrow> signal_status \<Rightarrow> incident_signal_draft" where
  "tl_build_draft subject status =
     (let kind = incident_kind_from_well_known BITCOIN_TIP_LAG_OR_IBD_STALLED in
      \<lparr>draft_subject = subject, draft_signal = signal_name_for_incident_kind kind, draft_kind = kind,
       draft_dimension = None, draft_severity = SigCritical, draft_status = status,
       draft_confidence = ConfHigh, draft_evidence = []\<rparr>)"

definition tl_prune_keep :: "instant \<Rightarrow> tl_subject_state \<Rightarrow> bool" where
  "tl_prune_keep now entry =
     (if tl_active_emitted entry then True
      else case tl_last_touched_at entry of
             Some ts \<Rightarrow> saturating_duration_since now ts < tl_STATE_RETENTION
           | None \<Rightarrow> True)"

text \<open>The counters and the latch, once the evaluation is classified.\<close>

definition tl_count ::
    "u32 \<Rightarrow> entity_ref \<Rightarrow> classification \<Rightarrow> tl_subject_state \<Rightarrow> tl_subject_state \<times> incident_signal_draft list" where
  "tl_count debounce_ticks subject classification entry =
     (case classification of
        TlFiring \<Rightarrow>
          let entry = entry\<lparr>tl_consecutive_clearing := 0,
                tl_consecutive_firing := saturating_inc (tl_consecutive_firing entry)\<rparr>
          in if \<not> tl_active_emitted entry \<and> tl_consecutive_firing entry \<ge> debounce_ticks
             then (entry\<lparr>tl_active_emitted := True\<rparr>, [tl_build_draft subject Active])
             else (entry, [])
      | TlNotFiring \<Rightarrow>
          let entry = entry\<lparr>tl_consecutive_firing := 0,
                tl_consecutive_clearing := saturating_inc (tl_consecutive_clearing entry)\<rparr>
          in if tl_active_emitted entry \<and> tl_consecutive_clearing entry \<ge> debounce_ticks
             then (entry\<lparr>tl_active_emitted := False\<rparr>, [tl_build_draft subject Cleared])
             else (entry, []))"

definition tl_step ::
    "duration \<Rightarrow> u32 \<Rightarrow> entity_ref \<Rightarrow> instant \<Rightarrow> bitcoin_blockchain_state \<Rightarrow> bitcoin_peer_summary_state \<Rightarrow>
     tl_subject_state \<Rightarrow> tl_subject_state \<times> incident_signal_draft list" where
  "tl_step a2_flat_window debounce_ticks subject now blockchain peers entry0 =
     (let entry = entry0\<lparr>tl_last_touched_at := Some now\<rparr>;
          (entry, classification) = update_state_and_classify entry blockchain peers now a2_flat_window
      in tl_count debounce_ticks subject classification entry)"

definition tip_lag_evaluate ::
    "bitcoin_tip_lag_rule \<Rightarrow> diagnostic_context \<Rightarrow> bitcoin_tip_lag_rule evaluation" where
  "tip_lag_evaluate r ctx =
     (case ctx_subject ctx of
        BitcoinNode node_id \<Rightarrow>
          (case bitcoin_blockchain (rm_latest_state (ctx_state ctx)) node_id of
             None \<Rightarrow> Done (r, Ok [])
           | Some blockchain \<Rightarrow>
               (case bitcoin_peer_summary (rm_latest_state (ctx_state ctx)) node_id of
                  None \<Rightarrow> Done (r, Ok [])
                | Some peers \<Rightarrow>
                    (case with_entry (tl_prune_keep (ctx_monotonic_now ctx)) tl_subject_state_default
                            (tl_step (tl_a2_flat_window r) (tl_debounce_ticks r) (ctx_subject ctx)
                               (ctx_monotonic_now ctx) (pr_value blockchain) (pr_value peers))
                            (ctx_subject ctx) (tl_state r) of
                       Panicked \<Rightarrow> Panicked
                     | Done (state, drafts) \<Rightarrow> Done (r\<lparr>tl_state := state\<rparr>, Ok drafts))))
      | _ \<Rightarrow> Done (r, Ok []))"

section \<open>The contract\<close>

definition tl_ok :: "bitcoin_tip_lag_rule \<Rightarrow> bool" where
  "tl_ok r = hm_wf (tl_state r)"

definition tl_emitted :: "bitcoin_tip_lag_rule \<Rightarrow> entity_ref \<Rightarrow> bool" where
  "tl_emitted r s = (case hm_get (tl_state r) s of None \<Rightarrow> False | Some e \<Rightarrow> tl_active_emitted e)"

type_synonym tl_reading = "instant \<times> bitcoin_blockchain_state \<times> bitcoin_peer_summary_state"

text \<open>What an evaluation reads, if it gets past the early returns.\<close>

definition tl_reading_of :: "diagnostic_context \<Rightarrow> tl_reading option" where
  "tl_reading_of ctx =
     (case ctx_subject ctx of
        BitcoinNode n \<Rightarrow>
          (case (bitcoin_blockchain (rm_latest_state (ctx_state ctx)) n,
                 bitcoin_peer_summary (rm_latest_state (ctx_state ctx)) n) of
             (Some b, Some p) \<Rightarrow> Some (ctx_monotonic_now ctx, pr_value b, pr_value p)
           | _ \<Rightarrow> None)
      | _ \<Rightarrow> None)"

lemma tip_lag_evaluateE:
  assumes "tl_ok r" and "tip_lag_evaluate r ctx = Done (r', Ok ds)"
  obtains (other) "r' = r" "ds = []" "tl_reading_of ctx = None"
  | (entry) blockchain peers entry where "subject_kind (ctx_subject ctx) = SkBitcoinNode"
    "tl_reading_of ctx = Some (ctx_monotonic_now ctx, blockchain, peers)"
    "entry = entry_of (tl_prune_keep (ctx_monotonic_now ctx)) tl_subject_state_default
       (ctx_subject ctx) (tl_state r)"
    "tl_ok r'" "r' = r\<lparr>tl_state := tl_state r'\<rparr>"
    "ds = snd (tl_step (tl_a2_flat_window r) (tl_debounce_ticks r) (ctx_subject ctx)
       (ctx_monotonic_now ctx) blockchain peers entry)"
    "hm_get (tl_state r') (ctx_subject ctx) = Some (fst (tl_step (tl_a2_flat_window r)
       (tl_debounce_ticks r) (ctx_subject ctx) (ctx_monotonic_now ctx) blockchain peers entry))"
    "\<And>x. x \<noteq> ctx_subject ctx \<Longrightarrow> hm_get (tl_state r') x =
       (case hm_get (tl_state r) x of
          None \<Rightarrow> None | Some e \<Rightarrow> if tl_prune_keep (ctx_monotonic_now ctx) e then Some e else None)"
proof (cases "tl_reading_of ctx")
  case None
  with assms(2) other show ?thesis
    by (auto simp: tip_lag_evaluate_def tl_reading_of_def split: entity_ref.splits option.splits)
next
  case (Some x)
  then obtain n b p where s: "ctx_subject ctx = BitcoinNode n"
    "bitcoin_blockchain (rm_latest_state (ctx_state ctx)) n = Some b"
    "bitcoin_peer_summary (rm_latest_state (ctx_state ctx)) n = Some p"
    by (auto simp: tl_reading_of_def split: entity_ref.splits option.splits)
  then have "tl_reading_of ctx = Some (ctx_monotonic_now ctx, pr_value b, pr_value p)"
    by (simp add: tl_reading_of_def)
  with s assms entry [OF _ this] show ?thesis
    unfolding tl_ok_def by (auto simp: tip_lag_evaluate_def split: run.splits elim!: with_entryE)
qed

lemma tl_step_latch:
  "strict_latch_step (tl_active_emitted e) (snd (tl_step w k s now b p e))
     (tl_active_emitted (fst (tl_step w k s now b p e)))"
  by (auto simp: tl_step_def tl_count_def update_state_and_classify_def tl_build_draft_def Let_def
      split: option.split classification.split)

lemma tl_step_own:
  "d \<in> set (snd (tl_step w k s now b p e)) \<Longrightarrow> subject_kind s = SkBitcoinNode \<Longrightarrow>
     own_draft (IncidentKind BITCOIN_TIP_LAG_OR_IBD_STALLED) SkBitcoinNode ConfHigh s d"
  by (auto simp: tl_step_def tl_count_def case_prod_unfold tl_build_draft_def own_draft_def Let_def
      incident_kind_from_well_known_def split: classification.splits if_splits)

lemma tl_entry_emitted:
  "tl_active_emitted (entry_of (tl_prune_keep now) tl_subject_state_default s (tl_state r)) = tl_emitted r s"
  by (auto simp: entry_of_def tl_emitted_def tl_subject_state_default_def tl_prune_keep_def
      split: option.split)

interpretation tip_lag: latched_rule tip_lag_evaluate tl_ok tl_emitted
  "IncidentKind BITCOIN_TIP_LAG_OR_IBD_STALLED" SkBitcoinNode ConfHigh
proof unfold_locales
  fix r ctx r' ds d s
  assume r: "tl_ok r"
  show "\<exists>r' ds. tip_lag_evaluate r ctx = Done (r', Ok ds)"
    using r by (auto simp: tip_lag_evaluate_def tl_ok_def with_entry_total
        split: entity_ref.splits option.splits run.split)
  assume e: "tip_lag_evaluate r ctx = Done (r', Ok ds)"
  show "tl_ok r'"
    using r e by (rule tip_lag_evaluateE) (use r in auto)
  show "d \<in> set ds \<Longrightarrow>
      own_draft (IncidentKind BITCOIN_TIP_LAG_OR_IBD_STALLED) SkBitcoinNode ConfHigh (ctx_subject ctx) d"
    using r e by (rule tip_lag_evaluateE) (auto intro: tl_step_own)
  show strict: "strict_latch_step (tl_emitted r (ctx_subject ctx)) ds (tl_emitted r' (ctx_subject ctx))"
    using r e
  proof (rule tip_lag_evaluateE)
    fix b p entry
    assume en: "entry = entry_of (tl_prune_keep (ctx_monotonic_now ctx)) tl_subject_state_default
        (ctx_subject ctx) (tl_state r)"
      and ds: "ds = snd (tl_step (tl_a2_flat_window r) (tl_debounce_ticks r) (ctx_subject ctx)
        (ctx_monotonic_now ctx) b p entry)"
      and g: "hm_get (tl_state r') (ctx_subject ctx) = Some (fst (tl_step (tl_a2_flat_window r)
        (tl_debounce_ticks r) (ctx_subject ctx) (ctx_monotonic_now ctx) b p entry))"
    have "tl_active_emitted entry = tl_emitted r (ctx_subject ctx)"
      using en by (simp add: tl_entry_emitted)
    moreover have "tl_emitted r' (ctx_subject ctx) = tl_active_emitted (fst (tl_step (tl_a2_flat_window r)
        (tl_debounce_ticks r) (ctx_subject ctx) (ctx_monotonic_now ctx) b p entry))"
      using g by (simp add: tl_emitted_def)
    ultimately show ?thesis
      using ds tl_step_latch [of entry "tl_a2_flat_window r" "tl_debounce_ticks r" "ctx_subject ctx"
          "ctx_monotonic_now ctx" b p] by simp
  qed simp
  show "latch_step (tl_emitted r (ctx_subject ctx)) ds (tl_emitted r' (ctx_subject ctx))"
    using strict by (rule strict_latch_step_imp)
  show frame: "s \<noteq> ctx_subject ctx \<Longrightarrow> tl_emitted r' s = tl_emitted r s"
    using r e by (rule tip_lag_evaluateE) (auto simp: tl_emitted_def tl_prune_keep_def split: option.splits)
  show "s \<noteq> ctx_subject ctx \<Longrightarrow> tl_emitted r' s \<Longrightarrow> tl_emitted r s"
    using frame by simp
qed

section \<open>Consecutive readings\<close>

text \<open>
  The entry of a subject after a history of readings, newest first, and their
  classifications. The counters count the equal classifications a history ends with.
\<close>

fun tl_after ::
    "duration \<Rightarrow> u32 \<Rightarrow> entity_ref \<Rightarrow> tl_reading list \<Rightarrow> tl_subject_state \<times> classification list" where
  "tl_after w k s [] = (tl_subject_state_default, [])"
| "tl_after w k s ((now, b, p) # older) =
     (let (e, cs) = tl_after w k s older;
          c = snd (update_state_and_classify (e\<lparr>tl_last_touched_at := Some now\<rparr>) b p now w)
      in (fst (tl_step w k s now b p e), c # cs))"

definition trailing :: "classification \<Rightarrow> classification list \<Rightarrow> nat" where
  "trailing c cs = length (takeWhile ((=) c) cs)"

lemma trailing_Cons: "trailing c (x # cs) = (if x = c then Suc (trailing c cs) else 0)"
  by (simp add: trailing_def)

lemma update_counts:
  "tl_consecutive_firing (fst (update_state_and_classify e b p now w)) = tl_consecutive_firing e"
  "tl_consecutive_clearing (fst (update_state_and_classify e b p now w)) = tl_consecutive_clearing e"
  by (auto simp: update_state_and_classify_def Let_def split: option.split)

lemma tl_count_counts:
  "tl_consecutive_firing (fst (tl_count k s c e)) =
     (if c = TlFiring then saturating_inc (tl_consecutive_firing e) else 0)"
  "tl_consecutive_clearing (fst (tl_count k s c e)) =
     (if c = TlNotFiring then saturating_inc (tl_consecutive_clearing e) else 0)"
  by (cases c; simp add: tl_count_def Let_def)+

lemma tl_after_counts:
  "unat (tl_consecutive_firing (fst (tl_after w k s h))) =
     min (trailing TlFiring (snd (tl_after w k s h))) (2 ^ 32 - 1) \<and>
   unat (tl_consecutive_clearing (fst (tl_after w k s h))) =
     min (trailing TlNotFiring (snd (tl_after w k s h))) (2 ^ 32 - 1)"
proof (induction h)
  case Nil
  then show ?case by (simp add: tl_subject_state_default_def trailing_def)
next
  case (Cons x h)
  obtain now b p where "x = (now, b, p)" by (cases x)
  with Cons show ?case
    by (auto simp: case_prod_unfold Let_def tl_step_def tl_count_counts update_counts trailing_Cons
        unat_saturating_inc)
qed

lemma update_emitted:
  "tl_active_emitted (fst (update_state_and_classify e b p now w)) = tl_active_emitted e"
  by (auto simp: update_state_and_classify_def Let_def split: option.split)

lemma tl_count_emitted:
  "tl_active_emitted (fst (tl_count k s c e)) =
     (case c of
        TlFiring \<Rightarrow> tl_active_emitted e \<or> k \<le> tl_consecutive_firing (fst (tl_count k s c e))
      | TlNotFiring \<Rightarrow> tl_active_emitted e \<and> \<not> k \<le> tl_consecutive_clearing (fst (tl_count k s c e)))"
  by (cases c) (auto simp: tl_count_def Let_def)

text \<open>The latch follows the counters: \<open>k\<close> equal readings in a row decide it.\<close>

lemma tl_after_emitted:
  assumes "1 \<le> unat k"
  shows "(unat k \<le> trailing TlFiring (snd (tl_after w k s h)) \<longrightarrow> tl_active_emitted (fst (tl_after w k s h))) \<and>
    (unat k \<le> trailing TlNotFiring (snd (tl_after w k s h)) \<longrightarrow> \<not> tl_active_emitted (fst (tl_after w k s h)))"
proof (induction h)
  case Nil
  then show ?case using assms by (simp add: trailing_def)
next
  case (Cons x h)
  obtain now b p where x: "x = (now, b, p)" by (cases x)
  let ?a = "tl_after w k s (x # h)"
  let ?c = "snd (update_state_and_classify ((fst (tl_after w k s h))\<lparr>tl_last_touched_at := Some now\<rparr>) b p now w)"
  have "unat k < 2 ^ LENGTH(32)"
    by (rule unsigned_less)
  then have k: "unat k \<le> 2 ^ 32 - 1"
    by simp
  have cs: "snd ?a = ?c # snd (tl_after w k s h)"
    using x by (simp add: case_prod_unfold Let_def)
  have em: "tl_active_emitted (fst ?a) =
     (case ?c of
        TlFiring \<Rightarrow> tl_active_emitted (fst (tl_after w k s h)) \<or> k \<le> tl_consecutive_firing (fst ?a)
      | TlNotFiring \<Rightarrow> tl_active_emitted (fst (tl_after w k s h)) \<and> \<not> k \<le> tl_consecutive_clearing (fst ?a))"
    using x by (simp add: case_prod_unfold Let_def tl_step_def tl_count_emitted update_emitted
        split: classification.split)
  show ?case
    using tl_after_counts [of w k s "x # h"] k assms
    by (cases ?c) (auto simp: em cs word_le_nat_alt trailing_Cons)
qed

lemma tl_count_drafts:
  "d \<in> set (snd (tl_count k s c e)) \<Longrightarrow>
     (case draft_status d of
        Active \<Rightarrow> c = TlFiring \<and> k \<le> tl_consecutive_firing (fst (tl_count k s c e))
      | Cleared \<Rightarrow> c = TlNotFiring \<and> k \<le> tl_consecutive_clearing (fst (tl_count k s c e)))"
  by (cases c) (auto simp: tl_count_def Let_def tl_build_draft_def split: if_splits)

lemma tl_step_needs_ticks:
  assumes "d \<in> set (snd (tl_step w k s now b p (fst (tl_after w k s h))))"
  shows "unat k \<le> trailing (case draft_status d of Active \<Rightarrow> TlFiring | Cleared \<Rightarrow> TlNotFiring)
    (snd (tl_after w k s ((now, b, p) # h)))"
proof -
  let ?e = "fst (tl_after w k s ((now, b, p) # h))"
  have "case draft_status d of Active \<Rightarrow> k \<le> tl_consecutive_firing ?e | Cleared \<Rightarrow> k \<le> tl_consecutive_clearing ?e"
    using assms by (auto simp: tl_step_def case_prod_unfold Let_def
        dest!: tl_count_drafts split: signal_status.splits)
  with tl_after_counts [of w k s "(now, b, p) # h"] show ?thesis
    by (auto simp: word_le_nat_alt split: signal_status.splits)
qed

text \<open>The readings of a subject in a sequence of evaluations, newest first.\<close>

definition readings :: "entity_ref \<Rightarrow> diagnostic_context list \<Rightarrow> tl_reading list" where
  "readings s ctxs =
     rev (List.map_filter (\<lambda>c. if ctx_subject c = s then tl_reading_of c else None) ctxs)"

lemma readings_snoc:
  "readings s (ctxs @ [c]) =
     (if ctx_subject c = s then (case tl_reading_of c of None \<Rightarrow> [] | Some x \<Rightarrow> [x]) else []) @ readings s ctxs"
  by (auto simp: readings_def List.map_filter_def split: option.split)

text \<open>Every entry of the table is the result of the latest readings of its subject.\<close>

definition tl_tracks :: "duration \<Rightarrow> u32 \<Rightarrow> diagnostic_context list \<Rightarrow> bitcoin_tip_lag_rule \<Rightarrow> bool" where
  "tl_tracks w k ctxs r =
     (tl_ok r \<and> tl_a2_flat_window r = w \<and> tl_debounce_ticks r = k \<and>
      (\<forall>s e. hm_get (tl_state r) s = Some e \<longrightarrow> (\<exists>n. e = fst (tl_after w k s (take n (readings s ctxs))))))"

lemma tl_tracks_entry:
  assumes "tl_tracks w k ctxs r"
  shows "\<exists>n. entry_of (tl_prune_keep now) tl_subject_state_default s (tl_state r) =
    fst (tl_after w k s (take n (readings s ctxs)))"
proof (cases "\<exists>e. hm_get (tl_state r) s = Some e \<and> tl_prune_keep now e")
  case True
  with assms show ?thesis
    by (auto simp: entry_of_def tl_tracks_def)
next
  case False
  then have "entry_of (tl_prune_keep now) tl_subject_state_default s (tl_state r) = tl_subject_state_default"
    by (auto simp: entry_of_def split: option.split)
  then show ?thesis
    by (intro exI [of _ 0]) simp
qed

lemma tl_tracks_step:
  assumes tr: "tl_tracks w k ctxs r" and e: "tip_lag_evaluate r ctx = Done (r', Ok ds)"
  shows "tl_tracks w k (ctxs @ [ctx]) r' \<and>
    (\<forall>d \<in> set ds. \<exists>n. unat k \<le> trailing (case draft_status d of Active \<Rightarrow> TlFiring | Cleared \<Rightarrow> TlNotFiring)
       (snd (tl_after w k (ctx_subject ctx) (take n (readings (ctx_subject ctx) (ctxs @ [ctx]))))))"
proof -
  have ok: "tl_ok r"
    using tr by (simp add: tl_tracks_def)
  from ok e show ?thesis
  proof (cases rule: tip_lag_evaluateE)
    case other
    then have "readings s (ctxs @ [ctx]) = readings s ctxs" for s
      by (simp add: readings_snoc)
    with other tr show ?thesis
      by (simp add: tl_tracks_def)
  next
    case (entry b p en)
    let ?s = "ctx_subject ctx" and ?x = "(ctx_monotonic_now ctx, b, p)"
    obtain n where en: "en = fst (tl_after w k ?s (take n (readings ?s ctxs)))"
      using tl_tracks_entry [OF tr] entry(3) by blast
    have cfg: "tl_a2_flat_window r = w" "tl_debounce_ticks r = k"
      using tr by (simp_all add: tl_tracks_def)
    have rd: "readings ?s (ctxs @ [ctx]) = ?x # readings ?s ctxs"
      using entry(2) by (simp add: readings_snoc)
    have new: "hm_get (tl_state r') ?s = Some (fst (tl_after w k ?s (take (Suc n) (readings ?s (ctxs @ [ctx])))))"
      using entry(7) cfg en rd by (simp add: case_prod_unfold Let_def)
    have drafts: "\<forall>d \<in> set ds. unat k \<le> trailing (case draft_status d of Active \<Rightarrow> TlFiring | Cleared \<Rightarrow> TlNotFiring)
       (snd (tl_after w k ?s (take (Suc n) (readings ?s (ctxs @ [ctx])))))"
      using entry(6) cfg en rd tl_step_needs_ticks by simp
    have "\<exists>n. e = fst (tl_after w k x (take n (readings x (ctxs @ [ctx]))))"
      if "hm_get (tl_state r') x = Some e" for x e
    proof (cases "x = ?s")
      case True
      with that new show ?thesis by auto
    next
      case False
      with that entry(8) [OF False] tr show ?thesis
        by (auto simp: tl_tracks_def readings_snoc split: option.splits if_splits)
    qed
    moreover have "tl_a2_flat_window r' = w" "tl_debounce_ticks r' = k"
      using arg_cong [OF entry(5), of tl_a2_flat_window] arg_cong [OF entry(5), of tl_debounce_ticks] cfg
      by simp_all
    ultimately show ?thesis
      using entry(4) drafts by (auto simp: tl_tracks_def)
  qed
qed

end
