(* ===== verification/Rule_Channel_Inactive.thy ===== *)
theory Rule_Channel_Inactive
  imports Diagnostics
begin

text \<open>
  The rule \<open>lnd.channel_inactive\<close> (\<open>diagnostics/rules/lnd/channel_inactive.rs\<close>) and
  its interpretations of the rule contracts. Its table forgets a raised entry after
  \<open>ACTIVE_EMITTED_TTL\<close> without a touch, so it is no \<open>latched_rule\<close>.
\<close>

definition DEFAULT_PUBLIC_DEBOUNCE :: duration where
  "DEFAULT_PUBLIC_DEBOUNCE = from_secs (5 * 60)"

definition DEFAULT_PRIVATE_DEBOUNCE :: duration where
  "DEFAULT_PRIVATE_DEBOUNCE = from_secs (30 * 60)"

definition ci_STATE_RETENTION :: duration where
  "ci_STATE_RETENTION = from_secs (60 * 60)"

definition ci_ACTIVE_EMITTED_TTL :: duration where
  "ci_ACTIVE_EMITTED_TTL = from_secs (24 * 60 * 60)"

record ci_subject_state =
  ci_first_inactive_at :: "instant option"
  ci_active_emitted :: bool
  ci_last_touched_at :: "instant option"

definition ci_subject_state_default :: ci_subject_state where
  "ci_subject_state_default =
     \<lparr>ci_first_inactive_at = None, ci_active_emitted = False, ci_last_touched_at = None\<rparr>"

record lnd_channel_inactive_rule =
  ci_public_debounce :: duration
  ci_private_debounce :: duration
  ci_state :: "(entity_ref, ci_subject_state) hash_map"

definition ci_with_thresholds :: "duration \<Rightarrow> duration \<Rightarrow> lnd_channel_inactive_rule" where
  "ci_with_thresholds public_debounce private_debounce =
     \<lparr>ci_public_debounce = public_debounce, ci_private_debounce = private_debounce, ci_state = []\<rparr>"

definition channel_inactive_new :: lnd_channel_inactive_rule where
  "channel_inactive_new = ci_with_thresholds DEFAULT_PUBLIC_DEBOUNCE DEFAULT_PRIVATE_DEBOUNCE"

fun severity_and_confidence :: "bool option \<Rightarrow> signal_severity \<times> confidence" where
  "severity_and_confidence (Some True) = (SigCritical, ConfHigh)"
| "severity_and_confidence (Some False) = (SigWarning, ConfMedium)"
| "severity_and_confidence None = (SigWarning, ConfMedium)"

definition ci_build_draft ::
    "entity_ref \<Rightarrow> signal_status \<Rightarrow> signal_severity \<times> confidence \<Rightarrow> incident_signal_draft" where
  "ci_build_draft subject status sc =
     (let kind = incident_kind_from_well_known LND_CHANNEL_INACTIVE in
      \<lparr>draft_subject = subject, draft_signal = signal_name_for_incident_kind kind, draft_kind = kind,
       draft_dimension = None, draft_severity = fst sc, draft_status = status,
       draft_confidence = snd sc, draft_evidence = []\<rparr>)"

definition ci_prune_keep :: "instant \<Rightarrow> ci_subject_state \<Rightarrow> bool" where
  "ci_prune_keep now entry =
     (let retention = (if ci_active_emitted entry then ci_ACTIVE_EMITTED_TTL else ci_STATE_RETENTION) in
      case ci_last_touched_at entry of
        Some ts \<Rightarrow> saturating_duration_since now ts < retention
      | None \<Rightarrow> True)"

definition ci_step ::
    "duration \<Rightarrow> duration \<Rightarrow> entity_ref \<Rightarrow> instant \<Rightarrow> lnd_channel_state \<Rightarrow> ci_subject_state \<Rightarrow>
     ci_subject_state \<times> incident_signal_draft list" where
  "ci_step public_debounce private_debounce subject now channel_state entry0 =
     (let entry = entry0\<lparr>ci_last_touched_at := Some now\<rparr> in
      if ch_active channel_state then
        let entry = entry\<lparr>ci_first_inactive_at := None\<rparr>
        in if ci_active_emitted entry
           then (entry\<lparr>ci_active_emitted := False\<rparr>,
                 [ci_build_draft subject Cleared (severity_and_confidence (ch_peer_online channel_state))])
           else (entry, [])
      else
        let first = (case ci_first_inactive_at entry of None \<Rightarrow> now | Some t \<Rightarrow> t);
            entry = entry\<lparr>ci_first_inactive_at := Some first\<rparr>;
            held = saturating_duration_since now first;
            debounce = (if ch_private channel_state then private_debounce else public_debounce)
        in if \<not> ci_active_emitted entry \<and> held \<ge> debounce
           then (entry\<lparr>ci_active_emitted := True\<rparr>,
                 [ci_build_draft subject Active (severity_and_confidence (ch_peer_online channel_state))])
           else (entry, []))"

text \<open>The two early returns: a subject that is no channel, and no channel state.\<close>

definition channel_detail :: "diagnostic_context \<Rightarrow> lnd_channel_state option" where
  "channel_detail ctx =
     (case ctx_subject ctx of
        LndChannel _ _ \<Rightarrow>
          (case rm_latest_state (ctx_state ctx) (ctx_subject ctx) (state_name_from_well_known LND_CHANNEL_DETAIL) of
             Some snapshot \<Rightarrow> (case pr_value snapshot of StateLndChannel c \<Rightarrow> Some c | _ \<Rightarrow> None)
           | None \<Rightarrow> None)
      | _ \<Rightarrow> None)"

definition channel_inactive_evaluate ::
    "lnd_channel_inactive_rule \<Rightarrow> diagnostic_context \<Rightarrow> lnd_channel_inactive_rule evaluation" where
  "channel_inactive_evaluate r ctx =
     (case channel_detail ctx of
        None \<Rightarrow> Done (r, Ok [])
      | Some channel_state \<Rightarrow>
          (case with_entry (ci_prune_keep (ctx_monotonic_now ctx)) ci_subject_state_default
                  (ci_step (ci_public_debounce r) (ci_private_debounce r) (ctx_subject ctx)
                     (ctx_monotonic_now ctx) channel_state)
                  (ctx_subject ctx) (ci_state r) of
             Panicked \<Rightarrow> Panicked
           | Done (state, drafts) \<Rightarrow> Done (r\<lparr>ci_state := state\<rparr>, Ok drafts)))"

section \<open>The contracts\<close>

definition ci_reads :: "lnd_channel_inactive_rule \<Rightarrow> diagnostic_context \<Rightarrow> reading" where
  "ci_reads r ctx =
     (case channel_detail ctx of None \<Rightarrow> NoInformation | Some c \<Rightarrow> if ch_active c then Fails else Holds)"

definition ci_window :: "lnd_channel_inactive_rule \<Rightarrow> diagnostic_context \<Rightarrow> duration" where
  "ci_window r ctx =
     (case channel_detail ctx of
        None \<Rightarrow> 0
      | Some c \<Rightarrow> if ch_private c then ci_private_debounce r else ci_public_debounce r)"

lemma channel_detail_subject: "channel_detail ctx = Some c \<Longrightarrow> subject_kind (ctx_subject ctx) = SkLndChannel"
  by (auto simp: channel_detail_def split: entity_ref.splits)

lemma severity_and_confidence_rank: "1 \<le> confidence_rank (snd (severity_and_confidence p))"
  by (cases p rule: severity_and_confidence.cases) (simp_all add: word_le_nat_alt)

definition ci_ok :: "lnd_channel_inactive_rule \<Rightarrow> bool" where
  "ci_ok r = hm_wf (ci_state r)"

definition ci_emitted :: "lnd_channel_inactive_rule \<Rightarrow> entity_ref \<Rightarrow> bool" where
  "ci_emitted r s = (case hm_get (ci_state r) s of None \<Rightarrow> False | Some e \<Rightarrow> ci_active_emitted e)"

definition ci_since :: "lnd_channel_inactive_rule \<Rightarrow> entity_ref \<Rightarrow> instant option" where
  "ci_since r s = (case hm_get (ci_state r) s of None \<Rightarrow> None | Some e \<Rightarrow> ci_first_inactive_at e)"

lemma channel_inactive_evaluateE:
  assumes "ci_ok r" and "channel_inactive_evaluate r ctx = Done (r', Ok ds)"
  obtains (other) "r' = r" "ds = []" "ci_reads r ctx = NoInformation"
  | (entry) a entry where "channel_detail ctx = Some a" "subject_kind (ctx_subject ctx) = SkLndChannel"
    "entry = entry_of (ci_prune_keep (ctx_monotonic_now ctx)) ci_subject_state_default
       (ctx_subject ctx) (ci_state r)"
    "ci_ok r'" "r' = r\<lparr>ci_state := ci_state r'\<rparr>"
    "ds = snd (ci_step (ci_public_debounce r) (ci_private_debounce r) (ctx_subject ctx) (ctx_monotonic_now ctx) a entry)"
    "hm_get (ci_state r') (ctx_subject ctx) = Some (fst (ci_step (ci_public_debounce r) (ci_private_debounce r) (ctx_subject ctx) (ctx_monotonic_now ctx) a entry))"
    "\<And>x. x \<noteq> ctx_subject ctx \<Longrightarrow> hm_get (ci_state r') x =
       (case hm_get (ci_state r) x of
          None \<Rightarrow> None | Some e \<Rightarrow> if ci_prune_keep (ctx_monotonic_now ctx) e then Some e else None)"
proof (cases "channel_detail ctx")
  case (Some a)
  then show ?thesis
    using assms entry [OF Some channel_detail_subject [OF Some]] unfolding ci_ok_def
    by (auto simp: channel_inactive_evaluate_def Let_def ci_reads_def split: run.splits option.splits elim!: with_entryE)
qed (use assms other in \<open>auto simp: channel_inactive_evaluate_def ci_reads_def ci_reads_def split: option.splits\<close>)

lemmas ci_defs =
  ci_step_def ci_build_draft_def ci_emitted_def ci_since_def own_draft_def
  entry_of_def ci_subject_state_default_def ci_prune_keep_def saturating_duration_since_def
  incident_kind_from_well_known_def Let_def

lemma ci_step_latch:
  "strict_latch_step (ci_active_emitted e) (snd (ci_step (ci_public_debounce r) (ci_private_debounce r) (ctx_subject ctx) (ctx_monotonic_now ctx) a e)) (ci_active_emitted (fst (ci_step (ci_public_debounce r) (ci_private_debounce r) (ctx_subject ctx) (ctx_monotonic_now ctx) a e)))"
  by (auto simp: ci_step_def ci_build_draft_def Let_def split: option.split)

lemma ci_step_touched: "ci_last_touched_at (fst (ci_step (ci_public_debounce r) (ci_private_debounce r) (ctx_subject ctx) (ctx_monotonic_now ctx) a e)) = Some (ctx_monotonic_now ctx)"
  by (auto simp: ci_step_def Let_def split: option.split)

lemma ci_step_own:
  "d \<in> set (snd (ci_step (ci_public_debounce r) (ci_private_debounce r) (ctx_subject ctx) (ctx_monotonic_now ctx) a e)) \<Longrightarrow> subject_kind (ctx_subject ctx) = SkLndChannel \<Longrightarrow>
     own_draft (IncidentKind LND_CHANNEL_INACTIVE) SkLndChannel ConfMedium (ctx_subject ctx) d"
  by (auto simp: ci_step_def ci_build_draft_def own_draft_def incident_kind_from_well_known_def Let_def severity_and_confidence_rank
      split: option.splits if_splits)

lemma ci_step_raise:
  "d \<in> set (snd (ci_step (ci_public_debounce r) (ci_private_debounce r) (ctx_subject ctx) (ctx_monotonic_now ctx) a e)) \<Longrightarrow> draft_status d = Active \<Longrightarrow>
     \<not> ch_active a \<and> (\<exists>t. ci_first_inactive_at (fst (ci_step (ci_public_debounce r) (ci_private_debounce r) (ctx_subject ctx) (ctx_monotonic_now ctx) a e)) = Some t \<and>
       (if ch_private a then ci_private_debounce r else ci_public_debounce r) \<le> ctx_monotonic_now ctx - t)"
  by (auto simp: ci_step_def ci_build_draft_def saturating_duration_since_def Let_def split: option.splits if_splits)

lemma ci_step_lower: "d \<in> set (snd (ci_step (ci_public_debounce r) (ci_private_debounce r) (ctx_subject ctx) (ctx_monotonic_now ctx) a e)) \<Longrightarrow> draft_status d = Cleared \<Longrightarrow> ch_active a"
  by (auto simp: ci_step_def ci_build_draft_def Let_def split: option.splits if_splits)

lemma ci_entry_emitted:
  "ci_active_emitted (entry_of (ci_prune_keep now) ci_subject_state_default s (ci_state r)) \<longrightarrow> ci_emitted r s"
  by (auto simp: entry_of_def ci_emitted_def ci_subject_state_default_def ci_prune_keep_def
      split: option.splits)

lemma ci_latch:
  assumes "ci_ok r" and "channel_inactive_evaluate r ctx = Done (r', Ok ds)"
  shows "latch_step (ci_emitted r (ctx_subject ctx)) ds (ci_emitted r' (ctx_subject ctx))"
  using assms
proof (cases rule: channel_inactive_evaluateE)
  case (entry a e)
  have "ci_emitted r' (ctx_subject ctx) = ci_active_emitted (fst (ci_step (ci_public_debounce r) (ci_private_debounce r) (ctx_subject ctx) (ctx_monotonic_now ctx) a e))"
    using entry(7) by (simp add: ci_emitted_def)
  then show ?thesis
    using entry(3,6) ci_step_latch [of e r ctx a] ci_entry_emitted [of "ctx_monotonic_now ctx" "ctx_subject ctx" r]
    by (auto intro: strict_latch_step_weaken)
qed simp

lemma channel_inactive_returns: "ci_ok r \<Longrightarrow> \<exists>r' ds. channel_inactive_evaluate r ctx = Done (r', Ok ds)"
  by (auto simp: channel_inactive_evaluate_def ci_ok_def Let_def with_entry_total split: option.splits run.split)

lemma channel_inactive_ok: "ci_ok r \<Longrightarrow> channel_inactive_evaluate r ctx = Done (r', Ok ds) \<Longrightarrow> ci_ok r'"
  by (rule channel_inactive_evaluateE) auto

interpretation channel_inactive: diagnostic_rule_laws channel_inactive_evaluate ci_ok ci_emitted
  "IncidentKind LND_CHANNEL_INACTIVE" SkLndChannel ConfMedium
proof unfold_locales
  fix r ctx r' ds d s
  assume r: "ci_ok r"
  show "\<exists>r' ds. channel_inactive_evaluate r ctx = Done (r', Ok ds)"
    using r by (rule channel_inactive_returns)
  assume e: "channel_inactive_evaluate r ctx = Done (r', Ok ds)"
  show "ci_ok r'"
    using r e by (rule channel_inactive_ok)
  show "d \<in> set ds \<Longrightarrow> own_draft (IncidentKind LND_CHANNEL_INACTIVE) SkLndChannel ConfMedium (ctx_subject ctx) d"
    using r e by (rule channel_inactive_evaluateE) (auto intro: ci_step_own)
  show "latch_step (ci_emitted r (ctx_subject ctx)) ds (ci_emitted r' (ctx_subject ctx))"
    using r e by (rule ci_latch)
  show "s \<noteq> ctx_subject ctx \<Longrightarrow> ci_emitted r' s \<Longrightarrow> ci_emitted r s"
    using r e by (rule channel_inactive_evaluateE) (auto simp: ci_emitted_def split: option.splits if_splits)
qed

interpretation channel_inactive: debounced_rule channel_inactive_evaluate ci_ok ci_emitted
  "IncidentKind LND_CHANNEL_INACTIVE" SkLndChannel ConfMedium ci_reads ci_since "ci_window"
proof unfold_locales
  fix r ctx r' ds d s t
  assume r: "ci_ok r" and e: "channel_inactive_evaluate r ctx = Done (r', Ok ds)"
  have same: "r' = r\<lparr>ci_state := ci_state r'\<rparr>"
    using r e by (rule channel_inactive_evaluateE) auto
  show "ci_reads r' = ci_reads r \<and> (ci_window) r' = (ci_window) r"
    by (subst (1 2) same) (auto simp: fun_eq_iff ci_reads_def ci_window_def split: option.split)
  show "s \<noteq> ctx_subject ctx \<Longrightarrow> ci_since r' s = Some t \<Longrightarrow> ci_since r s = Some t"
    using r e by (rule channel_inactive_evaluateE) (auto simp: ci_since_def split: option.splits if_splits)
  show "ci_reads r ctx = Fails \<Longrightarrow> ci_since r' (ctx_subject ctx) = None"
    using r e by (rule channel_inactive_evaluateE) (auto simp: ci_defs ci_reads_def  split: if_splits option.splits option.splits)
  show "ci_reads r ctx = NoInformation \<Longrightarrow>
      ds = [] \<and> (ci_since r' (ctx_subject ctx) = Some t \<longrightarrow> ci_since r (ctx_subject ctx) = Some t)"
    using r e by (rule channel_inactive_evaluateE) (auto simp: ci_defs ci_reads_def split: if_splits option.splits option.splits)
  show "ci_reads r ctx = Holds \<Longrightarrow> ci_since r' (ctx_subject ctx) = Some t \<Longrightarrow>
      t = ctx_monotonic_now ctx \<or> ci_since r (ctx_subject ctx) = Some t"
    using r e by (rule channel_inactive_evaluateE) (auto simp: ci_defs ci_reads_def  split: if_splits option.splits option.splits)
  show "d \<in> set ds \<Longrightarrow> draft_status d = Active \<Longrightarrow> ci_reads r ctx = Holds \<and>
      (\<exists>t. ci_since r' (ctx_subject ctx) = Some t \<and> (ci_window) r ctx \<le> ctx_monotonic_now ctx - t)"
    using r e by (rule channel_inactive_evaluateE) (auto simp: ci_since_def ci_reads_def ci_window_def dest!: ci_step_raise)
  show "d \<in> set ds \<Longrightarrow> draft_status d = Cleared \<Longrightarrow> ci_reads r ctx = Fails"
    using r e by (rule channel_inactive_evaluateE) (auto simp: ci_reads_def dest!: ci_step_lower)
qed

definition ci_fresh :: "lnd_channel_inactive_rule \<Rightarrow> entity_ref \<Rightarrow> instant \<Rightarrow> bool" where
  "ci_fresh r s now = (case hm_get (ci_state r) s of None \<Rightarrow> False | Some e \<Rightarrow> ci_prune_keep now e)"

interpretation channel_inactive: responsive_rule channel_inactive_evaluate ci_ok ci_emitted
  "IncidentKind LND_CHANNEL_INACTIVE" SkLndChannel ConfMedium ci_reads ci_since "ci_window"
  ci_fresh ci_STATE_RETENTION
proof unfold_locales
  fix r ctx r' ds t
  assume r: "ci_ok r" and e: "channel_inactive_evaluate r ctx = Done (r', Ok ds)" and h: "ci_reads r ctx = Holds"
  show "ci_since r' (ctx_subject ctx) \<noteq> None"
    using r e by (rule channel_inactive_evaluateE) (use h in \<open>auto simp: ci_defs ci_reads_def  split: if_splits option.splits option.splits\<close>)
  show "ci_since r (ctx_subject ctx) = Some t \<Longrightarrow> ci_fresh r (ctx_subject ctx) (ctx_monotonic_now ctx) \<Longrightarrow>
      ci_since r' (ctx_subject ctx) = Some t"
    using r e by (rule channel_inactive_evaluateE)
      (use h in \<open>auto simp: ci_defs ci_reads_def ci_fresh_def  split: if_splits option.splits option.splits\<close>)
  show "t - ctx_monotonic_now ctx < ci_STATE_RETENTION \<Longrightarrow> ci_fresh r' (ctx_subject ctx) t"
    using r e by (rule channel_inactive_evaluateE)
      (use h in \<open>auto simp: ci_fresh_def ci_prune_keep_def ci_step_touched ci_reads_def Let_def
        saturating_duration_since_def ci_STATE_RETENTION_def ci_ACTIVE_EMITTED_TTL_def from_secs_def\<close>)
  show "ci_since r' (ctx_subject ctx) = Some t \<Longrightarrow> (ci_window) r ctx \<le> ctx_monotonic_now ctx - t \<Longrightarrow>
      ci_emitted r' (ctx_subject ctx)"
    using r e by (rule channel_inactive_evaluateE)
      (use h in \<open>auto simp: ci_defs ci_reads_def  ci_window_def split: if_splits option.splits option.splits\<close>)
qed

end
