(* ===== verification/Rule_Chain_Backend_Lag.thy ===== *)
theory Rule_Chain_Backend_Lag
  imports Diagnostics
begin

text \<open>
  The rule \<open>lnd.chain_backend_lag\<close> (\<open>diagnostics/rules/lnd/chain_backend_lag.rs\<close>) and
  its interpretations of the rule contracts. Its table forgets a raised entry after
  \<open>ACTIVE_EMITTED_TTL\<close> without a touch, so it is no \<open>latched_rule\<close>.
\<close>

definition DEFAULT_LAG_BLOCKS_THRESHOLD :: u64 where
  "DEFAULT_LAG_BLOCKS_THRESHOLD = 2"

definition DEFAULT_LAG_PERSIST :: duration where
  "DEFAULT_LAG_PERSIST = from_secs 60"

definition cl_STATE_RETENTION :: duration where
  "cl_STATE_RETENTION = from_secs (60 * 60)"

definition cl_ACTIVE_EMITTED_TTL :: duration where
  "cl_ACTIVE_EMITTED_TTL = from_secs (24 * 60 * 60)"

definition DEFAULT_MAX_STATE_AGE :: chrono_duration where
  "DEFAULT_MAX_STATE_AGE = 90 * 1000000000"

record cl_subject_state =
  cl_first_lagged_at :: "instant option"
  cl_active_emitted :: bool
  cl_last_touched_at :: "instant option"

definition cl_subject_state_default :: cl_subject_state where
  "cl_subject_state_default =
     \<lparr>cl_first_lagged_at = None, cl_active_emitted = False, cl_last_touched_at = None\<rparr>"

record lnd_chain_backend_lag_rule =
  cl_correlation_target :: bitcoin_node_id
  cl_lag_blocks_threshold :: u64
  cl_lag_persist :: duration
  cl_state :: "(entity_ref, cl_subject_state) hash_map"

definition cl_with_thresholds :: "bitcoin_node_id \<Rightarrow> u64 \<Rightarrow> duration \<Rightarrow> lnd_chain_backend_lag_rule" where
  "cl_with_thresholds target threshold persist =
     \<lparr>cl_correlation_target = target, cl_lag_blocks_threshold = threshold, cl_lag_persist = persist,
      cl_state = []\<rparr>"

definition chain_backend_lag_new :: "bitcoin_node_id \<Rightarrow> lnd_chain_backend_lag_rule" where
  "chain_backend_lag_new target =
     cl_with_thresholds target DEFAULT_LAG_BLOCKS_THRESHOLD DEFAULT_LAG_PERSIST"

definition cl_build_draft :: "entity_ref \<Rightarrow> signal_status \<Rightarrow> incident_signal_draft" where
  "cl_build_draft subject status =
     (let kind = incident_kind_from_well_known LND_CHAIN_BACKEND_LAG in
      \<lparr>draft_subject = subject, draft_signal = signal_name_for_incident_kind kind, draft_kind = kind,
       draft_dimension = None, draft_severity = SigCritical, draft_status = status,
       draft_confidence = ConfHigh, draft_evidence = []\<rparr>)"

definition cl_prune_keep :: "instant \<Rightarrow> cl_subject_state \<Rightarrow> bool" where
  "cl_prune_keep now entry =
     (let retention = (if cl_active_emitted entry then cl_ACTIVE_EMITTED_TTL else cl_STATE_RETENTION) in
      case cl_last_touched_at entry of
        Some ts \<Rightarrow> saturating_duration_since now ts < retention
      | None \<Rightarrow> True)"

definition cl_step ::
    "duration \<Rightarrow> entity_ref \<Rightarrow> instant \<Rightarrow> bool \<Rightarrow> cl_subject_state \<Rightarrow>
     cl_subject_state \<times> incident_signal_draft list" where
  "cl_step lag_persist subject now lagged entry0 =
     (let entry = entry0\<lparr>cl_last_touched_at := Some now\<rparr> in
      if lagged then
        let first = (case cl_first_lagged_at entry of None \<Rightarrow> now | Some t \<Rightarrow> t);
            entry = entry\<lparr>cl_first_lagged_at := Some first\<rparr>;
            held = saturating_duration_since now first
        in if \<not> cl_active_emitted entry \<and> held \<ge> lag_persist
           then (entry\<lparr>cl_active_emitted := True\<rparr>, [cl_build_draft subject Active])
           else (entry, [])
      else
        let entry = entry\<lparr>cl_first_lagged_at := None\<rparr>
        in if cl_active_emitted entry
           then (entry\<lparr>cl_active_emitted := False\<rparr>, [cl_build_draft subject Cleared])
           else (entry, []))"

text \<open>
  The early returns: a subject that is no LND node, and a height that is missing or
  older than \<open>DEFAULT_MAX_STATE_AGE\<close> on either side.
\<close>

definition lnd_height :: "diagnostic_context \<Rightarrow> u64 option" where
  "lnd_height ctx =
     (case ctx_subject ctx of
        LndNode _ \<Rightarrow>
          (case rm_latest_state (ctx_state ctx) (ctx_subject ctx) (state_name_from_well_known LND_NODE) of
             Some snapshot \<Rightarrow>
               if ctx_now ctx - pr_observed_at snapshot > DEFAULT_MAX_STATE_AGE then None
               else (case pr_value snapshot of StateLndNode s \<Rightarrow> Some (ln_block_height s) | _ \<Rightarrow> None)
           | None \<Rightarrow> None)
      | _ \<Rightarrow> None)"

definition bitcoind_height :: "bitcoin_node_id \<Rightarrow> diagnostic_context \<Rightarrow> u64 option" where
  "bitcoind_height target ctx =
     (case rm_latest_state (ctx_state ctx) (BitcoinNode target) (state_name_from_well_known BITCOIN_BLOCKCHAIN) of
        Some snapshot \<Rightarrow>
          if ctx_now ctx - pr_observed_at snapshot > DEFAULT_MAX_STATE_AGE then None
          else (case pr_value snapshot of StateBitcoinBlockchain s \<Rightarrow> Some (bc_blocks s) | _ \<Rightarrow> None)
      | None \<Rightarrow> None)"

definition cl_lagged :: "lnd_chain_backend_lag_rule \<Rightarrow> diagnostic_context \<Rightarrow> bool option" where
  "cl_lagged r ctx =
     (case lnd_height ctx of
        None \<Rightarrow> None
      | Some lnd \<Rightarrow>
          (case bitcoind_height (cl_correlation_target r) ctx of
             None \<Rightarrow> None
           | Some btc \<Rightarrow> Some (saturating_sub btc lnd > cl_lag_blocks_threshold r)))"

definition chain_backend_lag_evaluate ::
    "lnd_chain_backend_lag_rule \<Rightarrow> diagnostic_context \<Rightarrow> lnd_chain_backend_lag_rule evaluation" where
  "chain_backend_lag_evaluate r ctx =
     (case cl_lagged r ctx of
        None \<Rightarrow> Done (r, Ok [])
      | Some lagged \<Rightarrow>
          (case with_entry (cl_prune_keep (ctx_monotonic_now ctx)) cl_subject_state_default
                  (cl_step (cl_lag_persist r) (ctx_subject ctx) (ctx_monotonic_now ctx) lagged)
                  (ctx_subject ctx) (cl_state r) of
             Panicked \<Rightarrow> Panicked
           | Done (state, drafts) \<Rightarrow> Done (r\<lparr>cl_state := state\<rparr>, Ok drafts)))"

section \<open>The contracts\<close>

definition cl_reads :: "lnd_chain_backend_lag_rule \<Rightarrow> diagnostic_context \<Rightarrow> reading" where
  "cl_reads r ctx =
     (case cl_lagged r ctx of None \<Rightarrow> NoInformation | Some lagged \<Rightarrow> if lagged then Holds else Fails)"

lemma cl_lagged_subject: "cl_lagged r ctx = Some b \<Longrightarrow> subject_kind (ctx_subject ctx) = SkLndNode"
  by (auto simp: cl_lagged_def lnd_height_def split: entity_ref.splits option.splits)

definition cl_ok :: "lnd_chain_backend_lag_rule \<Rightarrow> bool" where
  "cl_ok r = hm_wf (cl_state r)"

definition cl_emitted :: "lnd_chain_backend_lag_rule \<Rightarrow> entity_ref \<Rightarrow> bool" where
  "cl_emitted r s = (case hm_get (cl_state r) s of None \<Rightarrow> False | Some e \<Rightarrow> cl_active_emitted e)"

definition cl_since :: "lnd_chain_backend_lag_rule \<Rightarrow> entity_ref \<Rightarrow> instant option" where
  "cl_since r s = (case hm_get (cl_state r) s of None \<Rightarrow> None | Some e \<Rightarrow> cl_first_lagged_at e)"

lemma chain_backend_lag_evaluateE:
  assumes "cl_ok r" and "chain_backend_lag_evaluate r ctx = Done (r', Ok ds)"
  obtains (other) "r' = r" "ds = []" "cl_reads r ctx = NoInformation"
  | (entry) a entry where "cl_lagged r ctx = Some a" "subject_kind (ctx_subject ctx) = SkLndNode"
    "entry = entry_of (cl_prune_keep (ctx_monotonic_now ctx)) cl_subject_state_default
       (ctx_subject ctx) (cl_state r)"
    "cl_ok r'" "r' = r\<lparr>cl_state := cl_state r'\<rparr>"
    "ds = snd (cl_step (cl_lag_persist r) (ctx_subject ctx) (ctx_monotonic_now ctx) a entry)"
    "hm_get (cl_state r') (ctx_subject ctx) = Some (fst (cl_step (cl_lag_persist r) (ctx_subject ctx) (ctx_monotonic_now ctx) a entry))"
    "\<And>x. x \<noteq> ctx_subject ctx \<Longrightarrow> hm_get (cl_state r') x =
       (case hm_get (cl_state r) x of
          None \<Rightarrow> None | Some e \<Rightarrow> if cl_prune_keep (ctx_monotonic_now ctx) e then Some e else None)"
proof (cases "cl_lagged r ctx")
  case (Some a)
  then show ?thesis
    using assms entry [OF Some cl_lagged_subject [OF Some]] unfolding cl_ok_def
    by (auto simp: chain_backend_lag_evaluate_def Let_def cl_reads_def split: run.splits option.splits elim!: with_entryE)
qed (use assms other in \<open>auto simp: chain_backend_lag_evaluate_def cl_reads_def cl_reads_def split: option.splits\<close>)

lemmas cl_defs =
  cl_step_def cl_build_draft_def cl_emitted_def cl_since_def own_draft_def
  entry_of_def cl_subject_state_default_def cl_prune_keep_def saturating_duration_since_def
  incident_kind_from_well_known_def Let_def

lemma cl_step_latch:
  "strict_latch_step (cl_active_emitted e) (snd (cl_step (cl_lag_persist r) (ctx_subject ctx) (ctx_monotonic_now ctx) a e)) (cl_active_emitted (fst (cl_step (cl_lag_persist r) (ctx_subject ctx) (ctx_monotonic_now ctx) a e)))"
  by (auto simp: cl_step_def cl_build_draft_def Let_def split: option.split)

lemma cl_step_touched: "cl_last_touched_at (fst (cl_step (cl_lag_persist r) (ctx_subject ctx) (ctx_monotonic_now ctx) a e)) = Some (ctx_monotonic_now ctx)"
  by (auto simp: cl_step_def Let_def split: option.split)

lemma cl_step_own:
  "d \<in> set (snd (cl_step (cl_lag_persist r) (ctx_subject ctx) (ctx_monotonic_now ctx) a e)) \<Longrightarrow> subject_kind (ctx_subject ctx) = SkLndNode \<Longrightarrow>
     own_draft (IncidentKind LND_CHAIN_BACKEND_LAG) SkLndNode ConfHigh (ctx_subject ctx) d"
  by (auto simp: cl_step_def cl_build_draft_def own_draft_def incident_kind_from_well_known_def Let_def word_le_nat_alt
      split: option.splits if_splits)

lemma cl_step_raise:
  "d \<in> set (snd (cl_step (cl_lag_persist r) (ctx_subject ctx) (ctx_monotonic_now ctx) a e)) \<Longrightarrow> draft_status d = Active \<Longrightarrow>
     a \<and> (\<exists>t. cl_first_lagged_at (fst (cl_step (cl_lag_persist r) (ctx_subject ctx) (ctx_monotonic_now ctx) a e)) = Some t \<and>
       cl_lag_persist r \<le> ctx_monotonic_now ctx - t)"
  by (auto simp: cl_step_def cl_build_draft_def saturating_duration_since_def Let_def split: option.splits if_splits)

lemma cl_step_lower: "d \<in> set (snd (cl_step (cl_lag_persist r) (ctx_subject ctx) (ctx_monotonic_now ctx) a e)) \<Longrightarrow> draft_status d = Cleared \<Longrightarrow> \<not> a"
  by (auto simp: cl_step_def cl_build_draft_def Let_def split: option.splits if_splits)

lemma cl_entry_emitted:
  "cl_active_emitted (entry_of (cl_prune_keep now) cl_subject_state_default s (cl_state r)) \<longrightarrow> cl_emitted r s"
  by (auto simp: entry_of_def cl_emitted_def cl_subject_state_default_def cl_prune_keep_def
      split: option.splits)

lemma cl_latch:
  assumes "cl_ok r" and "chain_backend_lag_evaluate r ctx = Done (r', Ok ds)"
  shows "latch_step (cl_emitted r (ctx_subject ctx)) ds (cl_emitted r' (ctx_subject ctx))"
  using assms
proof (cases rule: chain_backend_lag_evaluateE)
  case (entry a e)
  have "cl_emitted r' (ctx_subject ctx) = cl_active_emitted (fst (cl_step (cl_lag_persist r) (ctx_subject ctx) (ctx_monotonic_now ctx) a e))"
    using entry(7) by (simp add: cl_emitted_def)
  then show ?thesis
    using entry(3,6) cl_step_latch [of e r ctx a] cl_entry_emitted [of "ctx_monotonic_now ctx" "ctx_subject ctx" r]
    by (auto intro: strict_latch_step_weaken)
qed simp

lemma chain_backend_lag_returns: "cl_ok r \<Longrightarrow> \<exists>r' ds. chain_backend_lag_evaluate r ctx = Done (r', Ok ds)"
  by (auto simp: chain_backend_lag_evaluate_def cl_ok_def Let_def with_entry_total split: option.splits run.split)

lemma chain_backend_lag_ok: "cl_ok r \<Longrightarrow> chain_backend_lag_evaluate r ctx = Done (r', Ok ds) \<Longrightarrow> cl_ok r'"
  by (rule chain_backend_lag_evaluateE) auto

interpretation chain_backend_lag: diagnostic_rule_laws chain_backend_lag_evaluate cl_ok cl_emitted
  "IncidentKind LND_CHAIN_BACKEND_LAG" SkLndNode ConfHigh
proof unfold_locales
  fix r ctx r' ds d s
  assume r: "cl_ok r"
  show "\<exists>r' ds. chain_backend_lag_evaluate r ctx = Done (r', Ok ds)"
    using r by (rule chain_backend_lag_returns)
  assume e: "chain_backend_lag_evaluate r ctx = Done (r', Ok ds)"
  show "cl_ok r'"
    using r e by (rule chain_backend_lag_ok)
  show "d \<in> set ds \<Longrightarrow> own_draft (IncidentKind LND_CHAIN_BACKEND_LAG) SkLndNode ConfHigh (ctx_subject ctx) d"
    using r e by (rule chain_backend_lag_evaluateE) (auto intro: cl_step_own)
  show "latch_step (cl_emitted r (ctx_subject ctx)) ds (cl_emitted r' (ctx_subject ctx))"
    using r e by (rule cl_latch)
  show "s \<noteq> ctx_subject ctx \<Longrightarrow> cl_emitted r' s \<Longrightarrow> cl_emitted r s"
    using r e by (rule chain_backend_lag_evaluateE) (auto simp: cl_emitted_def split: option.splits if_splits)
qed

interpretation chain_backend_lag: debounced_rule chain_backend_lag_evaluate cl_ok cl_emitted
  "IncidentKind LND_CHAIN_BACKEND_LAG" SkLndNode ConfHigh cl_reads cl_since "\<lambda>r _. cl_lag_persist r"
proof unfold_locales
  fix r ctx r' ds d s t
  assume r: "cl_ok r" and e: "chain_backend_lag_evaluate r ctx = Done (r', Ok ds)"
  have same: "r' = r\<lparr>cl_state := cl_state r'\<rparr>"
    using r e by (rule chain_backend_lag_evaluateE) auto
  show "cl_reads r' = cl_reads r \<and> (\<lambda>r _. cl_lag_persist r) r' = (\<lambda>r _. cl_lag_persist r) r"
    by (subst (1 2) same) (auto simp: fun_eq_iff cl_reads_def cl_lagged_def split: option.split)
  show "s \<noteq> ctx_subject ctx \<Longrightarrow> cl_since r' s = Some t \<Longrightarrow> cl_since r s = Some t"
    using r e by (rule chain_backend_lag_evaluateE) (auto simp: cl_since_def split: option.splits if_splits)
  show "cl_reads r ctx = Fails \<Longrightarrow> cl_since r' (ctx_subject ctx) = None"
    using r e by (rule chain_backend_lag_evaluateE) (auto simp: cl_defs cl_reads_def  split: if_splits option.splits option.splits)
  show "cl_reads r ctx = NoInformation \<Longrightarrow>
      ds = [] \<and> (cl_since r' (ctx_subject ctx) = Some t \<longrightarrow> cl_since r (ctx_subject ctx) = Some t)"
    using r e by (rule chain_backend_lag_evaluateE) (auto simp: cl_defs cl_reads_def split: if_splits option.splits option.splits)
  show "cl_reads r ctx = Holds \<Longrightarrow> cl_since r' (ctx_subject ctx) = Some t \<Longrightarrow>
      t = ctx_monotonic_now ctx \<or> cl_since r (ctx_subject ctx) = Some t"
    using r e by (rule chain_backend_lag_evaluateE) (auto simp: cl_defs cl_reads_def  split: if_splits option.splits option.splits)
  show "d \<in> set ds \<Longrightarrow> draft_status d = Active \<Longrightarrow> cl_reads r ctx = Holds \<and>
      (\<exists>t. cl_since r' (ctx_subject ctx) = Some t \<and> (\<lambda>r _. cl_lag_persist r) r ctx \<le> ctx_monotonic_now ctx - t)"
    using r e by (rule chain_backend_lag_evaluateE) (auto simp: cl_since_def cl_reads_def  dest!: cl_step_raise)
  show "d \<in> set ds \<Longrightarrow> draft_status d = Cleared \<Longrightarrow> cl_reads r ctx = Fails"
    using r e by (rule chain_backend_lag_evaluateE) (auto simp: cl_reads_def dest!: cl_step_lower)
qed

definition cl_fresh :: "lnd_chain_backend_lag_rule \<Rightarrow> entity_ref \<Rightarrow> instant \<Rightarrow> bool" where
  "cl_fresh r s now = (case hm_get (cl_state r) s of None \<Rightarrow> False | Some e \<Rightarrow> cl_prune_keep now e)"

interpretation chain_backend_lag: responsive_rule chain_backend_lag_evaluate cl_ok cl_emitted
  "IncidentKind LND_CHAIN_BACKEND_LAG" SkLndNode ConfHigh cl_reads cl_since "\<lambda>r _. cl_lag_persist r"
  cl_fresh cl_STATE_RETENTION
proof unfold_locales
  fix r ctx r' ds t
  assume r: "cl_ok r" and e: "chain_backend_lag_evaluate r ctx = Done (r', Ok ds)" and h: "cl_reads r ctx = Holds"
  show "cl_since r' (ctx_subject ctx) \<noteq> None"
    using r e by (rule chain_backend_lag_evaluateE) (use h in \<open>auto simp: cl_defs cl_reads_def  split: if_splits option.splits option.splits\<close>)
  show "cl_since r (ctx_subject ctx) = Some t \<Longrightarrow> cl_fresh r (ctx_subject ctx) (ctx_monotonic_now ctx) \<Longrightarrow>
      cl_since r' (ctx_subject ctx) = Some t"
    using r e by (rule chain_backend_lag_evaluateE)
      (use h in \<open>auto simp: cl_defs cl_reads_def cl_fresh_def  split: if_splits option.splits option.splits\<close>)
  show "t - ctx_monotonic_now ctx < cl_STATE_RETENTION \<Longrightarrow> cl_fresh r' (ctx_subject ctx) t"
    using r e by (rule chain_backend_lag_evaluateE)
      (use h in \<open>auto simp: cl_fresh_def cl_prune_keep_def cl_step_touched cl_reads_def Let_def
        saturating_duration_since_def cl_STATE_RETENTION_def cl_ACTIVE_EMITTED_TTL_def from_secs_def\<close>)
  show "cl_since r' (ctx_subject ctx) = Some t \<Longrightarrow> (\<lambda>r _. cl_lag_persist r) r ctx \<le> ctx_monotonic_now ctx - t \<Longrightarrow>
      cl_emitted r' (ctx_subject ctx)"
    using r e by (rule chain_backend_lag_evaluateE)
      (use h in \<open>auto simp: cl_defs cl_reads_def   split: if_splits option.splits option.splits\<close>)
qed

end
