(* ===== verification/Diagnostic_Rules.thy ===== *)
theory Diagnostic_Rules
  imports Rule_Rpc_Unreachable Rule_No_Peers Rule_Tip_Lag Rule_Channel_Inactive Rule_Chain_Backend_Lag
begin

text \<open>
  The five shipped rules as one type: a \<open>Box<dyn DiagnosticRule>\<close> is one of them, and
  its two methods dispatch. The properties of the rules are stated here over that
  type; they come from the interpretations of the rule contracts.
\<close>

datatype diagnostic_rule =
    RuleRpcUnreachable bitcoin_rpc_unreachable_rule
  | RuleNoPeers bitcoin_no_peers_rule
  | RuleTipLag bitcoin_tip_lag_rule
  | RuleChannelInactive lnd_channel_inactive_rule
  | RuleChainBackendLag lnd_chain_backend_lag_rule

fun rule_id :: "diagnostic_rule \<Rightarrow> string" where
  "rule_id (RuleRpcUnreachable _) = ''bitcoin.rpc_unreachable''"
| "rule_id (RuleNoPeers _) = ''bitcoin.no_peers''"
| "rule_id (RuleTipLag _) = ''bitcoin.tip_lag_or_ibd_stalled''"
| "rule_id (RuleChannelInactive _) = ''lnd.channel_inactive''"
| "rule_id (RuleChainBackendLag _) = ''lnd.chain_backend_lag''"

definition map_evaluation :: "('r \<Rightarrow> 's) \<Rightarrow> 'r evaluation \<Rightarrow> 's evaluation" where
  "map_evaluation f e = (case e of Panicked \<Rightarrow> Panicked | Done (r, x) \<Rightarrow> Done (f r, x))"

fun rule_evaluate :: "diagnostic_rule \<Rightarrow> diagnostic_context \<Rightarrow> diagnostic_rule evaluation" where
  "rule_evaluate (RuleRpcUnreachable r) ctx = map_evaluation RuleRpcUnreachable (rpc_unreachable_evaluate r ctx)"
| "rule_evaluate (RuleNoPeers r) ctx = map_evaluation RuleNoPeers (no_peers_evaluate r ctx)"
| "rule_evaluate (RuleTipLag r) ctx = map_evaluation RuleTipLag (tip_lag_evaluate r ctx)"
| "rule_evaluate (RuleChannelInactive r) ctx = map_evaluation RuleChannelInactive (channel_inactive_evaluate r ctx)"
| "rule_evaluate (RuleChainBackendLag r) ctx = map_evaluation RuleChainBackendLag (chain_backend_lag_evaluate r ctx)"

fun rule_ok :: "diagnostic_rule \<Rightarrow> bool" where
  "rule_ok (RuleRpcUnreachable r) = ru_ok r"
| "rule_ok (RuleNoPeers r) = np_ok r"
| "rule_ok (RuleTipLag r) = tl_ok r"
| "rule_ok (RuleChannelInactive r) = ci_ok r"
| "rule_ok (RuleChainBackendLag r) = cl_ok r"

fun rule_emitted :: "diagnostic_rule \<Rightarrow> entity_ref \<Rightarrow> bool" where
  "rule_emitted (RuleRpcUnreachable r) = ru_emitted r"
| "rule_emitted (RuleNoPeers r) = np_emitted r"
| "rule_emitted (RuleTipLag r) = tl_emitted r"
| "rule_emitted (RuleChannelInactive r) = ci_emitted r"
| "rule_emitted (RuleChainBackendLag r) = cl_emitted r"

text \<open>The reading, the window and the start of the window of the four timed rules.\<close>

fun timed :: "diagnostic_rule \<Rightarrow> bool" where
  "timed (RuleTipLag _) = False"
| "timed _ = True"

fun rule_reads :: "diagnostic_rule \<Rightarrow> diagnostic_context \<Rightarrow> reading" where
  "rule_reads (RuleRpcUnreachable r) = ru_reads r"
| "rule_reads (RuleNoPeers r) = np_reads r"
| "rule_reads (RuleTipLag r) = (\<lambda>_. NoInformation)"
| "rule_reads (RuleChannelInactive r) = ci_reads r"
| "rule_reads (RuleChainBackendLag r) = cl_reads r"

fun rule_window :: "diagnostic_rule \<Rightarrow> diagnostic_context \<Rightarrow> duration" where
  "rule_window (RuleRpcUnreachable r) ctx = ru_debounce r"
| "rule_window (RuleNoPeers r) ctx = np_debounce r"
| "rule_window (RuleTipLag r) ctx = 0"
| "rule_window (RuleChannelInactive r) ctx = ci_window r ctx"
| "rule_window (RuleChainBackendLag r) ctx = cl_lag_persist r"

fun rule_empty :: "diagnostic_rule \<Rightarrow> bool" where
  "rule_empty (RuleRpcUnreachable r) = (ru_state r = [])"
| "rule_empty (RuleNoPeers r) = (np_state r = [])"
| "rule_empty (RuleTipLag r) = (tl_state r = [])"
| "rule_empty (RuleChannelInactive r) = (ci_state r = [])"
| "rule_empty (RuleChainBackendLag r) = (cl_state r = [])"

definition rule_retention :: duration where
  "rule_retention = from_secs (60 * 60)"

lemma rule_retention_eq:
  "ru_STATE_RETENTION = rule_retention" "np_STATE_RETENTION = rule_retention"
  "ci_STATE_RETENTION = rule_retention" "cl_STATE_RETENTION = rule_retention"
  by (simp_all add: ru_STATE_RETENTION_def np_STATE_RETENTION_def ci_STATE_RETENTION_def
      cl_STATE_RETENTION_def rule_retention_def)

lemma rule_empty_ok: "rule_empty rule \<Longrightarrow> rule_ok rule"
  by (cases rule) (simp_all add: ru_ok_def np_ok_def tl_ok_def ci_ok_def cl_ok_def)

lemma rule_empty_emitted: "rule_empty rule \<Longrightarrow> \<not> rule_emitted rule s"
  by (cases rule) (simp_all add: ru_emitted_def np_emitted_def tl_emitted_def ci_emitted_def cl_emitted_def)

lemma map_evaluation_Done:
  "map_evaluation f e = Done (s, x) \<longleftrightarrow> (\<exists>r. e = Done (r, x) \<and> s = f r)"
  by (auto simp: map_evaluation_def split: run.split)

lemma rule_run_lift:
  assumes "\<And>r c. ev (f r) c = map_evaluation f (e r c)"
  shows "rule_run ev (f r) cs =
    (case rule_run e r cs of Panicked \<Rightarrow> Panicked | Done (r', ds) \<Rightarrow> Done (f r', ds))"
  by (induction cs arbitrary: r) (auto simp: assms map_evaluation_def split: run.split)

lemmas rule_run_lifts =
  rule_run_lift [where ev = rule_evaluate and f = RuleRpcUnreachable, OF rule_evaluate.simps(1)]
  rule_run_lift [where ev = rule_evaluate and f = RuleNoPeers, OF rule_evaluate.simps(2)]
  rule_run_lift [where ev = rule_evaluate and f = RuleTipLag, OF rule_evaluate.simps(3)]
  rule_run_lift [where ev = rule_evaluate and f = RuleChannelInactive, OF rule_evaluate.simps(4)]
  rule_run_lift [where ev = rule_evaluate and f = RuleChainBackendLag, OF rule_evaluate.simps(5)]

lemma rule_evaluate_returns:
  assumes "rule_ok rule"
  shows "\<exists>rule' ds. rule_evaluate rule ctx = Done (rule', Ok ds) \<and> rule_ok rule'"
proof (cases rule)
  case (RuleRpcUnreachable r)
  with assms rpc_unreachable.returns [of r ctx] rpc_unreachable.keeps_ok [of r ctx] show ?thesis
    by (auto simp: map_evaluation_Done)
next
  case (RuleNoPeers r)
  with assms no_peers.returns [of r ctx] no_peers.keeps_ok [of r ctx] show ?thesis
    by (auto simp: map_evaluation_Done)
next
  case (RuleTipLag r)
  with assms tip_lag.returns [of r ctx] tip_lag.keeps_ok [of r ctx] show ?thesis
    by (auto simp: map_evaluation_Done)
next
  case (RuleChannelInactive r)
  with assms channel_inactive.returns [of r ctx] channel_inactive.keeps_ok [of r ctx] show ?thesis
    by (auto simp: map_evaluation_Done)
next
  case (RuleChainBackendLag r)
  with assms chain_backend_lag.returns [of r ctx] chain_backend_lag.keeps_ok [of r ctx] show ?thesis
    by (auto simp: map_evaluation_Done)
qed

text \<open>The kind, the subject kind and the confidence floor of each rule's drafts.\<close>

fun rule_kind :: "diagnostic_rule \<Rightarrow> incident_kind \<times> entity_subject_kind \<times> confidence" where
  "rule_kind (RuleRpcUnreachable _) = (IncidentKind BITCOIN_RPC_UNREACHABLE, SkBitcoinNode, ConfHigh)"
| "rule_kind (RuleNoPeers _) = (IncidentKind BITCOIN_NO_PEERS, SkBitcoinNode, ConfHigh)"
| "rule_kind (RuleTipLag _) = (IncidentKind BITCOIN_TIP_LAG_OR_IBD_STALLED, SkBitcoinNode, ConfHigh)"
| "rule_kind (RuleChannelInactive _) = (IncidentKind LND_CHANNEL_INACTIVE, SkLndChannel, ConfMedium)"
| "rule_kind (RuleChainBackendLag _) = (IncidentKind LND_CHAIN_BACKEND_LAG, SkLndNode, ConfHigh)"

lemma rule_drafts_own:
  assumes "rule_ok rule" and "rule_evaluate rule ctx = Done (rule', Ok ds)" and "d \<in> set ds"
  shows "case rule_kind rule of (kind, sk, conf) \<Rightarrow> own_draft kind sk conf (ctx_subject ctx) d"
  using assms
  by (cases rule)
    (auto simp: map_evaluation_Done
      dest: rpc_unreachable.own no_peers.own tip_lag.own channel_inactive.own chain_backend_lag.own)

lemma builtin_kind_specs:
  "case rule_kind rule of (kind, sk, conf) \<Rightarrow>
     \<exists>spec. registry_lookup builtin_registry kind = Some spec \<and> spec_allowed_subjects spec = [sk] \<and>
       \<not> spec_allows_dimension spec \<and> spec_min_open_confidence spec = conf"
  by (cases rule)
    (simp_all add: builtin_registry_def registry_lookup_def default_kinds_def default_kind_def
      parse_entry_def parse_subject_kind_def well_known_kind_defs)

section \<open>A node without peers\<close>

text \<open>The context of a node that reports an active network and \<open>out\<close> outbound connections.\<close>

definition sample_ctx :: "u64 \<Rightarrow> instant \<Rightarrow> diagnostic_context" where
  "sample_ctx out t =
     \<lparr>ctx_now = 0, ctx_monotonic_now = t, ctx_subject = BitcoinNode (BitcoinNodeId ''n''),
      ctx_state = \<lparr>rm_latest_state = (\<lambda>s n.
         if n = state_name_from_well_known BITCOIN_NETWORK
         then Some \<lparr>pr_value = StateBitcoinNetwork \<lparr>nw_version = 0, nw_subversion = [],
                nw_protocol_version = 0, nw_connections = 0, nw_connections_in = None,
                nw_connections_out = Some out, nw_network_active = Some True\<rparr>,
              pr_observation_id = ObservationId 1, pr_observed_at = 0\<rparr>
         else if n = state_name_from_well_known BITCOIN_PEER_SUMMARY
         then Some \<lparr>pr_value = StateBitcoinPeerSummary \<lparr>ps_peer_count = 0, ps_inbound_count = None,
                ps_outbound_count = None, ps_block_relay_only_count = None\<rparr>,
              pr_observation_id = ObservationId 2, pr_observed_at = 0\<rparr>
         else None), rm_states_for = (\<lambda>_. [])\<rparr>,
      ctx_metrics = \<lparr>rm_latest_metric = (\<lambda>_ _. None), rm_metric_samples_since = (\<lambda>_ _ _. []),
        rm_unchanged_for = (\<lambda>_ _. None)\<rparr>,
      ctx_health = \<lparr>rm_current_health = (\<lambda>_ _. None)\<rparr>,
      ctx_capabilities = \<lparr>rm_current_capability = (\<lambda>_ _. None), rm_capabilities_for = (\<lambda>_. [])\<rparr>,
      ctx_heartbeats = \<lparr>rm_latest_heartbeat = None, rm_heartbeats_since = (\<lambda>_. [])\<rparr>,
      ctx_signals = \<lparr>rm_current_signal = (\<lambda>_ _. None), rm_active_signals_for = (\<lambda>_. []),
        rm_active_signals_for_incident_kind = (\<lambda>_ _. [])\<rparr>\<rparr>"

lemma sample_ctx_sel [simp]:
  "ctx_monotonic_now (sample_ctx out t) = t"
  "ctx_subject (sample_ctx out t) = BitcoinNode (BitcoinNodeId ''n'')"
  by (simp_all add: sample_ctx_def)

lemma sample_ctx_classify: "np_classify (sample_ctx out t) n = (if out = 0 then NpFiring else NpNotFiring)"
  by (simp add: np_classify_def sample_ctx_def bitcoin_network_def bitcoin_peer_summary_def unwrap_state_def
      state_name_from_well_known_def state_name_defs)

lemma sample_ctx_reads: "np_reads r (sample_ctx 0 t) = Holds"
  by (simp add: np_reads_iff np_input_def sample_ctx_classify)

lemma sample_raise:
  "\<exists>rule1 rule2 d. rule_run rule_evaluate (RuleNoPeers no_peers_new) [sample_ctx 0 0] = Done (rule1, []) \<and>
     rule_ok rule1 \<and> rule_evaluate rule1 (sample_ctx 0 (from_secs 60)) = Done (rule2, Ok [d]) \<and>
     draft_status d = Active"
  by (simp add: no_peers_new_def np_with_debounce_def np_DEFAULT_DEBOUNCE_def from_secs_def
      map_evaluation_def no_peers_evaluate_def sample_ctx_classify with_entry_def np_step_def
      np_subject_state_default_def hm_retain_def hm_contains_key_def hm_get_def hm_insert_def
      np_build_draft_def saturating_duration_since_def np_prune_keep_def np_STATE_RETENTION_def
      np_ok_def hm_wf_def Let_def del: hm_contains_key_iff hm_get_insert)

section \<open>Properties\<close>



text \<open>C26. Rules clear only what they raised.
  Over any sequence of evaluations of a new rule no evaluation panics or fails, and
  for every subject each \<open>Cleared\<close> draft follows an \<open>Active\<close> draft of that subject
  that no other \<open>Cleared\<close> has answered.\<close>

theorem rules_clear_only_raised:
  assumes "rule_empty rule"
  shows "\<exists>rule' ds. rule_run rule_evaluate rule ctxs = Done (rule', ds) \<and>
    (\<forall>s. clears_only_raised False (map draft_status (drafts_about s ds)))"
proof (cases rule)
  case (RuleRpcUnreachable r)
  then have r: "ru_ok r" "\<And>s. \<not> ru_emitted r s"
    using rule_empty_ok [OF assms] rule_empty_emitted [OF assms] by simp_all
  with rpc_unreachable.run_returns [OF r(1), of ctxs] rpc_unreachable.run_clears_only_raised [OF r(1), of ctxs]
    RuleRpcUnreachable show ?thesis by (auto simp: rule_run_lifts)
next
  case (RuleNoPeers r)
  then have r: "np_ok r" "\<And>s. \<not> np_emitted r s"
    using rule_empty_ok [OF assms] rule_empty_emitted [OF assms] by simp_all
  with no_peers.run_returns [OF r(1), of ctxs] no_peers.run_clears_only_raised [OF r(1), of ctxs]
    RuleNoPeers show ?thesis by (auto simp: rule_run_lifts)
next
  case (RuleTipLag r)
  then have r: "tl_ok r" "\<And>s. \<not> tl_emitted r s"
    using rule_empty_ok [OF assms] rule_empty_emitted [OF assms] by simp_all
  with tip_lag.run_returns [OF r(1), of ctxs] tip_lag.run_clears_only_raised [OF r(1), of ctxs]
    RuleTipLag show ?thesis by (auto simp: rule_run_lifts)
next
  case (RuleChannelInactive r)
  then have r: "ci_ok r" "\<And>s. \<not> ci_emitted r s"
    using rule_empty_ok [OF assms] rule_empty_emitted [OF assms] by simp_all
  with channel_inactive.run_returns [OF r(1), of ctxs] channel_inactive.run_clears_only_raised [OF r(1), of ctxs]
    RuleChannelInactive show ?thesis by (auto simp: rule_run_lifts)
next
  case (RuleChainBackendLag r)
  then have r: "cl_ok r" "\<And>s. \<not> cl_emitted r s"
    using rule_empty_ok [OF assms] rule_empty_emitted [OF assms] by simp_all
  with chain_backend_lag.run_returns [OF r(1), of ctxs] chain_backend_lag.run_clears_only_raised [OF r(1), of ctxs]
    RuleChainBackendLag show ?thesis by (auto simp: rule_run_lifts)
qed

theorem rules_clear_only_raised_witness:
  "\<exists>rule' ds. rule_run rule_evaluate (RuleNoPeers no_peers_new)
       [sample_ctx 0 0, sample_ctx 0 (from_secs 60), sample_ctx 1 (from_secs 61)] = Done (rule', ds) \<and>
     (\<forall>s. clears_only_raised False (map draft_status (drafts_about s ds)))"
proof -
  have "rule_empty (RuleNoPeers no_peers_new)"
    by (simp add: no_peers_new_def np_with_debounce_def)
  from rules_clear_only_raised [OF this] show ?thesis .
qed

text \<open>C27. The three Bitcoin rules alternate.
  Over any sequence of evaluations of a new Bitcoin rule the drafts about a subject
  are \<open>Active\<close>, \<open>Cleared\<close>, \<open>Active\<close>, \<open>Cleared\<close> and so on: no raise is repeated
  while it stands, however long the subject is not evaluated.\<close>

theorem bitcoin_rules_alternate:
  assumes "rule_empty rule" and "snd (rule_kind rule) = (SkBitcoinNode, ConfHigh)"
  shows "\<exists>rule' ds. rule_run rule_evaluate rule ctxs = Done (rule', ds) \<and>
    (\<forall>s. alternates False (map draft_status (drafts_about s ds)))"
proof (cases rule)
  case (RuleRpcUnreachable r)
  then have r: "ru_ok r" "\<And>s. \<not> ru_emitted r s"
    using rule_empty_ok [OF assms(1)] rule_empty_emitted [OF assms(1)] by simp_all
  with rpc_unreachable.run_returns [OF r(1), of ctxs] rpc_unreachable.run_alternates [OF r(1), of ctxs]
    RuleRpcUnreachable show ?thesis by (auto simp: rule_run_lifts)
next
  case (RuleNoPeers r)
  then have r: "np_ok r" "\<And>s. \<not> np_emitted r s"
    using rule_empty_ok [OF assms(1)] rule_empty_emitted [OF assms(1)] by simp_all
  with no_peers.run_returns [OF r(1), of ctxs] no_peers.run_alternates [OF r(1), of ctxs]
    RuleNoPeers show ?thesis by (auto simp: rule_run_lifts)
next
  case (RuleTipLag r)
  then have r: "tl_ok r" "\<And>s. \<not> tl_emitted r s"
    using rule_empty_ok [OF assms(1)] rule_empty_emitted [OF assms(1)] by simp_all
  with tip_lag.run_returns [OF r(1), of ctxs] tip_lag.run_alternates [OF r(1), of ctxs]
    RuleTipLag show ?thesis by (auto simp: rule_run_lifts)
qed (use assms(2) in simp_all)

theorem bitcoin_rules_alternate_witness:
  "\<exists>rule' ds. rule_run rule_evaluate (RuleNoPeers no_peers_new)
       [sample_ctx 0 0, sample_ctx 0 (from_secs 60), sample_ctx 0 (from_secs 90)] = Done (rule', ds) \<and>
     (\<forall>s. alternates False (map draft_status (drafts_about s ds)))"
proof -
  have "rule_empty (RuleNoPeers no_peers_new)"
    "snd (rule_kind (RuleNoPeers no_peers_new)) = (SkBitcoinNode, ConfHigh)"
    by (simp_all add: no_peers_new_def np_with_debounce_def)
  from bitcoin_rules_alternate [OF this] show ?thesis .
qed

text \<open>C28. A raise needs the condition for the whole window.
  When a timed rule raises a subject after any sequence of evaluations from a new
  rule, some evaluation of that subject at least the rule's window ago (on the
  monotonic clock) read the condition as holding, and no evaluation of the subject
  since then read it as failing.\<close>

theorem timed_rules_debounce:
  assumes "rule_empty rule" and "timed rule" and "rule_run rule_evaluate rule ctxs = Done (rule1, ds1)"
    and "rule_evaluate rule1 ctx = Done (rule2, Ok ds)" and "d \<in> set ds" and "draft_status d = Active"
  shows "\<exists>t. rule_window rule ctx \<le> ctx_monotonic_now ctx - t \<and>
    held_since (rule_reads rule) (ctx_subject ctx) (ctxs @ [ctx]) t"
proof (cases rule)
  case (RuleRpcUnreachable r)
  have e: "ru_ok r" "\<And>s. ru_since r s = None"
    using assms(1) RuleRpcUnreachable by (simp_all add: ru_ok_def ru_since_def)
  obtain r1 r2 where "rule_run rpc_unreachable_evaluate r ctxs = Done (r1, ds1)"
    "rpc_unreachable_evaluate r1 ctx = Done (r2, Ok ds)"
    using assms(3,4) RuleRpcUnreachable by (auto simp: rule_run_lifts map_evaluation_Done split: run.splits)
  from rpc_unreachable.raise_needs_window [OF e this assms(5,6)] RuleRpcUnreachable show ?thesis by simp
next
  case (RuleNoPeers r)
  have e: "np_ok r" "\<And>s. np_since r s = None"
    using assms(1) RuleNoPeers by (simp_all add: np_ok_def np_since_def)
  obtain r1 r2 where "rule_run no_peers_evaluate r ctxs = Done (r1, ds1)"
    "no_peers_evaluate r1 ctx = Done (r2, Ok ds)"
    using assms(3,4) RuleNoPeers by (auto simp: rule_run_lifts map_evaluation_Done split: run.splits)
  from no_peers.raise_needs_window [OF e this assms(5,6)] RuleNoPeers show ?thesis by simp
next
  case (RuleTipLag r)
  with assms(2) show ?thesis by simp
next
  case (RuleChannelInactive r)
  have e: "ci_ok r" "\<And>s. ci_since r s = None"
    using assms(1) RuleChannelInactive by (simp_all add: ci_ok_def ci_since_def)
  obtain r1 r2 where "rule_run channel_inactive_evaluate r ctxs = Done (r1, ds1)"
    "channel_inactive_evaluate r1 ctx = Done (r2, Ok ds)"
    using assms(3,4) RuleChannelInactive by (auto simp: rule_run_lifts map_evaluation_Done split: run.splits)
  from channel_inactive.raise_needs_window [OF e this assms(5,6)] RuleChannelInactive show ?thesis by simp
next
  case (RuleChainBackendLag r)
  have e: "cl_ok r" "\<And>s. cl_since r s = None"
    using assms(1) RuleChainBackendLag by (simp_all add: cl_ok_def cl_since_def)
  obtain r1 r2 where "rule_run chain_backend_lag_evaluate r ctxs = Done (r1, ds1)"
    "chain_backend_lag_evaluate r1 ctx = Done (r2, Ok ds)"
    using assms(3,4) RuleChainBackendLag by (auto simp: rule_run_lifts map_evaluation_Done split: run.splits)
  from chain_backend_lag.raise_needs_window [OF e this assms(5,6)] RuleChainBackendLag show ?thesis by simp
qed

theorem timed_rules_debounce_witness:
  "\<exists>rule1 rule2 d t. rule_run rule_evaluate (RuleNoPeers no_peers_new) [sample_ctx 0 0] = Done (rule1, []) \<and>
     rule_evaluate rule1 (sample_ctx 0 (from_secs 60)) = Done (rule2, Ok [d]) \<and> draft_status d = Active \<and>
     np_DEFAULT_DEBOUNCE \<le> from_secs 60 - t"
proof -
  obtain rule1 rule2 d where s: "rule_run rule_evaluate (RuleNoPeers no_peers_new) [sample_ctx 0 0] = Done (rule1, [])"
    "rule_evaluate rule1 (sample_ctx 0 (from_secs 60)) = Done (rule2, Ok [d])" "draft_status d = Active"
    using sample_raise by blast
  have "rule_empty (RuleNoPeers no_peers_new)" "timed (RuleNoPeers no_peers_new)" "d \<in> set [d]"
    by (simp_all add: no_peers_new_def np_with_debounce_def)
  from timed_rules_debounce [OF this(1,2) s(1,2) this(3) s(3)] s show ?thesis
    by (auto simp: no_peers_new_def np_with_debounce_def)
qed

text \<open>C29. A condition that keeps holding is raised.
  If a new timed rule evaluates a subject again and again, each time reading the
  condition as holding and never more than an hour apart, and the last evaluation is
  at least the window after the first, the rule has raised the subject by then.\<close>

theorem timed_rules_respond:
  assumes "rule_empty rule" and "timed rule"
    and "\<forall>x \<in> set (c # ctxs). ctx_subject x = s \<and> rule_reads rule x = Holds"
    and "gaps_below rule_retention (ctx_monotonic_now c) ctxs"
    and "rule_window rule (last (c # ctxs)) \<le> ctx_monotonic_now (last (c # ctxs)) - ctx_monotonic_now c"
  shows "\<exists>rule' ds. rule_run rule_evaluate rule (c # ctxs) = Done (rule', ds) \<and>
    (\<exists>d \<in> set ds. draft_subject d = s \<and> draft_status d = Active)"
proof (cases rule)
  case (RuleRpcUnreachable r)
  have "ru_ok r" "\<not> ru_emitted r s" "ru_since r s = None"
    using assms(1) RuleRpcUnreachable by (simp_all add: ru_ok_def ru_since_def ru_emitted_def)
  from rpc_unreachable.holding_is_raised [OF this, of c ctxs] assms(3-5) RuleRpcUnreachable
  show ?thesis unfolding RuleRpcUnreachable rule_run_lifts by (auto simp: rule_retention_eq)
next
  case (RuleNoPeers r)
  have "np_ok r" "\<not> np_emitted r s" "np_since r s = None"
    using assms(1) RuleNoPeers by (simp_all add: np_ok_def np_since_def np_emitted_def)
  from no_peers.holding_is_raised [OF this, of c ctxs] assms(3-5) RuleNoPeers
  show ?thesis unfolding RuleNoPeers rule_run_lifts by (auto simp: rule_retention_eq)
next
  case (RuleTipLag r)
  with assms(2) show ?thesis by simp
next
  case (RuleChannelInactive r)
  have "ci_ok r" "\<not> ci_emitted r s" "ci_since r s = None"
    using assms(1) RuleChannelInactive by (simp_all add: ci_ok_def ci_since_def ci_emitted_def)
  from channel_inactive.holding_is_raised [OF this, of c ctxs] assms(3-5) RuleChannelInactive
  show ?thesis unfolding RuleChannelInactive rule_run_lifts by (auto simp: rule_retention_eq)
next
  case (RuleChainBackendLag r)
  have "cl_ok r" "\<not> cl_emitted r s" "cl_since r s = None"
    using assms(1) RuleChainBackendLag by (simp_all add: cl_ok_def cl_since_def cl_emitted_def)
  from chain_backend_lag.holding_is_raised [OF this, of c ctxs] assms(3-5) RuleChainBackendLag
  show ?thesis unfolding RuleChainBackendLag rule_run_lifts by (auto simp: rule_retention_eq)
qed

theorem timed_rules_respond_witness:
  "\<exists>rule' ds. rule_run rule_evaluate (RuleNoPeers no_peers_new)
       [sample_ctx 0 0, sample_ctx 0 (from_secs 60)] = Done (rule', ds) \<and>
     (\<exists>d \<in> set ds. draft_subject d = BitcoinNode (BitcoinNodeId ''n'') \<and> draft_status d = Active)"
proof -
  let ?r = "RuleNoPeers no_peers_new" and ?c = "sample_ctx 0 0" and ?cs = "[sample_ctx 0 (from_secs 60)]"
  have "rule_empty ?r" "timed ?r"
    "\<forall>x \<in> set (?c # ?cs). ctx_subject x = BitcoinNode (BitcoinNodeId ''n'') \<and> rule_reads ?r x = Holds"
    "gaps_below rule_retention (ctx_monotonic_now ?c) ?cs"
    "rule_window ?r (last (?c # ?cs)) \<le> ctx_monotonic_now (last (?c # ?cs)) - ctx_monotonic_now ?c"
    by (simp_all add: no_peers_new_def np_with_debounce_def sample_ctx_reads rule_retention_def from_secs_def
        np_DEFAULT_DEBOUNCE_def)
  from timed_rules_respond [OF this] show ?thesis .
qed

text \<open>The tip-lag rule wants consecutive readings.
  Whatever a new rule has evaluated before, when it raises or clears a node then at
  least \<open>debounce_ticks\<close> readings of that node in a row, up to and including this one,
  were classified as firing (respectively as not firing).\<close>

lemma tip_lag_needs_consecutive_readings:
  assumes "rule_run tip_lag_evaluate (tl_with_settings w k) ctxs = Done (r1, ds1)"
    and "tip_lag_evaluate r1 ctx = Done (r2, Ok ds)" and "d \<in> set ds"
  shows "\<exists>n. unat k \<le> trailing (case draft_status d of Active \<Rightarrow> TlFiring | Cleared \<Rightarrow> TlNotFiring)
    (snd (tl_after w k (ctx_subject ctx) (take n (readings (ctx_subject ctx) (ctxs @ [ctx])))))"
proof -
  have "tl_tracks w k (hist @ ctxs) r'" if "tl_tracks w k hist r" "rule_run tip_lag_evaluate r ctxs = Done (r', ds')"
    for r r' hist ctxs ds'
    using that
  proof (induction ctxs arbitrary: r hist ds')
    case (Cons c ctxs)
    have ok: "tl_ok r"
      using Cons.prems(1) by (simp add: tl_tracks_def)
    obtain r3 d3 where step: "tip_lag_evaluate r c = Done (r3, Ok d3)"
      using tip_lag.returns [OF ok] by blast
    with Cons.prems(2) obtain ds4 where "rule_run tip_lag_evaluate r3 ctxs = Done (r', ds4)"
      by (auto split: run.splits)
    from Cons.IH [OF _ this, of "hist @ [c]"] tl_tracks_step [OF Cons.prems(1) step] show ?case by simp
  qed simp
  moreover have "tl_tracks w k [] (tl_with_settings w k)"
    by (simp add: tl_tracks_def tl_with_settings_def tl_ok_def)
  ultimately have "tl_tracks w k ctxs r1"
    using assms(1) by fastforce
  from tl_tracks_step [OF this assms(2)] assms(3) show ?thesis by blast
qed

text \<open>A node in initial block download, close to the tip, with eight peers.\<close>

definition sample_lag_ctx :: "instant \<Rightarrow> diagnostic_context" where
  "sample_lag_ctx t = (sample_ctx 0 t)\<lparr>ctx_state := \<lparr>rm_latest_state = (\<lambda>s n.
         if n = state_name_from_well_known BITCOIN_BLOCKCHAIN
         then Some \<lparr>pr_value = StateBitcoinBlockchain \<lparr>bc_chain = ''main'', bc_blocks = 5, bc_headers = 5,
                bc_best_block_hash = None, bc_verification_progress = Fin 1,
                bc_initial_block_download = True, bc_pruned = False, bc_size_on_disk_bytes = 0\<rparr>,
              pr_observation_id = ObservationId 1, pr_observed_at = 0\<rparr>
         else if n = state_name_from_well_known BITCOIN_PEER_SUMMARY
         then Some \<lparr>pr_value = StateBitcoinPeerSummary \<lparr>ps_peer_count = 8, ps_inbound_count = None,
                ps_outbound_count = None, ps_block_relay_only_count = None\<rparr>,
              pr_observation_id = ObservationId 2, pr_observed_at = 0\<rparr>
         else None), rm_states_for = (\<lambda>_. [])\<rparr>\<rparr>"

lemma sample_lag_sel [simp]:
  "ctx_monotonic_now (sample_lag_ctx t) = t"
  "ctx_subject (sample_lag_ctx t) = BitcoinNode (BitcoinNodeId ''n'')"
  by (simp_all add: sample_lag_ctx_def)

definition sample_chain :: bitcoin_blockchain_state where
  "sample_chain = \<lparr>bc_chain = ''main'', bc_blocks = 5, bc_headers = 5,
     bc_best_block_hash = None, bc_verification_progress = Fin 1,
     bc_initial_block_download = True, bc_pruned = False, bc_size_on_disk_bytes = 0\<rparr>"

definition sample_peers :: bitcoin_peer_summary_state where
  "sample_peers = \<lparr>ps_peer_count = 8, ps_inbound_count = None, ps_outbound_count = None,
     ps_block_relay_only_count = None\<rparr>"

lemma sample_lag_states:
  "map_option pr_value (bitcoin_blockchain (rm_latest_state (ctx_state (sample_lag_ctx t))) n) = Some sample_chain"
  "map_option pr_value (bitcoin_peer_summary (rm_latest_state (ctx_state (sample_lag_ctx t))) n) = Some sample_peers"
  by (simp_all add: sample_lag_ctx_def bitcoin_blockchain_def bitcoin_peer_summary_def unwrap_state_def
      state_name_from_well_known_def state_name_defs sample_chain_def sample_peers_def)

lemma sample_a1: "a1_holds sample_chain sample_peers"
  by (simp add: a1_holds_def sample_chain_def sample_peers_def A1_MAX_HEADER_BLOCK_GAP_def
      A1_MIN_VERIFICATION_PROGRESS_def A1_MIN_PEER_COUNT_def saturating_sub_def word_less_nat_alt Let_def)

lemma sample_lag_classify: "snd (update_state_and_classify e sample_chain sample_peers t w) = TlFiring"
  by (simp add: update_state_and_classify_def sample_a1 Let_def)

lemma update_touched:
  "tl_last_touched_at (fst (update_state_and_classify e b p now w)) = tl_last_touched_at e"
  by (auto simp: update_state_and_classify_def Let_def split: option.split)

lemma sample_lag_evaluate:
  "tip_lag_evaluate r (sample_lag_ctx t) =
     (case with_entry (tl_prune_keep t) tl_subject_state_default
             (tl_step (tl_a2_flat_window r) (tl_debounce_ticks r) (BitcoinNode (BitcoinNodeId ''n'')) t
                sample_chain sample_peers)
             (BitcoinNode (BitcoinNodeId ''n'')) (tl_state r) of
        Panicked \<Rightarrow> Panicked
      | Done (state, drafts) \<Rightarrow> Done (r\<lparr>tl_state := state\<rparr>, Ok drafts))"
  using sample_lag_states [of t "BitcoinNodeId ''n''"] by (auto simp: tip_lag_evaluate_def split: option.splits)

lemma sample_lag_raise:
  "\<exists>r1 r2 d. rule_run tip_lag_evaluate (tl_with_settings DEFAULT_A2_FLAT_WINDOW 2) [sample_lag_ctx 0] = Done (r1, []) \<and>
     tip_lag_evaluate r1 (sample_lag_ctx 1) = Done (r2, Ok [d]) \<and> draft_status d = Active"
  by (simp add: sample_lag_evaluate tl_with_settings_def with_entry_def hm_retain_def
      hm_contains_key_def hm_get_def hm_insert_def tl_step_def case_prod_unfold sample_lag_classify tl_count_def
      update_counts update_emitted update_touched tl_subject_state_default_def saturating_inc_def tl_prune_keep_def
      saturating_duration_since_def tl_STATE_RETENTION_def from_secs_def tl_build_draft_def Let_def
      word_less_nat_alt word_le_nat_alt del: hm_contains_key_iff hm_get_insert)

end
