(* ===== verification/Notification_Types.thy ===== *)
theory Notification_Types
  imports Incident_Engine
begin

text \<open>
  Notifications (\<open>notifications/types.rs\<close> and the target types under
  \<open>notifications/targets\<close>): rules and how they match a lifecycle event, attempts and
  their statuses, delivery outcomes, and the redacted summary of a target. A
  \<open>SecretString\<close> is the string it exposes. \<open>str::split\<close> is written out.
\<close>

section \<open>Splitting strings\<close>

text \<open>\<open>str::split\<close>: the pieces between the non-overlapping occurrences, left to right.\<close>

function split_str_from :: "string \<Rightarrow> string \<Rightarrow> string \<Rightarrow> string list" where
  "split_str_from pat acc [] = [acc]"
| "split_str_from pat acc (c # cs) =
     (if pat \<noteq> [] \<and> take (length pat) (c # cs) = pat
      then acc # split_str_from pat [] (drop (length pat - 1) cs)
      else split_str_from pat (acc @ [c]) cs)"
  by pat_completeness auto
termination
  by (relation "measure (\<lambda>(_, _, s). length s)") auto

definition split_str :: "string \<Rightarrow> string \<Rightarrow> string list" where
  "split_str pat s = split_str_from pat [] s"

text \<open>Decimal rendering of integers.\<close>

fun nat_str :: "nat \<Rightarrow> string" where
  "nat_str n = (if n < 10 then [char_of (48 + n)] else nat_str (n div 10) @ [char_of (48 + n mod 10)])"

declare nat_str.simps [simp del]

definition int_str :: "int \<Rightarrow> string" where
  "int_str i = (if i < 0 then CHR ''-'' # nat_str (nat (- i)) else nat_str (nat i))"

section \<open>Targets\<close>

type_synonym secret_string = string

datatype telegram_chat_id = TelegramChatId i64
datatype telegram_parse_mode = PlainText | Html

record telegram_target =
  tg_chat_id :: telegram_chat_id
  tg_parse_mode :: telegram_parse_mode

datatype discord_channel_id = DiscordChannelId u64
datatype discord_thread_id = DiscordThreadId u64

record discord_target =
  dc_webhook_url :: secret_string
  dc_thread_id :: "discord_thread_id option"
  dc_username_override :: "string option"
  dc_avatar_url_override :: "string option"

datatype webhook_method = Post

record webhook_header =
  whh_name :: string
  whh_value :: secret_string

record webhook_target =
  wh_url :: secret_string
  wh_method :: webhook_method
  wh_headers :: "webhook_header list"

text \<open>\<open>Stdout\<close> exists in builds with debug assertions only.\<close>

datatype notification_target =
    Stdout
  | Discord discord_target
  | Telegram telegram_target
  | Webhook webhook_target

datatype target_kind = KindTelegram | KindDiscord | KindWebhook | KindStdout

definition host_of_secret_url :: "secret_string \<Rightarrow> string" where
  "host_of_secret_url raw =
     (case split_str ''://'' raw of
        _ # rest # _ \<Rightarrow>
          let host_port = hd (split_str ''/'' rest);
              host_port = last (split_str ''@'' host_port)
          in hd (split_str '':'' host_port)
      | _ \<Rightarrow> ''unknown'')"

fun summarize :: "notification_target \<Rightarrow> target_kind \<times> string" where
  "summarize Stdout = (KindStdout, ''stdout'')"
| "summarize (Telegram t) =
     (KindTelegram, ''telegram:chat_id='' @ (case tg_chat_id t of TelegramChatId c \<Rightarrow> int_str c))"
| "summarize (Discord t) =
     (KindDiscord, ''discord:webhook=host='' @ host_of_secret_url (dc_webhook_url t))"
| "summarize (Webhook t) = (KindWebhook, ''webhook:host='' @ host_of_secret_url (wh_url t))"

section \<open>Rules, attempts and outcomes\<close>

datatype notification_rule_id = NotificationRuleId string
datatype notification_rule_name = NotificationRuleName string
datatype notification_attempt_id = NotificationAttemptId uuid

record notification_rule =
  nr_id :: notification_rule_id
  nr_name :: notification_rule_name
  nr_enabled :: bool
  nr_min_severity :: incident_severity
  nr_event_kinds :: "incident_kind list"
  nr_target :: notification_target

record notification_message =
  msg_incident_lifecycle_event :: incident_lifecycle_event
  msg_title :: string
  msg_summary :: string
  msg_affected_component :: "string option"
  msg_diagnostic_summary :: "string option"
  msg_occurred_at :: datetime

datatype external_message_ref =
    TelegramMessage telegram_chat_id i64
  | DiscordMessage discord_channel_id u64

datatype transient_error = RateLimited | Network | Upstream5xx u16 | UnknownTransient string

datatype permanent_error = AuthFailure | DestinationGone | BadRequest string | NotConfigured

datatype delivery_outcome =
    Delivered "external_message_ref option"
  | Transient transient_error "chrono_duration option"
  | Permanent permanent_error

record delivery_receipt =
  rc_outcome :: delivery_outcome
  rc_started_at :: datetime
  rc_completed_at :: datetime

datatype notification_delivery_status =
  Pending | Succeeded | FailedTransient | FailedPermanent | Suppressed

record notification_attempt =
  na_id :: notification_attempt_id
  na_rule_id :: notification_rule_id
  na_incident_id :: incident_id
  na_lifecycle_kind :: incident_notification_event_kind
  na_target_kind :: target_kind
  na_target_summary :: string
  na_status :: notification_delivery_status
  na_attempt_number :: u32
  na_parent_attempt_id :: "notification_attempt_id option"
  na_next_retry_at :: "datetime option"
  na_outcome :: "delivery_outcome option"
  na_external_ref :: "external_message_ref option"
  na_attempted_at :: datetime
  na_completed_at :: "datetime option"

fun notif_severity_rank :: "incident_severity \<Rightarrow> u8" where
  "notif_severity_rank SevInfo = 0"
| "notif_severity_rank SevWarning = 1"
| "notif_severity_rank SevCritical = 2"

definition severity_at_least :: "incident_severity \<Rightarrow> incident_severity \<Rightarrow> bool" where
  "severity_at_least actual floor_sev = (notif_severity_rank actual \<ge> notif_severity_rank floor_sev)"

definition rule_matches :: "notification_rule \<Rightarrow> incident_lifecycle_event \<Rightarrow> bool" where
  "rule_matches rule event =
     (if \<not> nr_enabled rule then False
      else let incident = lifecycle_incident event in
           if nr_event_kinds rule \<noteq> [] \<and> inc_kind incident \<notin> set (nr_event_kinds rule) then False
           else severity_at_least (inc_severity incident) (nr_min_severity rule))"

section \<open>The pieces of a split\<close>

lemma split_str_from_no_sep:
  "c \<notin> set s \<Longrightarrow> split_str_from [c] acc s = [acc @ s]"
  by (induction s arbitrary: acc) auto

lemma split_str_from_sep:
  "c \<notin> set a \<Longrightarrow> split_str_from [c] acc (a @ c # b) = (acc @ a) # split_str_from [c] [] b"
  by (induction a arbitrary: acc) auto

lemma takeWhile_neq:
  "c \<notin> set a \<Longrightarrow> takeWhile (\<lambda>x. x \<noteq> c) (a @ c # b) = a"
  "c \<notin> set a \<Longrightarrow> takeWhile (\<lambda>x. x \<noteq> c) a = a"
  by (induction a) auto

lemma hd_split_str: "hd (split_str [c] s) = takeWhile (\<lambda>x. x \<noteq> c) s"
proof (cases "c \<in> set s")
  case True
  then obtain a b where "s = a @ c # b" "c \<notin> set a"
    by (metis split_list_first)
  then show ?thesis by (simp add: split_str_def split_str_from_sep takeWhile_neq)
next
  case False
  then show ?thesis by (simp add: split_str_def split_str_from_no_sep takeWhile_neq)
qed

lemma split_str_from_not_Nil: "split_str_from pat acc s \<noteq> []"
  by (induction pat acc s rule: split_str_from.induct) auto

lemma last_split_str: "c \<notin> set b \<Longrightarrow> last (split_str [c] (a @ c # b)) = b"
proof -
  assume b: "c \<notin> set b"
  have "last (split_str_from [c] acc (a @ c # b)) = b" for acc
    using b by (induction a arbitrary: acc) (auto simp: split_str_from_no_sep split_str_from_not_Nil)
  then show ?thesis by (simp add: split_str_def)
qed

text \<open>Where the scheme separator can occur.\<close>

lemma split_scheme:
  "CHR '':'' \<notin> set scheme \<Longrightarrow>
     split_str_from ''://'' acc (scheme @ ''://'' @ rest) = (acc @ scheme) # split_str_from ''://'' [] rest"
  by (induction scheme arbitrary: acc) (auto simp: take_Cons')

lemma hd_split_authority:
  "CHR ''/'' \<notin> set auth \<Longrightarrow> auth = [] \<or> last auth \<noteq> CHR '':'' \<Longrightarrow>
     \<exists>t. hd (split_str_from ''://'' acc (auth @ CHR ''/'' # path)) = acc @ auth @ CHR ''/'' # t"
proof (induction auth arbitrary: acc)
  case Nil
  have "\<exists>t. hd (split_str_from pat acc s) = acc @ t" for pat acc s
    by (induction pat acc s rule: split_str_from.induct) auto
  from this [of "''://''" "acc @ ''/''" path] show ?case by auto
next
  case (Cons c auth)
  have no: "take (Suc (Suc (Suc 0))) (c # auth @ CHR ''/'' # path) \<noteq> ''://''"
    using Cons.prems by (cases auth) (auto simp: take_Cons')
  have "\<exists>t. hd (split_str_from ''://'' (acc @ [c]) (auth @ CHR ''/'' # path)) = (acc @ [c]) @ auth @ CHR ''/'' # t"
    using Cons.prems by (intro Cons.IH) (auto split: if_splits)
  with no show ?case by simp
qed

lemma host_of_url:
  assumes "CHR '':'' \<notin> set scheme" and "CHR ''/'' \<notin> set auth" and "auth = [] \<or> last auth \<noteq> CHR '':''"
  shows "host_of_secret_url (scheme @ ''://'' @ auth @ ''/'' @ path) =
    takeWhile (\<lambda>x. x \<noteq> CHR '':'') (last (split_str ''@'' auth))"
proof -
  obtain t where t: "hd (split_str_from ''://'' [] (auth @ CHR ''/'' # path)) = auth @ CHR ''/'' # t"
    using hd_split_authority [OF assms(2,3), of "[]"] by auto
  then obtain ps where ps: "split_str_from ''://'' [] (auth @ CHR ''/'' # path) = (auth @ CHR ''/'' # t) # ps"
    using split_str_from_not_Nil by (metis list.collapse)
  have "takeWhile (\<lambda>x. x \<noteq> CHR ''/'') (auth @ CHR ''/'' # t) = auth"
    using assms(2) by (rule takeWhile_neq)
  then show ?thesis
    using split_scheme [OF assms(1), of "[]" "auth @ CHR ''/'' # path"] ps
    by (simp add: host_of_secret_url_def hd_split_str split_str_def [of "''://''"])
qed

section \<open>Properties\<close>

text \<open>The persisted summary of a target shows the host only.
  For a URL with a path, neither the path nor the credentials before the host nor
  the port reach the summary: it is the host, whatever they are. So a webhook token
  in the path is never stored.\<close>

lemma summary_shows_host_only:
  assumes "CHR '':'' \<notin> set scheme" and "CHR ''/'' \<notin> set userinfo"
    and "CHR ''/'' \<notin> set host" and "CHR ''@'' \<notin> set host" and "CHR '':'' \<notin> set host" and "host \<noteq> []"
    and "CHR ''/'' \<notin> set port" and "CHR ''@'' \<notin> set port" and "port \<noteq> []" and "last port \<noteq> CHR '':''"
  shows "host_of_secret_url (scheme @ ''://'' @ (userinfo @ ''@'' @ host @ '':'' @ port) @ ''/'' @ path) = host \<and>
    host_of_secret_url (scheme @ ''://'' @ (userinfo @ ''@'' @ host) @ ''/'' @ path) = host"
proof -
  have take: "takeWhile (\<lambda>x. x \<noteq> CHR '':'') (host @ '':'' @ port) = host"
    "takeWhile (\<lambda>x. x \<noteq> CHR '':'') host = host"
    using assms(5) by (simp_all add: takeWhile_neq)
  have last: "last (split_str ''@'' (userinfo @ ''@'' @ host @ '':'' @ port)) = host @ '':'' @ port"
    "last (split_str ''@'' (userinfo @ ''@'' @ host)) = host"
    using assms(4,8) last_split_str [of "CHR ''@''" "host @ '':'' @ port" userinfo]
      last_split_str [of "CHR ''@''" host userinfo] by auto
  have "last host \<noteq> CHR '':''"
    using assms(5,6) last_in_set by metis
  then show ?thesis
    using assms take last by (subst (1 2) host_of_url) auto
qed

text \<open>A URL without a path leaks its query into the summary.
  When no slash follows the authority, everything up to the next colon counts as the
  host: a token in the query string is stored in the summary.\<close>

lemma query_without_path_is_stored:
  "snd (summarize (Webhook \<lparr>wh_url = ''https://ops.example.com?token=abc'',
     wh_method = Post, wh_headers = []\<rparr>)) = ''webhook:host=ops.example.com?token=abc''"
  by (simp add: host_of_secret_url_def split_str_def take_Cons')

text \<open>Whoever heard of the opening hears of the rest.
  A rule that matches the opening of an incident matches every later lifecycle event
  of it, as long as the kind is the same and the severity has not dropped: an
  operator told that an incident opened is also told that it escalated or resolved.\<close>

lemma rule_matches_later_events:
  assumes "rule_matches rule (Opened i)" and "inc_kind (lifecycle_incident ev) = inc_kind i"
    and "severity_rank (inc_severity i) \<le> severity_rank (inc_severity (lifecycle_incident ev))"
  shows "rule_matches rule ev"
proof -
  have same: "notif_severity_rank s = severity_rank s" for s
    by (cases s) simp_all
  with assms show ?thesis
    by (auto simp: rule_matches_def severity_at_least_def Let_def split: if_splits)
qed

definition sample_rule :: notification_rule where
  "sample_rule = \<lparr>nr_id = NotificationRuleId ''ops'', nr_name = NotificationRuleName ''ops'',
     nr_enabled = True, nr_min_severity = SevWarning, nr_event_kinds = [],
     nr_target = Stdout\<rparr>"

definition sample_incident :: "incident_severity \<Rightarrow> incident_status \<Rightarrow> incident" where
  "sample_incident sev st =
     \<lparr>inc_id = IncidentId 7, inc_fingerprint = compute_fingerprint (sample_draft SigWarning Active),
      inc_kind = IncidentKind BITCOIN_NO_PEERS, inc_subject = BitcoinNode (BitcoinNodeId ''n''),
      inc_severity = sev, inc_status = st, inc_opened_at = 0, inc_updated_at = 0, inc_resolved_at = None,
      inc_signal_observation_ids = [], inc_evidence = [], inc_summary = [], inc_evidence_summary = []\<rparr>"

end
