(* ===== verification/Storage_Memory.thy ===== *)
theory Storage_Memory
  imports Notification_Types
begin

text \<open>
  The storage traits (\<open>storage/traits.rs\<close>, \<open>incidents/repository.rs\<close>,
  \<open>notifications/repository.rs\<close>) as locales, and the three in-memory implementations
  (\<open>storage/memory\<close>) that interpret them. A mutex-guarded map is explicit state; an
  operation returns its result and the new state.
\<close>

section \<open>Errors\<close>

datatype store_error =
    StoreIo string
  | StoreDatabase string
  | StoreSerialization string
  | StoreCorruption string
  | StoreNotInitialized

datatype incident_repo_error =
    IncidentBackend string
  | IncidentConflict incident_id
  | IncidentNotFound incident_id

datatype attempt_repo_error =
    AttemptBackend string
  | AttemptConflict notification_attempt_id
  | AttemptNotFound notification_attempt_id

section \<open>Incidents\<close>

record memory_incident_repository =
  mir_inner :: "(incident_id, incident) hash_map"

definition mir_new :: memory_incident_repository where
  "mir_new = \<lparr>mir_inner = []\<rparr>"

definition mir_load_open :: "memory_incident_repository \<Rightarrow> incident_repo_error + incident list" where
  "mir_load_open repo =
     Ok (sort_key inc_opened_at (filter (\<lambda>i. inc_status i \<noteq> StResolved) (map snd (mir_inner repo))))"

definition mir_save ::
    "incident \<Rightarrow> memory_incident_repository \<Rightarrow> (incident_repo_error + unit) \<times> memory_incident_repository" where
  "mir_save incident repo =
     (Ok (), repo\<lparr>mir_inner := hm_insert (inc_id incident) incident (mir_inner repo)\<rparr>)"

definition mir_get :: "incident_id \<Rightarrow> memory_incident_repository \<Rightarrow> incident_repo_error + incident option" where
  "mir_get k repo = Ok (hm_get (mir_inner repo) k)"

section \<open>Notification attempts\<close>

record memory_attempt_repository =
  mar_inner :: "(notification_attempt_id, notification_attempt) hash_map"

definition mar_new :: memory_attempt_repository where
  "mar_new = \<lparr>mar_inner = []\<rparr>"

fun status_for_outcome :: "delivery_outcome \<Rightarrow> bool \<Rightarrow> notification_delivery_status" where
  "status_for_outcome (Delivered _) will_retry = Succeeded"
| "status_for_outcome (Transient _ _) will_retry = (if will_retry then FailedTransient else FailedPermanent)"
| "status_for_outcome (Permanent _) will_retry = FailedPermanent"

definition mar_insert_pending ::
    "notification_attempt \<Rightarrow> memory_attempt_repository \<Rightarrow>
     (attempt_repo_error + unit) \<times> memory_attempt_repository" where
  "mar_insert_pending attempt repo =
     (if hm_contains_key (mar_inner repo) (na_id attempt) then (Err (AttemptConflict (na_id attempt)), repo)
      else (Ok (), repo\<lparr>mar_inner := hm_insert (na_id attempt) attempt (mar_inner repo)\<rparr>))"

text \<open>The update of a row on completion.\<close>

definition complete_attempt ::
    "delivery_receipt \<Rightarrow> datetime option \<Rightarrow> notification_attempt \<Rightarrow> notification_attempt" where
  "complete_attempt receipt next_retry_at attempt =
     attempt\<lparr>na_status := status_for_outcome (rc_outcome receipt) (next_retry_at \<noteq> None),
       na_outcome := Some (rc_outcome receipt),
       na_external_ref := (case rc_outcome receipt of Delivered r \<Rightarrow> r | _ \<Rightarrow> None),
       na_next_retry_at := next_retry_at,
       na_completed_at := Some (rc_completed_at receipt)\<rparr>"

definition mar_complete ::
    "notification_attempt_id \<Rightarrow> delivery_receipt \<Rightarrow> datetime option \<Rightarrow> memory_attempt_repository \<Rightarrow>
     (attempt_repo_error + unit) \<times> memory_attempt_repository" where
  "mar_complete k receipt next_retry_at repo =
     (case hm_get (mar_inner repo) k of
        None \<Rightarrow> (Err (AttemptNotFound k), repo)
      | Some attempt \<Rightarrow>
          (Ok (), repo\<lparr>mar_inner := hm_insert k (complete_attempt receipt next_retry_at attempt) (mar_inner repo)\<rparr>))"

text \<open>\<open>Option\<close> is ordered with \<open>None\<close> first; the retry times of the filtered rows are all present.\<close>

definition mar_list_retryable ::
    "datetime \<Rightarrow> u32 \<Rightarrow> memory_attempt_repository \<Rightarrow> attempt_repo_error + notification_attempt list" where
  "mar_list_retryable now limit repo =
     Ok (take (unat limit)
       (sort_key (\<lambda>a. case na_next_retry_at a of None \<Rightarrow> now | Some t \<Rightarrow> t)
         (filter (\<lambda>a. case na_next_retry_at a of None \<Rightarrow> False | Some t \<Rightarrow> t \<le> now)
           (filter (\<lambda>a. na_status a = FailedTransient) (map snd (mar_inner repo))))))"

definition mar_list_for_incident ::
    "incident_id \<Rightarrow> memory_attempt_repository \<Rightarrow> attempt_repo_error + notification_attempt list" where
  "mar_list_for_incident k repo =
     Ok (sort_key (\<lambda>a. - na_attempted_at a) (filter (\<lambda>a. na_incident_id a = k) (map snd (mar_inner repo))))"

section \<open>Observations\<close>

record memory_observation_store =
  mos_inner :: "observation list"

definition mos_new :: memory_observation_store where
  "mos_new = \<lparr>mos_inner = []\<rparr>"

definition mos_append_many ::
    "observation list \<Rightarrow> memory_observation_store \<Rightarrow> (store_error + unit) \<times> memory_observation_store" where
  "mos_append_many batch store = (Ok (), store\<lparr>mos_inner := mos_inner store @ batch\<rparr>)"

definition mos_append ::
    "observation \<Rightarrow> memory_observation_store \<Rightarrow> (store_error + unit) \<times> memory_observation_store" where
  "mos_append obs store = mos_append_many [obs] store"

definition mos_iter_since :: "datetime \<Rightarrow> memory_observation_store \<Rightarrow> store_error + observation list" where
  "mos_iter_since since store =
     Ok (sort_key obs_observed_at (filter (\<lambda>ob. obs_observed_at ob \<ge> since) (mos_inner store)))"

definition mos_get_by_id :: "observation_id \<Rightarrow> memory_observation_store \<Rightarrow> store_error + observation option" where
  "mos_get_by_id k store = Ok (find (\<lambda>ob. obs_id ob = k) (mos_inner store))"

lemmas memory_defs [store_simps] =
  mir_new_def mir_load_open_def mir_save_def mir_get_def mar_new_def mar_insert_pending_def mar_complete_def
  mar_list_retryable_def mar_list_for_incident_def mos_new_def mos_append_many_def mos_append_def
  mos_iter_since_def mos_get_by_id_def

section \<open>The contracts\<close>

text \<open>
  An incident repository: \<open>rows\<close> is what it holds. A successful save replaces the row
  of that id, a failed one changes nothing, and \<open>load_open\<close> lists what is not resolved.
\<close>

locale incident_repository =
  fixes save :: "incident \<Rightarrow> 'w \<Rightarrow> (incident_repo_error + unit) \<times> 'w"
    and load_open :: "'w \<Rightarrow> incident_repo_error + incident list"
    and rows :: "'w \<Rightarrow> incident_id \<Rightarrow> incident option"
    and valid :: "'w \<Rightarrow> bool"
  assumes save_Ok: "valid w \<Longrightarrow> save i w = (Ok (), w') \<Longrightarrow> rows w' = (rows w)(inc_id i \<mapsto> i)"
    and save_Err: "valid w \<Longrightarrow> save i w = (Err e, w') \<Longrightarrow> rows w' = rows w"
    and save_valid: "valid w \<Longrightarrow> save i w = (res, w') \<Longrightarrow> valid w'"
    and load_open_set: "valid w \<Longrightarrow> load_open w = Ok is \<Longrightarrow>
      set is = {i. \<exists>k. rows w k = Some i \<and> inc_status i \<noteq> StResolved}"
    and load_open_distinct: "valid w \<Longrightarrow> load_open w = Ok is \<Longrightarrow> (\<And>k i. rows w k = Some i \<Longrightarrow> inc_id i = k) \<Longrightarrow>
      distinct (map inc_id is)"
begin

text \<open>
  The engine and the repository agree: every row carries its own id, and the rows that
  are not resolved are exactly the engine's open incidents.
\<close>

definition in_sync :: "incident_engine \<Rightarrow> 'w \<Rightarrow> bool" where
  "in_sync e w \<longleftrightarrow> valid w \<and> engine_inv e \<and> (\<forall>k i. rows w k = Some i \<longrightarrow> inc_id i = k) \<and>
     (\<forall>i. (\<exists>k. rows w k = Some i \<and> inc_status i \<noteq> StResolved) \<longleftrightarrow>
          (\<exists>fp. hm_get (eng_open_incidents e) fp = Some i))"

lemma in_sync_row: "in_sync e w \<Longrightarrow> rows w k = Some i \<Longrightarrow> inc_id i = k"
  unfolding in_sync_def by blast

lemma in_sync_open:
  "in_sync e w \<Longrightarrow> rows w k = Some i \<Longrightarrow> inc_status i \<noteq> StResolved \<Longrightarrow>
     \<exists>fp. hm_get (eng_open_incidents e) fp = Some i"
  unfolding in_sync_def by blast

lemma in_syncD:
  assumes "in_sync e w" and "hm_get (eng_open_incidents e) fp = Some i"
  shows "rows w (inc_id i) = Some i" and "inc_fingerprint i = fp" and "inc_status i = StOpen"
proof -
  obtain k where "rows w k = Some i" "inc_id i = k"
    using assms unfolding in_sync_def by blast
  then show "rows w (inc_id i) = Some i" by simp
  have "open_map_ok (eng_open_incidents e)"
    using assms(1) by (simp add: in_sync_def engine_inv_def)
  then have "open_incident_ok fp i"
    using assms(2) by (rule open_map_ok_getD)
  then show "inc_fingerprint i = fp" "inc_status i = StOpen"
    by (simp_all add: open_incident_ok_def)
qed

text \<open>Two open incidents with one id are one incident.\<close>

lemma in_sync_id_inject:
  assumes "in_sync e w" and "hm_get (eng_open_incidents e) fp = Some i"
    and "hm_get (eng_open_incidents e) fp' = Some j" and "inc_id i = inc_id j"
  shows "fp = fp'"
proof -
  have "Some i = Some j"
    using in_syncD(1) [OF assms(1,2)] in_syncD(1) [OF assms(1,3)] assms(4) by metis
  then show ?thesis
    using in_syncD(2) [OF assms(1,2)] in_syncD(2) [OF assms(1,3)] by blast
qed

text \<open>
  An open incident that replaces its own entry, or is new with an unused id: no other
  entry has its id, and every other open row belongs to another entry.
\<close>

definition replaces :: "incident_engine \<Rightarrow> 'w \<Rightarrow> incident_fingerprint \<Rightarrow> incident \<Rightarrow> bool" where
  "replaces e w fp i \<longleftrightarrow>
     (case hm_get (eng_open_incidents e) fp of Some j \<Rightarrow> inc_id j = inc_id i | None \<Rightarrow> rows w (inc_id i) = None)"

lemma replaces_other_entry:
  assumes s: "in_sync e w" and old: "replaces e w fp i"
    and j: "hm_get (eng_open_incidents e) fp' = Some j" "fp' \<noteq> fp"
  shows "inc_id j \<noteq> inc_id i"
proof
  assume id: "inc_id j = inc_id i"
  show False
  proof (cases "hm_get (eng_open_incidents e) fp")
    case None
    with old in_syncD(1) [OF s j(1)] id show False by (simp add: replaces_def)
  next
    case (Some x)
    with old id have "inc_id j = inc_id x" by (simp add: replaces_def)
    with in_sync_id_inject [OF s j(1) Some] j(2) show False by blast
  qed
qed

lemma replaces_other_row:
  assumes s: "in_sync e w" and old: "replaces e w fp i"
    and r: "rows w k = Some j" "inc_status j \<noteq> StResolved" "k \<noteq> inc_id i"
  shows "\<exists>fp'. fp' \<noteq> fp \<and> hm_get (eng_open_incidents e) fp' = Some j"
proof -
  obtain fp' where fp': "hm_get (eng_open_incidents e) fp' = Some j"
    using in_sync_open [OF s r(1,2)] by blast
  moreover have "fp' \<noteq> fp"
    using fp' old in_sync_row [OF s r(1)] r(3) by (auto simp: replaces_def)
  ultimately show ?thesis by blast
qed

lemma in_sync_upsert:
  assumes s: "in_sync e w" and i: "open_incident_ok fp i"
    and e': "eng_open_incidents e' = hm_insert fp i (eng_open_incidents e)"
    and old: "replaces e w fp i" and w': "save i w = (Ok (), w')"
  shows "in_sync e' w'"
proof -
  have v: "valid w" and inv: "engine_inv e"
    using s by (auto simp: in_sync_def)
  have rows': "rows w' = (rows w)(inc_id i \<mapsto> i)"
    using save_Ok [OF v w'] .
  have inv': "engine_inv e'"
    using inv i e' by (simp add: engine_inv_def open_map_ok_insert)
  have "(\<exists>k. rows w' k = Some j \<and> inc_status j \<noteq> StResolved) \<longleftrightarrow>
      (\<exists>fp'. hm_get (eng_open_incidents e') fp' = Some j)" for j
  proof
    assume "\<exists>k. rows w' k = Some j \<and> inc_status j \<noteq> StResolved"
    then show "\<exists>fp'. hm_get (eng_open_incidents e') fp' = Some j"
      using replaces_other_row [OF s old] by (auto simp: rows' e' split: if_splits)
  next
    assume "\<exists>fp'. hm_get (eng_open_incidents e') fp' = Some j"
    then obtain fp' where fp': "(if fp' = fp then Some i else hm_get (eng_open_incidents e) fp') = Some j"
      by (auto simp: e')
    then have "rows w' (inc_id j) = Some j \<and> inc_status j \<noteq> StResolved"
      using i in_syncD [OF s] replaces_other_entry [OF s old]
      by (cases "fp' = fp") (auto simp: rows' open_incident_ok_def)
    then show "\<exists>k. rows w' k = Some j \<and> inc_status j \<noteq> StResolved" by blast
  qed
  with s inv' save_valid [OF v w'] show ?thesis
    by (auto simp: in_sync_def rows')
qed

text \<open>Saving the resolved form of the open incident that leaves the map.\<close>

lemma in_sync_resolve:
  assumes s: "in_sync e w" and j: "hm_get (eng_open_incidents e) fp = Some j"
    and i: "inc_id i = inc_id j" "inc_status i = StResolved"
    and e': "eng_open_incidents e' = hm_remove fp (eng_open_incidents e)"
    and w': "save i w = (Ok (), w')"
  shows "in_sync e' w'"
proof -
  have v: "valid w" and inv: "engine_inv e"
    using s by (auto simp: in_sync_def)
  have rows': "rows w' = (rows w)(inc_id j \<mapsto> i)"
    using save_Ok [OF v w'] i by simp
  have inv': "engine_inv e'"
    using inv e' by (simp add: engine_inv_def open_map_ok_remove)
  have "(\<exists>k. rows w' k = Some x \<and> inc_status x \<noteq> StResolved) \<longleftrightarrow>
      (\<exists>fp'. hm_get (eng_open_incidents e') fp' = Some x)" for x
  proof
    assume "\<exists>k. rows w' k = Some x \<and> inc_status x \<noteq> StResolved"
    then obtain k where k: "rows w k = Some x" "k \<noteq> inc_id j" "inc_status x \<noteq> StResolved"
      using i by (auto simp: rows' split: if_splits)
    obtain fp' where fp': "hm_get (eng_open_incidents e) fp' = Some x"
      using in_sync_open [OF s k(1,3)] by blast
    have "inc_id x = k"
      using s k(1) by (rule in_sync_row)
    with k(2) j fp' have "fp' \<noteq> fp" by auto
    with fp' show "\<exists>fp'. hm_get (eng_open_incidents e') fp' = Some x"
      by (auto simp: e')
  next
    assume "\<exists>fp'. hm_get (eng_open_incidents e') fp' = Some x"
    then obtain fp' where fp': "fp' \<noteq> fp" "hm_get (eng_open_incidents e) fp' = Some x"
      by (auto simp: e' split: if_splits)
    then have "inc_id x \<noteq> inc_id j"
      using in_sync_id_inject [OF s fp'(2) j] by blast
    with in_syncD [OF s fp'(2)] show "\<exists>k. rows w' k = Some x \<and> inc_status x \<noteq> StResolved"
      by (intro exI [of _ "inc_id x"]) (auto simp: rows')
  qed
  with s i inv' save_valid [OF v w'] show ?thesis
    by (auto simp: in_sync_def rows')
qed

text \<open>An engine rebuilt from a repository in sync has the same open incidents.\<close>

lemma rebuild:
  assumes s: "in_sync e w" and l: "load_open w = Ok is"
  shows "\<exists>e'. incident_engine_new kinds sidecar source is = Done e' \<and>
    hm_get (eng_open_incidents e') = hm_get (eng_open_incidents e)"
proof -
  have v: "valid w" and ids: "\<And>k i. rows w k = Some i \<Longrightarrow> inc_id i = k"
    using s by (auto simp: in_sync_def)
  have set: "set is = {i. \<exists>fp. hm_get (eng_open_incidents e) fp = Some i}"
    using load_open_set [OF v l] s by (auto simp: in_sync_def)
  have "distinct (map inc_id is)"
    using load_open_distinct [OF v l] ids by blast
  moreover have "inc_fingerprint i = inc_fingerprint j \<Longrightarrow> i = j" if "i \<in> set is" "j \<in> set is" for i j
    using that set in_syncD(2) [OF s] by fastforce
  ultimately have "distinct (map inc_fingerprint is)"
    by (auto simp: distinct_map inj_on_def)
  then have "incident_engine_new kinds sidecar source is \<noteq> Panicked"
    using open_map_of_fps [of "[]" "is"] by (auto simp: incident_engine_new_def split: run.splits)
  then obtain e' where e': "incident_engine_new kinds sidecar source is = Done e'"
    by (cases "incident_engine_new kinds sidecar source is") auto
  have "hm_get (eng_open_incidents e') fp = Some i \<longleftrightarrow> hm_get (eng_open_incidents e) fp = Some i" for fp i
    using incident_engine_new_DoneD(1) [OF e'] set in_syncD(2) [OF s] by fastforce
  then have "hm_get (eng_open_incidents e') = hm_get (eng_open_incidents e)"
    by (intro ext) (metis not_Some_eq)
  with e' show ?thesis by blast
qed

end

interpretation mir: incident_repository mir_save mir_load_open "\<lambda>w. hm_get (mir_inner w)" "\<lambda>w. hm_wf (mir_inner w)"
proof unfold_locales
  fix w w' :: memory_incident_repository and i res "is"
  show "mir_save i w = (Ok (), w') \<Longrightarrow> hm_get (mir_inner w') = (hm_get (mir_inner w))(inc_id i \<mapsto> i)"
    by (auto simp: mir_save_def)
  show "\<And>e. mir_save i w = (Err e, w') \<Longrightarrow> hm_get (mir_inner w') = hm_get (mir_inner w)"
    by (auto simp: mir_save_def)
  assume v: "hm_wf (mir_inner w)"
  show "mir_save i w = (res, w') \<Longrightarrow> hm_wf (mir_inner w')"
    using v by (auto simp: mir_save_def)
  have entries: "x \<in> snd ` set (mir_inner w) \<longleftrightarrow> (\<exists>k. hm_get (mir_inner w) k = Some x)" for x
    using hm.entries_get [OF v] by force
  show "mir_load_open w = Ok is \<Longrightarrow>
      set is = {i. \<exists>k. hm_get (mir_inner w) k = Some i \<and> inc_status i \<noteq> StResolved}"
    using entries by (auto simp: mir_load_open_def)
  show "mir_load_open w = Ok is \<Longrightarrow> (\<And>k i. hm_get (mir_inner w) k = Some i \<Longrightarrow> inc_id i = k) \<Longrightarrow>
      distinct (map inc_id is)"
  proof -
    assume l: "mir_load_open w = Ok is" and ids: "\<And>k i. hm_get (mir_inner w) k = Some i \<Longrightarrow> inc_id i = k"
    have "map inc_id (map snd (mir_inner w)) = map fst (mir_inner w)"
      using ids hm.entries_get [OF v] by auto
    then have "distinct (map inc_id (map snd (mir_inner w)))"
      using v by (simp only: hm_wf_def)
    then have "distinct (map inc_id (filter (\<lambda>i. inc_status i \<noteq> StResolved) (map snd (mir_inner w))))"
      by (rule distinct_map_filter)
    then show ?thesis
      using l by (auto simp: mir_load_open_def distinct_map)
  qed
qed

text \<open>
  An attempt repository: \<open>row\<close> is what it holds. An insert needs a new id, a completion
  an existing one; a failed operation changes nothing.
\<close>

locale attempt_repository =
  fixes insert_pending :: "notification_attempt \<Rightarrow> 'w \<Rightarrow> (attempt_repo_error + unit) \<times> 'w"
    and complete :: "notification_attempt_id \<Rightarrow> delivery_receipt \<Rightarrow> datetime option \<Rightarrow> 'w \<Rightarrow>
      (attempt_repo_error + unit) \<times> 'w"
    and row :: "'w \<Rightarrow> notification_attempt_id \<Rightarrow> notification_attempt option"
  assumes insert_Ok: "insert_pending a w = (Ok (), w') \<Longrightarrow>
      row w (na_id a) = None \<and> row w' = (row w)(na_id a \<mapsto> a)"
    and insert_Err: "insert_pending a w = (Err e, w') \<Longrightarrow> row w' = row w"
    and complete_Ok: "complete k receipt retry w = (Ok (), w') \<Longrightarrow>
      \<exists>a. row w k = Some a \<and> row w' = (row w)(k \<mapsto> complete_attempt receipt retry a)"
    and complete_Err: "complete k receipt retry w = (Err e, w') \<Longrightarrow> row w' = row w"
begin

text \<open>Without a retry time no row is ever left waiting for a retry.\<close>

definition no_retry_rows :: "'w \<Rightarrow> bool" where
  "no_retry_rows w \<longleftrightarrow> (\<forall>k a. row w k = Some a \<longrightarrow> na_status a \<noteq> FailedTransient)"

lemma status_without_retry: "status_for_outcome oc False \<noteq> FailedTransient"
  by (cases oc) simp_all

lemma insert_no_retry:
  assumes "no_retry_rows w" and "na_status a \<noteq> FailedTransient" and "insert_pending a w = (res, w')"
  shows "no_retry_rows w'"
  using assms insert_Ok [of a w w'] insert_Err [of a w _ w']
  by (cases res) (auto simp: no_retry_rows_def split: if_splits)

lemma complete_no_retry:
  assumes "no_retry_rows w" and "complete k receipt None w = (res, w')"
  shows "no_retry_rows w'"
proof (cases res)
  case (Inl e)
  then show ?thesis
    using assms complete_Err by (simp add: no_retry_rows_def)
next
  case (Inr u)
  then have ok: "complete k receipt None w = (Ok (), w')"
    using assms(2) by simp
  obtain a where "row w' = (row w)(k \<mapsto> complete_attempt receipt None a)"
    using complete_Ok [OF ok] by blast
  then show ?thesis
    using assms(1) status_without_retry by (auto simp: no_retry_rows_def complete_attempt_def)
qed

end

interpretation mar: attempt_repository mar_insert_pending mar_complete "\<lambda>w. hm_get (mar_inner w)"
  by unfold_locales
    (auto simp: mar_insert_pending_def mar_complete_def hm_contains_key_def split: if_splits option.splits
      simp del: hm_contains_key_iff)

text \<open>An append-only log: what has been appended, in order.\<close>

locale observation_log =
  fixes append :: "observation \<Rightarrow> 'w \<Rightarrow> (store_error + unit) \<times> 'w"
    and logged :: "'w \<Rightarrow> observation list"
  assumes append_Ok: "append ob w = (Ok (), w') \<Longrightarrow> logged w' = logged w @ [ob]"
    and append_Err: "append ob w = (Err e, w') \<Longrightarrow> logged w' = logged w"
begin

lemma append_prefix: "append ob w = (res, w') \<Longrightarrow> \<exists>new. logged w' = logged w @ new"
  using append_Ok [of ob w w'] append_Err [of ob w _ w'] by (cases res) auto

end

interpretation mos: observation_log mos_append mos_inner
  by unfold_locales (auto simp: mos_append_def mos_append_many_def)

section \<open>What the memory repositories answer\<close>

text \<open>
  \<open>list_retryable\<close> answers with rows that failed transiently and are due, ordered by
  their retry time and at most \<open>limit\<close> of them; with no such limit reached it answers
  with all of them.\<close>

lemma list_retryable_spec:
  assumes "mar_list_retryable now limit repo = Ok xs"
  shows "length xs \<le> unat limit \<and> sorted (map (\<lambda>a. case na_next_retry_at a of None \<Rightarrow> now | Some t \<Rightarrow> t) xs) \<and>
    set xs \<subseteq> {a \<in> snd ` set (mar_inner repo). na_status a = FailedTransient \<and>
      (\<exists>t. na_next_retry_at a = Some t \<and> t \<le> now)} \<and>
    (length xs < unat limit \<longrightarrow> set xs = {a \<in> snd ` set (mar_inner repo). na_status a = FailedTransient \<and>
      (\<exists>t. na_next_retry_at a = Some t \<and> t \<le> now)})"
proof -
  let ?due = "filter (\<lambda>a. case na_next_retry_at a of None \<Rightarrow> False | Some t \<Rightarrow> t \<le> now)
      (filter (\<lambda>a. na_status a = FailedTransient) (map snd (mar_inner repo)))"
  let ?key = "\<lambda>a. case na_next_retry_at a of None \<Rightarrow> now | Some t \<Rightarrow> t"
  have xs: "xs = take (unat limit) (sort_key ?key ?due)"
    using assms by (simp add: mar_list_retryable_def)
  have due: "set (sort_key ?key ?due) = {a \<in> snd ` set (mar_inner repo). na_status a = FailedTransient \<and>
      (\<exists>t. na_next_retry_at a = Some t \<and> t \<le> now)}"
    by (auto split: option.splits)
  have "sorted (map ?key xs)"
    unfolding xs take_map [symmetric] by (intro sorted_wrt_take) simp
  moreover have "set xs \<subseteq> set (sort_key ?key ?due)"
    unfolding xs by (rule set_take_subset)
  moreover have "set xs = set (sort_key ?key ?due)" if "length xs < unat limit"
    using that unfolding xs by simp
  moreover have "length xs \<le> unat limit"
    unfolding xs by simp
  ultimately show ?thesis
    unfolding due by blast
qed

end
