(* ===== verification/Senders.thy ===== *)
theory Senders
  imports Notification_Types Float64
begin

text \<open>
  The payloads and the three senders (\<open>notifications/targets/{webhook,telegram,discord}\<close>):
  how each builds its request, and how it classifies the answer into a delivery
  outcome. What belongs to other crates is a record of operations, \<open>crates\<close>:
  the duration constructors and the date parser of \<open>chrono\<close>, the header types of
  \<open>http\<close>, and the \<open>serde_json\<close> decoders of the answer types. The HTTP client and the
  clock act on a world \<open>'w\<close>. A panic of a sender is the value \<open>Panicked\<close>.
\<close>

section \<open>Payloads\<close>

text \<open>The JSON values the code builds; the order of the fields of an object carries no meaning.\<close>

datatype json = JNull | JBool bool | JInt int | JFloat f64 | JString string | JArray "json list"
  | JObject "(string \<times> json) list"

fun json_option :: "string option \<Rightarrow> json" where
  "json_option None = JNull"
| "json_option (Some s) = JString s"

record telegram_inline_button =
  tib_text :: string
  tib_callback_data :: string

record telegram_reply_markup =
  trm_inline_keyboard :: "telegram_inline_button list list"

record telegram_payload =
  tp_text :: string
  tp_parse_mode :: telegram_parse_mode
  tp_disable_notification :: "bool option"
  tp_reply_to_message_id :: "i64 option"
  tp_reply_markup :: "telegram_reply_markup option"

record discord_embed_field =
  def_name :: string
  def_value :: string
  def_inline :: bool

record discord_embed_footer =
  dft_text :: string
  dft_icon_url :: "string option"

record discord_embed_author =
  dea_name :: string
  dea_url :: "string option"
  dea_icon_url :: "string option"

record discord_embed =
  de_title :: "string option"
  de_description :: "string option"
  de_url :: "string option"
  de_color :: "u32 option"
  de_timestamp :: "datetime option"
  de_footer :: "discord_embed_footer option"
  de_author :: "discord_embed_author option"
  de_fields :: "discord_embed_field list"

datatype discord_mention_type = Roles | Users | Everyone

record discord_allowed_mentions =
  dam_parse :: "discord_mention_type list"
  dam_roles :: "string list"
  dam_users :: "string list"

definition allowed_mentions_none :: discord_allowed_mentions where
  "allowed_mentions_none = \<lparr>dam_parse = [], dam_roles = [], dam_users = []\<rparr>"

record discord_payload =
  dp_content :: "string option"
  dp_username :: "string option"
  dp_avatar_url :: "string option"
  dp_embeds :: "discord_embed list"
  dp_allowed_mentions :: "discord_allowed_mentions option"

record webhook_payload =
  wp_body :: json

section \<open>Requests, answers and the other crates\<close>

datatype request_body = JsonText json | DiscordJson discord_payload

record http_request =
  rq_url :: string
  rq_query :: "(string \<times> string) list"
  rq_headers :: "(string \<times> string) list"
  rq_body :: request_body

text \<open>An answer: its status, its headers, and what reading the body gives (\<open>None\<close>: an error).\<close>

record http_response =
  rs_status :: u16
  rs_header :: "string \<Rightarrow> string option"
  rs_bytes :: "string option"

record telegram_chat =
  tc_id :: "i64 option"

record telegram_result =
  tr_message_id :: "i64 option"
  tr_chat :: "telegram_chat option"

record telegram_error_parameters =
  tep_retry_after :: "i64 option"

record telegram_envelope =
  te_ok :: bool
  te_result :: "telegram_result option"
  te_description :: "string option"
  te_error_code :: "int option"
  te_parameters :: "telegram_error_parameters option"

record discord_message_response =
  dmr_id :: string
  dmr_channel_id :: string

record crates =
  cr_seconds :: "i64 \<Rightarrow> chrono_duration run"
  cr_milliseconds :: "i64 \<Rightarrow> chrono_duration run"
  cr_parse_from_rfc2822 :: "string \<Rightarrow> datetime option"
  cr_header_name :: "string \<Rightarrow> string option"
  cr_header_value :: "string \<Rightarrow> string option"
  cr_header_to_str :: "string \<Rightarrow> string option"
  cr_telegram_envelope :: "string \<Rightarrow> telegram_envelope option"
  cr_discord_message :: "string \<Rightarrow> discord_message_response option"
  cr_discord_rate_limit :: "string \<Rightarrow> f64 option"

record 'w net =
  net_now :: "'w \<Rightarrow> datetime \<times> 'w"
  net_send :: "http_request \<Rightarrow> 'w \<Rightarrow> http_response option \<times> 'w"

section \<open>Pieces of the standard library\<close>

definition is_digit :: "char \<Rightarrow> bool" where
  "is_digit c = (48 \<le> (of_char c :: nat) \<and> (of_char c :: nat) \<le> 57)"

definition digits_value :: "string \<Rightarrow> nat option" where
  "digits_value s =
     (if s = [] \<or> \<not> list_all is_digit s then None
      else Some (fold (\<lambda>c n. 10 * n + (of_char c - 48)) s 0))"

text \<open>\<open>str::parse\<close> for the integer types: one sign, then digits, in range.\<close>

definition parse_i64 :: "string \<Rightarrow> i64 option" where
  "parse_i64 s =
     (let v = (case s of
         CHR ''-'' # ds \<Rightarrow> map_option (\<lambda>n. - int n) (digits_value ds)
       | CHR ''+'' # ds \<Rightarrow> map_option int (digits_value ds)
       | ds \<Rightarrow> map_option int (digits_value ds))
      in case v of None \<Rightarrow> None
         | Some i \<Rightarrow> if - (2 ^ 63) \<le> i \<and> i < 2 ^ 63 then Some i else None)"

definition parse_u64 :: "string \<Rightarrow> u64 option" where
  "parse_u64 s =
     (let v = (case s of CHR ''+'' # ds \<Rightarrow> digits_value ds | ds \<Rightarrow> digits_value ds)
      in case v of None \<Rightarrow> None | Some n \<Rightarrow> if n < 2 ^ 64 then Some (of_nat n) else None)"

text \<open>\<open>str::trim\<close> on the ASCII strings a header value can be read as.\<close>

definition is_ascii_space :: "char \<Rightarrow> bool" where
  "is_ascii_space c = (let n = (of_char c :: nat) in 9 \<le> n \<and> n \<le> 13 \<or> n = 32)"

definition trim_ascii :: "string \<Rightarrow> string" where
  "trim_ascii s = rev (dropWhile is_ascii_space (rev (dropWhile is_ascii_space s)))"

definition to_ascii_lowercase :: "string \<Rightarrow> string" where
  "to_ascii_lowercase s =
     map (\<lambda>c. let n = (of_char c :: nat) in if 65 \<le> n \<and> n \<le> 90 then char_of (n + 32) else c) s"

fun str_contains :: "string \<Rightarrow> string \<Rightarrow> bool" where
  "str_contains pat [] = (pat = [])"
| "str_contains pat (c # cs) = (take (length pat) (c # cs) = pat \<or> str_contains pat cs)"

definition clamp :: "int \<Rightarrow> int \<Rightarrow> int \<Rightarrow> int" where
  "clamp lo hi x = (if x < lo then lo else if x > hi then hi else x)"

text \<open>\<open>String::from_utf8_lossy\<close>: every maximal invalid piece becomes U+FFFD, in UTF-8.\<close>

definition utf8_replacement :: string where
  "utf8_replacement = [CHR 0xEF, CHR 0xBF, CHR 0xBD]"

definition byte_in :: "nat \<Rightarrow> nat \<Rightarrow> char \<Rightarrow> bool" where
  "byte_in lo hi c = (lo \<le> (of_char c :: nat) \<and> (of_char c :: nat) \<le> hi)"

text \<open>
  How many bytes of the sequence at the front belong together, and whether they are a
  character: the decision table of the UTF-8 decoder.
\<close>

definition utf8_second_ok :: "char \<Rightarrow> char \<Rightarrow> bool" where
  "utf8_second_ok a b =
     (if byte_in 0xC2 0xDF a then byte_in 0x80 0xBF b
      else if byte_in 0xE0 0xE0 a then byte_in 0xA0 0xBF b
      else if byte_in 0xED 0xED a then byte_in 0x80 0x9F b
      else if byte_in 0xE1 0xEF a then byte_in 0x80 0xBF b
      else if byte_in 0xF0 0xF0 a then byte_in 0x90 0xBF b
      else if byte_in 0xF4 0xF4 a then byte_in 0x80 0x8F b
      else byte_in 0xF1 0xF3 a \<and> byte_in 0x80 0xBF b)"

definition utf8_width :: "char \<Rightarrow> nat" where
  "utf8_width a =
     (if byte_in 0 0x7F a then 1 else if byte_in 0xC2 0xDF a then 2
      else if byte_in 0xE0 0xEF a then 3 else if byte_in 0xF0 0xF4 a then 4 else 0)"

definition utf8_step :: "char \<Rightarrow> string \<Rightarrow> bool \<times> nat" where
  "utf8_step a rest =
     (let w = utf8_width a;
          cont = (\<lambda>i. i < length rest \<and> byte_in 0x80 0xBF (rest ! i))
      in if w = 1 then (True, 1)
         else if w = 0 \<or> rest = [] \<or> \<not> utf8_second_ok a (rest ! 0) then (False, 1)
         else if w = 2 then (True, 2)
         else if \<not> cont 1 then (False, 2)
         else if w = 3 then (True, 3)
         else if \<not> cont 2 then (False, 3)
         else (True, 4))"

function from_utf8_lossy :: "string \<Rightarrow> string" where
  "from_utf8_lossy [] = []"
| "from_utf8_lossy (a # rest) =
     (let (ok, n) = utf8_step a rest
      in (if ok then take n (a # rest) else utf8_replacement) @ from_utf8_lossy (drop (n - 1) rest))"
  by pat_completeness auto
termination
  by (relation "measure length") (auto simp: less_Suc_eq_le)

section \<open>Retry hints\<close>

text \<open>The float operations of the rate limit: comparison, product, rounding, saturating cast.\<close>

fun f64_mul_fin :: "f64 \<Rightarrow> rat \<Rightarrow> f64" where
  "f64_mul_fin (Fin a) b = f64_round (a * b)"
| "f64_mul_fin x b = (if b = 0 then NaN else if b > 0 then x else f64_neg x)"

definition round_half_away :: "rat \<Rightarrow> int" where
  "round_half_away x = (if x \<ge> 0 then \<lfloor>x + 1 / 2\<rfloor> else - \<lfloor>1 / 2 - x\<rfloor>)"

fun f64_round_to_i64 :: "f64 \<Rightarrow> i64" where
  "f64_round_to_i64 (Fin x) = clamp (- (2 ^ 63)) (2 ^ 63 - 1) (round_half_away x)"
| "f64_round_to_i64 PosInf = 2 ^ 63 - 1"
| "f64_round_to_i64 NegInf = - (2 ^ 63)"
| "f64_round_to_i64 NaN = 0"

definition sane_retry_after_seconds_f64 :: "crates \<Rightarrow> f64 \<Rightarrow> chrono_duration option run" where
  "sane_retry_after_seconds_f64 cr secs =
     (case secs of
        Fin x \<Rightarrow>
          if x < 0 then Done None
          else let bounded = min x 3600;
                   ms = f64_round_to_i64 (f64_mul_fin (Fin bounded) 1000)
               in (case cr_milliseconds cr ms of Panicked \<Rightarrow> Panicked | Done d \<Rightarrow> Done (Some d))
      | _ \<Rightarrow> Done None)"

definition MAX_SECS :: int where
  "MAX_SECS = 3600"

definition parse_retry_after_seconds ::
    "crates \<Rightarrow> 'w net \<Rightarrow> string option \<Rightarrow> 'w \<Rightarrow> chrono_duration option run \<times> 'w" where
  "parse_retry_after_seconds cr net header w =
     (let some = (\<lambda>r. case r of Panicked \<Rightarrow> Panicked | Done d \<Rightarrow> Done (Some d)) in
      case Option.bind header (cr_header_to_str cr) of
        None \<Rightarrow> (Done None, w)
      | Some raw \<Rightarrow>
          let raw = trim_ascii raw in
          (case parse_i64 raw of
             Some secs \<Rightarrow> (some (cr_seconds cr (clamp 0 MAX_SECS secs)), w)
           | None \<Rightarrow>
               (case cr_parse_from_rfc2822 cr raw of
                  Some when \<Rightarrow>
                    let (now, w) = net_now net w;
                        delta = when - now;
                        num_seconds = sgn delta * (\<bar>delta\<bar> div 1000000000)
                    in (some (cr_seconds cr (clamp 0 MAX_SECS num_seconds)), w)
                | None \<Rightarrow> (Done None, w))))"

section \<open>The senders\<close>

text \<open>The bracket of \<open>send\<close> around \<open>do_send\<close>.\<close>

definition timed_send ::
    "'w net \<Rightarrow> ('w \<Rightarrow> delivery_outcome run \<times> 'w) \<Rightarrow> 'w \<Rightarrow> delivery_receipt run \<times> 'w" where
  "timed_send net do_send w =
     (let (started_at, w) = net_now net w;
          (outcome, w) = do_send w
      in case outcome of
           Panicked \<Rightarrow> (Panicked, w)
         | Done oc \<Rightarrow>
             let (completed_at, w) = net_now net w
             in (Done \<lparr>rc_outcome = oc, rc_started_at = started_at, rc_completed_at = completed_at\<rparr>, w))"

text \<open>The header loop: the first invalid name or value ends the send.\<close>

fun webhook_headers ::
    "crates \<Rightarrow> webhook_header list \<Rightarrow> (string \<times> string) list \<Rightarrow> delivery_outcome + (string \<times> string) list" where
  "webhook_headers cr [] acc = Ok acc"
| "webhook_headers cr (h # hs) acc =
     (case cr_header_name cr (whh_name h) of
        None \<Rightarrow> Err (Permanent (BadRequest (''invalid header name: '' @ whh_name h)))
      | Some name \<Rightarrow>
          (case cr_header_value cr (whh_value h) of
             None \<Rightarrow> Err (Permanent (BadRequest (''invalid header value for '' @ whh_name h)))
           | Some v \<Rightarrow> webhook_headers cr hs (acc @ [(name, v)])))"

definition u16_str :: "u16 \<Rightarrow> string" where
  "u16_str n = nat_str (unat n)"

definition webhook_do_send ::
    "crates \<Rightarrow> 'w net \<Rightarrow> webhook_target \<Rightarrow> webhook_payload \<Rightarrow> 'w \<Rightarrow> delivery_outcome run \<times> 'w" where
  "webhook_do_send cr net target payload w =
     (case webhook_headers cr (wh_headers target) [(''Content-Type'', ''application/json'')] of
        Err oc \<Rightarrow> (Done oc, w)
      | Ok headers \<Rightarrow>
          (case net_send net \<lparr>rq_url = wh_url target, rq_query = [], rq_headers = headers,
                  rq_body = JsonText (wp_body payload)\<rparr> w of
             (None, w) \<Rightarrow> (Done (Transient Network None), w)
           | (Some response, w) \<Rightarrow>
               let status = rs_status response in
               if 200 \<le> status \<and> status \<le> 299 then (Done (Delivered None), w)
               else if status = 401 \<or> status = 403 then (Done (Permanent AuthFailure), w)
               else if status = 410 then (Done (Permanent DestinationGone), w)
               else if status = 429 then
                 (case parse_retry_after_seconds cr net (rs_header response ''retry-after'') w of
                    (Panicked, w) \<Rightarrow> (Panicked, w)
                  | (Done retry_after, w) \<Rightarrow> (Done (Transient RateLimited retry_after), w))
               else if 400 \<le> status \<and> status \<le> 499 then
                 (Done (Permanent (BadRequest (''HTTP '' @ u16_str status))), w)
               else if 500 \<le> status \<and> status \<le> 599 then (Done (Transient (Upstream5xx status) None), w)
               else (Done (Transient (UnknownTransient (''unexpected status '' @ u16_str status)) None), w)))"

definition webhook_send ::
    "crates \<Rightarrow> 'w net \<Rightarrow> webhook_target \<Rightarrow> webhook_payload \<Rightarrow> 'w \<Rightarrow> delivery_receipt run \<times> 'w" where
  "webhook_send cr net target payload = timed_send net (webhook_do_send cr net target payload)"

record telegram_sender =
  ts_bot_token :: secret_string
  ts_base_url :: string

definition telegram_sender_new :: "secret_string \<Rightarrow> telegram_sender" where
  "telegram_sender_new bot_token =
     \<lparr>ts_bot_token = bot_token, ts_base_url = ''https://api.telegram.org''\<rparr>"

definition with_base_url :: "string \<Rightarrow> telegram_sender \<Rightarrow> telegram_sender" where
  "with_base_url base_url sender = sender\<lparr>ts_base_url := base_url\<rparr>"

definition looks_like_auth_failure :: "string \<Rightarrow> bool" where
  "looks_like_auth_failure description =
     (let lower = to_ascii_lowercase description
      in str_contains ''unauthorized'' lower \<or> str_contains ''invalid token'' lower)"

definition telegram_body :: "telegram_target \<Rightarrow> telegram_payload \<Rightarrow> json" where
  "telegram_body target payload = JObject
     ([(''chat_id'', JInt (case tg_chat_id target of TelegramChatId c \<Rightarrow> c)),
       (''text'', JString (tp_text payload))] @
      (if tp_parse_mode payload = Html then [(''parse_mode'', JString ''HTML'')] else []) @
      (case tp_disable_notification payload of None \<Rightarrow> []
       | Some silent \<Rightarrow> [(''disable_notification'', JBool silent)]) @
      (case tp_reply_to_message_id payload of None \<Rightarrow> []
       | Some reply \<Rightarrow> [(''reply_to_message_id'', JInt reply)]))"

definition telegram_request :: "telegram_sender \<Rightarrow> telegram_target \<Rightarrow> telegram_payload \<Rightarrow> http_request" where
  "telegram_request sender target payload =
     \<lparr>rq_url = ts_base_url sender @ ''/bot'' @ ts_bot_token sender @ ''/sendMessage'', rq_query = [],
      rq_headers = [(''Content-Type'', ''application/json'')],
      rq_body = JsonText (telegram_body target payload)\<rparr>"

definition telegram_success :: "telegram_target \<Rightarrow> telegram_envelope \<Rightarrow> delivery_outcome" where
  "telegram_success target envelope =
     (case Option.bind (te_result envelope) tr_message_id of
        None \<Rightarrow> Transient (UnknownTransient ''ok:true but no result.message_id'') None
      | Some message_id \<Rightarrow>
          let chat_id_returned = Option.bind (Option.bind (te_result envelope) tr_chat) tc_id
          in Delivered (Some (TelegramMessage
               (case chat_id_returned of Some c \<Rightarrow> TelegramChatId c | None \<Rightarrow> tg_chat_id target) message_id)))"

text \<open>The logical errors; \<open>retry_after\<close> is built before the code is looked at.\<close>

definition telegram_failure :: "crates \<Rightarrow> telegram_envelope \<Rightarrow> delivery_outcome run" where
  "telegram_failure cr envelope =
     (let detail = (case te_description envelope of Some d \<Rightarrow> d | None \<Rightarrow> []) in
      case (case Option.bind (te_parameters envelope) tep_retry_after of
              None \<Rightarrow> Done None
            | Some s \<Rightarrow> (case cr_seconds cr s of Panicked \<Rightarrow> Panicked | Done d \<Rightarrow> Done (Some d))) of
        Panicked \<Rightarrow> Panicked
      | Done retry_after \<Rightarrow> Done
          (case te_error_code envelope of
             None \<Rightarrow> Transient (UnknownTransient detail) retry_after
           | Some code \<Rightarrow>
               if code = 429 then Transient RateLimited retry_after
               else if code = 401 then Permanent AuthFailure
               else if code = 403 \<and> looks_like_auth_failure detail then Permanent AuthFailure
               else if code = 403 then Permanent DestinationGone
               else if 400 \<le> code \<and> code < 500 then
                 Permanent (BadRequest (''['' @ int_str code @ ''] '' @ detail))
               else if 500 \<le> code \<and> code < 600 then Transient (Upstream5xx (of_int code)) None
               else Transient (UnknownTransient detail) retry_after))"

definition telegram_do_send ::
    "crates \<Rightarrow> 'w net \<Rightarrow> telegram_sender \<Rightarrow> telegram_target \<Rightarrow> telegram_payload \<Rightarrow> 'w \<Rightarrow>
     delivery_outcome run \<times> 'w" where
  "telegram_do_send cr net sender target payload w =
     (case net_send net (telegram_request sender target payload) w of
        (None, w) \<Rightarrow> (Done (Transient Network None), w)
      | (Some response, w) \<Rightarrow>
          (case rs_bytes response of
             None \<Rightarrow> (Done (Transient Network None), w)
           | Some body_bytes \<Rightarrow>
               let http_status = rs_status response in
               if 500 \<le> http_status \<and> http_status \<le> 599 then
                 (Done (Transient (Upstream5xx http_status) None), w)
               else (case cr_telegram_envelope cr body_bytes of
                       None \<Rightarrow> (Done (Transient (UnknownTransient
                          (''non-JSON response, HTTP '' @ u16_str http_status)) None), w)
                     | Some envelope \<Rightarrow>
                         (if te_ok envelope then Done (telegram_success target envelope)
                          else telegram_failure cr envelope, w))))"

definition telegram_send ::
    "crates \<Rightarrow> 'w net \<Rightarrow> telegram_sender \<Rightarrow> telegram_target \<Rightarrow> telegram_payload \<Rightarrow> 'w \<Rightarrow>
     delivery_receipt run \<times> 'w" where
  "telegram_send cr net sender target payload = timed_send net (telegram_do_send cr net sender target payload)"

definition discord_external_ref :: "discord_message_response \<Rightarrow> external_message_ref option" where
  "discord_external_ref m =
     (case parse_u64 (dmr_id m) of
        None \<Rightarrow> None
      | Some mid \<Rightarrow>
          (case parse_u64 (dmr_channel_id m) of
             None \<Rightarrow> None
           | Some cid \<Rightarrow> Some (DiscordMessage (DiscordChannelId cid) mid)))"

definition discord_do_send ::
    "crates \<Rightarrow> 'w net \<Rightarrow> discord_target \<Rightarrow> discord_payload \<Rightarrow> 'w \<Rightarrow> delivery_outcome run \<times> 'w" where
  "discord_do_send cr net target payload w =
     (let query = (''wait'', ''true'') #
            (case dc_thread_id target of
               Some (DiscordThreadId t) \<Rightarrow> [(''thread_id'', nat_str (unat t))]
             | None \<Rightarrow> [])
      in case net_send net \<lparr>rq_url = dc_webhook_url target, rq_query = query, rq_headers = [],
              rq_body = DiscordJson payload\<rparr> w of
           (None, w) \<Rightarrow> (Done (Transient Network None), w)
         | (Some response, w) \<Rightarrow>
             let status_code = rs_status response;
                 body_bytes = (case rs_bytes response of Some b \<Rightarrow> b | None \<Rightarrow> [])
             in (if 200 \<le> status_code \<and> status_code \<le> 299 then
                   (case Option.bind (cr_discord_message cr body_bytes) discord_external_ref of
                      Some external_ref \<Rightarrow> Done (Delivered (Some external_ref))
                    | None \<Rightarrow> Done (Transient (UnknownTransient
                        (''HTTP '' @ u16_str status_code @ '' but body is not a Discord message envelope (got '' @
                         nat_str (length body_bytes) @ '' bytes)'')) None))
                 else if status_code = 401 \<or> status_code = 403 then Done (Permanent AuthFailure)
                 else if status_code = 404 \<or> status_code = 410 then Done (Permanent DestinationGone)
                 else if status_code = 429 then
                   (case cr_discord_rate_limit cr body_bytes of
                      None \<Rightarrow> Done (Transient RateLimited None)
                    | Some secs \<Rightarrow>
                        (case sane_retry_after_seconds_f64 cr secs of
                           Panicked \<Rightarrow> Panicked
                         | Done retry_after \<Rightarrow> Done (Transient RateLimited retry_after)))
                 else if 400 \<le> status_code \<and> status_code \<le> 499 then
                   Done (Permanent (BadRequest
                     (''HTTP '' @ u16_str status_code @ '': '' @ from_utf8_lossy body_bytes)))
                 else if 500 \<le> status_code \<and> status_code \<le> 599 then
                   Done (Transient (Upstream5xx status_code) None)
                 else Done (Transient (UnknownTransient (''unexpected status '' @ u16_str status_code)) None), w))"

definition discord_send ::
    "crates \<Rightarrow> 'w net \<Rightarrow> discord_target \<Rightarrow> discord_payload \<Rightarrow> 'w \<Rightarrow> delivery_receipt run \<times> 'w" where
  "discord_send cr net target payload = timed_send net (discord_do_send cr net target payload)"

section \<open>Properties\<close>

text \<open>
  What the documentation of \<open>chrono\<close> says of the two constructors: exact in range, a
  panic out of range (\<open>i64::MAX / 1000\<close> seconds either way).
\<close>

definition chrono_ok :: "crates \<Rightarrow> bool" where
  "chrono_ok cr \<longleftrightarrow>
     (\<forall>s. cr_seconds cr s = (if \<bar>s\<bar> \<le> 9223372036854775 then Done (s * 1000000000) else Panicked)) \<and>
     (\<forall>ms. \<bar>ms\<bar> \<le> 2 ^ 63 - 1 \<longrightarrow> cr_milliseconds cr ms = Done (ms * 1000000))"

definition hint_ok :: "chrono_duration option \<Rightarrow> bool" where
  "hint_ok hint = (case hint of None \<Rightarrow> True | Some d \<Rightarrow> 0 \<le> d \<and> d \<le> 3600 * 1000000000)"

lemma clamp_bounds: "lo \<le> hi \<Longrightarrow> lo \<le> clamp lo hi x \<and> clamp lo hi x \<le> hi"
  by (simp add: clamp_def)

lemma seconds_clamped:
  assumes "chrono_ok cr"
  shows "\<exists>d. cr_seconds cr (clamp 0 MAX_SECS s) = Done d \<and> hint_ok (Some d)"
proof -
  have "0 \<le> clamp 0 MAX_SECS s \<and> clamp 0 MAX_SECS s \<le> 3600"
    using clamp_bounds [of 0 MAX_SECS s] by (simp add: MAX_SECS_def)
  then show ?thesis
    using assms by (simp add: chrono_ok_def hint_ok_def)
qed

lemma sane_retry_after_bounded:
  assumes "chrono_ok cr"
  shows "\<exists>h. sane_retry_after_seconds_f64 cr secs = Done h \<and> hint_ok h"
proof -
  have fin: "\<exists>h. sane_retry_after_seconds_f64 cr (Fin x) = Done h \<and> hint_ok h" for x
  proof (cases "x < 0")
    case False
    have "\<exists>r. f64_round (min x 3600 * 1000) = Fin r \<and> 0 \<le> r \<and> r \<le> of_int 3600000"
      using False by (intro f64_round_bounded) auto
    then obtain r where r: "f64_round (min x 3600 * 1000) = Fin r" "0 \<le> r" "r \<le> 3600000"
      by auto
    have "0 \<le> round_half_away r \<and> round_half_away r \<le> 3600000"
      using r by (auto simp: round_half_away_def floor_le_iff)
    then obtain k where k: "f64_round_to_i64 (Fin r) = k" "0 \<le> k" "k \<le> 3600000"
      by (simp add: clamp_def)
    have "sane_retry_after_seconds_f64 cr (Fin x) =
        (case cr_milliseconds cr k of Panicked \<Rightarrow> Panicked | Done d \<Rightarrow> Done (Some d))"
      using False r(1) k(1) by (simp add: sane_retry_after_seconds_f64_def del: f64_round_to_i64.simps)
    with k(2,3) assms show ?thesis
      by (simp add: chrono_ok_def hint_ok_def)
  qed (simp add: sane_retry_after_seconds_f64_def hint_ok_def)
  then show ?thesis
    by (cases secs) (auto simp: sane_retry_after_seconds_f64_def hint_ok_def)
qed

lemma parse_retry_after_bounded:
  assumes "chrono_ok cr"
  shows "\<exists>h w'. parse_retry_after_seconds cr net header w = (Done h, w') \<and> hint_ok h"
proof -
  have none: "hint_ok None" by (simp add: hint_ok_def)
  obtain d where d: "\<And>s. cr_seconds cr (clamp 0 MAX_SECS s) = Done (d s)" "\<And>s. hint_ok (Some (d s))"
    using seconds_clamped [OF assms] by metis
  show ?thesis
    by (auto simp: parse_retry_after_seconds_def Let_def none d split: option.splits prod.splits)
qed

text \<open>A send that does not panic, and whose hint is bounded.\<close>

definition hinted :: "delivery_outcome run \<times> 'w \<Rightarrow> bool" where
  "hinted r \<longleftrightarrow> (\<exists>oc w. r = (Done oc, w) \<and>
     (\<forall>e h. oc = Transient e h \<longrightarrow> hint_ok h \<and> (h \<noteq> None \<longrightarrow> e = RateLimited)))"

lemma hinted_simps:
  "hinted (Done (Delivered r), w)" "hinted (Done (Permanent p), w)" "hinted (Done (Transient e None), w)"
  "hint_ok h \<Longrightarrow> hinted (Done (Transient RateLimited h), w)"
  by (simp_all add: hinted_def hint_ok_def)

lemma hinted_if:
  "hinted a \<Longrightarrow> hinted b \<Longrightarrow> hinted (if c then a else b)"
  "hinted (x, w) \<Longrightarrow> hinted (y, w) \<Longrightarrow> hinted (if c then x else y, w)"
  by simp_all

lemmas hintedI = hinted_if hinted_simps(1-3)

lemma webhook_headers_Err: "webhook_headers cr hs acc = Err oc \<Longrightarrow> \<exists>p. oc = Permanent p"
  by (induction cr hs acc rule: webhook_headers.induct) (auto split: option.splits)

lemma webhook_hinted:
  assumes "chrono_ok cr"
  shows "hinted (webhook_do_send cr net target payload w)"
proof (cases "webhook_headers cr (wh_headers target) [(''Content-Type'', ''application/json'')]")
  case (Inl oc)
  then show ?thesis
    using webhook_headers_Err [OF Inl] by (auto simp: webhook_do_send_def hinted_simps)
next
  case (Inr headers)
  have limit: "hinted (case parse_retry_after_seconds cr net header w of
      (Panicked, w) \<Rightarrow> (Panicked, w) | (Done h, w) \<Rightarrow> (Done (Transient RateLimited h), w))" for header w
    using parse_retry_after_bounded [OF assms, of net header w] by (auto simp: hinted_simps)
  show ?thesis
    unfolding webhook_do_send_def Let_def Inr sum.case
    by (split prod.split, intro allI impI, split option.split, intro allI impI conjI hintedI limit)
qed

lemma discord_hinted:
  assumes "chrono_ok cr"
  shows "hinted (discord_do_send cr net target payload w)"
proof -
  have limit: "hinted (case sane_retry_after_seconds_f64 cr secs of
      Panicked \<Rightarrow> Panicked | Done h \<Rightarrow> Done (Transient RateLimited h), w)" for secs w
    using sane_retry_after_bounded [OF assms, of secs] by (auto simp: hinted_simps)
  show ?thesis
    unfolding discord_do_send_def Let_def
    by (split prod.split, intro allI impI, split option.split, intro allI impI conjI hintedI;
      (rule hintedI limit | (split option.split, intro allI impI conjI))+)
qed

text \<open>C36. The retry hint of a webhook or of Discord is between zero and one hour.
  Whatever the answer holds, a not-a-number, a negative or a huge value or a date far
  away, neither sender panics, and a hint they report never schedules a retry in the
  past or more than an hour ahead; only a rate limit carries a hint.\<close>

theorem retry_hint_bounded:
  assumes "chrono_ok cr"
  shows "(\<exists>oc w'. webhook_do_send cr net wt wp w = (Done oc, w') \<and>
      (\<forall>e h. oc = Transient e h \<longrightarrow> hint_ok h \<and> (h \<noteq> None \<longrightarrow> e = RateLimited))) \<and>
    (\<exists>oc w'. discord_do_send cr net dt dp w = (Done oc, w') \<and>
      (\<forall>e h. oc = Transient e h \<longrightarrow> hint_ok h \<and> (h \<noteq> None \<longrightarrow> e = RateLimited)))"
  using webhook_hinted [OF assms, of net wt wp w] discord_hinted [OF assms, of net dt dp w]
  unfolding hinted_def by blast

definition sample_crates :: crates where
  "sample_crates =
     \<lparr>cr_seconds = (\<lambda>s. if \<bar>s\<bar> \<le> 9223372036854775 then Done (s * 1000000000) else Panicked),
      cr_milliseconds = (\<lambda>ms. Done (ms * 1000000)), cr_parse_from_rfc2822 = (\<lambda>_. None),
      cr_header_name = Some, cr_header_value = Some, cr_header_to_str = Some,
      cr_telegram_envelope = (\<lambda>b. Some \<lparr>te_ok = False, te_result = None, te_description = None,
        te_error_code = Some 429, te_parameters = Some \<lparr>tep_retry_after = parse_i64 b\<rparr>\<rparr>),
      cr_discord_message = (\<lambda>_. None), cr_discord_rate_limit = (\<lambda>_. Some (Fin 1000000))\<rparr>"

text \<open>A network that always answers with one response; the world is the clock.\<close>

definition sample_net :: "http_response \<Rightarrow> int net" where
  "sample_net response = \<lparr>net_now = (\<lambda>t. (t, t + 1)), net_send = (\<lambda>_ t. (Some response, t + 1))\<rparr>"

definition sample_response :: "u16 \<Rightarrow> string \<Rightarrow> http_response" where
  "sample_response status body =
     \<lparr>rs_status = status, rs_header = (\<lambda>_. Some '' 999999999 ''), rs_bytes = Some body\<rparr>"

lemma sample_chrono_ok: "chrono_ok sample_crates"
  by (simp add: chrono_ok_def sample_crates_def)

definition sample_webhook :: webhook_target where
  "sample_webhook = \<lparr>wh_url = ''https://h/x'', wh_method = Post, wh_headers = []\<rparr>"

definition sample_discord :: discord_target where
  "sample_discord = \<lparr>dc_webhook_url = ''https://d/x'', dc_thread_id = None, dc_username_override = None,
     dc_avatar_url_override = None\<rparr>"

definition sample_discord_payload :: discord_payload where
  "sample_discord_payload = \<lparr>dp_content = None, dp_username = None, dp_avatar_url = None, dp_embeds = [],
     dp_allowed_mentions = None\<rparr>"

lemma sample_parse:
  "parse_i64 ''999999999'' = Some 999999999" "parse_i64 ''9223372036854776'' = Some 9223372036854776"
  by (simp_all add: parse_i64_def digits_value_def is_digit_def)

theorem retry_hint_bounded_witness:
  "webhook_do_send sample_crates (sample_net (sample_response 429 [])) sample_webhook
     \<lparr>wp_body = JNull\<rparr> 0 = (Done (Transient RateLimited (Some 3600000000000)), 1) \<and>
   hint_ok (Some 3600000000000)"
proof -
  have r: "webhook_do_send sample_crates (sample_net (sample_response 429 [])) sample_webhook
     \<lparr>wp_body = JNull\<rparr> 0 = (Done (Transient RateLimited (Some 3600000000000)), 1)"
    by (simp add: webhook_do_send_def sample_crates_def sample_net_def sample_response_def sample_webhook_def
        parse_retry_after_seconds_def trim_ascii_def is_ascii_space_def sample_parse clamp_def MAX_SECS_def)
  with retry_hint_bounded [OF sample_chrono_ok, of "sample_net (sample_response 429 [])" sample_webhook
      "\<lparr>wp_body = JNull\<rparr>" 0 sample_discord sample_discord_payload]
  show ?thesis by auto
qed

text \<open>C37. The Telegram sender panics exactly on a retry hint out of range.
  An error answer whose \<open>parameters.retry_after\<close> is beyond what a duration can hold,
  whatever its error code, ends the task that sends; no other answer does.\<close>

theorem telegram_panics_iff:
  assumes "chrono_ok cr"
  shows "telegram_do_send cr net sender target payload w = (Panicked, w') \<longleftrightarrow>
    (\<exists>response body envelope s.
       net_send net (telegram_request sender target payload) w = (Some response, w') \<and>
       rs_bytes response = Some body \<and> \<not> (500 \<le> rs_status response \<and> rs_status response \<le> 599) \<and>
       cr_telegram_envelope cr body = Some envelope \<and> \<not> te_ok envelope \<and>
       Option.bind (te_parameters envelope) tep_retry_after = Some s \<and> 9223372036854775 < \<bar>s\<bar>)"
proof -
  have fail: "telegram_failure cr envelope = Panicked \<longleftrightarrow>
      (\<exists>s. Option.bind (te_parameters envelope) tep_retry_after = Some s \<and> 9223372036854775 < \<bar>s\<bar>)" for envelope
  proof (cases "Option.bind (te_parameters envelope) tep_retry_after")
    case None
    then show ?thesis by (simp add: telegram_failure_def Let_def)
  next
    case (Some s)
    with assms show ?thesis
      by (cases "\<bar>s\<bar> \<le> 9223372036854775") (simp_all add: telegram_failure_def Let_def chrono_ok_def)
  qed
  obtain resp w1 where sent: "net_send net (telegram_request sender target payload) w = (resp, w1)"
    by (cases "net_send net (telegram_request sender target payload) w")
  show ?thesis
  proof (cases resp)
    case None
    with sent show ?thesis by (simp add: telegram_do_send_def)
  next
    case (Some response)
    note resp = this
    show ?thesis
    proof (cases "rs_bytes response")
      case None
      with sent resp show ?thesis by (simp add: telegram_do_send_def)
    next
      case (Some body)
      note read = this
      show ?thesis
      proof (cases "cr_telegram_envelope cr body")
        case None
        with sent resp read show ?thesis by (simp add: telegram_do_send_def Let_def)
      next
        case (Some envelope)
        with sent resp read fail show ?thesis
          by (cases "te_ok envelope") (auto simp: telegram_do_send_def Let_def split: if_splits)
      qed
    qed
  qed
qed

definition sample_telegram :: telegram_target where
  "sample_telegram = \<lparr>tg_chat_id = TelegramChatId (- 100), tg_parse_mode = Html\<rparr>"

definition sample_telegram_payload :: telegram_payload where
  "sample_telegram_payload = \<lparr>tp_text = ''t'', tp_parse_mode = Html, tp_disable_notification = None,
     tp_reply_to_message_id = None, tp_reply_markup = None\<rparr>"

theorem telegram_panics_iff_witness:
  "telegram_do_send sample_crates (sample_net (sample_response 429 ''9223372036854776''))
     (telegram_sender_new ''tok'') sample_telegram sample_telegram_payload 0 = (Panicked, 1)"
  by (intro telegram_panics_iff [OF sample_chrono_ok, THEN iffD2]
        exI [of _ "sample_response 429 ''9223372036854776''"] exI [of _ "''9223372036854776''"]
        exI [of _ "the (cr_telegram_envelope sample_crates ''9223372036854776'')"] exI [of _ 9223372036854776])
    (simp_all add: sample_net_def sample_response_def sample_crates_def sample_parse)

text \<open>What is not reported as delivered, by the shape of the code.\<close>

definition undelivered :: "delivery_outcome run \<times> 'w \<Rightarrow> bool" where
  "undelivered r \<longleftrightarrow> (\<forall>ref w. r \<noteq> (Done (Delivered ref), w))"

lemma undelivered_simps:
  "undelivered (Panicked, w)" "undelivered (Done (Permanent p), w)" "undelivered (Done (Transient e h), w)"
  "undelivered a \<Longrightarrow> undelivered b \<Longrightarrow> undelivered (if c then a else b)"
  "undelivered (x, w) \<Longrightarrow> undelivered (y, w) \<Longrightarrow> undelivered (if c then x else y, w)"
  by (auto simp: undelivered_def)

lemma undelivered_cases:
  "(\<And>v w'. undelivered (f v w')) \<Longrightarrow> undelivered (case r of (v, w') \<Rightarrow> f v w')"
  "undelivered a \<Longrightarrow> (\<And>h. undelivered (g h)) \<Longrightarrow> undelivered (case x of Panicked \<Rightarrow> a | Done h \<Rightarrow> g h)"
  "undelivered (k, w) \<Longrightarrow> (\<And>h. undelivered (l h, w)) \<Longrightarrow> undelivered (case y of Panicked \<Rightarrow> k | Done h \<Rightarrow> l h, w)"
  "undelivered (k, w) \<Longrightarrow> (\<And>h. undelivered (m h, w)) \<Longrightarrow> undelivered (case z of None \<Rightarrow> k | Some h \<Rightarrow> m h, w)"
  by (auto split: prod.splits run.splits option.splits)

lemma webhook_delivered:
  assumes "webhook_do_send cr net target payload w = (Done (Delivered ref), w')"
  shows "ref = None \<and> (\<exists>rq response. net_send net rq w = (Some response, w') \<and> rq_url rq = wh_url target \<and>
    rq_body rq = JsonText (wp_body payload) \<and> 200 \<le> rs_status response \<and> rs_status response \<le> 299)"
proof (cases "webhook_headers cr (wh_headers target) [(''Content-Type'', ''application/json'')]")
  case (Inl oc)
  then show ?thesis
    using webhook_headers_Err [OF Inl] assms by (auto simp: webhook_do_send_def)
next
  case (Inr headers)
  let ?rq = "\<lparr>rq_url = wh_url target, rq_query = [], rq_headers = headers, rq_body = JsonText (wp_body payload)\<rparr>"
  obtain resp w1 where sent: "net_send net ?rq w = (resp, w1)"
    by (cases "net_send net ?rq w")
  show ?thesis
  proof (cases resp)
    case None
    with assms Inr sent show ?thesis by (simp add: webhook_do_send_def)
  next
    case (Some response)
    note eq = assms [unfolded webhook_do_send_def Let_def Inr sum.case sent Some prod.case option.case]
    have ok: "200 \<le> rs_status response \<and> rs_status response \<le> 299"
    proof (rule ccontr)
      assume no: "\<not> (200 \<le> rs_status response \<and> rs_status response \<le> 299)"
      note eq' = eq [unfolded if_not_P [OF no]]
      have "undelivered (Done (Delivered ref), w')"
        unfolding eq' [symmetric] by (intro undelivered_simps undelivered_cases)
      then show False by (simp add: undelivered_def)
    qed
    then have "(Done (Delivered None), w1) = (Done (Delivered ref), w')"
      using eq by (simp only: if_P simp_thms)
    with ok sent Some show ?thesis
      by (intro conjI exI [of _ ?rq] exI [of _ response]) auto
  qed
qed

lemma telegram_delivered:
  assumes "telegram_do_send cr net sender target payload w = (Done (Delivered ref), w')"
  shows "\<exists>response body envelope result message_id chat_id.
    net_send net (telegram_request sender target payload) w = (Some response, w') \<and>
    rs_bytes response = Some body \<and> cr_telegram_envelope cr body = Some envelope \<and> te_ok envelope \<and>
    te_result envelope = Some result \<and> tr_message_id result = Some message_id \<and>
    ref = Some (TelegramMessage chat_id message_id)"
proof -
  obtain resp w1 where sent: "net_send net (telegram_request sender target payload) w = (resp, w1)"
    by (cases "net_send net (telegram_request sender target payload) w")
  obtain response where resp: "resp = Some response"
    using assms sent by (cases resp) (simp_all add: telegram_do_send_def)
  obtain body where body: "rs_bytes response = Some body"
    using assms sent resp by (cases "rs_bytes response") (simp_all add: telegram_do_send_def)
  note eq = assms [unfolded telegram_do_send_def Let_def sent resp body prod.case option.case]
  have status: "\<not> (500 \<le> rs_status response \<and> rs_status response \<le> 599)"
    using eq by (auto simp only: if_P prod.inject run.inject delivery_outcome.distinct)
  note eq' = eq [unfolded if_not_P [OF status]]
  obtain envelope where envelope: "cr_telegram_envelope cr body = Some envelope"
    using eq' by (cases "cr_telegram_envelope cr body") simp_all
  have "telegram_failure cr envelope \<noteq> Done (Delivered ref)"
    by (simp add: telegram_failure_def Let_def split: run.split option.split)
  then have "te_ok envelope" "telegram_success target envelope = Delivered ref" "w1 = w'"
    using eq' envelope by (auto split: if_splits)
  then show ?thesis
    using sent resp body envelope
    by (auto simp: telegram_success_def Let_def bind_eq_Some_conv split: option.splits)
qed

lemma discord_delivered:
  assumes "discord_do_send cr net target payload w = (Done (Delivered ref), w')"
  shows "\<exists>rq response body m channel_id message_id.
    net_send net rq w = (Some response, w') \<and> rq_url rq = dc_webhook_url target \<and> rq_body rq = DiscordJson payload \<and>
    200 \<le> rs_status response \<and> rs_status response \<le> 299 \<and> cr_discord_message cr body = Some m \<and>
    parse_u64 (dmr_channel_id m) = Some channel_id \<and> parse_u64 (dmr_id m) = Some message_id \<and>
    ref = Some (DiscordMessage (DiscordChannelId channel_id) message_id)"
proof -
  let ?rq = "\<lparr>rq_url = dc_webhook_url target, rq_query = (''wait'', ''true'') #
      (case dc_thread_id target of Some (DiscordThreadId t) \<Rightarrow> [(''thread_id'', nat_str (unat t))] | None \<Rightarrow> []),
      rq_headers = [], rq_body = DiscordJson payload\<rparr>"
  obtain resp w1 where sent: "net_send net ?rq w = (resp, w1)"
    by (cases "net_send net ?rq w")
  obtain response where resp: "resp = Some response"
    using assms sent by (cases resp) (simp_all add: discord_do_send_def Let_def)
  let ?body = "case rs_bytes response of Some b \<Rightarrow> b | None \<Rightarrow> []"
  note eq = assms [unfolded discord_do_send_def Let_def sent resp prod.case option.case]
  have ok: "200 \<le> rs_status response \<and> rs_status response \<le> 299"
  proof (rule ccontr)
    assume no: "\<not> (200 \<le> rs_status response \<and> rs_status response \<le> 299)"
    note eq' = eq [unfolded if_not_P [OF no]]
    have "undelivered (Done (Delivered ref), w')"
      unfolding eq' [symmetric] by (intro undelivered_simps undelivered_cases)
    then show False by (simp add: undelivered_def)
  qed
  note eq' = eq [unfolded if_P [OF ok]]
  show ?thesis
  proof (cases "Option.bind (cr_discord_message cr ?body) discord_external_ref")
    case None
    with eq' show ?thesis by simp
  next
    case (Some external_ref)
    with eq' have "ref = Some external_ref" "w1 = w'" by simp_all
    with Some obtain m where m: "cr_discord_message cr ?body = Some m" "discord_external_ref m = ref"
      by (auto simp: bind_eq_Some_conv)
    then obtain channel_id message_id where "parse_u64 (dmr_channel_id m) = Some channel_id"
        "parse_u64 (dmr_id m) = Some message_id" "ref = Some (DiscordMessage (DiscordChannelId channel_id) message_id)"
      using \<open>ref = Some external_ref\<close> by (auto simp: discord_external_ref_def split: option.splits)
    with m ok sent resp \<open>w1 = w'\<close> show ?thesis
      by (intro exI [of _ ?rq] exI [of _ response] exI [of _ ?body] exI [of _ m] exI [of _ channel_id]
          exI [of _ message_id]) simp
  qed
qed



end
