(* ===== verification/Notification_Worker.thy ===== *)
theory Notification_Worker
  imports Storage_Memory Senders
begin

text \<open>
  The notification worker (\<open>runtime/notification_worker.rs\<close>): routing a message to the
  sender of its target, and completing the pending row of each attempt. The HTTP
  client and the clock act on a world (theory \<open>Senders\<close>); \<open>to_rfc3339\<close> is code of the
  \<open>chrono\<close> crate, an argument. A panic of a sender ends the worker's task.
\<close>

section \<open>Dispatching\<close>

record notification_dispatch =
  nd_event :: incident_lifecycle_event
  nd_message :: notification_message
  nd_attempts :: "notification_attempt_id list"
  nd_targets :: "(notification_attempt_id \<times> notification_target) list"

text \<open>The webhook and Discord senders hold nothing but the HTTP client.\<close>

record notifier_senders =
  ns_telegram :: "telegram_sender option"
  ns_discord :: bool

definition not_configured_receipt :: "'w net \<Rightarrow> datetime \<Rightarrow> 'w \<Rightarrow> delivery_receipt run \<times> 'w" where
  "not_configured_receipt net started_at w =
     (let (completed_at, w) = net_now net w
      in (Done \<lparr>rc_outcome = Permanent NotConfigured, rc_started_at = started_at,
            rc_completed_at = completed_at\<rparr>, w))"

definition senders_dispatch ::
    "crates \<Rightarrow> (datetime \<Rightarrow> string) \<Rightarrow> 'w net \<Rightarrow> notifier_senders \<Rightarrow> notification_message \<Rightarrow>
     notification_target \<Rightarrow> 'w \<Rightarrow> delivery_receipt run \<times> 'w" where
  "senders_dispatch cr to_rfc3339 net senders message target w =
     (let (started_at, w) = net_now net w in
      case target of
        Webhook t \<Rightarrow>
          webhook_send cr net t \<lparr>wp_body = JObject
            [(''title'', JString (msg_title message)),
             (''summary'', JString (msg_summary message)),
             (''affected_component'', json_option (msg_affected_component message)),
             (''diagnostic_summary'', json_option (msg_diagnostic_summary message)),
             (''occurred_at'', JString (to_rfc3339 (msg_occurred_at message)))]\<rparr> w
      | Telegram t \<Rightarrow>
          (case ns_telegram senders of
             None \<Rightarrow> not_configured_receipt net started_at w
           | Some sender \<Rightarrow>
               telegram_send cr net sender t
                 \<lparr>tp_text = msg_title message @ [CHR 0x0A, CHR 0x0A] @ msg_summary message,
                  tp_parse_mode = tg_parse_mode t, tp_disable_notification = None,
                  tp_reply_to_message_id = None, tp_reply_markup = None\<rparr> w)
      | Discord t \<Rightarrow>
          if \<not> ns_discord senders then not_configured_receipt net started_at w
          else discord_send cr net t
                 \<lparr>dp_content = Some (''**'' @ msg_title message @ ''**'' @ [CHR 0x0A] @ msg_summary message),
                  dp_username = None, dp_avatar_url = None, dp_embeds = [], dp_allowed_mentions = None\<rparr> w
      | Stdout \<Rightarrow>
          let (completed_at, w) = net_now net w
          in (Done \<lparr>rc_outcome = Delivered None, rc_started_at = started_at,
                rc_completed_at = completed_at\<rparr>, w))"

text \<open>The operation of the attempts repository the worker calls.\<close>

type_synonym 'w complete_op =
  "notification_attempt_id \<Rightarrow> delivery_receipt \<Rightarrow> datetime option \<Rightarrow> 'w \<Rightarrow> (attempt_repo_error + unit) \<times> 'w"

text \<open>The loop of \<open>process_dispatch\<close>; an error of the repository is logged and passed over.\<close>

fun process_targets ::
    "(notification_target \<Rightarrow> 'w \<Rightarrow> delivery_receipt run \<times> 'w) \<Rightarrow> 'w complete_op \<Rightarrow>
     (notification_attempt_id \<times> notification_target) list \<Rightarrow> 'w \<Rightarrow> unit run \<times> 'w" where
  "process_targets send compl [] w = (Done (), w)"
| "process_targets send compl ((attempt_id, target) # rest) w =
     (case send target w of
        (Panicked, w) \<Rightarrow> (Panicked, w)
      | (Done receipt, w) \<Rightarrow>
          let (_, w) = compl attempt_id receipt None w
          in process_targets send compl rest w)"

definition process_dispatch ::
    "crates \<Rightarrow> (datetime \<Rightarrow> string) \<Rightarrow> 'w net \<Rightarrow> notifier_senders \<Rightarrow> 'w complete_op \<Rightarrow>
     notification_dispatch \<Rightarrow> 'w \<Rightarrow> unit run \<times> 'w" where
  "process_dispatch cr to_rfc3339 net senders compl dispatch w =
     process_targets (senders_dispatch cr to_rfc3339 net senders (nd_message dispatch)) compl
       (nd_targets dispatch) w"

text \<open>
  The main loop, over what the two channels deliver: it stops on shutdown and when
  the consumer has closed the channel.
\<close>

datatype worker_input = GotDispatch notification_dispatch | WorkerShutdown | DispatchClosed

fun worker_run ::
    "(notification_dispatch \<Rightarrow> 'w \<Rightarrow> unit run \<times> 'w) \<Rightarrow> worker_input list \<Rightarrow> 'w \<Rightarrow> unit run \<times> 'w" where
  "worker_run process [] w = (Done (), w)"
| "worker_run process (GotDispatch d # rest) w =
     (case process d w of
        (Panicked, w) \<Rightarrow> (Panicked, w)
      | (Done _, w) \<Rightarrow> worker_run process rest w)"
| "worker_run process (WorkerShutdown # _) w = (Done (), w)"
| "worker_run process (DispatchClosed # _) w = (Done (), w)"

section \<open>What the senders leave alone\<close>

text \<open>A part of the world that neither the clock nor the HTTP client touches.\<close>

definition net_frame :: "('w \<Rightarrow> 'a) \<Rightarrow> 'w net \<Rightarrow> bool" where
  "net_frame part net \<longleftrightarrow>
     (\<forall>w t w'. net_now net w = (t, w') \<longrightarrow> part w' = part w) \<and>
     (\<forall>rq w r w'. net_send net rq w = (r, w') \<longrightarrow> part w' = part w)"

lemma net_frameD:
  "net_frame part net \<Longrightarrow> net_now net w = (t, w') \<Longrightarrow> part w' = part w"
  "net_frame part net \<Longrightarrow> net_send net rq w = (r, w') \<Longrightarrow> part w' = part w"
  unfolding net_frame_def by blast+

text \<open>The result of a step that kept the part, by the shape of the code.\<close>

definition kept :: "('w \<Rightarrow> 'a) \<Rightarrow> 'w \<Rightarrow> 'b \<times> 'w \<Rightarrow> bool" where
  "kept part w r \<longleftrightarrow> part (snd r) = part w"

lemma kept_if: "kept part w a \<Longrightarrow> kept part w b \<Longrightarrow> kept part w (if c then a else b)"
  by simp

lemma kept_pair: "part w' = part w \<Longrightarrow> kept part w (r, w')"
  by (simp add: kept_def)

lemma kept_case_pair:
  "kept part w p \<Longrightarrow> (\<And>v w'. part w' = part w \<Longrightarrow> kept part w (f v w')) \<Longrightarrow>
     kept part w (case p of (v, w') \<Rightarrow> f v w')"
  by (cases p) (simp add: kept_def)

lemma kept_case_option:
  "kept part w a \<Longrightarrow> (\<And>x. kept part w (f x)) \<Longrightarrow> kept part w (case v of None \<Rightarrow> a | Some x \<Rightarrow> f x)"
  by (cases v) simp_all

lemma kept_case_run:
  "kept part w a \<Longrightarrow> (\<And>x. kept part w (f x)) \<Longrightarrow> kept part w (case v of Panicked \<Rightarrow> a | Done x \<Rightarrow> f x)"
  by (cases v) simp_all

lemma kept_case_sum:
  "(\<And>e. kept part w (f e)) \<Longrightarrow> (\<And>x. kept part w (g x)) \<Longrightarrow> kept part w (case v of Err e \<Rightarrow> f e | Ok x \<Rightarrow> g x)"
  by (cases v) simp_all

lemma kept_trans: "part w' = part w \<Longrightarrow> kept part w' r \<Longrightarrow> kept part w r"
  by (simp add: kept_def)

lemmas keptI = kept_if kept_pair kept_case_pair kept_case_option kept_case_run kept_case_sum

lemma net_kept:
  assumes "net_frame part net"
  shows "kept part w (net_now net w)" and "kept part w (net_send net rq w)"
  using net_frameD [OF assms] by (metis kept_def prod.collapse)+

lemma timed_send_kept:
  assumes "net_frame part net" and "\<And>w. kept part w (f w)"
  shows "kept part w (timed_send net f w)"
  unfolding timed_send_def Let_def
  by (intro keptI net_kept [OF assms(1)] kept_trans [OF _ assms(2)] kept_trans [OF _ net_kept(1) [OF assms(1)]];
    assumption?)

lemma parse_retry_after_kept:
  assumes "net_frame part net"
  shows "kept part w (parse_retry_after_seconds cr net header w)"
  unfolding parse_retry_after_seconds_def Let_def
  by (intro keptI net_kept [OF assms] refl; assumption?)

lemma webhook_kept:
  assumes "net_frame part net"
  shows "kept part w (webhook_send cr net t p w)"
  unfolding webhook_send_def webhook_do_send_def Let_def
  by (intro timed_send_kept [OF assms] keptI net_kept [OF assms]
      kept_trans [OF _ parse_retry_after_kept [OF assms]] refl; assumption?)

lemma telegram_kept:
  assumes "net_frame part net"
  shows "kept part w (telegram_send cr net s t p w)"
  unfolding telegram_send_def telegram_do_send_def Let_def
  by (intro timed_send_kept [OF assms] keptI net_kept [OF assms]; assumption?)

lemma discord_kept:
  assumes "net_frame part net"
  shows "kept part w (discord_send cr net t p w)"
  unfolding discord_send_def discord_do_send_def Let_def
  by (intro timed_send_kept [OF assms] keptI net_kept [OF assms]; assumption?)

lemma not_configured_kept:
  assumes "net_frame part net"
  shows "kept part w (not_configured_receipt net t w)"
  unfolding not_configured_receipt_def Let_def
  by (intro keptI net_kept [OF assms]; assumption?)

lemma senders_dispatch_kept:
  assumes "net_frame part net"
  shows "kept part w (senders_dispatch cr to_rfc3339 net senders message target w)"
proof -
  obtain t w1 where t: "net_now net w = (t, w1)"
    by (cases "net_now net w")
  have w1: "part w1 = part w"
    using net_frameD(1) [OF assms t] .
  note keep = kept_trans [of part w1 w, OF w1]
  show ?thesis
    unfolding senders_dispatch_def Let_def t prod.case
    by (cases target) (simp_all only: notification_target.case,
      (intro keep keptI webhook_kept telegram_kept discord_kept not_configured_kept net_kept assms; (assumption | simp)?)+)
qed

text \<open>A receipt the sender of a target can give.\<close>

definition received :: 
    "(notification_target \<Rightarrow> 'w \<Rightarrow> delivery_receipt run \<times> 'w) \<Rightarrow> notification_target \<Rightarrow> delivery_receipt \<Rightarrow> bool" where
  "received send t receipt \<longleftrightarrow> (\<exists>w w'. send t w = (Done receipt, w'))"

section \<open>Invariants of the loops\<close>

lemma process_targets_pres:
  assumes "\<And>t w r w'. P w \<Longrightarrow> send t w = (r, w') \<Longrightarrow> P w'"
    and "\<And>k receipt w r w'. P w \<Longrightarrow> compl k receipt None w = (r, w') \<Longrightarrow> P w'"
  shows "P w \<Longrightarrow> process_targets send compl targets w = (r, w') \<Longrightarrow> P w'"
proof (induction targets arbitrary: w)
  case (Cons x targets)
  obtain k t where x: "x = (k, t)" by (cases x)
  obtain sent w1 where s: "send t w = (sent, w1)" by (cases "send t w")
  have p1: "P w1"
    using assms(1) [OF Cons.prems(1) s] .
  show ?case
  proof (cases sent)
    case Panicked
    with Cons.prems(2) x s p1 show ?thesis by simp
  next
    case (Done receipt)
    obtain res w2 where c: "compl k receipt None w1 = (res, w2)"
      by (cases "compl k receipt None w1")
    show ?thesis
      using Cons.IH [OF assms(2) [OF p1 c]] Cons.prems(2) x s Done c by simp
  qed
qed simp

lemma worker_run_pres:
  assumes "\<And>d w r w'. P w \<Longrightarrow> process d w = (r, w') \<Longrightarrow> P w'"
  shows "P w \<Longrightarrow> worker_run process inputs w = (r, w') \<Longrightarrow> P w'"
proof (induction inputs arbitrary: w)
  case (Cons x inputs)
  show ?case
  proof (cases x)
    case (GotDispatch d)
    obtain res w1 where p: "process d w = (res, w1)" by (cases "process d w")
    have p1: "P w1"
      using assms [OF Cons.prems(1) p] .
    show ?thesis
    proof (cases res)
      case (Done u)
      with Cons.prems(2) GotDispatch p have "worker_run process inputs w1 = (r, w')" by simp
      with Cons.IH [OF p1] show ?thesis .
    next
      case Panicked
      with Cons.prems(2) GotDispatch p p1 show ?thesis by simp
    qed
  qed (use Cons.prems in auto)
qed simp

section \<open>The audit trail\<close>

text \<open>
  A worker next to an attempt repository whose rows the senders do not touch: the
  targets of a dispatch are worked off in order, each pending row is completed with
  the receipt of its own target, and every other row stays as it is.
\<close>

locale notification_worker = attempt_repository insert_pending compl row
  for insert_pending :: "notification_attempt \<Rightarrow> 'w \<Rightarrow> (attempt_repo_error + unit) \<times> 'w"
    and compl :: "notification_attempt_id \<Rightarrow> delivery_receipt \<Rightarrow> datetime option \<Rightarrow> 'w \<Rightarrow>
      (attempt_repo_error + unit) \<times> 'w"
    and row :: "'w \<Rightarrow> notification_attempt_id \<Rightarrow> notification_attempt option" +
  fixes send :: "notification_target \<Rightarrow> 'w \<Rightarrow> delivery_receipt run \<times> 'w"
  assumes send_row: "send target w = (r, w') \<Longrightarrow> row w' = row w"
    and compl_known: "row w k = Some a \<Longrightarrow> \<exists>w'. compl k receipt retry w = (Ok (), w')"
begin

lemma targets_worked_off:
  assumes "distinct (map fst targets)" and "\<forall>k \<in> fst ` set targets. row w k \<noteq> None"
    and "process_targets send compl targets w = (r, w')"
  shows "\<exists>done rest. targets = done @ rest \<and> (r = Done () \<longrightarrow> rest = []) \<and>
    (\<forall>(k, t) \<in> set done. \<exists>a receipt. row w k = Some a \<and> row w' k = Some (complete_attempt receipt None a) \<and> received send t receipt) \<and>
    (\<forall>k. k \<notin> fst ` set done \<longrightarrow> row w' k = row w k)"
  using assms
proof (induction targets arbitrary: w)
  case (Cons x targets)
  obtain k t where x: "x = (k, t)" by (cases x)
  obtain sent w1 where s: "send t w = (sent, w1)" by (cases "send t w")
  have r1: "row w1 = row w"
    using send_row [OF s] .
  show ?case
  proof (cases sent)
    case Panicked
    with Cons.prems(3) x s r1 show ?thesis
      by (intro exI [of _ "[]"] exI [of _ "x # targets"]) auto
  next
    case (Done receipt)
    obtain a where a: "row w1 k = Some a"
      using Cons.prems(2) x r1 by auto
    obtain w2 where c: "compl k receipt None w1 = (Ok (), w2)"
      using compl_known [OF a] by blast
    have r2: "row w2 = (row w)(k \<mapsto> complete_attempt receipt None a)"
      using complete_Ok [OF c] a r1 by auto
    have rc: "received send t receipt"
      unfolding received_def using s Done by blast
    have run: "process_targets send compl targets w2 = (r, w')"
      using Cons.prems(3) x s Done c by simp
    have "\<forall>k \<in> fst ` set targets. row w2 k \<noteq> None"
      using Cons.prems(2) r2 by auto
    with Cons.IH [OF _ this run] Cons.prems(1)
    obtain finished rest where d: "targets = finished @ rest" "r = Done () \<longrightarrow> rest = []"
      "\<forall>(k, t) \<in> set finished. \<exists>a receipt. row w2 k = Some a \<and> row w' k = Some (complete_attempt receipt None a) \<and> received send t receipt"
      "\<forall>k. k \<notin> fst ` set finished \<longrightarrow> row w' k = row w2 k"
      by auto
    have k: "k \<notin> fst ` set finished"
      using Cons.prems(1) x d(1) by auto
    have "\<forall>(k', t') \<in> set (x # finished).
        \<exists>a receipt. row w k' = Some a \<and> row w' k' = Some (complete_attempt receipt None a) \<and> received send t' receipt"
    proof (intro ballI, clarify)
      fix k' t' assume m: "(k', t') \<in> set (x # finished)"
      show "\<exists>a receipt. row w k' = Some a \<and> row w' k' = Some (complete_attempt receipt None a) \<and> received send t' receipt"
      proof (cases "(k', t') = x")
        case True
        with x have "k' = k" "t' = t" by auto
        with k d(4) r2 a r1 rc show ?thesis by auto
      next
        case False
        with m have f: "(k', t') \<in> set finished" by simp
        with k have "k' \<noteq> k" by force
        with f d(3) r2 show ?thesis by force
      qed
    qed
    moreover have "\<forall>k'. k' \<notin> fst ` set (x # finished) \<longrightarrow> row w' k' = row w k'"
      using d(4) r2 x by auto
    ultimately show ?thesis
      using d(1,2) by (intro exI [of _ "x # finished"] exI [of _ rest]) simp
  qed
qed auto

lemma targets_no_retry:
  assumes "no_retry_rows w" and "process_targets send compl targets w = (r, w')"
  shows "no_retry_rows w'"
  using assms
proof (rule process_targets_pres [of no_retry_rows, rotated 2])
  show "\<And>t w r w'. no_retry_rows w \<Longrightarrow> send t w = (r, w') \<Longrightarrow> no_retry_rows w'"
    using send_row by (simp add: no_retry_rows_def)
  show "\<And>k receipt w r w'. no_retry_rows w \<Longrightarrow> compl k receipt None w = (r, w') \<Longrightarrow> no_retry_rows w'"
    by (rule complete_no_retry)
qed

end

section \<open>The memory world\<close>

text \<open>
  A world with the three memory repositories, the channel to the worker, and
  whatever the outside is made of.
\<close>

record 'n memory_world =
  mw_outside :: 'n
  mw_incidents :: memory_incident_repository
  mw_attempts :: memory_attempt_repository
  mw_observations :: memory_observation_store
  mw_dispatches :: "notification_dispatch list"

definition on_outside :: "('n \<Rightarrow> 'a \<times> 'n) \<Rightarrow> 'n memory_world \<Rightarrow> 'a \<times> 'n memory_world" where
  "on_outside f w = (let (r, n) = f (mw_outside w) in (r, w\<lparr>mw_outside := n\<rparr>))"

definition mw_net :: "'n net \<Rightarrow> 'n memory_world net" where
  "mw_net net = \<lparr>net_now = on_outside (net_now net), net_send = (\<lambda>rq. on_outside (net_send net rq))\<rparr>"

definition mw_insert_pending ::
    "notification_attempt \<Rightarrow> 'n memory_world \<Rightarrow> (attempt_repo_error + unit) \<times> 'n memory_world" where
  "mw_insert_pending a w = (let (r, repo) = mar_insert_pending a (mw_attempts w) in (r, w\<lparr>mw_attempts := repo\<rparr>))"

definition mw_complete :: "'n memory_world complete_op" where
  "mw_complete k receipt retry w =
     (let (r, repo) = mar_complete k receipt retry (mw_attempts w) in (r, w\<lparr>mw_attempts := repo\<rparr>))"

definition mw_row :: "'n memory_world \<Rightarrow> notification_attempt_id \<Rightarrow> notification_attempt option" where
  "mw_row w = hm_get (mar_inner (mw_attempts w))"

lemma mw_net_frame: "net_frame mw_row (mw_net net)"
  by (auto simp: net_frame_def mw_net_def on_outside_def mw_row_def Let_def split: prod.splits)

interpretation mw: notification_worker mw_insert_pending mw_complete mw_row
    "senders_dispatch cr to_rfc3339 (mw_net net) senders message" for cr to_rfc3339 net senders message
proof unfold_locales
  fix w w' :: "'a memory_world" and a e k receipt retry target r
  show "mw_insert_pending a w = (Ok (), w') \<Longrightarrow> mw_row w (na_id a) = None \<and> mw_row w' = (mw_row w)(na_id a \<mapsto> a)"
    using mar.insert_Ok by (auto simp: mw_insert_pending_def mw_row_def split: prod.splits)
  show "mw_insert_pending a w = (Err e, w') \<Longrightarrow> mw_row w' = mw_row w"
    using mar.insert_Err by (auto simp: mw_insert_pending_def mw_row_def split: prod.splits)
  show "mw_complete k receipt retry w = (Ok (), w') \<Longrightarrow>
      \<exists>a. mw_row w k = Some a \<and> mw_row w' = (mw_row w)(k \<mapsto> complete_attempt receipt retry a)"
    using mar.complete_Ok by (auto simp: mw_complete_def mw_row_def split: prod.splits)
  show "mw_complete k receipt retry w = (Err e, w') \<Longrightarrow> mw_row w' = mw_row w"
    using mar.complete_Err by (auto simp: mw_complete_def mw_row_def split: prod.splits)
  show "senders_dispatch cr to_rfc3339 (mw_net net) senders message target w = (r, w') \<Longrightarrow> mw_row w' = mw_row w"
    using senders_dispatch_kept [OF mw_net_frame] by (metis kept_def snd_conv)
  show "mw_row w k = Some a \<Longrightarrow> \<exists>w'. mw_complete k receipt retry w = (Ok (), w')"
    by (auto simp: mw_complete_def mw_row_def mar_complete_def)
qed

section \<open>Properties\<close>

text \<open>C34. The audit trail of a dispatch.
  The targets of a dispatch are worked off in order up to the end, or up to the
  target at which a sender panicked. Each finished attempt has the receipt its own
  target's sender gave, with a terminal status and the outcome; every other row,
  those the worker never reached included, is as the consumer left it.\<close>

theorem worker_completes_attempts:
  assumes "distinct (map fst (nd_targets d))" and "\<forall>k \<in> fst ` set (nd_targets d). mw_row w k \<noteq> None"
    and "process_dispatch cr to_rfc3339 (mw_net net) senders mw_complete d w = (r, w')"
  shows "\<exists>finished rest. nd_targets d = finished @ rest \<and> (r = Done () \<longrightarrow> rest = []) \<and>
    (\<forall>(k, t) \<in> set finished. \<exists>a receipt u u'. mw_row w k = Some a \<and>
       senders_dispatch cr to_rfc3339 (mw_net net) senders (nd_message d) t u = (Done receipt, u') \<and>
       mw_row w' k = Some (complete_attempt receipt None a) \<and>
       na_status (complete_attempt receipt None a) =
         (case rc_outcome receipt of Delivered _ \<Rightarrow> Succeeded | _ \<Rightarrow> FailedPermanent) \<and>
       na_outcome (complete_attempt receipt None a) = Some (rc_outcome receipt)) \<and>
    (\<forall>k. k \<notin> fst ` set finished \<longrightarrow> mw_row w' k = mw_row w k)"
proof -
  have final: "na_status (complete_attempt receipt None a) =
      (case rc_outcome receipt of Delivered _ \<Rightarrow> Succeeded | _ \<Rightarrow> FailedPermanent) \<and>
      na_outcome (complete_attempt receipt None a) = Some (rc_outcome receipt)" for receipt a
    by (simp add: complete_attempt_def split: delivery_outcome.split)
  obtain finished rest where d: "nd_targets d = finished @ rest" "r = Done () \<longrightarrow> rest = []"
    and rows: "\<forall>(k, t) \<in> set finished. \<exists>a receipt. mw_row w k = Some a \<and>
      mw_row w' k = Some (complete_attempt receipt None a) \<and>
      received (senders_dispatch cr to_rfc3339 (mw_net net) senders (nd_message d)) t receipt"
    and other: "\<forall>k. k \<notin> fst ` set finished \<longrightarrow> mw_row w' k = mw_row w k"
    using mw.targets_worked_off [OF assms(1,2) assms(3) [unfolded process_dispatch_def]] by blast
  have "\<forall>(k, t) \<in> set finished. \<exists>a receipt u u'. mw_row w k = Some a \<and>
       senders_dispatch cr to_rfc3339 (mw_net net) senders (nd_message d) t u = (Done receipt, u') \<and>
       mw_row w' k = Some (complete_attempt receipt None a) \<and>
       na_status (complete_attempt receipt None a) =
         (case rc_outcome receipt of Delivered _ \<Rightarrow> Succeeded | _ \<Rightarrow> FailedPermanent) \<and>
       na_outcome (complete_attempt receipt None a) = Some (rc_outcome receipt)"
  proof clarify
    fix k t assume "(k, t) \<in> set finished"
    with rows obtain a receipt where r: "mw_row w k = Some a" "mw_row w' k = Some (complete_attempt receipt None a)"
        "received (senders_dispatch cr to_rfc3339 (mw_net net) senders (nd_message d)) t receipt"
      by blast
    from r(3) obtain u u' where "senders_dispatch cr to_rfc3339 (mw_net net) senders (nd_message d) t u = (Done receipt, u')"
      unfolding received_def by blast
    with r(1,2) final show "\<exists>a receipt u u'. mw_row w k = Some a \<and>
       senders_dispatch cr to_rfc3339 (mw_net net) senders (nd_message d) t u = (Done receipt, u') \<and>
       mw_row w' k = Some (complete_attempt receipt None a) \<and>
       na_status (complete_attempt receipt None a) =
         (case rc_outcome receipt of Delivered _ \<Rightarrow> Succeeded | _ \<Rightarrow> FailedPermanent) \<and>
       na_outcome (complete_attempt receipt None a) = Some (rc_outcome receipt)"
      by blast
  qed
  with d other show ?thesis by blast
qed

definition sample_attempt :: "nat \<Rightarrow> notification_attempt" where
  "sample_attempt n =
     \<lparr>na_id = NotificationAttemptId (of_nat n), na_rule_id = NotificationRuleId ''ops'', na_incident_id = IncidentId 7,
      na_lifecycle_kind = KindOpened, na_target_kind = KindStdout, na_target_summary = ''stdout'', na_status = Pending,
      na_attempt_number = 1, na_parent_attempt_id = None, na_next_retry_at = None, na_outcome = None,
      na_external_ref = None, na_attempted_at = 0, na_completed_at = None\<rparr>"

definition sample_world :: "'n \<Rightarrow> nat list \<Rightarrow> 'n memory_world" where
  "sample_world outside ids =
     \<lparr>mw_outside = outside, mw_incidents = mir_new,
      mw_attempts = \<lparr>mar_inner = map (\<lambda>n. (NotificationAttemptId (of_nat n), sample_attempt n)) ids\<rparr>,
      mw_observations = mos_new, mw_dispatches = []\<rparr>"

definition sample_dispatch :: "nat list \<Rightarrow> notification_target \<Rightarrow> notification_dispatch" where
  "sample_dispatch ids t =
     (let ev = Opened (sample_incident SevWarning StOpen)
      in \<lparr>nd_event = ev,
          nd_message = \<lparr>msg_incident_lifecycle_event = ev, msg_title = ''t'', msg_summary = ''s'',
            msg_affected_component = None, msg_diagnostic_summary = None, msg_occurred_at = 0\<rparr>,
          nd_attempts = map (\<lambda>n. NotificationAttemptId (of_nat n)) ids,
          nd_targets = map (\<lambda>n. (NotificationAttemptId (of_nat n), t)) ids\<rparr>)"

theorem worker_completes_attempts_witness:
  "process_dispatch sample_crates (\<lambda>_. []) (mw_net (sample_net (sample_response 204 [])))
     \<lparr>ns_telegram = None, ns_discord = False\<rparr> mw_complete (sample_dispatch [1, 2] Stdout) (sample_world 0 [1, 2, 3]) =
     (Done (), (sample_world 4 [])\<lparr>mw_attempts := \<lparr>mar_inner =
        [(NotificationAttemptId 1, complete_attempt \<lparr>rc_outcome = Delivered None, rc_started_at = 0,
            rc_completed_at = 1\<rparr> None (sample_attempt 1)),
         (NotificationAttemptId 2, complete_attempt \<lparr>rc_outcome = Delivered None, rc_started_at = 2,
            rc_completed_at = 3\<rparr> None (sample_attempt 2)),
         (NotificationAttemptId 3, sample_attempt 3)]\<rparr>\<rparr>) \<and>
   mw_row (snd (process_dispatch sample_crates (\<lambda>_. []) (mw_net (sample_net (sample_response 204 [])))
     \<lparr>ns_telegram = None, ns_discord = False\<rparr> mw_complete (sample_dispatch [1, 2] Stdout) (sample_world 0 [1, 2, 3])))
     (NotificationAttemptId 3) = Some (sample_attempt 3)" (is "?run = ?result \<and> _")
proof -
  have run: "?run = ?result"
    by (simp add: process_dispatch_def sample_dispatch_def senders_dispatch_def mw_net_def on_outside_def sample_net_def
        sample_world_def mw_complete_def mar_complete_def hm_get_def hm_insert_def Let_def)
  have "distinct (map fst (nd_targets (sample_dispatch [1, 2] Stdout)))"
    "\<forall>k \<in> fst ` set (nd_targets (sample_dispatch [1, 2] Stdout)). mw_row (sample_world (0 :: int) [1, 2, 3]) k \<noteq> None"
    by (simp_all add: sample_dispatch_def sample_world_def mw_row_def hm_get_def Let_def)
  from worker_completes_attempts [OF this run]
  obtain finished where "nd_targets (sample_dispatch [1, 2] Stdout) = finished"
    "\<forall>k. k \<notin> fst ` set finished \<longrightarrow> mw_row (snd ?result) k = mw_row (sample_world (0 :: int) [1, 2, 3]) k"
    by auto
  then have "mw_row (snd ?result) (NotificationAttemptId 3) = mw_row (sample_world (0 :: int) [1, 2, 3]) (NotificationAttemptId 3)"
    by (auto simp: sample_dispatch_def Let_def)
  with run show ?thesis
    by (simp add: mw_row_def sample_world_def hm_get_def)
qed

text \<open>The worker schedules no retry.
  Whatever dispatches arrive and whatever the senders answer, no row ends as
  \<open>FailedTransient\<close>: a transient failure is recorded as permanent, because the worker
  completes without a retry time. So \<open>list_retryable\<close>, which the retry scheduler
  would poll, has nothing to list.\<close>

lemma worker_schedules_no_retry:
  assumes "hm_wf (mar_inner (mw_attempts w))" and "\<forall>k a. mw_row w k = Some a \<longrightarrow> na_status a \<noteq> FailedTransient"
    and "worker_run (process_dispatch cr to_rfc3339 (mw_net net) senders mw_complete) inputs w = (r, w')"
  shows "mar_list_retryable now limit (mw_attempts w') = Ok []"
proof -
  let ?ok = "\<lambda>w. hm_wf (mar_inner (mw_attempts w)) \<and> (\<forall>k a. mw_row w k = Some a \<longrightarrow> na_status a \<noteq> FailedTransient)"
  have step: "?ok w'" if "?ok w" and p: "process_dispatch cr to_rfc3339 (mw_net net) senders mw_complete d w = (r, w')"
    for w d r w'
  proof -
    have "net_frame mw_attempts (mw_net net)"
      by (auto simp: net_frame_def mw_net_def on_outside_def Let_def split: prod.splits)
    then have keep: "mw_attempts u' = mw_attempts u"
      if "senders_dispatch cr to_rfc3339 (mw_net net) senders (nd_message d) t u = (v, u')" for t u v u'
      using that senders_dispatch_kept unfolding kept_def by (metis snd_conv)
    have "hm_wf (mar_inner (mw_attempts w'))"
      using p [unfolded process_dispatch_def]
    proof (rule process_targets_pres [of "\<lambda>w. hm_wf (mar_inner (mw_attempts w))", rotated 3])
      show "\<And>k receipt w r w'. hm_wf (mar_inner (mw_attempts w)) \<Longrightarrow> mw_complete k receipt None w = (r, w') \<Longrightarrow>
          hm_wf (mar_inner (mw_attempts w'))"
        by (auto simp: mw_complete_def mar_complete_def Let_def split: option.splits)
    qed (use keep that in auto)
    moreover have "mw.no_retry_rows w'"
      using mw.targets_no_retry [OF _ p [unfolded process_dispatch_def]] that(1) by (simp add: mw.no_retry_rows_def)
    ultimately show ?thesis
      by (simp add: mw.no_retry_rows_def)
  qed
  have ok: "?ok w'"
    by (rule worker_run_pres [OF _ _ assms(3)], erule (1) step) (use assms(1,2) in blast)
  then have "\<forall>a \<in> set (map snd (mar_inner (mw_attempts w'))). na_status a \<noteq> FailedTransient"
    using hm.entries_get [of "mar_inner (mw_attempts w')"] by (force simp: mw_row_def)
  then have "filter (\<lambda>a. na_status a = FailedTransient) (map snd (mar_inner (mw_attempts w'))) = []"
    by (simp add: filter_empty_conv)
  then show ?thesis
    by (simp add: mar_list_retryable_def)
qed

end
