(* ===== verification/Consumer.thy ===== *)
theory Consumer
  imports Diagnostic_Rules Notification_Worker
begin

text \<open>
  The central consumer task (\<open>runtime/consumer.rs\<close>): it drains the batches, persists and
  applies their observations, evaluates the rules, drives the incident engine, writes
  touched incidents through to the repository and hands lifecycle events to the
  notification worker. The services it is started with are a record of operations on
  a world \<open>'w\<close>; the three the consumer owns (rules, read models, engine) are its state.
  A panic the consumer does not catch ends its task: the value \<open>Panicked\<close>.

  Identifiers are drawn from the world: for each command to the engine two, the one
  of the signal observation and the one an opening incident gets. The \<open>Debug\<close>
  renderings of an incident id and of a subject are arguments.
\<close>

section \<open>Services and state\<close>

record 'w services =
  sv_now :: "'w \<Rightarrow> datetime \<times> 'w"
  sv_instant :: "'w \<Rightarrow> instant \<times> 'w"
  sv_uuid :: "'w \<Rightarrow> uuid \<times> 'w"
  sv_append :: "observation \<Rightarrow> 'w \<Rightarrow> (store_error + unit) \<times> 'w"
  sv_save :: "incident \<Rightarrow> 'w \<Rightarrow> (incident_repo_error + unit) \<times> 'w"
  sv_insert_pending :: "notification_attempt \<Rightarrow> 'w \<Rightarrow> (attempt_repo_error + unit) \<times> 'w"
  sv_notify :: "notification_dispatch \<Rightarrow> 'w \<Rightarrow> bool \<times> 'w"
  sv_sleep_ms :: "nat \<Rightarrow> 'w \<Rightarrow> 'w"

record renderers =
  rd_incident_id :: "incident_id \<Rightarrow> string"
  rd_subject :: "entity_ref \<Rightarrow> string"

record consumer =
  cn_rules :: "diagnostic_rule list"
  cn_read_models :: read_model_store
  cn_engine :: incident_engine

section \<open>Rules\<close>

fun observations_from_batch :: "observation_batch \<Rightarrow> observation list" where
  "observations_from_batch batch =
     (case batch_result batch of
        ProbeOk observations \<Rightarrow> observations
      | ProbeFailed _ partial_observations _ \<Rightarrow> partial_observations)"

text \<open>
  A rule that panics or fails contributes no draft. A panicking rule keeps the state it
  had; no rule of the model panics.
\<close>

fun evaluate_rules ::
    "diagnostic_rule list \<Rightarrow> diagnostic_context \<Rightarrow> diagnostic_rule list \<times> incident_signal_draft list" where
  "evaluate_rules [] ctx = ([], [])"
| "evaluate_rules (rule # rules) ctx =
     (let (rule', drafts) =
            (case rule_evaluate rule ctx of
               Done (rule', Ok rule_drafts) \<Rightarrow> (rule', rule_drafts)
             | Done (rule', Err _) \<Rightarrow> (rule', [])
             | Panicked \<Rightarrow> (rule, []));
          (rules', rest) = evaluate_rules rules ctx
      in (rule' # rules', drafts @ rest))"

section \<open>Saving an incident\<close>

definition RETRY_DELAYS_MS :: "nat list" where
  "RETRY_DELAYS_MS = [100, 500]"

text \<open>The loop over \<open>0..=RETRY_DELAYS_MS.len()\<close>; \<open>indices\<close> are the attempts still to make.\<close>

fun save_attempts ::
    "'w services \<Rightarrow> incident \<Rightarrow> nat list \<Rightarrow> incident_repo_error option \<Rightarrow> 'w \<Rightarrow>
     (incident_repo_error + unit) run \<times> 'w" where
  "save_attempts sv incident [] last_err w =
     (case last_err of None \<Rightarrow> (Panicked, w) | Some e \<Rightarrow> (Done (Err e), w))"
| "save_attempts sv incident (attempt_index # indices) last_err w =
     (case sv_save sv incident w of
        (Ok _, w) \<Rightarrow> (Done (Ok ()), w)
      | (Err e, w) \<Rightarrow>
          let w = (if attempt_index < length RETRY_DELAYS_MS
                   then sv_sleep_ms sv (RETRY_DELAYS_MS ! attempt_index) w else w)
          in save_attempts sv incident indices (Some e) w)"

definition save_incident_with_retry ::
    "'w services \<Rightarrow> incident \<Rightarrow> 'w \<Rightarrow> (incident_repo_error + unit) run \<times> 'w" where
  "save_incident_with_retry sv incident w =
     save_attempts sv incident [0..<Suc (length RETRY_DELAYS_MS)] None w"

section \<open>Lifecycle events\<close>

fun verb :: "incident_notification_event_kind \<Rightarrow> string" where
  "verb KindOpened = ''OPENED''"
| "verb KindEscalated = ''ESCALATED''"
| "verb KindResolved = ''RESOLVED''"

fun severity_debug :: "incident_severity \<Rightarrow> string" where
  "severity_debug SevInfo = ''Info''"
| "severity_debug SevWarning = ''Warning''"
| "severity_debug SevCritical = ''Critical''"

definition compose_notification_message ::
    "renderers \<Rightarrow> incident_lifecycle_event \<Rightarrow> datetime \<Rightarrow> notification_message" where
  "compose_notification_message rd event now =
     (let incident = lifecycle_incident event
      in \<lparr>msg_incident_lifecycle_event = event,
          msg_title = verb (notification_kind event) @ '' ['' @ severity_debug (inc_severity incident) @ ''] '' @
            incident_kind_as_str (inc_kind incident),
          msg_summary = ''incident '' @ rd_incident_id rd (inc_id incident) @ '' on '' @ rd_subject rd (inc_subject incident),
          msg_affected_component = None, msg_diagnostic_summary = None, msg_occurred_at = now\<rparr>)"

definition pending_attempt ::
    "notification_attempt_id \<Rightarrow> notification_rule \<Rightarrow> incident_lifecycle_event \<Rightarrow> datetime \<Rightarrow> notification_attempt" where
  "pending_attempt attempt_id rule event now =
     (let (target_kind, target_summary) = summarize (nr_target rule)
      in \<lparr>na_id = attempt_id, na_rule_id = nr_id rule, na_incident_id = inc_id (lifecycle_incident event),
          na_lifecycle_kind = notification_kind event, na_target_kind = target_kind,
          na_target_summary = target_summary, na_status = Pending, na_attempt_number = 1,
          na_parent_attempt_id = None, na_next_retry_at = None, na_outcome = None, na_external_ref = None,
          na_attempted_at = now, na_completed_at = None\<rparr>)"

text \<open>The loop over the matching rules: a rule whose row cannot be inserted is skipped.\<close>

fun insert_attempts ::
    "'w services \<Rightarrow> incident_lifecycle_event \<Rightarrow> datetime \<Rightarrow> notification_rule list \<Rightarrow>
     (notification_attempt_id \<times> notification_target) list \<Rightarrow> 'w \<Rightarrow>
     (notification_attempt_id \<times> notification_target) list \<times> 'w" where
  "insert_attempts sv event now [] targets w = (targets, w)"
| "insert_attempts sv event now (rule # rules) targets w =
     (let (u, w) = sv_uuid sv w;
          attempt_id = NotificationAttemptId u
      in case sv_insert_pending sv (pending_attempt attempt_id rule event now) w of
           (Err _, w) \<Rightarrow> insert_attempts sv event now rules targets w
         | (Ok _, w) \<Rightarrow> insert_attempts sv event now rules (targets @ [(attempt_id, nr_target rule)]) w)"

definition dispatch_lifecycle ::
    "'w services \<Rightarrow> renderers \<Rightarrow> notification_rule list \<Rightarrow> incident_lifecycle_event \<Rightarrow> datetime \<Rightarrow> 'w \<Rightarrow> 'w" where
  "dispatch_lifecycle sv rd notification_rules event now w =
     (let message = compose_notification_message rd event now;
          (targets, w) = insert_attempts sv event now (filter (\<lambda>r. rule_matches r event) notification_rules) [] w
      in if targets = [] then w
         else snd (sv_notify sv \<lparr>nd_event = event, nd_message = message, nd_attempts = map fst targets,
                nd_targets = targets\<rparr> w))"

section \<open>Events of the engine\<close>

definition apply_or_keep :: "read_model_store \<Rightarrow> observation \<Rightarrow> read_model_store" where
  "apply_or_keep read_models obs = (case store_apply read_models obs of Err _ \<Rightarrow> read_models | Ok s \<Rightarrow> s)"

fun process_engine_event ::
    "'w services \<Rightarrow> renderers \<Rightarrow> notification_rule list \<Rightarrow> datetime \<Rightarrow> incident_event \<Rightarrow> read_model_store \<Rightarrow> 'w \<Rightarrow>
     read_model_store run \<times> 'w" where
  "process_engine_event sv rd notification_rules now (SignalRecorded obs) read_models w =
     (let (_, w) = sv_append sv obs w in (Done (apply_or_keep read_models obs), w))"
| "process_engine_event sv rd notification_rules now (IncidentTouched incident) read_models w =
     (case save_incident_with_retry sv incident w of
        (Panicked, w) \<Rightarrow> (Panicked, w)
      | (Done _, w) \<Rightarrow> (Done read_models, w))"
| "process_engine_event sv rd notification_rules now (Lifecycle lifecycle) read_models w =
     (Done read_models, dispatch_lifecycle sv rd notification_rules lifecycle now w)"
| "process_engine_event sv rd notification_rules now (DraftBelowConfidenceFloor _ _ _) read_models w =
     (Done read_models, w)"

fun process_engine_events ::
    "'w services \<Rightarrow> renderers \<Rightarrow> notification_rule list \<Rightarrow> datetime \<Rightarrow> incident_event list \<Rightarrow> read_model_store \<Rightarrow>
     'w \<Rightarrow> read_model_store run \<times> 'w" where
  "process_engine_events sv rd notification_rules now [] read_models w = (Done read_models, w)"
| "process_engine_events sv rd notification_rules now (event # events) read_models w =
     (case process_engine_event sv rd notification_rules now event read_models w of
        (Panicked, w) \<Rightarrow> (Panicked, w)
      | (Done read_models, w) \<Rightarrow> process_engine_events sv rd notification_rules now events read_models w)"

fun process_drafts ::
    "'w services \<Rightarrow> renderers \<Rightarrow> notification_rule list \<Rightarrow> datetime \<Rightarrow> incident_signal_draft list \<Rightarrow>
     incident_engine \<Rightarrow> read_model_store \<Rightarrow> 'w \<Rightarrow> (incident_engine \<times> read_model_store) run \<times> 'w" where
  "process_drafts sv rd notification_rules now [] engine read_models w = (Done (engine, read_models), w)"
| "process_drafts sv rd notification_rules now (draft # drafts) engine read_models w =
     (let (obs_uuid, w) = sv_uuid sv w;
          (inc_uuid, w) = sv_uuid sv w
      in case engine_handle obs_uuid inc_uuid engine (RecordSignal draft) now of
           Panicked \<Rightarrow> (Panicked, w)
         | Done (engine, Err _) \<Rightarrow> process_drafts sv rd notification_rules now drafts engine read_models w
         | Done (engine, Ok events) \<Rightarrow>
             (case process_engine_events sv rd notification_rules now events read_models w of
                (Panicked, w) \<Rightarrow> (Panicked, w)
              | (Done read_models, w) \<Rightarrow> process_drafts sv rd notification_rules now drafts engine read_models w))"

section \<open>Batches\<close>

text \<open>The persist-and-apply loop; \<open>False\<close> when an append failed and the batch is given up.\<close>

fun persist_and_apply ::
    "'w services \<Rightarrow> observation list \<Rightarrow> read_model_store \<Rightarrow> 'w \<Rightarrow> bool \<times> read_model_store \<times> 'w" where
  "persist_and_apply sv [] read_models w = (True, read_models, w)"
| "persist_and_apply sv (obs # rest) read_models w =
     (case sv_append sv obs w of
        (Err _, w) \<Rightarrow> (False, read_models, w)
      | (Ok _, w) \<Rightarrow> persist_and_apply sv rest (apply_or_keep read_models obs) w)"

definition process_batch ::
    "'w services \<Rightarrow> renderers \<Rightarrow> notification_rule list \<Rightarrow> observation_batch \<Rightarrow> consumer \<Rightarrow> 'w \<Rightarrow>
     consumer run \<times> 'w" where
  "process_batch sv rd notification_rules batch cn w =
     (let (now, w) = sv_now sv w;
          (monotonic_now, w) = sv_instant sv w;
          observations = observations_from_batch batch
      in case observations of
           [] \<Rightarrow> (Done cn, w)
         | first # _ \<Rightarrow>
             let subject = obs_subject first;
                 (complete_batch, read_models, w) = persist_and_apply sv observations (cn_read_models cn) w;
                 cn = cn\<lparr>cn_read_models := read_models\<rparr>
             in if \<not> complete_batch then (Done cn, w)
                else let ctx = store_context read_models now monotonic_now subject;
                         (rules, drafts) = evaluate_rules (cn_rules cn) ctx
                     in case process_drafts sv rd notification_rules now drafts (cn_engine cn) read_models w of
                          (Panicked, w) \<Rightarrow> (Panicked, w)
                        | (Done (engine, read_models), w) \<Rightarrow>
                            (Done \<lparr>cn_rules = rules, cn_read_models = read_models, cn_engine = engine\<rparr>, w))"

text \<open>
  The main loop over what the channels deliver, and the drain after a shutdown: batches
  until every collector has dropped its sender.
\<close>

datatype consumer_input = GotBatch observation_batch | GotShutdown

fun drain ::
    "(observation_batch \<Rightarrow> consumer \<Rightarrow> 'w \<Rightarrow> consumer run \<times> 'w) \<Rightarrow> consumer_input list \<Rightarrow> consumer \<Rightarrow> 'w \<Rightarrow>
     consumer run \<times> 'w" where
  "drain process [] cn w = (Done cn, w)"
| "drain process (GotBatch batch # rest) cn w =
     (case process batch cn w of
        (Panicked, w) \<Rightarrow> (Panicked, w)
      | (Done cn, w) \<Rightarrow> drain process rest cn w)"
| "drain process (GotShutdown # rest) cn w = drain process rest cn w"

fun consumer_run ::
    "(observation_batch \<Rightarrow> consumer \<Rightarrow> 'w \<Rightarrow> consumer run \<times> 'w) \<Rightarrow> consumer_input list \<Rightarrow> consumer \<Rightarrow> 'w \<Rightarrow>
     consumer run \<times> 'w" where
  "consumer_run process [] cn w = (Done cn, w)"
| "consumer_run process (GotBatch batch # rest) cn w =
     (case process batch cn w of
        (Panicked, w) \<Rightarrow> (Panicked, w)
      | (Done cn, w) \<Rightarrow> consumer_run process rest cn w)"
| "consumer_run process (GotShutdown # rest) cn w = drain process rest cn w"

section \<open>The loops always finish\<close>

lemma save_attempts_Done:
  "indices \<noteq> [] \<or> last_err \<noteq> None \<Longrightarrow> \<exists>r w'. save_attempts sv incident indices last_err w = (Done r, w')"
proof (induction indices arbitrary: last_err w)
  case (Cons a indices)
  then show ?case
    by (cases "sv_save sv incident w"; cases "fst (sv_save sv incident w)") (auto simp: Let_def)
qed auto

lemma save_incident_Done: "\<exists>r w'. save_incident_with_retry sv incident w = (Done r, w')"
  unfolding save_incident_with_retry_def by (rule save_attempts_Done) simp

lemma process_engine_event_Done:
  "\<exists>s w'. process_engine_event sv rd rules now event read_models w = (Done s, w')"
proof (cases event)
  case (IncidentTouched incident)
  then show ?thesis
    using save_incident_Done [of sv incident w] by auto
qed (simp_all split: prod.split)

lemma process_engine_events_Done:
  "\<exists>s w'. process_engine_events sv rd rules now events read_models w = (Done s, w')"
proof (induction events arbitrary: read_models w)
  case (Cons event events)
  obtain s w1 where "process_engine_event sv rd rules now event read_models w = (Done s, w1)"
    using process_engine_event_Done [of sv rd rules now event read_models w] by blast
  with Cons.IH [of s w1] show ?case by simp
qed simp

lemma process_drafts_Done:
  "\<exists>e s w'. process_drafts sv rd rules now drafts engine read_models w = (Done (e, s), w')"
proof (induction drafts arbitrary: engine read_models w)
  case (Cons draft drafts)
  obtain u w1 where u: "sv_uuid sv w = (u, w1)" by (cases "sv_uuid sv w")
  obtain v w2 where v: "sv_uuid sv w1 = (v, w2)" by (cases "sv_uuid sv w1")
  obtain e r where h: "engine_handle u v engine (RecordSignal draft) now = Done (e, r)"
    using engine_handle_not_panicked by (metis run.exhaust surj_pair)
  show ?case
  proof (cases r)
    case (Inl err)
    with Cons.IH [of e read_models w2] u v h show ?thesis by simp
  next
    case (Inr events)
    obtain s w3 where "process_engine_events sv rd rules now events read_models w2 = (Done s, w3)"
      using process_engine_events_Done [of sv rd rules now events read_models w2] by blast
    with Cons.IH [of e s w3] u v h Inr show ?thesis by simp
  qed
qed simp

lemma process_batch_Done: "\<exists>cn' w'. process_batch sv rd rules batch cn w = (Done cn', w')"
proof -
  obtain now w1 where now: "sv_now sv w = (now, w1)" by (cases "sv_now sv w")
  obtain t w2 where t: "sv_instant sv w1 = (t, w2)" by (cases "sv_instant sv w1")
  show ?thesis
  proof (cases "observations_from_batch batch")
    case Nil
    with now t show ?thesis by (simp add: process_batch_def)
  next
    case (Cons first rest)
    obtain ok s w3 where p: "persist_and_apply sv (first # rest) (cn_read_models cn) w2 = (ok, s, w3)"
      by (cases "persist_and_apply sv (first # rest) (cn_read_models cn) w2")
    obtain rules' drafts where ev: "evaluate_rules (cn_rules cn) (store_context s now t (obs_subject first)) = (rules', drafts)"
      by (cases "evaluate_rules (cn_rules cn) (store_context s now t (obs_subject first))")
    obtain e s' w4 where "process_drafts sv rd rules now drafts (cn_engine cn) s w3 = (Done (e, s'), w4)"
      using process_drafts_Done [of sv rd rules now drafts "cn_engine cn" s w3] by blast
    with now t Cons p ev show ?thesis
      by (cases ok) (simp_all add: process_batch_def del: observations_from_batch.simps persist_and_apply.simps)
  qed
qed

text \<open>The batches among what the channels deliver.\<close>

fun batches :: "consumer_input list \<Rightarrow> observation_batch list" where
  "batches [] = []"
| "batches (GotBatch b # rest) = b # batches rest"
| "batches (GotShutdown # rest) = batches rest"

text \<open>Processing batches one after the other.\<close>

fun process_all ::
    "'w services \<Rightarrow> renderers \<Rightarrow> notification_rule list \<Rightarrow> observation_batch list \<Rightarrow> consumer \<times> 'w \<Rightarrow>
     consumer \<times> 'w" where
  "process_all sv rd rules [] s = s"
| "process_all sv rd rules (b # bs) (cn, w) =
     (case process_batch sv rd rules b cn w of
        (Done cn, w) \<Rightarrow> process_all sv rd rules bs (cn, w)
      | (Panicked, w) \<Rightarrow> (cn, w))"

lemma drain_process_all:
  "drain (process_batch sv rd rules) inputs cn w =
     (Done (fst (process_all sv rd rules (batches inputs) (cn, w))),
      snd (process_all sv rd rules (batches inputs) (cn, w)))"
proof (induction inputs arbitrary: cn w)
  case (Cons x inputs)
  then show ?case
  proof (cases x)
    case (GotBatch b)
    obtain cn' w' where "process_batch sv rd rules b cn w = (Done cn', w')"
      using process_batch_Done [of sv rd rules b cn w] by blast
    with Cons GotBatch show ?thesis by simp
  qed simp
qed simp

lemma consumer_run_process_all:
  "consumer_run (process_batch sv rd rules) inputs cn w =
     (Done (fst (process_all sv rd rules (batches inputs) (cn, w))),
      snd (process_all sv rd rules (batches inputs) (cn, w)))"
proof (induction inputs arbitrary: cn w)
  case (Cons x inputs)
  then show ?case
  proof (cases x)
    case (GotBatch b)
    obtain cn' w' where "process_batch sv rd rules b cn w = (Done cn', w')"
      using process_batch_Done [of sv rd rules b cn w] by blast
    with Cons GotBatch show ?thesis by simp
  qed (simp add: drain_process_all)
qed simp

end
