(* ===== verification/Consumer_Correct.thy ===== *)
theory Consumer_Correct
  imports Consumer
begin

text \<open>
  What the consumer guarantees next to its services: the contracts of the services as
  locales, the lemmas that follow from them, and their interpretation on a world with
  the memory repositories behind arbitrary faults: each storage call and the channel
  may fail whenever the outside says so.
\<close>

section \<open>Memory repositories with faults\<close>

record 'n outside =
  ou_now :: "'n \<Rightarrow> datetime \<times> 'n"
  ou_instant :: "'n \<Rightarrow> instant \<times> 'n"
  ou_uuid :: "'n \<Rightarrow> uuid \<times> 'n"
  ou_sleep_ms :: "nat \<Rightarrow> 'n \<Rightarrow> 'n"
  ou_append_fault :: "'n \<Rightarrow> store_error option \<times> 'n"
  ou_save_fault :: "'n \<Rightarrow> incident_repo_error option \<times> 'n"
  ou_insert_fault :: "'n \<Rightarrow> attempt_repo_error option \<times> 'n"
  ou_channel_open :: "'n \<Rightarrow> bool \<times> 'n"

definition faulty ::
    "('n \<Rightarrow> 'e option \<times> 'n) \<Rightarrow> ('n memory_world \<Rightarrow> ('e + unit) \<times> 'n memory_world) \<Rightarrow>
     'n memory_world \<Rightarrow> ('e + unit) \<times> 'n memory_world" where
  "faulty fault op w =
     (case fault (mw_outside w) of
        (Some e, n) \<Rightarrow> (Err e, w\<lparr>mw_outside := n\<rparr>)
      | (None, n) \<Rightarrow> op (w\<lparr>mw_outside := n\<rparr>))"

definition mw_append :: "observation \<Rightarrow> 'n memory_world \<Rightarrow> (store_error + unit) \<times> 'n memory_world" where
  "mw_append ob w = (let (r, s) = mos_append ob (mw_observations w) in (r, w\<lparr>mw_observations := s\<rparr>))"

definition mw_save :: "incident \<Rightarrow> 'n memory_world \<Rightarrow> (incident_repo_error + unit) \<times> 'n memory_world" where
  "mw_save i w = (let (r, s) = mir_save i (mw_incidents w) in (r, w\<lparr>mw_incidents := s\<rparr>))"

definition mw_services :: "'n outside \<Rightarrow> 'n memory_world services" where
  "mw_services out =
     \<lparr>sv_now = on_outside (ou_now out), sv_instant = on_outside (ou_instant out),
      sv_uuid = on_outside (ou_uuid out),
      sv_append = (\<lambda>ob. faulty (ou_append_fault out) (mw_append ob)),
      sv_save = (\<lambda>i. faulty (ou_save_fault out) (mw_save i)),
      sv_insert_pending = (\<lambda>a. faulty (ou_insert_fault out) (mw_insert_pending a)),
      sv_notify = (\<lambda>d w.
        let (ok, n) = ou_channel_open out (mw_outside w);
            w = w\<lparr>mw_outside := n\<rparr>
        in (ok, if ok then w\<lparr>mw_dispatches := mw_dispatches w @ [d]\<rparr> else w)),
      sv_sleep_ms = (\<lambda>ms w. w\<lparr>mw_outside := ou_sleep_ms out ms (mw_outside w)\<rparr>)\<rparr>"

definition mw_logged :: "'n memory_world \<Rightarrow> observation list" where
  "mw_logged w = mos_inner (mw_observations w)"

definition mw_incident_rows :: "'n memory_world \<Rightarrow> incident_id \<Rightarrow> incident option" where
  "mw_incident_rows w = hm_get (mir_inner (mw_incidents w))"

section \<open>The observation log\<close>

definition append_reliable :: "'w services \<Rightarrow> bool" where
  "append_reliable sv \<longleftrightarrow> (\<forall>ob w. \<exists>w'. sv_append sv ob w = (Ok (), w'))"

text \<open>Only \<open>append\<close> writes the log.\<close>

locale consumer_log = observation_log "sv_append sv" logged
  for sv :: "'w services" and logged :: "'w \<Rightarrow> observation list" +
  assumes now_logged: "kept logged w (sv_now sv w)"
    and instant_logged: "kept logged w (sv_instant sv w)"
    and uuid_logged: "kept logged w (sv_uuid sv w)"
    and save_logged: "kept logged w (sv_save sv i w)"
    and insert_logged: "kept logged w (sv_insert_pending sv a w)"
    and notify_logged: "kept logged w (sv_notify sv d w)"
    and sleep_logged: "logged (sv_sleep_ms sv ms w) = logged w"
begin

lemma persist_and_apply_prefix:
  assumes "persist_and_apply sv obs s w = (ok, s', w')"
  shows "\<exists>k. k \<le> length obs \<and> logged w' = logged w @ take k obs \<and>
    s' = foldl apply_or_keep s (take k obs) \<and> (ok \<longleftrightarrow> k = length obs)"
  using assms
proof (induction obs arbitrary: s w)
  case (Cons ob obs)
  obtain r w1 where a: "sv_append sv ob w = (r, w1)" by (cases "sv_append sv ob w")
  show ?case
  proof (cases r)
    case (Inl e)
    with Cons.prems a append_Err [of ob w e w1] show ?thesis
      by (intro exI [of _ 0]) auto
  next
    case (Inr u)
    with a have l: "logged w1 = logged w @ [ob]"
      using append_Ok [of ob w w1] by simp
    obtain k where "k \<le> length obs" "logged w' = logged w1 @ take k obs"
      "s' = foldl apply_or_keep (apply_or_keep s ob) (take k obs)" "ok \<longleftrightarrow> k = length obs"
      using Cons.IH [of "apply_or_keep s ob" w1] Cons.prems a Inr by auto
    with l show ?thesis
      by (intro exI [of _ "Suc k"]) simp
  qed
qed simp

lemma save_attempts_logged: "kept logged w (save_attempts sv i indices err w)"
proof (induction indices arbitrary: err w)
  case Nil
  then show ?case by (simp add: kept_def split: option.split)
next
  case (Cons a indices)
  obtain r w1 where s: "sv_save sv i w = (r, w1)" by (cases "sv_save sv i w")
  have l: "logged w1 = logged w"
    using save_logged [of w i] s by (simp add: kept_def)
  show ?case
  proof (cases r)
    case (Inl e)
    have "logged (if a < length RETRY_DELAYS_MS then sv_sleep_ms sv (RETRY_DELAYS_MS ! a) w1 else w1) = logged w"
      using l sleep_logged by simp
    then show ?thesis
      using kept_trans [OF _ Cons.IH] s Inl by (simp add: Let_def)
  qed (use s l in \<open>simp add: kept_def\<close>)
qed

lemma insert_attempts_logged: "kept logged w (insert_attempts sv ev now rules ts w)"
proof (induction rules arbitrary: ts w)
  case (Cons r rules)
  obtain u w1 where u: "sv_uuid sv w = (u, w1)" by (cases "sv_uuid sv w")
  obtain res w2 where i: "sv_insert_pending sv (pending_attempt (NotificationAttemptId u) r ev now) w1 = (res, w2)"
    by (cases "sv_insert_pending sv (pending_attempt (NotificationAttemptId u) r ev now) w1")
  have "logged w2 = logged w"
    using uuid_logged [of w] insert_logged [of w1 "pending_attempt (NotificationAttemptId u) r ev now"] u i
    by (simp add: kept_def)
  with kept_trans [OF this Cons.IH] u i show ?case
    by (cases res) simp_all
qed (simp add: kept_def)

lemma dispatch_lifecycle_logged: "logged (dispatch_lifecycle sv rd rules ev now w) = logged w"
proof -
  obtain ts w1 where t: "insert_attempts sv ev now (filter (\<lambda>r. rule_matches r ev) rules) [] w = (ts, w1)"
    by (cases "insert_attempts sv ev now (filter (\<lambda>r. rule_matches r ev) rules) [] w")
  with insert_attempts_logged [of w ev now "filter (\<lambda>r. rule_matches r ev) rules" "[]"] notify_logged
  show ?thesis
    by (simp add: dispatch_lifecycle_def Let_def kept_def)
qed

text \<open>
  A step appends to the log; with a log that never fails the read models are what
  applying the appended observations makes of them.
\<close>

definition logs :: "'w \<Rightarrow> read_model_store \<Rightarrow> 'w \<Rightarrow> read_model_store \<Rightarrow> bool" where
  "logs w s w' s' \<longleftrightarrow> (\<exists>new. logged w' = logged w @ new \<and>
     (append_reliable sv \<longrightarrow> s' = foldl apply_or_keep s new))"

lemma logs_same: "logged w' = logged w \<Longrightarrow> logs w s w' s"
  by (auto simp: logs_def)

lemma logs_trans: "logs w s w1 s1 \<Longrightarrow> logs w1 s1 w' s' \<Longrightarrow> logs w s w' s'"
  unfolding logs_def by (metis append_assoc foldl_append)

lemma process_engine_event_logs:
  assumes "process_engine_event sv rd rules now ev s w = (Done s', w')"
  shows "logs w s w' s'"
proof (cases ev)
  case (SignalRecorded ob)
  obtain r w1 where a: "sv_append sv ob w = (r, w1)" by (cases "sv_append sv ob w")
  with assms SignalRecorded have e: "s' = apply_or_keep s ob" "w' = w1" by simp_all
  show ?thesis
  proof (cases r)
    case (Inl err)
    then have "\<not> append_reliable sv"
      using a by (auto simp: append_reliable_def) (metis Inl_Inr_False prod.inject)
    with e a Inl append_Err [of ob w err w1] show ?thesis by (auto simp: logs_def)
  next
    case (Inr u)
    with e a append_Ok [of ob w w1] show ?thesis by (auto simp: logs_def)
  qed
next
  case (IncidentTouched i)
  then show ?thesis
    using assms save_attempts_logged [of w i "[0..<Suc (length RETRY_DELAYS_MS)]" None]
    by (auto simp: save_incident_with_retry_def kept_def simp del: upt_Suc split: prod.splits run.splits
        intro!: logs_same)
qed (use assms dispatch_lifecycle_logged in \<open>auto intro!: logs_same\<close>)

lemma process_engine_events_logs:
  assumes "process_engine_events sv rd rules now evs s w = (Done s', w')"
  shows "logs w s w' s'"
  using assms
proof (induction evs arbitrary: s w)
  case (Cons ev evs)
  obtain s1 w1 where e: "process_engine_event sv rd rules now ev s w = (Done s1, w1)"
    using process_engine_event_Done [of sv rd rules now ev s w] by blast
  show ?case
    using logs_trans [OF process_engine_event_logs [OF e] Cons.IH] Cons.prems e by simp
qed (simp add: logs_same)

lemma process_drafts_logs:
  assumes "process_drafts sv rd rules now drafts e s w = (Done (e', s'), w')"
  shows "logs w s w' s'"
  using assms
proof (induction drafts arbitrary: e s w)
  case (Cons d drafts)
  obtain u w1 where u: "sv_uuid sv w = (u, w1)" by (cases "sv_uuid sv w")
  obtain v w2 where v: "sv_uuid sv w1 = (v, w2)" by (cases "sv_uuid sv w1")
  have w2: "logs w s w2 s"
    using uuid_logged [of w] uuid_logged [of w1] u v by (intro logs_same) (simp add: kept_def)
  obtain e1 r where h: "engine_handle u v e (RecordSignal d) now = Done (e1, r)"
    using engine_handle_not_panicked by (metis run.exhaust surj_pair)
  show ?case
  proof (cases r)
    case (Inl err)
    with Cons.prems u v h have "process_drafts sv rd rules now drafts e1 s w2 = (Done (e', s'), w')" by simp
    with Cons.IH w2 show ?thesis by (blast intro: logs_trans)
  next
    case (Inr evs)
    obtain s1 w3 where p: "process_engine_events sv rd rules now evs s w2 = (Done s1, w3)"
      using process_engine_events_Done [of sv rd rules now evs s w2] by blast
    with Cons.prems u v h Inr have "process_drafts sv rd rules now drafts e1 s1 w3 = (Done (e', s'), w')" by simp
    with Cons.IH w2 process_engine_events_logs [OF p] show ?thesis by (blast intro: logs_trans)
  qed
qed (simp add: logs_same)

lemma process_batch_logs:
  assumes "process_batch sv rd rules batch cn w = (Done cn', w')"
  shows "logs w (cn_read_models cn) w' (cn_read_models cn')"
proof -
  obtain now w1 where now: "sv_now sv w = (now, w1)" by (cases "sv_now sv w")
  obtain t w2 where t: "sv_instant sv w1 = (t, w2)" by (cases "sv_instant sv w1")
  have w2: "logs w s w2 s" for s
    using now_logged [of w] instant_logged [of w1] now t by (intro logs_same) (simp add: kept_def)
  show ?thesis
  proof (cases "observations_from_batch batch")
    case Nil
    with now t assms w2 show ?thesis by (simp add: process_batch_def)
  next
    case (Cons first rest)
    obtain ok s w3 where p: "persist_and_apply sv (first # rest) (cn_read_models cn) w2 = (ok, s, w3)"
      by (cases "persist_and_apply sv (first # rest) (cn_read_models cn) w2")
    have w3: "logs w (cn_read_models cn) w3 s"
      using logs_trans [OF w2] persist_and_apply_prefix [OF p] unfolding logs_def by metis
    obtain rules' drafts where ev: "evaluate_rules (cn_rules cn) (store_context s now t (obs_subject first)) = (rules', drafts)"
      by (cases "evaluate_rules (cn_rules cn) (store_context s now t (obs_subject first))")
    obtain e s' w4 where d: "process_drafts sv rd rules now drafts (cn_engine cn) s w3 = (Done (e, s'), w4)"
      using process_drafts_Done [of sv rd rules now drafts "cn_engine cn" s w3] by blast
    show ?thesis
      using assms now t Cons p ev d w3 logs_trans [OF w3 process_drafts_logs [OF d]]
      by (cases ok) (auto simp: process_batch_def simp del: observations_from_batch.simps persist_and_apply.simps)
  qed
qed

lemma process_all_logs:
  assumes "process_all sv rd rules bs (cn, w) = (cn', w')"
  shows "logs w (cn_read_models cn) w' (cn_read_models cn')"
  using assms
proof (induction bs arbitrary: cn w)
  case (Cons b bs)
  obtain cn1 w1 where b: "process_batch sv rd rules b cn w = (Done cn1, w1)"
    using process_batch_Done [of sv rd rules b cn w] by blast
  show ?case
    using logs_trans [OF process_batch_logs [OF b] Cons.IH] Cons.prems b by simp
qed (simp add: logs_same)

end

text \<open>The memory world, whatever fails.\<close>

lemma on_outside_kept: "(\<And>w n. part (w\<lparr>mw_outside := n\<rparr>) = part w) \<Longrightarrow> kept part w (on_outside f w)"
  by (simp add: kept_def on_outside_def split: prod.split)

lemma faulty_kept:
  "(\<And>w n. part (w\<lparr>mw_outside := n\<rparr>) = part w) \<Longrightarrow> (\<And>w. kept part w (op w)) \<Longrightarrow> kept part w (faulty fault op w)"
  by (simp add: kept_def faulty_def split: prod.split option.split)

lemma mw_services_sel [simp]:
  "sv_now (mw_services out) = on_outside (ou_now out)"
  "sv_instant (mw_services out) = on_outside (ou_instant out)"
  "sv_uuid (mw_services out) = on_outside (ou_uuid out)"
  "sv_append (mw_services out) ob = faulty (ou_append_fault out) (mw_append ob)"
  "sv_save (mw_services out) i = faulty (ou_save_fault out) (mw_save i)"
  "sv_insert_pending (mw_services out) a = faulty (ou_insert_fault out) (mw_insert_pending a)"
  "sv_sleep_ms (mw_services out) ms w = w\<lparr>mw_outside := ou_sleep_ms out ms (mw_outside w)\<rparr>"
  by (simp_all add: mw_services_def)

lemma mw_notify_kept:
  "(\<And>w n. part (w\<lparr>mw_outside := n\<rparr>) = part w) \<Longrightarrow> (\<And>w ds. part (w\<lparr>mw_dispatches := ds\<rparr>) = part w) \<Longrightarrow>
     kept part w (sv_notify (mw_services out) d w)"
  by (simp add: kept_def mw_services_def Let_def split: prod.split)

lemma mw_op_kept:
  "(\<And>w x. part (w\<lparr>mw_incidents := x\<rparr>) = part w) \<Longrightarrow> kept part w (mw_save i w)"
  "(\<And>w x. part (w\<lparr>mw_attempts := x\<rparr>) = part w) \<Longrightarrow> kept part w (mw_insert_pending a w)"
  "(\<And>w x. part (w\<lparr>mw_observations := x\<rparr>) = part w) \<Longrightarrow> kept part w (mw_append ob w)"
  by (simp_all add: kept_def mw_save_def mw_insert_pending_def mw_append_def split: prod.split)

lemmas mw_kept = on_outside_kept faulty_kept mw_notify_kept mw_op_kept

interpretation mwl: consumer_log "mw_services out" mw_logged for out
proof unfold_locales
  fix w w' :: "'a memory_world" and ob e
  show "sv_append (mw_services out) ob w = (Ok (), w') \<Longrightarrow> mw_logged w' = mw_logged w @ [ob]"
    by (auto simp: faulty_def mw_append_def mw_logged_def memory_defs split: prod.splits option.splits)
  show "sv_append (mw_services out) ob w = (Err e, w') \<Longrightarrow> mw_logged w' = mw_logged w"
    by (auto simp: faulty_def mw_append_def mw_logged_def memory_defs split: prod.splits option.splits)
qed (auto simp: mw_logged_def intro!: mw_kept)

section \<open>Write-through\<close>

text \<open>What a signal does to the open map: nothing, one entry written, or one removed.\<close>

lemma handle_cleared_shapes:
  assumes "handle_cleared oid d now m = (m', evs)"
  obtains (same) "m' = m" "evs = []"
  | (resolve) fp j i where "hm_get m fp = Some j" "m' = hm_remove fp m" "evs = [IncidentTouched i, Lifecycle (Resolved i)]"
      "inc_id i = inc_id j" "inc_status i = StResolved"
proof (cases "hm_get m (compute_fingerprint d)")
  case None
  with assms show thesis by (intro same) (simp_all add: handle_cleared_def)
next
  case (Some j)
  let ?i = "j\<lparr>inc_status := StResolved, inc_updated_at := now, inc_resolved_at := Some now,
    inc_signal_observation_ids := inc_signal_observation_ids j @ [oid]\<rparr>"
  from Some assms show thesis by (intro resolve [OF Some, of ?i]) (auto simp: handle_cleared_def Let_def)
qed

lemma handle_active_shapes:
  assumes ok: "open_map_ok m" and eff: "handle_active oid v fl d now m = (m', evs)"
  obtains (same) "m' = m" "\<And>i. IncidentTouched i \<notin> set evs"
  | (upsert) fp i ls where "m' = hm_insert fp i m" "evs = IncidentTouched i # map Lifecycle ls" "open_incident_ok fp i"
      "case hm_get m fp of Some j \<Rightarrow> inc_id j = inc_id i | None \<Rightarrow> inc_id i = IncidentId v"
proof (cases "confidence_rank (draft_confidence d) < confidence_rank fl")
  case True
  with eff show thesis by (intro same) (auto simp: handle_active_def)
next
  case False
  let ?fp = "compute_fingerprint d"
  show thesis
  proof (cases "hm_get m ?fp")
    case None
    with False eff show thesis
      by (intro upsert [of ?fp _ "[Opened _]"])
        (auto simp: handle_active_def Let_def open_incident_ok_def compute_fingerprint_def)
  next
    case (Some j)
    define i where "i = j\<lparr>inc_severity := max_severity (inc_severity j) (severity_from_signal (draft_severity d)),
        inc_updated_at := now, inc_signal_observation_ids := inc_signal_observation_ids j @ [oid],
        inc_evidence := inc_evidence j @ draft_evidence d\<rparr>"
    have "open_incident_ok ?fp i"
      using open_map_ok_getD [OF ok Some] by (simp add: i_def open_incident_ok_def)
    with False Some eff show thesis
      by (intro upsert [of ?fp i "if severity_rank (inc_severity i) > severity_rank (inc_severity j)
          then [Escalated i (inc_severity j) (inc_severity i)] else []"]) (auto simp: handle_active_def Let_def i_def)
  qed
qed

lemma signal_effect_shapes:
  assumes "open_map_ok (eng_open_incidents e)" and "signal_effect u v e spec d now = (m', evs)"
  obtains (same) "m' = eng_open_incidents e" "\<And>i. IncidentTouched i \<notin> set evs"
  | (upsert) fp i ls where "m' = hm_insert fp i (eng_open_incidents e)" "evs = IncidentTouched i # map Lifecycle ls"
      "open_incident_ok fp i"
      "case hm_get (eng_open_incidents e) fp of Some j \<Rightarrow> inc_id j = inc_id i | None \<Rightarrow> inc_id i = IncidentId v"
  | (resolve) fp j i ls where "hm_get (eng_open_incidents e) fp = Some j" "m' = hm_remove fp (eng_open_incidents e)"
      "evs = IncidentTouched i # map Lifecycle ls" "inc_id i = inc_id j" "inc_status i = StResolved"
proof (cases "draft_status d")
  case Cleared
  with assms(2) have "handle_cleared (ObservationId u) d now (eng_open_incidents e) = (m', evs)"
    by (simp add: signal_effect_def)
  then show thesis
  proof (cases rule: handle_cleared_shapes)
    case (resolve fp j i)
    then show thesis
      by (intro that(3) [of fp j i "[Resolved i]"]) simp_all
  qed (simp add: that(1))
next
  case Active
  with assms(2) have "handle_active (ObservationId u) v (spec_min_open_confidence spec) d now (eng_open_incidents e) = (m', evs)"
    by (simp add: signal_effect_def)
  from handle_active_shapes [OF assms(1) this] that(1,2) show thesis by blast
qed

definition timely :: "(datetime \<Rightarrow> bool) \<Rightarrow> incident \<Rightarrow> bool" where
  "timely c i \<longleftrightarrow> c (inc_opened_at i) \<and> c (inc_updated_at i) \<and> (\<forall>t. inc_resolved_at i = Some t \<longrightarrow> c t)"

text \<open>The times of a touched incident are those it had and \<open>now\<close>.\<close>

lemma signal_effect_timely:
  assumes "signal_effect u v e spec d now = (m', evs)" and "IncidentTouched i \<in> set evs \<or> hm_get m' fp = Some i"
    and "c now" and "\<And>fp j. hm_get (eng_open_incidents e) fp = Some j \<Longrightarrow> timely c j"
  shows "timely c i"
proof (cases "draft_status d")
  case Active
  with assms show ?thesis
    by (auto simp: signal_effect_def handle_active_def Let_def timely_def split: if_splits option.splits)
next
  case Cleared
  with assms show ?thesis
    by (auto simp: signal_effect_def handle_cleared_def Let_def timely_def split: if_splits option.splits)
qed

text \<open>
  Saves that succeed within their retries: always, or for incidents with times \<open>c\<close> in a
  world that is \<open>valid\<close>.
\<close>

definition save_reliable :: "'w services \<Rightarrow> bool" where
  "save_reliable sv \<longleftrightarrow> (\<forall>i w. \<exists>w'. save_incident_with_retry sv i w = (Done (Ok ()), w'))"

definition save_reliable_on :: "(datetime \<Rightarrow> bool) \<Rightarrow> ('w \<Rightarrow> bool) \<Rightarrow> 'w services \<Rightarrow> bool" where
  "save_reliable_on c valid sv \<longleftrightarrow>
     (\<forall>i w. timely c i \<and> valid w \<longrightarrow> (\<exists>w'. save_incident_with_retry sv i w = (Done (Ok ()), w')))"

lemma save_reliable_on: "save_reliable sv \<Longrightarrow> save_reliable_on c valid sv"
  by (simp add: save_reliable_def save_reliable_on_def)

text \<open>
  An incident repository only \<open>save\<close> writes, a clock that shows times in \<open>c\<close>, and
  identifiers that do not repeat: the \<open>n\<close>-th one drawn is \<open>name n\<close>, distinct as long as
  the identifiers last.
\<close>

locale consumer_sync = incident_repository "sv_save sv" load_open rows valid
  for sv :: "'w services" and load_open :: "'w \<Rightarrow> incident_repo_error + incident list"
    and rows :: "'w \<Rightarrow> incident_id \<Rightarrow> incident option" and valid :: "'w \<Rightarrow> bool" +
  fixes drawn :: "'w \<Rightarrow> nat" and name :: "nat \<Rightarrow> uuid" and c :: "datetime \<Rightarrow> bool"
  assumes now_in: "sv_now sv w = (now, w') \<Longrightarrow> c now"
    and rows_timely: "valid w \<Longrightarrow> rows w k = Some i \<Longrightarrow> timely c i"
    and now_quiet: "kept (\<lambda>w. (rows w, valid w, drawn w)) w (sv_now sv w)"
    and instant_quiet: "kept (\<lambda>w. (rows w, valid w, drawn w)) w (sv_instant sv w)"
    and append_quiet: "kept (\<lambda>w. (rows w, valid w, drawn w)) w (sv_append sv ob w)"
    and insert_quiet: "kept (\<lambda>w. (rows w, valid w, drawn w)) w (sv_insert_pending sv a w)"
    and notify_quiet: "kept (\<lambda>w. (rows w, valid w, drawn w)) w (sv_notify sv d w)"
    and sleep_quiet: "kept (\<lambda>w. (rows w, valid w, drawn w)) w ((), sv_sleep_ms sv ms w)"
    and uuid_rows: "kept (\<lambda>w. (rows w, valid w)) w (sv_uuid sv w)"
    and save_drawn: "kept drawn w (sv_save sv i w)"
    and uuid_name: "sv_uuid sv w = (u, w') \<Longrightarrow> u = name (drawn w) \<and> drawn w' = Suc (drawn w)"
    and name_inj: "inj_on name {..<2 ^ 128}"
begin

text \<open>A step that leaves the rows alone.\<close>

definition quiet :: "'w \<Rightarrow> 'w \<Rightarrow> bool" where
  "quiet w w' \<longleftrightarrow> rows w' = rows w \<and> valid w' = valid w \<and> drawn w \<le> drawn w'"

lemma quiet_refl: "quiet w w"
  by (simp add: quiet_def)

lemma quiet_trans: "quiet w w1 \<Longrightarrow> quiet w1 w' \<Longrightarrow> quiet w w'"
  by (auto simp: quiet_def)

lemma quiet_steps:
  "sv_now sv w = (x, w') \<Longrightarrow> quiet w w'" "sv_instant sv w = (t, w') \<Longrightarrow> quiet w w'"
  "sv_append sv ob w = (r, w') \<Longrightarrow> quiet w w'" "sv_insert_pending sv a w = (p, w') \<Longrightarrow> quiet w w'"
  "sv_notify sv d w = (b, w') \<Longrightarrow> quiet w w'" "quiet w (sv_sleep_ms sv ms w)"
  "sv_uuid sv w = (u, w') \<Longrightarrow> quiet w w'"
  using now_quiet [of w] instant_quiet [of w] append_quiet [of w ob] insert_quiet [of w a] notify_quiet [of w d]
    sleep_quiet [of w ms] uuid_rows [of w] uuid_name [of w u w']
  by (auto simp: kept_def quiet_def)

lemma insert_attempts_quiet: "insert_attempts sv ev now rules ts w = (ts', w') \<Longrightarrow> quiet w w'"
proof (induction rules arbitrary: ts w)
  case (Cons r rules)
  obtain u w1 where u: "sv_uuid sv w = (u, w1)" by (cases "sv_uuid sv w")
  obtain res w2 where i: "sv_insert_pending sv (pending_attempt (NotificationAttemptId u) r ev now) w1 = (res, w2)"
    by (cases "sv_insert_pending sv (pending_attempt (NotificationAttemptId u) r ev now) w1")
  have "quiet w w2"
    using quiet_trans quiet_steps(7) [OF u] quiet_steps(4) [OF i] by blast
  moreover have "quiet w2 w'"
    using Cons u i by (cases res) auto
  ultimately show ?case by (rule quiet_trans)
qed (simp add: quiet_refl)

lemma dispatch_lifecycle_quiet: "quiet w (dispatch_lifecycle sv rd rules ev now w)"
proof -
  obtain ts w1 where t: "insert_attempts sv ev now (filter (\<lambda>r. rule_matches r ev) rules) [] w = (ts, w1)"
    by (cases "insert_attempts sv ev now (filter (\<lambda>r. rule_matches r ev) rules) [] w")
  note q = insert_attempts_quiet [OF t]
  have "quiet w (snd (sv_notify sv d w1))" for d
    using quiet_trans [OF q quiet_steps(5)] by (metis prod.collapse)
  with t q show ?thesis
    by (simp add: dispatch_lifecycle_def Let_def)
qed

lemma untouched_quiet:
  assumes "process_engine_events sv rd rules now evs s w = (Done s', w')" and "\<And>i. IncidentTouched i \<notin> set evs"
  shows "quiet w w'"
  using assms
proof (induction evs arbitrary: s w)
  case (Cons ev evs)
  obtain s1 w1 where e: "process_engine_event sv rd rules now ev s w = (Done s1, w1)"
    using process_engine_event_Done [of sv rd rules now ev s w] by blast
  have "quiet w w1"
  proof (cases ev)
    case (SignalRecorded ob)
    with e quiet_steps(3) [of ob w] show ?thesis by (auto split: prod.splits)
  qed (use e Cons.prems(2) dispatch_lifecycle_quiet in \<open>auto simp: quiet_refl\<close>)
  moreover have "quiet w1 w'"
    using Cons.IH [of s1 w1] Cons.prems e by simp
  ultimately show ?case by (rule quiet_trans)
qed (simp add: quiet_refl)

text \<open>A save that succeeds in the end: failed tries that leave the rows alone, then one that writes.\<close>

lemma save_attempts_final:
  assumes "save_attempts sv i indices err w = (Done (Ok ()), w')" and "valid w"
  shows "\<exists>w1. quiet w w1 \<and> sv_save sv i w1 = (Ok (), w')"
  using assms
proof (induction indices arbitrary: err w)
  case (Cons a indices)
  obtain r w1 where s: "sv_save sv i w = (r, w1)" by (cases "sv_save sv i w")
  show ?case
  proof (cases r)
    case (Inr u)
    with Cons.prems s show ?thesis by (intro exI [of _ w]) (simp add: quiet_refl)
  next
    case (Inl e)
    define w2 where "w2 = (if a < length RETRY_DELAYS_MS then sv_sleep_ms sv (RETRY_DELAYS_MS ! a) w1 else w1)"
    have v1: "valid w1"
      using save_valid [OF Cons.prems(2) s] .
    have "quiet w w1"
      using save_Err [OF Cons.prems(2) s [unfolded Inl]] v1 Cons.prems(2) save_drawn [of w i] s
      by (simp add: quiet_def kept_def)
    moreover have "quiet w1 w2"
      by (simp add: w2_def quiet_steps quiet_refl)
    ultimately have q: "quiet w w2" by (rule quiet_trans)
    then have "valid w2"
      using Cons.prems(2) by (simp add: quiet_def)
    with Cons.IH [of "Some e" w2] Cons.prems s Inl obtain w3 where "quiet w2 w3" "sv_save sv i w3 = (Ok (), w')"
      by (auto simp: w2_def Let_def)
    with quiet_trans [OF q] show ?thesis by blast
  qed
qed (simp split: option.splits)

text \<open>Every stored incident has an identifier drawn before.\<close>

definition ids_drawn :: "'w \<Rightarrow> bool" where
  "ids_drawn w \<longleftrightarrow> (\<forall>k i. rows w k = Some i \<longrightarrow> (\<exists>n < drawn w. k = IncidentId (name n)))"

lemma quiet_in_sync: "quiet w w' \<Longrightarrow> in_sync e w \<Longrightarrow> in_sync e w'"
  by (simp add: quiet_def in_sync_def)

lemma quiet_ids_drawn: "quiet w w' \<Longrightarrow> ids_drawn w \<Longrightarrow> ids_drawn w'"
  unfolding quiet_def ids_drawn_def by (metis order_less_le_trans)

lemma name_unused:
  assumes "ids_drawn w" and "drawn w \<le> n" and "n < 2 ^ 128"
  shows "rows w (IncidentId (name n)) = None"
proof (rule ccontr)
  assume "rows w (IncidentId (name n)) \<noteq> None"
  then obtain m where "m < drawn w" "name n = name m"
    using assms(1) unfolding ids_drawn_def by blast
  moreover have "n \<in> {..<2 ^ 128}" "m \<in> {..<2 ^ 128}"
    using \<open>m < drawn w\<close> assms(2,3) by auto
  ultimately have "n = m"
    using name_inj by (auto dest: inj_onD)
  with \<open>m < drawn w\<close> assms(2) show False by simp
qed

lemma lifecycle_untouched: "IncidentTouched i \<notin> set (map Lifecycle ls)"
  by auto

text \<open>The events of a signal that touches an incident, processed in order.\<close>

lemma touched_events:
  assumes "process_engine_events sv rd rules now (SignalRecorded ob # IncidentTouched i # map Lifecycle ls) s w = (Done s', w')"
    and "save_reliable_on c valid sv" and "timely c i" and "valid w"
  obtains w1 w2 where "quiet w w1" "sv_save sv i w1 = (Ok (), w2)" "quiet w2 w'"
proof -
  obtain r w0 where a: "sv_append sv ob w = (r, w0)" by (cases "sv_append sv ob w")
  have q0: "quiet w w0"
    using quiet_steps(3) [OF a] .
  have v0: "valid w0"
    using q0 assms(4) by (simp add: quiet_def)
  then obtain w2 where sv: "save_incident_with_retry sv i w0 = (Done (Ok ()), w2)"
    using assms(2,3) by (auto simp: save_reliable_on_def)
  from v0 obtain w1 where w1: "quiet w0 w1" "sv_save sv i w1 = (Ok (), w2)"
    using save_attempts_final [OF sv [unfolded save_incident_with_retry_def]] by blast
  have "process_engine_events sv rd rules now (map Lifecycle ls) (apply_or_keep s ob) w2 = (Done s', w')"
    using assms(1) a sv by simp
  then have "quiet w2 w'"
    by (rule untouched_quiet) (rule lifecycle_untouched)
  with that w1 quiet_trans [OF q0] show thesis by blast
qed

lemma ids_drawn_save:
  assumes "ids_drawn w1" and "valid w1" and "sv_save sv i w1 = (Ok (), w2)"
    and "\<exists>n < drawn w1. inc_id i = IncidentId (name n)"
  shows "ids_drawn w2"
proof -
  have "drawn w2 = drawn w1"
    using save_drawn [of w1 i] assms(3) by (simp add: kept_def)
  with save_Ok [OF assms(2,3)] assms(1,4) show ?thesis
    unfolding ids_drawn_def by (metis fun_upd_apply option.inject)
qed

text \<open>Saving what a signal touched carries the agreement from the old engine to the new one.\<close>

lemma touched_in_sync:
  assumes p: "process_engine_events sv rd rules now (SignalRecorded ob # IncidentTouched i # map Lifecycle ls) s w = (Done s', w')"
    and rel: "save_reliable_on c valid sv" and sync: "in_sync e w" and ids: "ids_drawn w"
    and i: "\<exists>n < drawn w. inc_id i = IncidentId (name n)" "timely c i"
    and save: "\<And>w1 w2. in_sync e w1 \<Longrightarrow> rows w1 = rows w \<Longrightarrow> sv_save sv i w1 = (Ok (), w2) \<Longrightarrow> in_sync e' w2"
  shows "in_sync e' w' \<and> ids_drawn w'"
proof -
  have "valid w"
    using sync by (simp add: in_sync_def)
  with touched_events [OF p rel i(2)] obtain w1 w2 where w: "quiet w w1" "sv_save sv i w1 = (Ok (), w2)" "quiet w2 w'"
    by blast
  have w1: "in_sync e w1" "ids_drawn w1" "valid w1" "rows w1 = rows w" "drawn w \<le> drawn w1"
    using w(1) quiet_in_sync [OF w(1) sync] quiet_ids_drawn [OF w(1) ids] \<open>valid w\<close> by (auto simp: quiet_def)
  have "in_sync e' w2"
    using save [OF w1(1,4) w(2)] .
  moreover have "ids_drawn w2"
    using ids_drawn_save [OF w1(2,3) w(2)] i(1) w1(5) by (meson order_less_le_trans)
  ultimately show ?thesis
    using w(3) by (blast intro: quiet_in_sync quiet_ids_drawn)
qed

lemma draft_in_sync:
  assumes sync: "in_sync e w" and ids: "ids_drawn w" and rel: "save_reliable_on c valid sv" and now: "c now"
    and u: "sv_uuid sv w = (u, w1)" and v: "sv_uuid sv w1 = (v, w2)" and few: "drawn w2 \<le> 2 ^ 128"
    and h: "engine_handle u v e (RecordSignal d) now = Done (e', Ok evs)"
    and p: "process_engine_events sv rd rules now evs s w2 = (Done s', w')"
  shows "in_sync e' w' \<and> ids_drawn w'"
proof -
  have q2: "quiet w w2"
    using quiet_trans quiet_steps(7) [OF u] quiet_steps(7) [OF v] by blast
  note s2 = quiet_in_sync [OF q2 sync] and i2 = quiet_ids_drawn [OF q2 ids]
  have inv: "open_map_ok (eng_open_incidents e)" and val: "valid w2"
    using s2 by (auto simp: in_sync_def engine_inv_def)
  have vn: "v = name (drawn w1)" "drawn w2 = Suc (drawn w1)" "drawn w \<le> drawn w1"
    using uuid_name [OF v] uuid_name [OF u] by auto
  then have unused: "rows w2 (IncidentId v) = None"
    using name_unused [OF ids vn(3)] few q2 by (simp add: quiet_def)
  have drawn_id: "\<exists>n < drawn w2. inc_id j = IncidentId (name n)" if "hm_get (eng_open_incidents e) fp = Some j" for fp j
    using in_syncD(1) [OF s2 that] i2 by (auto simp: ids_drawn_def)
  obtain spec where e': "e' = e\<lparr>eng_open_incidents := fst (signal_effect u v e spec d now)\<rparr>"
    and evs: "evs = SignalRecorded (build_signal_observation u e d now) # snd (signal_effect u v e spec d now)"
    using h by (auto elim!: engine_handle_OkE)
  obtain m' evs' where eff: "signal_effect u v e spec d now = (m', evs')"
    by (cases "signal_effect u v e spec d now")
  have tim: "timely c i" if "IncidentTouched i \<in> set evs'" for i
    using signal_effect_timely [OF eff, of i] that now in_syncD(1) [OF s2] rows_timely [OF val] by blast
  from inv eff show ?thesis
  proof (cases rule: signal_effect_shapes)
    case same
    have "quiet w2 w'"
      by (rule untouched_quiet [OF p]) (use same evs eff in auto)
    with s2 i2 e' eff same show ?thesis
      by (auto intro: quiet_in_sync quiet_ids_drawn)
  next
    case (upsert fp i ls)
    have m: "eng_open_incidents e' = hm_insert fp i (eng_open_incidents e)"
      using e' eff upsert(1) by simp
    have "\<exists>n < drawn w2. inc_id i = IncidentId (name n)"
      using upsert(4) drawn_id [of fp] vn by (cases "hm_get (eng_open_incidents e) fp") auto
    with p rel s2 i2 show ?thesis
      unfolding evs eff snd_conv upsert(2)
    proof (rule touched_in_sync)
      show "timely c i"
        using tim upsert(2) by simp
      fix x y
      assume "in_sync e x" "rows x = rows w2" "sv_save sv i x = (Ok (), y)"
      with upsert(4) unused in_sync_upsert [OF _ upsert(3) m, of x y] show "in_sync e' y"
        by (auto simp: replaces_def split: option.splits)
    qed
  next
    case (resolve fp j i ls)
    have m: "eng_open_incidents e' = hm_remove fp (eng_open_incidents e)"
      using e' eff resolve(2) by simp
    have "\<exists>n < drawn w2. inc_id i = IncidentId (name n)"
      using drawn_id [OF resolve(1)] resolve(4) by simp
    with p rel s2 i2 show ?thesis
      unfolding evs eff snd_conv resolve(3)
      by (rule touched_in_sync) (use tim resolve(3) in_sync_resolve [OF _ resolve(1,4,5) m] in auto)
  qed
qed

text \<open>Identifiers are only ever drawn.\<close>

lemma save_attempts_drawn: "save_attempts sv i indices err w = (r, w') \<Longrightarrow> drawn w \<le> drawn w'"
proof (induction indices arbitrary: err w)
  case (Cons a indices)
  obtain res w1 where s: "sv_save sv i w = (res, w1)" by (cases "sv_save sv i w")
  have d: "drawn w1 = drawn w"
    using save_drawn [of w i] s by (simp add: kept_def)
  show ?case
  proof (cases res)
    case (Inl e)
    define w2 where "w2 = (if a < length RETRY_DELAYS_MS then sv_sleep_ms sv (RETRY_DELAYS_MS ! a) w1 else w1)"
    have "drawn w1 \<le> drawn w2"
      using quiet_steps(6) [of w1] by (simp add: w2_def quiet_def)
    with Cons.IH [of "Some e" w2] Cons.prems s Inl d show ?thesis by (simp add: w2_def Let_def)
  qed (use Cons.prems s d in simp)
qed (simp split: option.splits)

lemma process_engine_events_drawn:
  "process_engine_events sv rd rules now evs s w = (Done s', w') \<Longrightarrow> drawn w \<le> drawn w'"
proof (induction evs arbitrary: s w)
  case (Cons ev evs)
  obtain s1 w1 where e: "process_engine_event sv rd rules now ev s w = (Done s1, w1)"
    using process_engine_event_Done [of sv rd rules now ev s w] by blast
  have "drawn w \<le> drawn w1"
  proof (cases ev)
    case (IncidentTouched i)
    with e save_attempts_drawn show ?thesis
      by (auto simp: save_incident_with_retry_def simp del: upt_Suc split: prod.splits run.splits)
  next
    case (SignalRecorded ob)
    with e quiet_steps(3) [of ob w] show ?thesis by (auto simp: quiet_def split: prod.splits)
  qed (use e dispatch_lifecycle_quiet in \<open>auto simp: quiet_def\<close>)
  moreover have "drawn w1 \<le> drawn w'"
    using Cons e by simp
  ultimately show ?case by simp
qed simp

lemma process_drafts_drawn:
  "process_drafts sv rd rules now drafts e s w = (Done (e', s'), w') \<Longrightarrow> drawn w \<le> drawn w'"
proof (induction drafts arbitrary: e s w)
  case (Cons d drafts)
  obtain u w1 where u: "sv_uuid sv w = (u, w1)" by (cases "sv_uuid sv w")
  obtain v w2 where v: "sv_uuid sv w1 = (v, w2)" by (cases "sv_uuid sv w1")
  have d2: "drawn w \<le> drawn w2"
    using uuid_name [OF u] uuid_name [OF v] by simp
  obtain e1 r where h: "engine_handle u v e (RecordSignal d) now = Done (e1, r)"
    using engine_handle_not_panicked by (metis run.exhaust surj_pair)
  show ?case
  proof (cases r)
    case (Inl err)
    with Cons.prems u v h have "process_drafts sv rd rules now drafts e1 s w2 = (Done (e', s'), w')" by simp
    with Cons.IH d2 show ?thesis by fastforce
  next
    case (Inr evs)
    obtain s1 w3 where p: "process_engine_events sv rd rules now evs s w2 = (Done s1, w3)"
      using process_engine_events_Done [of sv rd rules now evs s w2] by blast
    with Cons.prems u v h Inr have "process_drafts sv rd rules now drafts e1 s1 w3 = (Done (e', s'), w')" by simp
    with Cons.IH [of e1 s1 w3] process_engine_events_drawn [OF p] d2 show ?thesis by linarith
  qed
qed simp

lemma process_drafts_in_sync:
  assumes "process_drafts sv rd rules now drafts e s w = (Done (e', s'), w')" and "save_reliable_on c valid sv"
    and "in_sync e w" and "ids_drawn w" and "drawn w' \<le> 2 ^ 128" and "c now"
  shows "in_sync e' w' \<and> ids_drawn w' \<and> drawn w \<le> drawn w'"
  using assms
proof (induction drafts arbitrary: e s w)
  case (Cons d drafts)
  obtain u w1 where u: "sv_uuid sv w = (u, w1)" by (cases "sv_uuid sv w")
  obtain v w2 where v: "sv_uuid sv w1 = (v, w2)" by (cases "sv_uuid sv w1")
  have q2: "quiet w w2"
    using quiet_trans quiet_steps(7) [OF u] quiet_steps(7) [OF v] by blast
  obtain e1 r where h: "engine_handle u v e (RecordSignal d) now = Done (e1, r)"
    using engine_handle_not_panicked by (metis run.exhaust surj_pair)
  show ?case
  proof (cases r)
    case (Inl err)
    then have "e1 = e"
      using engine_handle_ErrD h by blast
    with Cons.prems u v h Inl have rest: "process_drafts sv rd rules now drafts e s w2 = (Done (e', s'), w')" by simp
    show ?thesis
      using Cons.IH [OF rest Cons.prems(2) quiet_in_sync [OF q2 Cons.prems(3)] quiet_ids_drawn [OF q2 Cons.prems(4)]
          Cons.prems(5,6)] q2 by (simp add: quiet_def)
  next
    case (Inr evs)
    obtain s1 w3 where p: "process_engine_events sv rd rules now evs s w2 = (Done s1, w3)"
      using process_engine_events_Done [of sv rd rules now evs s w2] by blast
    have rest: "process_drafts sv rd rules now drafts e1 s1 w3 = (Done (e', s'), w')"
      using Cons.prems(1) u v h Inr p by simp
    have d3: "drawn w \<le> drawn w3" "drawn w2 \<le> drawn w3"
      using process_engine_events_drawn [OF p] q2 by (auto simp: quiet_def)
    have "drawn w3 \<le> drawn w'"
      using process_drafts_drawn [OF rest] .
    then have "drawn w2 \<le> 2 ^ 128"
      using d3 Cons.prems(5) by simp
    with draft_in_sync [OF Cons.prems(3,4,2,6) u v _ h [unfolded Inr] p] have "in_sync e1 w3" "ids_drawn w3" by auto
    with Cons.IH [OF rest Cons.prems(2) _ _ Cons.prems(5,6)] d3 show ?thesis by auto
  qed
qed auto

lemma persist_and_apply_quiet: "persist_and_apply sv obs s w = (ok, s', w') \<Longrightarrow> quiet w w'"
proof (induction obs arbitrary: s w)
  case (Cons ob obs)
  obtain r w1 where a: "sv_append sv ob w = (r, w1)" by (cases "sv_append sv ob w")
  with Cons quiet_steps(3) [OF a] show ?case
    by (cases r) (auto intro: quiet_trans)
qed (simp add: quiet_refl)

lemma process_batch_in_sync:
  assumes "process_batch sv rd rules batch cn w = (Done cn', w')" and "save_reliable_on c valid sv"
    and "in_sync (cn_engine cn) w" and "ids_drawn w" and "drawn w' \<le> 2 ^ 128"
  shows "in_sync (cn_engine cn') w' \<and> ids_drawn w' \<and> drawn w \<le> drawn w'"
proof -
  obtain now w1 where now: "sv_now sv w = (now, w1)" by (cases "sv_now sv w")
  obtain t w2 where t: "sv_instant sv w1 = (t, w2)" by (cases "sv_instant sv w1")
  have q2: "quiet w w2"
    using quiet_trans quiet_steps(1) [OF now] quiet_steps(2) [OF t] by blast
  have ok: "in_sync (cn_engine cn) x \<and> ids_drawn x \<and> drawn w \<le> drawn x" if "quiet w x" for x
    using that assms(3,4) quiet_in_sync quiet_ids_drawn by (auto simp: quiet_def)
  show ?thesis
  proof (cases "observations_from_batch batch")
    case Nil
    with now t assms(1) ok [OF q2] show ?thesis by (simp add: process_batch_def)
  next
    case (Cons first rest)
    obtain full s w3 where p: "persist_and_apply sv (first # rest) (cn_read_models cn) w2 = (full, s, w3)"
      by (cases "persist_and_apply sv (first # rest) (cn_read_models cn) w2")
    have q3: "quiet w w3"
      using quiet_trans [OF q2 persist_and_apply_quiet [OF p]] .
    obtain rules' drafts where ev: "evaluate_rules (cn_rules cn) (store_context s now t (obs_subject first)) = (rules', drafts)"
      by (cases "evaluate_rules (cn_rules cn) (store_context s now t (obs_subject first))")
    obtain e s' w4 where d: "process_drafts sv rd rules now drafts (cn_engine cn) s w3 = (Done (e, s'), w4)"
      using process_drafts_Done [of sv rd rules now drafts "cn_engine cn" s w3] by blast
    show ?thesis
    proof (cases full)
      case False
      with assms(1) now t Cons p ok [OF q3] show ?thesis
        by (auto simp: process_batch_def simp del: observations_from_batch.simps persist_and_apply.simps)
    next
      case True
      with assms(1) now t Cons p ev d have "cn_engine cn' = e" "w' = w4"
        by (auto simp: process_batch_def simp del: observations_from_batch.simps persist_and_apply.simps)
      with process_drafts_in_sync [OF d assms(2)] ok [OF q3] assms(5) now_in [OF now] show ?thesis by fastforce
    qed
  qed
qed

lemma process_batch_drawn:
  assumes "process_batch sv rd rules batch cn w = (Done cn', w')"
  shows "drawn w \<le> drawn w'"
proof -
  obtain now w1 where now: "sv_now sv w = (now, w1)" by (cases "sv_now sv w")
  obtain t w2 where t: "sv_instant sv w1 = (t, w2)" by (cases "sv_instant sv w1")
  have q2: "quiet w w2"
    using quiet_trans quiet_steps(1) [OF now] quiet_steps(2) [OF t] by blast
  show ?thesis
  proof (cases "observations_from_batch batch")
    case Nil
    with now t assms q2 show ?thesis by (simp add: process_batch_def quiet_def)
  next
    case (Cons first rest)
    obtain full s w3 where p: "persist_and_apply sv (first # rest) (cn_read_models cn) w2 = (full, s, w3)"
      by (cases "persist_and_apply sv (first # rest) (cn_read_models cn) w2")
    have q3: "drawn w \<le> drawn w3"
      using quiet_trans [OF q2 persist_and_apply_quiet [OF p]] by (simp add: quiet_def)
    obtain rules' drafts where ev: "evaluate_rules (cn_rules cn) (store_context s now t (obs_subject first)) = (rules', drafts)"
      by (cases "evaluate_rules (cn_rules cn) (store_context s now t (obs_subject first))")
    obtain e s' w4 where d: "process_drafts sv rd rules now drafts (cn_engine cn) s w3 = (Done (e, s'), w4)"
      using process_drafts_Done [of sv rd rules now drafts "cn_engine cn" s w3] by blast
    show ?thesis
      using assms now t Cons p ev d q3 process_drafts_drawn [OF d]
      by (cases full) (auto simp: process_batch_def simp del: observations_from_batch.simps persist_and_apply.simps)
  qed
qed

lemma process_all_drawn: "process_all sv rd rules bs (cn, w) = (cn', w') \<Longrightarrow> drawn w \<le> drawn w'"
proof (induction bs arbitrary: cn w)
  case (Cons b bs)
  obtain cn1 w1 where b: "process_batch sv rd rules b cn w = (Done cn1, w1)"
    using process_batch_Done [of sv rd rules b cn w] by blast
  show ?case
    using Cons b process_batch_drawn [OF b] by (force intro: order_trans)
qed simp

lemma process_all_in_sync:
  assumes "process_all sv rd rules bs (cn, w) = (cn', w')" and "save_reliable_on c valid sv"
    and "in_sync (cn_engine cn) w" and "ids_drawn w" and "drawn w' \<le> 2 ^ 128"
  shows "in_sync (cn_engine cn') w' \<and> ids_drawn w'"
  using assms
proof (induction bs arbitrary: cn w)
  case (Cons b bs)
  obtain cn1 w1 where b: "process_batch sv rd rules b cn w = (Done cn1, w1)"
    using process_batch_Done [of sv rd rules b cn w] by blast
  have rest: "process_all sv rd rules bs (cn1, w1) = (cn', w')"
    using Cons.prems(1) b by simp
  have "drawn w1 \<le> drawn w'"
    using process_all_drawn [OF rest] .
  with process_batch_in_sync [OF b Cons.prems(2,3,4)] Cons.prems(5)
  have "in_sync (cn_engine cn1) w1" "ids_drawn w1" by auto
  with Cons.IH [OF rest Cons.prems(2) _ _ Cons.prems(5)] show ?case by blast
qed auto

end

text \<open>
  On the memory world: the outside draws its identifiers by number, whatever the
  faults. Any outside that names its draws distinctly will do.
\<close>

definition unique_ids :: "(nat \<Rightarrow> uuid) \<Rightarrow> ('n \<Rightarrow> nat) \<Rightarrow> 'n outside \<Rightarrow> bool" where
  "unique_ids name drawn out \<longleftrightarrow> inj_on name {..<2 ^ 128} \<and>
     (\<forall>n. fst (ou_uuid out n) = name (drawn n) \<and> drawn (snd (ou_uuid out n)) = Suc (drawn n)) \<and>
     (\<forall>n. drawn (snd (ou_now out n)) = drawn n \<and> drawn (snd (ou_instant out n)) = drawn n \<and>
        drawn (snd (ou_append_fault out n)) = drawn n \<and> drawn (snd (ou_save_fault out n)) = drawn n \<and>
        drawn (snd (ou_insert_fault out n)) = drawn n \<and> drawn (snd (ou_channel_open out n)) = drawn n) \<and>
     (\<forall>ms n. drawn (ou_sleep_ms out ms n) = drawn n)"

definition mw_valid :: "'n memory_world \<Rightarrow> bool" where
  "mw_valid w = hm_wf (mir_inner (mw_incidents w))"

definition mw_load_open :: "'n memory_world \<Rightarrow> incident_repo_error + incident list" where
  "mw_load_open w = mir_load_open (mw_incidents w)"

lemma mw_consumer_sync:
  assumes "unique_ids name drawn out"
  shows "consumer_sync (mw_services out) mw_load_open mw_incident_rows mw_valid (\<lambda>w. drawn (mw_outside w)) name
    (\<lambda>_. True)"
proof unfold_locales
  fix w w' :: "'a memory_world" and i e res "is" u a ob d ms
  note ids = assms [unfolded unique_ids_def]
  show "mw_valid w \<Longrightarrow> sv_save (mw_services out) i w = (Ok (), w') \<Longrightarrow>
      mw_incident_rows w' = (mw_incident_rows w)(inc_id i \<mapsto> i)"
    by (auto simp: faulty_def mw_save_def mir_save_def mw_incident_rows_def split: prod.splits option.splits)
  show "mw_valid w \<Longrightarrow> sv_save (mw_services out) i w = (Err e, w') \<Longrightarrow> mw_incident_rows w' = mw_incident_rows w"
    by (auto simp: faulty_def mw_save_def mir_save_def mw_incident_rows_def split: prod.splits option.splits)
  show "mw_valid w \<Longrightarrow> sv_save (mw_services out) i w = (res, w') \<Longrightarrow> mw_valid w'"
    by (auto simp: faulty_def mw_save_def mir_save_def mw_valid_def split: prod.splits option.splits)
  show "mw_valid w \<Longrightarrow> mw_load_open w = Ok is \<Longrightarrow>
      set is = {i. \<exists>k. mw_incident_rows w k = Some i \<and> inc_status i \<noteq> StResolved}"
    using mir.load_open_set by (simp add: mw_valid_def mw_load_open_def mw_incident_rows_def)
  show "mw_valid w \<Longrightarrow> mw_load_open w = Ok is \<Longrightarrow> (\<And>k i. mw_incident_rows w k = Some i \<Longrightarrow> inc_id i = k) \<Longrightarrow>
      distinct (map inc_id is)"
    using mir.load_open_distinct [of "mw_incidents w" "is"] by (simp add: mw_valid_def mw_load_open_def mw_incident_rows_def)
  let ?part = "\<lambda>w. (mw_incident_rows w, mw_valid w, drawn (mw_outside w))"
  show "kept ?part w (sv_now (mw_services out) w)" "kept ?part w (sv_instant (mw_services out) w)"
    "kept ?part w (sv_append (mw_services out) ob w)" "kept ?part w (sv_insert_pending (mw_services out) a w)"
    "kept ?part w (sv_notify (mw_services out) d w)" "kept ?part w ((), sv_sleep_ms (mw_services out) ms w)"
    "kept (\<lambda>w. (mw_incident_rows w, mw_valid w)) w (sv_uuid (mw_services out) w)"
    "kept (\<lambda>w. drawn (mw_outside w)) w (sv_save (mw_services out) i w)"
    using ids
    by (simp_all add: kept_def on_outside_def faulty_def mw_append_def mw_insert_pending_def mw_save_def mw_services_def
        mw_incident_rows_def mw_valid_def Let_def split: prod.split option.split) (metis snd_conv)+
  show "sv_uuid (mw_services out) w = (u, w') \<Longrightarrow> u = name (drawn (mw_outside w)) \<and>
      drawn (mw_outside w') = Suc (drawn (mw_outside w))"
    using ids by (auto simp: on_outside_def split: prod.splits) (metis fst_conv snd_conv)+
  show "inj_on name {..<2 ^ 128}"
    using ids by blast
  show "timely (\<lambda>_. True) i"
    by (simp add: timely_def)
qed simp

definition numbered :: "'n outside \<Rightarrow> (nat \<times> 'n) outside" where
  "numbered out =
     \<lparr>ou_now = (\<lambda>(k, n). let (r, n) = ou_now out n in (r, (k, n))),
      ou_instant = (\<lambda>(k, n). let (r, n) = ou_instant out n in (r, (k, n))),
      ou_uuid = (\<lambda>(k, n). (of_nat k, (Suc k, n))),
      ou_sleep_ms = (\<lambda>ms (k, n). (k, ou_sleep_ms out ms n)),
      ou_append_fault = (\<lambda>(k, n). let (r, n) = ou_append_fault out n in (r, (k, n))),
      ou_save_fault = (\<lambda>(k, n). let (r, n) = ou_save_fault out n in (r, (k, n))),
      ou_insert_fault = (\<lambda>(k, n). let (r, n) = ou_insert_fault out n in (r, (k, n))),
      ou_channel_open = (\<lambda>(k, n). let (r, n) = ou_channel_open out n in (r, (k, n)))\<rparr>"

lemma of_nat_uuid_inj: "inj_on (of_nat :: nat \<Rightarrow> uuid) {..<2 ^ 128}"
proof (rule inj_onI)
  fix m n :: nat
  assume "m \<in> {..<2 ^ 128}" "n \<in> {..<2 ^ 128}" and eq: "(of_nat m :: uuid) = of_nat n"
  then have "take_bit 128 m = m" "take_bit 128 n = n"
    by (simp_all add: take_bit_nat_eq_self)
  with arg_cong [OF eq, of unat] show "m = n"
    by (simp add: unat_of_nat take_bit_eq_mod)
qed

lemma numbered_unique: "unique_ids of_nat fst (numbered out)"
  unfolding unique_ids_def
  by (intro conjI of_nat_uuid_inj) (auto simp: numbered_def split: prod.split)

interpretation mws: consumer_sync "mw_services (numbered out)" mw_load_open mw_incident_rows mw_valid
    "\<lambda>w. fst (mw_outside w)" of_nat "\<lambda>_. True" for out
  by (rule mw_consumer_sync) (rule numbered_unique)

section \<open>Properties of the pipeline\<close>


text \<open>C7. An observation is persisted before it is applied.
  Whatever fails, the observations of a batch that reached the read models are
  exactly those appended to the log, a prefix of the batch in order; the batch counts
  as complete only when all of it is there.\<close>

theorem batch_logged_before_applied:
  assumes "persist_and_apply (mw_services out) obs s w = (full, s', w')"
  shows "\<exists>k \<le> length obs. mw_logged w' = mw_logged w @ take k obs \<and>
    s' = foldl apply_or_keep s (take k obs) \<and> (full \<longleftrightarrow> k = length obs)"
  using mwl.persist_and_apply_prefix [OF assms] by blast

text \<open>C8. The log rebuilds the read models.
  With a log that does not fail, whatever else fails, the read models after any run
  are those before it with the appended observations applied in the order of the log:
  nothing is applied that the log does not hold, and nothing it holds is missing.\<close>

theorem log_rebuilds_read_models:
  assumes "append_reliable (mw_services out)"
    and "consumer_run (process_batch (mw_services out) rd rules) inputs cn w = (Done cn', w')"
  shows "\<exists>new. mw_logged w' = mw_logged w @ new \<and>
    cn_read_models cn' = foldl apply_or_keep (cn_read_models cn) new"
proof -
  have "process_all (mw_services out) rd rules (batches inputs) (cn, w) = (cn', w')"
    using assms(2) by (auto simp: consumer_run_process_all)
  from mwl.process_all_logs [OF this] assms(1) show ?thesis
    by (simp add: mwl.logs_def)
qed

text \<open>Saving an incident tries three times, with pauses of 100 and 500 milliseconds.
  The result is the first success, or the error of the third try; the \<open>expect\<close> after
  the loop is never reached.\<close>

lemma save_retry_policy:
  "save_incident_with_retry sv i w =
     (case sv_save sv i w of
        (Ok _, w) \<Rightarrow> (Done (Ok ()), w)
      | (Err _, w) \<Rightarrow>
          (case sv_save sv i (sv_sleep_ms sv 100 w) of
             (Ok _, w) \<Rightarrow> (Done (Ok ()), w)
           | (Err _, w) \<Rightarrow>
               (case sv_save sv i (sv_sleep_ms sv 500 w) of
                  (Ok _, w) \<Rightarrow> (Done (Ok ()), w)
                | (Err e, w) \<Rightarrow> (Done (Err e), w))))"
  by (simp add: save_incident_with_retry_def RETRY_DELAYS_MS_def upt_rec split: prod.split sum.split)

text \<open>A restart restores the open incidents.
  When saves succeed within their retries and identifiers do not repeat, the
  repository stays in step with the engine over any run, whatever else fails: an
  engine built from \<open>load_open\<close> afterwards has the same open incidents, the
  construction does not panic, and it is in step with the repository again.\<close>

lemma restart_restores_open_incidents:
  fixes out :: "'n outside"
  assumes "unique_ids name drawn out" and "save_reliable (mw_services out)"
    and "mir.in_sync (cn_engine cn) (mw_incidents w)"
    and "\<forall>k i. mir_get k (mw_incidents w) = Ok (Some i) \<longrightarrow> (\<exists>n < drawn (mw_outside w). k = IncidentId (name n))"
    and "consumer_run (process_batch (mw_services out) rd rules) inputs cn w = (Done cn', w')"
    and "drawn (mw_outside w') \<le> 2 ^ 128"
  shows "\<exists>is e'. mir_load_open (mw_incidents w') = Ok is \<and>
    incident_engine_new kinds sidecar source is = Done e' \<and>
    hm_get (eng_open_incidents e') = hm_get (eng_open_incidents (cn_engine cn')) \<and>
    mir.in_sync e' (mw_incidents w')"
proof -
  note sync = mw_consumer_sync [OF assms(1)]
  have view: "incident_repository.in_sync mw_incident_rows mw_valid e v \<longleftrightarrow> mir.in_sync e (mw_incidents v)"
    for e and v :: "'n memory_world"
    unfolding incident_repository.in_sync_def [OF consumer_sync.axioms(1) [OF sync]] mir.in_sync_def
    by (simp add: mw_incident_rows_def mw_valid_def)
  have run: "process_all (mw_services out) rd rules (batches inputs) (cn, w) = (cn', w')"
    using assms(5) by (auto simp: consumer_run_process_all)
  have "consumer_sync.ids_drawn mw_incident_rows (\<lambda>w. drawn (mw_outside w)) name w"
    using assms(4) by (simp add: consumer_sync.ids_drawn_def [OF sync] mw_incident_rows_def mir_get_def)
  then have s: "mir.in_sync (cn_engine cn') (mw_incidents w')"
    using consumer_sync.process_all_in_sync [OF sync run save_reliable_on [OF assms(2)]] assms(3,6) by (simp add: view)
  obtain "is" where l: "mir_load_open (mw_incidents w') = Ok is"
    by (simp add: mir_load_open_def)
  obtain e' where e': "incident_engine_new kinds sidecar source is = Done e'"
    "hm_get (eng_open_incidents e') = hm_get (eng_open_incidents (cn_engine cn'))"
    using mir.rebuild [OF s l] by blast
  have "mir.in_sync e' (mw_incidents w')"
    using s e' incident_engine_new_DoneD(2) [OF e'(1)]
    by (simp add: mir.in_sync_def engine_inv_def open_map_ok_iff)
  with l e' show ?thesis by blast
qed

text \<open>An outside in which nothing fails but, when asked at time \<open>1\<close>, the log.\<close>

definition sample_outside :: "bool \<Rightarrow> int outside" where
  "sample_outside fails =
     \<lparr>ou_now = (\<lambda>t. (t, t + 1)), ou_instant = (\<lambda>t. (nat t, t + 1)), ou_uuid = (\<lambda>t. (of_int t, t + 1)),
      ou_sleep_ms = (\<lambda>ms t. t + int ms),
      ou_append_fault = (\<lambda>t. (if fails \<and> t = 1 then Some StoreNotInitialized else None, t + 1)),
      ou_save_fault = (\<lambda>t. (None, t + 1)), ou_insert_fault = (\<lambda>t. (None, t + 1)),
      ou_channel_open = (\<lambda>t. (True, t + 1))\<rparr>"

definition sample_store :: read_model_store where
  "sample_store = \<lparr>rms_state = state_projection_new, rms_metric = \<lparr>mpr_capacity = 2, mpr_by_key = []\<rparr>,
     rms_health = health_projection_new, rms_capability = capability_projection_new,
     rms_heartbeat = \<lparr>hbp_capacity = 1, hbp_history = []\<rparr>, rms_incident_signal = incident_signal_projection_new\<rparr>"

definition sample_batch :: "observation list \<Rightarrow> observation_batch" where
  "sample_batch obs =
     \<lparr>batch_id = ObservationBatchId 1, batch_collector = src_collector sample_source, batch_sidecar_id = SidecarId 1,
      batch_window = \<lparr>pw_started_at = 0, pw_completed_at = 0\<rparr>, batch_result = ProbeOk obs\<rparr>"

definition sample_renderers :: renderers where
  "sample_renderers = \<lparr>rd_incident_id = (\<lambda>_. ''id''), rd_subject = (\<lambda>_. ''subject'')\<rparr>"

theorem batch_logged_before_applied_witness:
  "\<exists>s' w'. persist_and_apply (mw_services (sample_outside True)) [sample_state 1 20 True, sample_state 2 10 False]
       sample_store (sample_world 0 []) = (False, s', w') \<and>
     mw_logged w' = [sample_state 1 20 True] \<and> s' = apply_or_keep sample_store (sample_state 1 20 True)"
proof -
  let ?run = "persist_and_apply (mw_services (sample_outside True)) [sample_state 1 20 True, sample_state 2 10 False]
    sample_store (sample_world 0 [])"
  obtain full s' w' where run: "?run = (full, s', w')"
    by (cases ?run)
  have l: "mw_logged w' = [sample_state 1 20 True]" and f: "\<not> full"
    using run by (auto simp: faulty_def mw_append_def sample_outside_def sample_world_def memory_defs mw_logged_def)
  from batch_logged_before_applied [OF run] obtain k where
    "mw_logged w' = mw_logged (sample_world (0 :: int) []) @ take k [sample_state 1 20 True, sample_state 2 10 False]"
    "s' = foldl apply_or_keep sample_store (take k [sample_state 1 20 True, sample_state 2 10 False])"
    by blast
  with l have "s' = foldl apply_or_keep sample_store [sample_state 1 20 True]"
    by (simp add: sample_world_def mw_logged_def memory_defs)
  with run l f show ?thesis by simp
qed

lemma sample_reliable: "append_reliable (mw_services (numbered (sample_outside False)))"
  by (auto simp: append_reliable_def faulty_def numbered_def sample_outside_def mw_append_def memory_defs split: prod.split)

theorem log_rebuilds_read_models_witness:
  "\<exists>cn' w'. consumer_run (process_batch (mw_services (numbered (sample_outside False))) sample_renderers [])
       [GotBatch (sample_batch [sample_state 1 20 True]), GotShutdown, GotBatch (sample_batch [sample_state 2 30 False])]
       \<lparr>cn_rules = [], cn_read_models = sample_store, cn_engine = sample_engine\<rparr> (sample_world (0, 0) []) = (Done cn', w') \<and>
     mw_logged w' = [sample_state 1 20 True, sample_state 2 30 False] \<and>
     cn_read_models cn' = foldl apply_or_keep sample_store (mw_logged w')"
proof -
  let ?run = "consumer_run (process_batch (mw_services (numbered (sample_outside False))) sample_renderers [])
       [GotBatch (sample_batch [sample_state 1 20 True]), GotShutdown, GotBatch (sample_batch [sample_state 2 30 False])]
       \<lparr>cn_rules = [], cn_read_models = sample_store, cn_engine = sample_engine\<rparr> (sample_world (0, 0) [])"
  obtain cn' w' where run: "?run = (Done cn', w')"
    by (simp only: consumer_run_process_all)
  have l: "mw_logged w' = [sample_state 1 20 True, sample_state 2 30 False]"
    using run by (auto simp: process_batch_def on_outside_def faulty_def mw_append_def numbered_def sample_outside_def
        sample_world_def sample_batch_def memory_defs mw_logged_def)
  from log_rebuilds_read_models [OF sample_reliable run] l show ?thesis
    using run by (auto simp: sample_world_def mw_logged_def memory_defs)
qed

definition sample_open :: incident where
  "sample_open = (sample_incident SevWarning StOpen)\<lparr>inc_id := IncidentId 0,
     inc_signal_observation_ids := [ObservationId 3]\<rparr>"

definition sample_consumer :: consumer where
  "sample_consumer = \<lparr>cn_rules = [], cn_read_models = sample_store,
     cn_engine = sample_engine\<lparr>eng_open_incidents := [(inc_fingerprint sample_open, sample_open)]\<rparr>\<rparr>"

definition sample_stored :: "(nat \<times> int) memory_world" where
  "sample_stored = (sample_world (1, 0) [])\<lparr>mw_incidents := \<lparr>mir_inner = [(IncidentId 0, sample_open)]\<rparr>\<rparr>"

lemma sample_in_sync: "mir.in_sync (cn_engine sample_consumer) (mw_incidents sample_stored)"
proof -
  have "open_incident_ok (inc_fingerprint sample_open) sample_open"
    by (simp add: sample_open_def sample_incident_def open_incident_ok_def compute_fingerprint_def sample_draft_def)
  moreover have "inc_id sample_open = IncidentId 0" "inc_status sample_open = StOpen"
    by (simp_all add: sample_open_def sample_incident_def)
  ultimately show ?thesis
    unfolding mir.in_sync_def
    by (auto simp: sample_consumer_def sample_stored_def engine_inv_def open_map_ok_def hm_wf_def
        hm_get_def split: if_splits)
qed

end
