(* ===== verification/Notification_Flow.thy ===== *)
theory Notification_Flow
  imports Consumer_Correct
begin

text \<open>
  From a lifecycle event to the completed attempts: what the consumer's dispatch
  (\<open>runtime/consumer.rs\<close>) inserts and sends, and the composition with the
  notification worker (\<open>runtime/notification_worker.rs\<close>), on the memory world with
  arbitrary faults.
\<close>

section \<open>Handing events to the worker\<close>

lemma mw_uuid_rows:
  "sv_uuid (mw_services out) w = (u, w') \<Longrightarrow> mw_row w' = mw_row w \<and> mw_dispatches w' = mw_dispatches w"
  by (auto simp: on_outside_def mw_row_def split: prod.splits)

lemma mw_insert_rows:
  assumes "sv_insert_pending (mw_services out) a w = (r, w')"
  shows "mw_dispatches w' = mw_dispatches w \<and>
    (case r of Err _ \<Rightarrow> mw_row w' = mw_row w
     | Ok _ \<Rightarrow> mw_row w (na_id a) = None \<and> mw_row w' = (mw_row w)(na_id a \<mapsto> a))"
  using assms
  by (auto simp: faulty_def mw_insert_pending_def mar_insert_pending_def mw_row_def hm_contains_key_def
      split: prod.splits option.splits if_splits simp del: hm_contains_key_iff)

lemma na_id_pending [simp]: "na_id (pending_attempt k r ev now) = k"
  by (simp add: pending_attempt_def split: prod.split)

text \<open>The rows of the targets collected so far, and nothing else, are new.\<close>

definition inserted ::
    "incident_lifecycle_event \<Rightarrow> datetime \<Rightarrow> notification_rule list \<Rightarrow> 'n memory_world \<Rightarrow>
     (notification_attempt_id \<times> notification_target) list \<Rightarrow> 'n memory_world \<Rightarrow> bool" where
  "inserted ev now rules w new w' \<longleftrightarrow> distinct (map fst new) \<and> mw_dispatches w' = mw_dispatches w \<and>
     (\<forall>(k, t) \<in> set new. mw_row w k = None \<and>
        (\<exists>r \<in> set rules. nr_target r = t \<and> mw_row w' k = Some (pending_attempt k r ev now))) \<and>
     (\<forall>k. k \<notin> fst ` set new \<longrightarrow> mw_row w' k = mw_row w k)"

lemma inserted_kept: "inserted ev now rules w new w' \<Longrightarrow> mw_row w k \<noteq> None \<Longrightarrow> mw_row w' k = mw_row w k"
proof -
  assume i: "inserted ev now rules w new w'" and k: "mw_row w k \<noteq> None"
  then have "k \<notin> fst ` set new" by (auto simp: inserted_def)
  with i show ?thesis by (simp add: inserted_def)
qed

lemma inserted_skip:
  "mw_row w1 = mw_row w \<Longrightarrow> mw_dispatches w1 = mw_dispatches w \<Longrightarrow> inserted ev now rules w1 new w' \<Longrightarrow>
     inserted ev now (r # rules) w new w'"
  by (auto simp: inserted_def)

lemma inserted_Cons:
  assumes "mw_row w k = None" and "mw_row w1 = (mw_row w)(k \<mapsto> pending_attempt k r ev now)"
    and "mw_dispatches w1 = mw_dispatches w" and "inserted ev now rules w1 new w'"
  shows "inserted ev now (r # rules) w ((k, nr_target r) # new) w'"
proof -
  have k: "k \<notin> fst ` set new"
    using assms(2,4) by (auto simp: inserted_def)
  have "mw_row w' k = Some (pending_attempt k r ev now)"
    using assms(2,4) k by (simp add: inserted_def)
  moreover have "mw_row w k' = None \<and> (\<exists>r' \<in> set (r # rules). nr_target r' = t \<and> mw_row w' k' = Some (pending_attempt k' r' ev now))"
    if "(k', t) \<in> set new" for k' t
    using that assms(2,4) k by (fastforce simp: inserted_def split: if_splits)
  moreover have "mw_row w' k' = mw_row w k'" if "k' \<noteq> k" "k' \<notin> fst ` set new" for k'
    using that assms(2,4) by (simp add: inserted_def)
  ultimately show ?thesis
    using assms k by (auto simp: inserted_def)
qed

lemma insert_attempts_inserted:
  assumes "insert_attempts (mw_services out) ev now rules ts w = (ts', w')"
  shows "\<exists>new. ts' = ts @ new \<and> inserted ev now rules w new w'"
  using assms
proof (induction rules arbitrary: ts w)
  case Nil
  then show ?case by (auto simp: inserted_def)
next
  case (Cons r rules)
  obtain u w1 where u: "sv_uuid (mw_services out) w = (u, w1)" by (cases "sv_uuid (mw_services out) w")
  let ?a = "pending_attempt (NotificationAttemptId u) r ev now"
  obtain res w2 where i: "sv_insert_pending (mw_services out) ?a w1 = (res, w2)"
    by (cases "sv_insert_pending (mw_services out) ?a w1")
  note rows = mw_uuid_rows [OF u] mw_insert_rows [OF i]
  show ?case
  proof (cases res)
    case (Inl e)
    with Cons.prems u i have "insert_attempts (mw_services out) ev now rules ts w2 = (ts', w')"
      by (simp del: mw_services_sel)
    with Cons.IH obtain new where "ts' = ts @ new" "inserted ev now rules w2 new w'" by blast
    with rows Inl inserted_skip show ?thesis by fastforce
  next
    case (Inr x)
    with Cons.prems u i
    have "insert_attempts (mw_services out) ev now rules (ts @ [(NotificationAttemptId u, nr_target r)]) w2 = (ts', w')"
      by (simp del: mw_services_sel)
    with Cons.IH obtain new where new: "ts' = (ts @ [(NotificationAttemptId u, nr_target r)]) @ new"
        "inserted ev now rules w2 new w'" by blast
    have "inserted ev now (r # rules) w ((NotificationAttemptId u, nr_target r) # new) w'"
      by (rule inserted_Cons [OF _ _ _ new(2)]) (use rows Inr in auto)
    with new(1) show ?thesis by simp
  qed
qed

text \<open>C10. A dispatch names exactly the pending rows inserted for it.
  Whatever fails, a lifecycle event inserts only new rows, each pending, for a rule
  that matches the event, and paired with that rule's target; it sends at most one
  dispatch, whose targets are those rows, each once. Rows that existed are untouched.\<close>

theorem dispatch_pairs_rows_and_targets:
  "\<exists>new. (\<forall>(k, t) \<in> set new. mw_row w k = None \<and>
       (\<exists>r \<in> set rules. rule_matches r ev \<and> nr_target r = t \<and>
          mw_row (dispatch_lifecycle (mw_services out) rd rules ev now w) k = Some (pending_attempt k r ev now))) \<and>
     distinct (map fst new) \<and>
     (\<forall>k. k \<notin> fst ` set new \<longrightarrow> mw_row (dispatch_lifecycle (mw_services out) rd rules ev now w) k = mw_row w k) \<and>
     (mw_dispatches (dispatch_lifecycle (mw_services out) rd rules ev now w) = mw_dispatches w \<or>
      new \<noteq> [] \<and> mw_dispatches (dispatch_lifecycle (mw_services out) rd rules ev now w) = mw_dispatches w @
        [\<lparr>nd_event = ev, nd_message = compose_notification_message rd ev now, nd_attempts = map fst new,
          nd_targets = new\<rparr>])"
proof -
  obtain new w1 where i: "insert_attempts (mw_services out) ev now (filter (\<lambda>r. rule_matches r ev) rules) [] w = (new, w1)"
    by (cases "insert_attempts (mw_services out) ev now (filter (\<lambda>r. rule_matches r ev) rules) [] w")
  have new: "inserted ev now (filter (\<lambda>r. rule_matches r ev) rules) w new w1"
    using insert_attempts_inserted [OF i] by auto
  let ?w' = "dispatch_lifecycle (mw_services out) rd rules ev now w"
  have w': "?w' = (if new = [] then w1 else snd (sv_notify (mw_services out) \<lparr>nd_event = ev,
      nd_message = compose_notification_message rd ev now, nd_attempts = map fst new, nd_targets = new\<rparr> w1))"
    using i by (simp add: dispatch_lifecycle_def)
  then have "mw_row ?w' = mw_row w1"
    by (simp add: mw_services_def mw_row_def Let_def split: prod.split)
  moreover have "mw_dispatches ?w' = mw_dispatches w1 \<or> new \<noteq> [] \<and> mw_dispatches ?w' = mw_dispatches w1 @
      [\<lparr>nd_event = ev, nd_message = compose_notification_message rd ev now, nd_attempts = map fst new, nd_targets = new\<rparr>]"
    using w' by (simp add: mw_services_def Let_def split: prod.split)
  ultimately show ?thesis
    using new by (intro exI [of _ new]) (fastforce simp: inserted_def)
qed

theorem dispatch_pairs_rows_and_targets_witness:
  "\<exists>k. mw_row (dispatch_lifecycle (mw_services (numbered (sample_outside False))) sample_renderers [sample_rule]
        (Opened (sample_incident SevWarning StOpen)) 5 (sample_world (0, 0) [])) k =
      Some (pending_attempt k sample_rule (Opened (sample_incident SevWarning StOpen)) 5)"
proof -
  let ?ev = "Opened (sample_incident SevWarning StOpen)"
  let ?w' = "dispatch_lifecycle (mw_services (numbered (sample_outside False))) sample_renderers [sample_rule] ?ev 5
    (sample_world (0, 0) [])"
  have d: "mw_dispatches ?w' \<noteq> mw_dispatches (sample_world (0, 0) [])"
    by (simp add: dispatch_lifecycle_def rule_matches_def sample_rule_def severity_at_least_def sample_incident_def
        on_outside_def numbered_def sample_outside_def faulty_def mw_insert_pending_def mar_insert_pending_def
        sample_world_def hm_contains_key_def mw_services_def Let_def del: hm_contains_key_iff)
  show ?thesis
    using dispatch_pairs_rows_and_targets [of "sample_world (0, 0) []" "[sample_rule]" ?ev
      "numbered (sample_outside False)" sample_renderers 5]
  proof (elim exE conjE)
    fix new
    assume rows: "\<forall>(k, t) \<in> set new. mw_row (sample_world (0, 0) []) k = None \<and>
        (\<exists>r \<in> set [sample_rule]. rule_matches r ?ev \<and> nr_target r = t \<and> mw_row ?w' k = Some (pending_attempt k r ?ev 5))"
      and sent: "mw_dispatches ?w' = mw_dispatches (sample_world (0, 0) []) \<or>
        new \<noteq> [] \<and> mw_dispatches ?w' = mw_dispatches (sample_world (0, 0) []) @
          [\<lparr>nd_event = ?ev, nd_message = compose_notification_message sample_renderers ?ev 5,
            nd_attempts = map fst new, nd_targets = new\<rparr>]"
    from d sent obtain k t where "(k, t) \<in> set new" by (cases new) auto
    with rows have "mw_row ?w' k = Some (pending_attempt k sample_rule ?ev 5)" by auto
    then show ?thesis by blast
  qed
qed

text \<open>With distinct identifiers and no fault every rule gets its row.\<close>

lemma insert_attempts_drawn:
  assumes "unique_ids name drawn out" and "insert_attempts (mw_services out) ev now rules ts w = (ts', w')"
  shows "drawn (mw_outside w) \<le> drawn (mw_outside w')"
  using consumer_sync.insert_attempts_quiet [OF mw_consumer_sync [OF assms(1)] assms(2)]
  by (simp add: consumer_sync.quiet_def [OF mw_consumer_sync [OF assms(1)]])

text \<open>One round of the loop when no insert fails: the row is new, because its identifier is.\<close>

definition rows_numbered :: "(nat \<Rightarrow> uuid) \<Rightarrow> ('n \<Rightarrow> nat) \<Rightarrow> 'n memory_world \<Rightarrow> bool" where
  "rows_numbered name drawn w \<longleftrightarrow>
     (\<forall>k a. mw_row w k = Some a \<longrightarrow> (\<exists>n < drawn (mw_outside w). k = NotificationAttemptId (name n)))"

lemma number_unused:
  assumes "unique_ids name drawn out" and "rows_numbered name drawn w" and "drawn (mw_outside w) < 2 ^ 128"
  shows "mw_row w (NotificationAttemptId (name (drawn (mw_outside w)))) = None"
proof (rule ccontr)
  assume "mw_row w (NotificationAttemptId (name (drawn (mw_outside w)))) \<noteq> None"
  then obtain m where m: "m < drawn (mw_outside w)" "name m = name (drawn (mw_outside w))"
    using assms(2) by (fastforce simp: rows_numbered_def)
  moreover have "m \<in> {..<2 ^ 128}" "drawn (mw_outside w) \<in> {..<2 ^ 128}"
    using m assms(3) by auto
  ultimately show False
    using assms(1) unfolding unique_ids_def by (metis inj_onD less_irrefl)
qed

lemma insert_attempts_round:
  fixes w :: "'n memory_world"
  assumes u: "unique_ids name drawn out" and ok: "\<And>n. fst (ou_insert_fault out n) = None"
    and rows: "rows_numbered name drawn w"
    and run: "insert_attempts (mw_services out) ev now (r # rules) ts w = (ts', w')" and few: "drawn (mw_outside w') \<le> 2 ^ 128"
  obtains k w2 where "mw_row w k = None" "mw_row w2 = (mw_row w)(k \<mapsto> pending_attempt k r ev now)"
    "mw_dispatches w2 = mw_dispatches w" "rows_numbered name drawn w2" "drawn (mw_outside w) \<le> drawn (mw_outside w2)"
    "insert_attempts (mw_services out) ev now rules (ts @ [(k, nr_target r)]) w2 = (ts', w')"
proof -
  note ids = u [unfolded unique_ids_def]
  obtain n1 where n1: "ou_uuid out (mw_outside w) = (name (drawn (mw_outside w)), n1)" "drawn n1 = Suc (drawn (mw_outside w))"
    using ids by (metis prod.collapse)
  obtain n2 where n2: "ou_insert_fault out n1 = (None, n2)" "drawn n2 = Suc (drawn (mw_outside w))"
    using ids ok n1(2) by (metis prod.collapse)
  let ?k = "NotificationAttemptId (name (drawn (mw_outside w)))"
  let ?a = "pending_attempt ?k r ev now"
  obtain res w2 where i: "mw_insert_pending ?a (w\<lparr>mw_outside := n2\<rparr>) = (res, w2)"
    by (cases "mw_insert_pending ?a (w\<lparr>mw_outside := n2\<rparr>)")
  have o2: "mw_outside w2 = n2"
    using i by (auto simp: mw_insert_pending_def split: prod.splits)
  have step: "(case res of Err _ \<Rightarrow> insert_attempts (mw_services out) ev now rules ts w2
       | Ok _ \<Rightarrow> insert_attempts (mw_services out) ev now rules (ts @ [(?k, nr_target r)]) w2) = (ts', w')"
    using n1(1) n2(1) i run by (simp add: on_outside_def faulty_def)
  then obtain xs where "insert_attempts (mw_services out) ev now rules xs w2 = (ts', w')"
    by (cases res) auto
  then have "drawn (mw_outside w) < 2 ^ 128"
    using insert_attempts_drawn [OF u] o2 n2(2) few by fastforce
  then have fresh: "mw_row w ?k = None"
    by (rule number_unused [OF u rows])
  then have res: "res = Ok ()" and w2: "mw_row w2 = (mw_row w)(?k \<mapsto> ?a)" "mw_dispatches w2 = mw_dispatches w"
    using i by (auto simp: mw_insert_pending_def mar_insert_pending_def mw_row_def split: if_splits)
  have "rows_numbered name drawn w2"
    using rows unfolding rows_numbered_def w2(1) o2 n2(2)
    by (metis fun_upd_apply less_Suc_eq)
  with that [OF fresh w2 this] step res o2 n2(2) show thesis by simp
qed

lemma insert_attempts_all:
  assumes u: "unique_ids name drawn out" and ok: "\<And>n. fst (ou_insert_fault out n) = None"
    and "rows_numbered name drawn w"
    and "insert_attempts (mw_services out) ev now rules ts w = (ts', w')" and "drawn (mw_outside w') \<le> 2 ^ 128"
  shows "\<exists>new. ts' = ts @ new \<and> inserted ev now rules w new w' \<and>
    list_all2 (\<lambda>r (k, t). t = nr_target r \<and> mw_row w' k = Some (pending_attempt k r ev now)) rules new"
  using assms(3-5)
proof (induction rules arbitrary: ts w)
  case Nil
  then show ?case by (auto simp: inserted_def)
next
  case (Cons r rules)
  obtain k w2 where w2: "mw_row w k = None" "mw_row w2 = (mw_row w)(k \<mapsto> pending_attempt k r ev now)"
    "mw_dispatches w2 = mw_dispatches w" "rows_numbered name drawn w2"
    and rest: "insert_attempts (mw_services out) ev now rules (ts @ [(k, nr_target r)]) w2 = (ts', w')"
    using insert_attempts_round [OF u ok Cons.prems] by blast
  obtain new where new: "ts' = (ts @ [(k, nr_target r)]) @ new" "inserted ev now rules w2 new w'"
    "list_all2 (\<lambda>r (k, t). t = nr_target r \<and> mw_row w' k = Some (pending_attempt k r ev now)) rules new"
    using Cons.IH [OF w2(4) rest Cons.prems(3)] by blast
  have "inserted ev now (r # rules) w ((k, nr_target r) # new) w'"
    using inserted_Cons [OF w2(1-3) new(2)] .
  moreover have "mw_row w' k = Some (pending_attempt k r ev now)"
    using inserted_kept [OF new(2), of k] w2(2) by simp
  ultimately show ?case
    using new by (intro exI [of _ "(k, nr_target r) # new"]) simp
qed


lemma list_all2_member: "list_all2 P xs ys \<Longrightarrow> x \<in> set xs \<Longrightarrow> \<exists>y \<in> set ys. P x y"
  by (induction xs ys rule: list_all2_induct) auto

lemma terminal_status: "status_for_outcome oc False \<in> {Succeeded, FailedPermanent}"
  by (cases oc) simp_all


definition sample_numbered_net :: "(nat \<times> int) net" where
  "sample_numbered_net = \<lparr>net_now = (\<lambda>(k, t). (t, (k, t + 1))), net_send = (\<lambda>_ n. (None, n))\<rparr>"


end
