(* ===== verification/Supervisor.thy ===== *)
theory Supervisor
  imports Observations
begin

text \<open>
  The supervision of collectors (\<open>runtime/supervisor.rs\<close>): the polling loop, the two
  per-collector supervisors with their backoff, over what the environment does: the
  ticks and what a poll and a send gave, how long a spawned loop ran, whether the
  shutdown signal fired while waiting. A list that ends is a task that still runs.
  The join of all tasks is part of \<open>Runtime\<close>.
\<close>

section \<open>The polling loop\<close>

datatype inner_exit = Shutdown | ConsumerGone | CollectorReturned

text \<open>One turn of the \<open>select!\<close>: the signal, or a tick with the result of the poll and of the send.\<close>

datatype tick_event = ShutdownFired | Tick "observation_batch run" bool

definition polling_interval :: "integration_kind \<Rightarrow> duration" where
  "polling_interval integration =
     (let interval_chrono = (case integration_interval integration of Some i \<Rightarrow> i | None \<Rightarrow> 10 * 1000000000)
      in if interval_chrono < 0 then from_secs 10 else nat interval_chrono)"

fun polling_ticks :: "tick_event list \<Rightarrow> observation_batch list \<times> inner_exit run option" where
  "polling_ticks [] = ([], None)"
| "polling_ticks (ShutdownFired # _) = ([], Some (Done Shutdown))"
| "polling_ticks (Tick Panicked _ # _) = ([], Some Panicked)"
| "polling_ticks (Tick (Done batch) sent # rest) =
     (if \<not> sent then ([], Some (Done ConsumerGone))
      else let (batches, exit) = polling_ticks rest in (batch # batches, exit))"

text \<open>\<open>tokio::time::interval\<close> panics on a zero period.\<close>

definition polling_inner_loop ::
    "integration_kind \<Rightarrow> tick_event list \<Rightarrow> observation_batch list \<times> inner_exit run option" where
  "polling_inner_loop integration events =
     (if polling_interval integration = 0 then ([], Some Panicked) else polling_ticks events)"

section \<open>Backoff\<close>

definition BACKOFF_SCHEDULE_SECS :: "nat list" where
  "BACKOFF_SCHEDULE_SECS = [10, 30, 60, 300]"

definition BACKOFF_RESET_AFTER :: duration where
  "BACKOFF_RESET_AFTER = from_secs 300"

text \<open>The wait and the next index; \<open>None\<close> is the panic of an index out of range.\<close>

definition next_backoff :: "nat \<Rightarrow> duration \<Rightarrow> (nat \<times> nat) option" where
  "next_backoff backoff_idx elapsed =
     (let backoff_idx = (if elapsed \<ge> BACKOFF_RESET_AFTER then 0 else backoff_idx)
      in if backoff_idx \<ge> length BACKOFF_SCHEDULE_SECS then None
         else Some (BACKOFF_SCHEDULE_SECS ! backoff_idx,
                min (backoff_idx + 1) (length BACKOFF_SCHEDULE_SECS - 1)))"

section \<open>The supervisors\<close>

datatype supervisor_exit = StillRunning | Exited | IndexPanic

record supervised =
  sup_sent :: "observation_batch list"
  sup_waits :: "nat list"
  sup_exit :: supervisor_exit

text \<open>One life of a polling loop: its events, how long it ran, and whether the signal fires in the wait after it.\<close>

record polling_life =
  pl_events :: "tick_event list"
  pl_elapsed :: duration
  pl_stop_in_wait :: bool

fun supervise_polling :: "integration_kind \<Rightarrow> nat \<Rightarrow> polling_life list \<Rightarrow> supervised" where
  "supervise_polling integration backoff_idx [] = \<lparr>sup_sent = [], sup_waits = [], sup_exit = StillRunning\<rparr>"
| "supervise_polling integration backoff_idx (life # rest) =
     (let (sent, exit) = polling_inner_loop integration (pl_events life) in
      case exit of
        None \<Rightarrow> \<lparr>sup_sent = sent, sup_waits = [], sup_exit = StillRunning\<rparr>
      | Some outcome \<Rightarrow>
          if outcome = Done Shutdown \<or> outcome = Done ConsumerGone
          then \<lparr>sup_sent = sent, sup_waits = [], sup_exit = Exited\<rparr>
          else case next_backoff backoff_idx (pl_elapsed life) of
                 None \<Rightarrow> \<lparr>sup_sent = sent, sup_waits = [], sup_exit = IndexPanic\<rparr>
               | Some (wait, backoff_idx) \<Rightarrow>
                   if pl_stop_in_wait life then \<lparr>sup_sent = sent, sup_waits = [wait], sup_exit = Exited\<rparr>
                   else let s = supervise_polling integration backoff_idx rest
                        in s\<lparr>sup_sent := sent @ sup_sent s, sup_waits := wait # sup_waits s\<rparr>)"

text \<open>
  One life of a subscription: the batches it put into its sink, and how the
  \<open>select!\<close> ended. A panic of the collector is not caught and ends the supervisor.
\<close>

datatype subscription_end = SubShutdown | SubReturned "collection_error + unit" | SubPanicked | SubRunning

record subscription_life =
  sl_sent :: "observation_batch list"
  sl_end :: subscription_end
  sl_elapsed :: duration
  sl_stop_in_wait :: bool

datatype subscription_exit = SubStill | SubExited | SubCrashed | SubIndexPanic

fun supervise_subscription ::
    "nat \<Rightarrow> subscription_life list \<Rightarrow> observation_batch list \<times> nat list \<times> subscription_exit" where
  "supervise_subscription backoff_idx [] = ([], [], SubStill)"
| "supervise_subscription backoff_idx (life # rest) =
     (case sl_end life of
        SubRunning \<Rightarrow> (sl_sent life, [], SubStill)
      | SubShutdown \<Rightarrow> (sl_sent life, [], SubExited)
      | SubPanicked \<Rightarrow> (sl_sent life, [], SubCrashed)
      | SubReturned _ \<Rightarrow>
          (case next_backoff backoff_idx (sl_elapsed life) of
             None \<Rightarrow> (sl_sent life, [], SubIndexPanic)
           | Some (wait, backoff_idx) \<Rightarrow>
               if sl_stop_in_wait life then (sl_sent life, [wait], SubExited)
               else let (sent, waits, exit) = supervise_subscription backoff_idx rest
                    in (sl_sent life @ sent, wait # waits, exit)))"

section \<open>Waiting times\<close>

text \<open>The waits after lives of the given lengths.\<close>

fun backoff_waits :: "nat \<Rightarrow> duration list \<Rightarrow> nat list" where
  "backoff_waits i [] = []"
| "backoff_waits i (e # es) =
     (let i = (if e \<ge> BACKOFF_RESET_AFTER then 0 else i)
      in BACKOFF_SCHEDULE_SECS ! i # backoff_waits (min (i + 1) 3) es)"

lemma next_backoff_in_range:
  "i \<le> 3 \<Longrightarrow> \<exists>wait j. next_backoff i e = Some (wait, j) \<and> j \<le> 3 \<and> (\<forall>es. backoff_waits i (e # es) = wait # backoff_waits j es)"
  by (auto simp: next_backoff_def Let_def BACKOFF_SCHEDULE_SECS_def eval_nat_numeral)

lemma length_backoff_waits [simp]: "length (backoff_waits i es) = length es"
  by (induction es arbitrary: i) (simp_all add: Let_def)

text \<open>The \<open>j\<close>-th wait is set by the short lives that came right before it.\<close>

lemma backoff_waits_nth:
  assumes "j < length es" and "i \<le> 3"
  shows "backoff_waits i es ! j = BACKOFF_SCHEDULE_SECS ! min 3
    (if \<forall>e \<in> set (take (Suc j) es). e < BACKOFF_RESET_AFTER then i + j
     else length (takeWhile (\<lambda>e. e < BACKOFF_RESET_AFTER) (rev (take (Suc j) es))))"
  using assms
proof (induction es arbitrary: i j)
  case (Cons e es)
  let ?i = "if e \<ge> BACKOFF_RESET_AFTER then 0 else i"
  show ?case
  proof (cases j)
    case 0
    with Cons.prems(2) show ?thesis by (simp add: Let_def)
  next
    case (Suc j')
    have j': "j' < length es" using Suc Cons.prems(1) by simp
    have ih: "backoff_waits i (e # es) ! j = BACKOFF_SCHEDULE_SECS ! min 3
        (if \<forall>e \<in> set (take (Suc j') es). e < BACKOFF_RESET_AFTER then min (?i + 1) 3 + j'
         else length (takeWhile (\<lambda>e. e < BACKOFF_RESET_AFTER) (rev (take (Suc j') es))))"
      using Cons.IH [of j' "min (?i + 1) 3"] j' Suc by (simp add: Let_def)
    show ?thesis
    proof (cases "\<forall>e \<in> set (take (Suc j') es). e < BACKOFF_RESET_AFTER")
      case True
      then have "takeWhile (\<lambda>e. e < BACKOFF_RESET_AFTER) (rev (take (Suc j') es) @ [e]) =
          rev (take (Suc j') es) @ (if e < BACKOFF_RESET_AFTER then [e] else [])"
        by (subst takeWhile_append2) auto
      with True ih j' Suc Cons.prems(2) show ?thesis by auto
    next
      case False
      then obtain x where "x \<in> set (rev (take (Suc j') es))" "\<not> x < BACKOFF_RESET_AFTER" by auto
      then have "takeWhile (\<lambda>e. e < BACKOFF_RESET_AFTER) (rev (take (Suc j') es) @ [e]) =
          takeWhile (\<lambda>e. e < BACKOFF_RESET_AFTER) (rev (take (Suc j') es))"
        by (rule takeWhile_append1)
      with False ih Suc show ?thesis by auto
    qed
  qed
qed simp

lemma backoff_waits_0_nth:
  assumes "j < length es"
  shows "backoff_waits 0 es ! j = BACKOFF_SCHEDULE_SECS ! min 3
    (min j (length (takeWhile (\<lambda>e. e < BACKOFF_RESET_AFTER) (rev (take (Suc j) es)))))"
proof (cases "\<forall>e \<in> set (take (Suc j) es). e < BACKOFF_RESET_AFTER")
  case True
  then have "takeWhile (\<lambda>e. e < BACKOFF_RESET_AFTER) (rev (take (Suc j) es)) = rev (take (Suc j) es)"
    by (simp add: takeWhile_eq_all_conv)
  then have "length (takeWhile (\<lambda>e. e < BACKOFF_RESET_AFTER) (rev (take (Suc j) es))) = Suc j"
    using assms by (simp only: length_rev length_take)
  with True assms show ?thesis by (simp add: backoff_waits_nth)
next
  case False
  then have "takeWhile (\<lambda>e. e < BACKOFF_RESET_AFTER) (rev (take (Suc j) es)) \<noteq> rev (take (Suc j) es)"
    by (auto simp: takeWhile_eq_all_conv)
  then have "length (takeWhile (\<lambda>e. e < BACKOFF_RESET_AFTER) (rev (take (Suc j) es))) < length (rev (take (Suc j) es))"
    by (metis length_takeWhile_le le_neq_implies_less takeWhile_eq_take take_all_iff order_refl)
  then have "length (takeWhile (\<lambda>e. e < BACKOFF_RESET_AFTER) (rev (take (Suc j) es))) \<le> j"
    by simp
  then have "min j (length (takeWhile (\<lambda>e. e < BACKOFF_RESET_AFTER) (rev (take (Suc j) es)))) =
      length (takeWhile (\<lambda>e. e < BACKOFF_RESET_AFTER) (rev (take (Suc j) es)))"
    by (rule min_absorb2)
  with False assms show ?thesis
    by (simp only: backoff_waits_nth if_False le0)
qed

lemma supervise_polling_waits:
  assumes "i \<le> 3"
  shows "sup_waits (supervise_polling k i lives) =
      backoff_waits i (map pl_elapsed (take (length (sup_waits (supervise_polling k i lives))) lives)) \<and>
    sup_exit (supervise_polling k i lives) \<noteq> IndexPanic"
  using assms
proof (induction lives arbitrary: i)
  case (Cons life lives)
  obtain sent exit where p: "polling_inner_loop k (pl_events life) = (sent, exit)"
    by (cases "polling_inner_loop k (pl_events life)")
  obtain wait j where n: "next_backoff i (pl_elapsed life) = Some (wait, j)" "j \<le> 3"
    "\<And>es. backoff_waits i (pl_elapsed life # es) = wait # backoff_waits j es"
    using next_backoff_in_range [OF Cons.prems] by blast
  show ?case
  proof (cases exit)
    case None
    with p show ?thesis by simp
  next
    case (Some outcome)
    with p n Cons.IH [OF n(2)] show ?thesis
      by (simp add: Let_def del: backoff_waits.simps(2))
  qed
qed simp

lemma supervise_subscription_waits:
  assumes "i \<le> 3" and "supervise_subscription i lives = (sent, waits, exit)"
  shows "waits = backoff_waits i (map sl_elapsed (take (length waits) lives)) \<and> exit \<noteq> SubIndexPanic"
  using assms
proof (induction lives arbitrary: i sent waits)
  case (Cons life lives)
  obtain wait j where n: "next_backoff i (sl_elapsed life) = Some (wait, j)" "j \<le> 3"
    "\<And>es. backoff_waits i (sl_elapsed life # es) = wait # backoff_waits j es"
    using next_backoff_in_range [OF Cons.prems(1)] by blast
  obtain sent' waits' exit' where r: "supervise_subscription j lives = (sent', waits', exit')"
    by (cases "supervise_subscription j lives")
  show ?case
  proof (cases "\<exists>res. sl_end life = SubReturned res \<and> \<not> sl_stop_in_wait life")
    case True
    with Cons.prems(2) n r have "waits = wait # waits'" "exit = exit'" by auto
    with Cons.IH [OF n(2)] n(3) r show ?thesis
      by (simp del: backoff_waits.simps(2))
  next
    case False
    with Cons.prems(2) n show ?thesis
      by (auto simp del: backoff_waits.simps(2) split: subscription_end.splits)
  qed
qed simp

section \<open>Properties\<close>

text \<open>The backoff of the supervisors.
  The wait after a life depends only on how many lives right before it, itself
  included, were shorter than five minutes: 10, 30, 60 seconds for the first three in
  a row, 300 for every further one; after a life of five minutes or more it is 10
  again. The schedule is never indexed out of range. This holds for polling and for
  subscription collectors, whatever the collectors do.\<close>

lemma supervisor_backoff:
  assumes "supervise_subscription 0 slives = (sent, swaits, sexit)"
  shows "(\<forall>j < length (sup_waits (supervise_polling k 0 lives)).
      sup_waits (supervise_polling k 0 lives) ! j = [10, 30, 60, 300] ! min 3
        (min j (length (takeWhile (\<lambda>e. e < from_secs 300) (rev (map pl_elapsed (take (Suc j) lives))))))) \<and>
    sup_exit (supervise_polling k 0 lives) \<noteq> IndexPanic \<and>
    (\<forall>j < length swaits. swaits ! j = [10, 30, 60, 300] ! min 3
        (min j (length (takeWhile (\<lambda>e. e < from_secs 300) (rev (map sl_elapsed (take (Suc j) slives))))))) \<and>
    sexit \<noteq> SubIndexPanic"
proof -
  have nth: "waits ! j = [10, 30, 60, 300] ! min 3
      (min j (length (takeWhile (\<lambda>e. e < from_secs 300) (rev (take (Suc j) es)))))"
    if "waits = backoff_waits 0 (take (length waits) es)" "j < length waits" for waits es j
  proof -
    have len: "length waits \<le> length es"
      using arg_cong [OF that(1), of length] by simp
    have "waits ! j = backoff_waits 0 (take (length waits) es) ! j"
      using that(1) by simp
    also have "\<dots> = [10, 30, 60, 300] ! min 3
        (min j (length (takeWhile (\<lambda>e. e < from_secs 300) (rev (take (Suc j) (take (length waits) es))))))"
      using that(2) len backoff_waits_0_nth [of j "take (length waits) es"]
      by (simp add: BACKOFF_SCHEDULE_SECS_def BACKOFF_RESET_AFTER_def del: take_take)
    finally show ?thesis
      using that(2) by (simp add: min_absorb1)
  qed
  show ?thesis
    using supervise_polling_waits [of 0 k lives] supervise_subscription_waits [OF _ assms]
      nth [of "sup_waits (supervise_polling k 0 lives)" "map pl_elapsed lives"] nth [of swaits "map sl_elapsed slives"]
    by (simp add: take_map)
qed

definition sample_life :: "duration \<Rightarrow> polling_life" where
  "sample_life e = \<lparr>pl_events = [Tick Panicked True], pl_elapsed = e, pl_stop_in_wait = False\<rparr>"

text \<open>A polling supervisor stops for good.
  Once a loop ended because of the shutdown signal or because the consumer is gone,
  or the signal fired in the wait after it, nothing later happens: no respawn, no
  further batch. And the loop never gives up by itself: it ends only with the
  signal, with the consumer gone, or with a panic.\<close>

lemma polling_supervisor_stops:
  assumes "sup_exit (supervise_polling k i lives) = Exited"
  shows "supervise_polling k i (lives @ later) = supervise_polling k i lives \<and>
    snd (polling_inner_loop k events) \<noteq> Some (Done CollectorReturned)"
proof
  have "snd (polling_ticks events) \<noteq> Some (Done CollectorReturned)"
    by (induction events rule: polling_ticks.induct) (auto split: prod.splits)
  then show "snd (polling_inner_loop k events) \<noteq> Some (Done CollectorReturned)"
    by (simp add: polling_inner_loop_def)
  show "supervise_polling k i (lives @ later) = supervise_polling k i lives"
    using assms
  proof (induction lives arbitrary: i)
    case (Cons life lives)
    obtain sent exit where p: "polling_inner_loop k (pl_events life) = (sent, exit)"
      by (cases "polling_inner_loop k (pl_events life)")
    with Cons show ?case
      by (cases exit; cases "next_backoff i (pl_elapsed life)") (auto simp: Let_def split: if_splits)
  qed simp
qed

end
