(* ===== verification/Bitcoin_Collector.thy ===== *)
theory Bitcoin_Collector
  imports Rule_Rpc_Unreachable Consumer
begin

text \<open>
  The Bitcoin Core collector: the JSON-RPC client of
  \<open>collectors/bitcoin_core/rpc_client.rs\<close> and the polling collector of
  \<open>collectors/bitcoin_core/rpc.rs\<close>.  What lies outside is a parameter: the file
  system (for the cookie file), the transport (which may fail or run into the
  timeout while sending or while reading the body), serde's decoding of the body
  and its printing of a value, the clock, and the identifiers drawn.  A poll runs
  its four calls concurrently; they share nothing but the sequence counter, whose
  four values the calls take in the order in which \<open>join!\<close> first polls them, so each
  call gets an outside of its own and the results are combined afterwards.
\<close>

section \<open>The JSON-RPC client\<close>

datatype bitcoin_rpc_auth = UserPass string secret_string | CookieFile string

record bitcoin_node_connection =
  bnc_rpc_url :: string
  bnc_rpc_auth :: bitcoin_rpc_auth
  bnc_zmq_endpoint :: "string option"

record bitcoin_rpc_client =
  brc_url :: string
  brc_auth :: bitcoin_rpc_auth
  brc_timeout :: duration
  brc_rpc_seq :: u64

definition bitcoin_rpc_client_new :: "string \<Rightarrow> bitcoin_rpc_auth \<Rightarrow> duration \<Rightarrow> bitcoin_rpc_client" where
  "bitcoin_rpc_client_new url auth tmo =
     \<lparr>brc_url = url, brc_auth = auth, brc_timeout = tmo, brc_rpc_seq = 1\<rparr>"

datatype rpc_error =
    RpcNetwork string
  | RpcTimeout
  | RpcHttpStatus u16
  | RpcBitcoindError int string
  | RpcDecode string
  | RpcAuth
  | RpcIdMismatch string string

fun rpc_error_display :: "rpc_error \<Rightarrow> string" where
  "rpc_error_display (RpcNetwork e) = ''network error: '' @ e"
| "rpc_error_display RpcTimeout = ''timed out''"
| "rpc_error_display (RpcHttpStatus s) = ''http status '' @ u16_str s"
| "rpc_error_display (RpcBitcoindError code message) =
     ''bitcoind returned error '' @ int_str code @ '': '' @ message"
| "rpc_error_display (RpcDecode e) = ''decode error: '' @ e"
| "rpc_error_display RpcAuth = ''authentication failed''"
| "rpc_error_display (RpcIdMismatch expected got) =
     ''JSON-RPC id mismatch: expected '' @ expected @ '', got '' @ got"

fun rpc_collection_error_kind :: "rpc_error \<Rightarrow> collection_error_kind" where
  "rpc_collection_error_kind (RpcNetwork _) = Unreachable"
| "rpc_collection_error_kind RpcTimeout = Timeout"
| "rpc_collection_error_kind RpcAuth = AuthenticationFailed"
| "rpc_collection_error_kind (RpcHttpStatus _) = ProtocolError"
| "rpc_collection_error_kind (RpcBitcoindError _ _) = InvalidResponse"
| "rpc_collection_error_kind (RpcDecode _) = DecodeError"
| "rpc_collection_error_kind (RpcIdMismatch _ _) = ProtocolError"

record rpc_request =
  rpq_jsonrpc :: string
  rpq_id :: string
  rpq_method :: string
  rpq_params :: json

record rpc_error_envelope =
  ree_code :: int
  ree_message :: string

record 'a rpc_response =
  rpr_result :: "'a option"
  rpr_error :: "rpc_error_envelope option"
  rpr_id :: "json option"

text \<open>
  \<open>str::trim\<close> on UTF-8 text: the encodings of the characters with the property
  \<open>White_Space\<close> are removed from both ends.
\<close>

definition white_space :: "string list" where
  "white_space =
     map (\<lambda>n. [char_of (n::nat)]) [9, 10, 11, 12, 13, 32]
     @ [[CHR 0xC2, CHR 0x85], [CHR 0xC2, CHR 0xA0], [CHR 0xE1, CHR 0x9A, CHR 0x80]]
     @ map (\<lambda>n. [CHR 0xE2, CHR 0x80, char_of (n::nat)])
         ([0x80, 0x81, 0x82, 0x83, 0x84, 0x85, 0x86, 0x87, 0x88, 0x89, 0x8A] @ [0xA8, 0xA9, 0xAF])
     @ [[CHR 0xE2, CHR 0x81, CHR 0x9F], [CHR 0xE3, CHR 0x80, CHR 0x80]]"

fun trim_front :: "string list \<Rightarrow> nat \<Rightarrow> string \<Rightarrow> string" where
  "trim_front ws 0 s = s"
| "trim_front ws (Suc n) s =
     (case find (\<lambda>w. w \<noteq> [] \<and> take (length w) s = w) ws of
        None \<Rightarrow> s
      | Some w \<Rightarrow> trim_front ws n (drop (length w) s))"

definition str_trim :: "string \<Rightarrow> string" where
  "str_trim s =
     (let s = trim_front white_space (length s) s
      in rev (trim_front (map rev white_space) (length s) (rev s)))"

definition split_once :: "char \<Rightarrow> string \<Rightarrow> (string \<times> string) option" where
  "split_once c s =
     (case dropWhile (\<lambda>x. x \<noteq> c) s of
        [] \<Rightarrow> None
      | _ # rest \<Rightarrow> Some (takeWhile (\<lambda>x. x \<noteq> c) s, rest))"

text \<open>\<open>read_file\<close> is \<open>std::fs::read_to_string\<close>, \<open>None\<close> an error.\<close>

fun resolve_auth :: "(string \<Rightarrow> string option) \<Rightarrow> bitcoin_rpc_auth \<Rightarrow> rpc_error + string \<times> string" where
  "resolve_auth read_file (UserPass user pass) = Ok (user, pass)"
| "resolve_auth read_file (CookieFile path) =
     (case read_file path of
        None \<Rightarrow> Err RpcAuth
      | Some raw \<Rightarrow>
          (case split_once CHR '':'' (str_trim raw) of
             None \<Rightarrow> Err RpcAuth
           | Some (user, pass) \<Rightarrow> Ok (user, pass)))"

text \<open>What an awaited step of the transport gives; \<open>IoElapsed\<close> is the outer timeout firing there.\<close>

datatype 'a io = IoOk 'a | IoErr string | IoElapsed

record rpc_post =
  post_url :: string
  post_body :: rpc_request
  post_user :: string
  post_password :: string

record rpc_reply =
  reply_status :: u16
  reply_body :: "string io"

record rpc_outside =
  ro_started :: datetime
  ro_ended :: datetime
  ro_read_file :: "string \<Rightarrow> string option"
  ro_send :: "rpc_post \<Rightarrow> rpc_reply io"

definition rpc_id :: "u64 \<Rightarrow> string" where
  "rpc_id n = ''bithound-'' @ nat_str (unat n)"

fun json_as_str :: "json \<Rightarrow> string option" where
  "json_as_str (JString s) = Some s"
| "json_as_str _ = None"

text \<open>The checks on a decoded envelope, in order: the id, the error, the result.\<close>

definition accept_envelope :: "(json \<Rightarrow> string) \<Rightarrow> string \<Rightarrow> 'a rpc_response \<Rightarrow> rpc_error + 'a" where
  "accept_envelope show_json rid envelope =
     (if Option.bind (rpr_id envelope) json_as_str \<noteq> Some rid then
        Err (RpcIdMismatch rid
          (case rpr_id envelope of Some v \<Rightarrow> show_json v | None \<Rightarrow> ''<missing>''))
      else case rpr_error envelope of
        Some err \<Rightarrow> Err (RpcBitcoindError (ree_code err) (ree_message err))
      | None \<Rightarrow>
          (case rpr_result envelope of
             Some r \<Rightarrow> Ok r
           | None \<Rightarrow> Err (RpcBitcoindError 0 ''missing result in JSON-RPC envelope'')))"

definition rpc_inner ::
    "(json \<Rightarrow> string) \<Rightarrow> (string \<Rightarrow> string + 'a rpc_response) \<Rightarrow> rpc_outside \<Rightarrow> bitcoin_rpc_client \<Rightarrow>
     string \<Rightarrow> string \<Rightarrow> json \<Rightarrow> rpc_error + 'a" where
  "rpc_inner show_json decode ro client rid method params =
     (case resolve_auth (ro_read_file ro) (brc_auth client) of
        Err e \<Rightarrow> Err e
      | Ok (user, pass) \<Rightarrow>
          (case ro_send ro
                  \<lparr>post_url = brc_url client,
                   post_body = \<lparr>rpq_jsonrpc = ''1.0'', rpq_id = rid, rpq_method = method, rpq_params = params\<rparr>,
                   post_user = user, post_password = pass\<rparr> of
             IoElapsed \<Rightarrow> Err RpcTimeout
           | IoErr e \<Rightarrow> Err (RpcNetwork e)
           | IoOk response \<Rightarrow>
               let status = reply_status response in
               if status = 401 \<or> status = 403 then Err RpcAuth
               else if \<not> (200 \<le> status \<and> status < 300) then Err (RpcHttpStatus status)
               else case reply_body response of
                 IoElapsed \<Rightarrow> Err RpcTimeout
               | IoErr e \<Rightarrow> Err (RpcNetwork e)
               | IoOk body \<Rightarrow>
                   (case decode body of
                      Err e \<Rightarrow> Err (RpcDecode e)
                    | Ok envelope \<Rightarrow> accept_envelope show_json rid envelope)))"

text \<open>\<open>call\<close> draws its id with a wrapping \<open>fetch_add\<close>, then runs the inner future.\<close>

definition rpc_call ::
    "(json \<Rightarrow> string) \<Rightarrow> (string \<Rightarrow> string + 'a rpc_response) \<Rightarrow> rpc_outside \<Rightarrow> string \<Rightarrow> json \<Rightarrow>
     bitcoin_rpc_client \<Rightarrow> (rpc_error + 'a) \<times> bitcoin_rpc_client" where
  "rpc_call show_json decode ro method params client =
     (rpc_inner show_json decode ro client (rpc_id (brc_rpc_seq client)) method params,
      client\<lparr>brc_rpc_seq := brc_rpc_seq client + 1\<rparr>)"

section \<open>The answers\<close>

record get_blockchain_info_response =
  gbi_chain :: string
  gbi_blocks :: u64
  gbi_headers :: u64
  gbi_bestblockhash :: "string option"
  gbi_verificationprogress :: f64
  gbi_initialblockdownload :: bool
  gbi_pruned :: bool
  gbi_size_on_disk :: u64

record get_mempool_info_response =
  gmi_loaded :: bool
  gmi_size :: u64
  gmi_bytes :: u64
  gmi_usage :: u64
  gmi_maxmempool :: u64

record get_network_info_response =
  gni_version :: u64
  gni_subversion :: string
  gni_protocolversion :: u64
  gni_connections :: u64
  gni_connections_in :: "u64 option"
  gni_connections_out :: "u64 option"
  gni_networkactive :: "bool option"

record peer_info_entry =
  pie_inbound :: bool
  pie_addr :: "string option"
  pie_subver :: "string option"
  pie_connection_type :: "string option"

type_synonym get_peer_info_response = "peer_info_entry list"

record bitcoin_serde =
  bs_show :: "json \<Rightarrow> string"
  bs_blockchain :: "string \<Rightarrow> string + get_blockchain_info_response rpc_response"
  bs_mempool :: "string \<Rightarrow> string + get_mempool_info_response rpc_response"
  bs_network :: "string \<Rightarrow> string + get_network_info_response rpc_response"
  bs_peers :: "string \<Rightarrow> string + get_peer_info_response rpc_response"

definition get_blockchain_info where
  "get_blockchain_info sd ro client =
     rpc_call (bs_show sd) (bs_blockchain sd) ro ''getblockchaininfo'' (JArray []) client"

definition get_mempool_info where
  "get_mempool_info sd ro client =
     rpc_call (bs_show sd) (bs_mempool sd) ro ''getmempoolinfo'' (JArray []) client"

definition get_network_info where
  "get_network_info sd ro client =
     rpc_call (bs_show sd) (bs_network sd) ro ''getnetworkinfo'' (JArray []) client"

definition get_peer_info where
  "get_peer_info sd ro client =
     rpc_call (bs_show sd) (bs_peers sd) ro ''getpeerinfo'' (JArray []) client"

section \<open>From answers to states\<close>

definition blockchain_state :: "get_blockchain_info_response \<Rightarrow> bitcoin_blockchain_state" where
  "blockchain_state r =
     \<lparr>bc_chain = gbi_chain r, bc_blocks = gbi_blocks r, bc_headers = gbi_headers r,
      bc_best_block_hash = gbi_bestblockhash r, bc_verification_progress = gbi_verificationprogress r,
      bc_initial_block_download = gbi_initialblockdownload r, bc_pruned = gbi_pruned r,
      bc_size_on_disk_bytes = gbi_size_on_disk r\<rparr>"

definition mempool_state :: "get_mempool_info_response \<Rightarrow> bitcoin_mempool_state" where
  "mempool_state r =
     \<lparr>mp_loaded = gmi_loaded r, mp_tx_count = gmi_size r, mp_bytes = gmi_bytes r,
      mp_usage_bytes = gmi_usage r, mp_max_mempool_bytes = gmi_maxmempool r\<rparr>"

definition network_state :: "get_network_info_response \<Rightarrow> bitcoin_network_state" where
  "network_state r =
     \<lparr>nw_version = gni_version r, nw_subversion = gni_subversion r,
      nw_protocol_version = gni_protocolversion r, nw_connections = gni_connections r,
      nw_connections_in = gni_connections_in r, nw_connections_out = gni_connections_out r,
      nw_network_active = gni_networkactive r\<rparr>"

definition peer_summary_state :: "get_peer_info_response \<Rightarrow> bitcoin_peer_summary_state" where
  "peer_summary_state peers =
     (let peer_count = (of_nat (length peers) :: u64);
          inbound_count = (of_nat (length (filter pie_inbound peers)) :: u64);
          outbound_count = peer_count - inbound_count;
          connection_type_supported = (peers \<noteq> [] \<and> list_ex (\<lambda>p. pie_connection_type p \<noteq> None) peers);
          block_relay_only_count =
            (if connection_type_supported
             then Some (of_nat (length (filter (\<lambda>p. pie_connection_type p = Some ''block-relay-only'') peers)) :: u64)
             else None)
      in \<lparr>ps_peer_count = peer_count, ps_inbound_count = Some inbound_count,
          ps_outbound_count = Some outbound_count, ps_block_relay_only_count = block_relay_only_count\<rparr>)"

section \<open>The collector\<close>

record bitcoin_core_rpc_collector_config =
  bcc_timeout_per_rpc :: duration

definition bitcoin_core_rpc_collector_config_default :: bitcoin_core_rpc_collector_config where
  "bitcoin_core_rpc_collector_config_default = \<lparr>bcc_timeout_per_rpc = from_secs 5\<rparr>"

datatype build_error = InvalidUrl string | WrongTargetKind collector_target

record bitcoin_core_rpc_collector =
  bcr_descriptor :: collector_descriptor
  bcr_node_id :: bitcoin_node_id
  bcr_client :: bitcoin_rpc_client

text \<open>\<open>parse_url\<close> is \<open>reqwest::Url::parse\<close>: the error it gives, if any.\<close>

definition bitcoin_core_rpc_collector_new ::
    "(string \<Rightarrow> string option) \<Rightarrow> collector_descriptor \<Rightarrow> bitcoin_node_connection \<Rightarrow>
     bitcoin_core_rpc_collector_config \<Rightarrow> build_error + bitcoin_core_rpc_collector" where
  "bitcoin_core_rpc_collector_new parse_url descriptor connection config =
     (case parse_url (bnc_rpc_url connection) of
        Some e \<Rightarrow> Err (InvalidUrl (bnc_rpc_url connection @ '': '' @ e))
      | None \<Rightarrow>
          (case desc_target descriptor of
             TargetBitcoinNode node_id \<Rightarrow>
               Ok \<lparr>bcr_descriptor = descriptor, bcr_node_id = node_id,
                   bcr_client = bitcoin_rpc_client_new (bnc_rpc_url connection) (bnc_rpc_auth connection)
                     (bcc_timeout_per_rpc config)\<rparr>
           | other \<Rightarrow> Err (WrongTargetKind other)))"

definition bcr_obs_context ::
    "bitcoin_core_rpc_collector \<Rightarrow> sidecar_id \<Rightarrow> datetime \<Rightarrow> observation_context" where
  "bcr_obs_context c sidecar_id observed_at =
     \<lparr>octx_source = \<lparr>src_sidecar_id = sidecar_id, src_collector = descriptor_as_ref (bcr_descriptor c)\<rparr>,
      octx_subject = BitcoinNode (bcr_node_id c), octx_observed_at = observed_at, octx_origin = Collected\<rparr>"

definition bcr_build_batch ::
    "uuid \<Rightarrow> bitcoin_core_rpc_collector \<Rightarrow> sidecar_id \<Rightarrow> probe_window \<Rightarrow> probe_result \<Rightarrow> observation_batch" where
  "bcr_build_batch uid c sidecar_id window result =
     \<lparr>batch_id = ObservationBatchId uid, batch_collector = descriptor_as_ref (bcr_descriptor c),
      batch_sidecar_id = sidecar_id, batch_window = window, batch_result = result\<rparr>"

text \<open>
  The outside of a poll: the clock at its start and at its end, the outside of each
  call, and the identifiers drawn for its observations and for the batch.
\<close>

record poll_outside =
  po_started_at :: datetime
  po_batch_end :: datetime
  po_blockchain :: rpc_outside
  po_mempool :: rpc_outside
  po_network :: rpc_outside
  po_peers :: rpc_outside
  po_observation_uid :: "nat \<Rightarrow> uuid"
  po_batch_uid :: uuid

type_synonym rpc_failure = "string \<times> datetime \<times> datetime \<times> rpc_error"

text \<open>
  The block each result goes through: two observations on success, the failure on an
  error unless an earlier call has failed already.
\<close>

definition collect_result ::
    "(nat \<Rightarrow> uuid) \<Rightarrow> bitcoin_core_rpc_collector \<Rightarrow> sidecar_id \<Rightarrow> string \<Rightarrow> ('a \<Rightarrow> state_observation) \<Rightarrow>
     rpc_outside \<Rightarrow> rpc_error + 'a \<Rightarrow> observation list \<times> rpc_failure option \<Rightarrow>
     observation list \<times> rpc_failure option" where
  "collect_result uids c sidecar_id target to_state ro result acc =
     (let (partials, first_failure) = acc;
          s = ro_started ro;
          e = ro_ended ro
      in case result of
           Ok info \<Rightarrow>
             (partials
              @ [observation_state (uids (length partials)) (bcr_obs_context c sidecar_id s)
                   (to_state info) empty_attrs,
                 observation_health (uids (length partials + 1)) (bcr_obs_context c sidecar_id s)
                   (health_target_id_from_well_known target) HealthOk (duration_ms s e) None None empty_attrs],
              first_failure)
         | Err err \<Rightarrow>
             (partials, if first_failure = None then Some (target, s, e, err) else first_failure))"

definition bcr_failed ::
    "poll_outside \<Rightarrow> bitcoin_core_rpc_collector \<Rightarrow> collection_context \<Rightarrow> rpc_failure \<Rightarrow> observation list \<Rightarrow>
     observation_batch run" where
  "bcr_failed po c ctx failure partials =
     (let (target, observed_at, completed_at, err) = failure;
          kind = rpc_collection_error_kind err;
          message = rpc_error_display err;
          latency_ms = duration_ms observed_at completed_at
      in case health_target_id_parse target of
           Err _ \<Rightarrow> Panicked
         | Ok target \<Rightarrow>
             let health = \<lparr>health_target = target, health_status_of = HealthCritical,
                   health_latency_ms = latency_ms, health_message = Some message, health_error_of = None\<rparr>
             in case safe_probe_window (po_started_at po) (max (po_batch_end po) completed_at) of
                  Panicked \<Rightarrow> Panicked
                | Done window \<Rightarrow>
                    Done (bcr_build_batch (po_batch_uid po) c (cctx_sidecar_id ctx) window
                      (ProbeFailed health partials \<lparr>cerr_kind = kind, cerr_message = message\<rparr>)))"

definition bitcoin_poll ::
    "bitcoin_serde \<Rightarrow> poll_outside \<Rightarrow> collection_context \<Rightarrow> bitcoin_core_rpc_collector \<Rightarrow>
     observation_batch run \<times> bitcoin_core_rpc_collector" where
  "bitcoin_poll sd po ctx c =
     (let (bc, client) = get_blockchain_info sd (po_blockchain po) (bcr_client c);
          (mp, client) = get_mempool_info sd (po_mempool po) client;
          (nw, client) = get_network_info sd (po_network po) client;
          (pe, client) = get_peer_info sd (po_peers po) client;
          acc = collect_result (po_observation_uid po) c (cctx_sidecar_id ctx) HEALTH_BLOCKCHAIN
                  (\<lambda>info. StateBitcoinBlockchain (blockchain_state info)) (po_blockchain po) bc ([], None);
          acc = collect_result (po_observation_uid po) c (cctx_sidecar_id ctx) HEALTH_MEMPOOL
                  (\<lambda>info. StateBitcoinMempool (mempool_state info)) (po_mempool po) mp acc;
          acc = collect_result (po_observation_uid po) c (cctx_sidecar_id ctx) HEALTH_NETWORK
                  (\<lambda>info. StateBitcoinNetwork (network_state info)) (po_network po) nw acc;
          (partials, first_failure) = collect_result (po_observation_uid po) c (cctx_sidecar_id ctx) HEALTH_PEERS
                  (\<lambda>peers. StateBitcoinPeerSummary (peer_summary_state peers)) (po_peers po) pe acc;
          batch = (case first_failure of
             Some failure \<Rightarrow> bcr_failed po c ctx failure partials
           | None \<Rightarrow>
               (case safe_probe_window (po_started_at po) (po_batch_end po) of
                  Panicked \<Rightarrow> Panicked
                | Done window \<Rightarrow>
                    Done (bcr_build_batch (po_batch_uid po) c (cctx_sidecar_id ctx) window (ProbeOk partials))))
      in (batch, c\<lparr>bcr_client := client\<rparr>))"

section \<open>Ids\<close>

lemma nat_str_digits: "list_all is_digit (nat_str n) \<and> nat_str n \<noteq> [] \<and>
    fold (\<lambda>c m. 10 * m + (of_char c - 48)) (nat_str n) 0 = n"
proof (induction n rule: nat_str.induct)
  case (1 n)
  show ?case
  proof (cases "n < 10")
    case True
    then show ?thesis
      by (subst (1 2 3) nat_str.simps) (simp add: is_digit_def)
  next
    case False
    have "n mod 10 < 10"
      by simp
    then have "is_digit (char_of (48 + n mod 10))"
      unfolding is_digit_def by simp
    with False show ?thesis
      using 1 [OF False] by (subst (1 2 3) nat_str.simps) simp
  qed
qed

lemma digits_value_nat_str: "digits_value (nat_str n) = Some n"
  using nat_str_digits [of n] by (simp add: digits_value_def)

lemma rpc_id_inject: "rpc_id m = rpc_id n \<longleftrightarrow> m = n"
proof
  assume "rpc_id m = rpc_id n"
  then have "digits_value (nat_str (unat m)) = digits_value (nat_str (unat n))"
    by (simp add: rpc_id_def)
  then show "m = n"
    by (simp add: digits_value_nat_str word_unat_eq_iff)
qed simp

lemma json_as_str_Some: "json_as_str v = Some s \<longleftrightarrow> v = JString s"
  by (cases v) auto

lemma accept_envelope_Ok:
  "accept_envelope show_json rid envelope = Ok v \<longleftrightarrow>
     rpr_id envelope = Some (JString rid) \<and> rpr_error envelope = None \<and> rpr_result envelope = Some v"
  by (auto simp: accept_envelope_def json_as_str_Some bind_eq_Some_conv split: option.split)

section \<open>Properties of the client\<close>

text \<open>An answer is believed only when everything about it is right.
  A call succeeds with a value exactly when the credentials could be resolved, the
  transport answered the authenticated post within the timeout with a success
  status and a readable body, and the body decodes to an envelope that echoes the
  id of this very call, carries no error, and carries the value.\<close>

lemma rpc_call_Ok_iff:
  "fst (rpc_call show_json decode ro method params client) = Ok v \<longleftrightarrow>
     (\<exists>user pass response body envelope.
        resolve_auth (ro_read_file ro) (brc_auth client) = Ok (user, pass) \<and>
        ro_send ro
          \<lparr>post_url = brc_url client,
           post_body = \<lparr>rpq_jsonrpc = ''1.0'', rpq_id = rpc_id (brc_rpc_seq client),
             rpq_method = method, rpq_params = params\<rparr>,
           post_user = user, post_password = pass\<rparr> = IoOk response \<and>
        200 \<le> reply_status response \<and> reply_status response < 300 \<and>
        reply_body response = IoOk body \<and> decode body = Ok envelope \<and>
        rpr_id envelope = Some (JString (rpc_id (brc_rpc_seq client))) \<and>
        rpr_error envelope = None \<and> rpr_result envelope = Some v)"
  (is "_ \<longleftrightarrow> (\<exists>user pass response body envelope. ?ok user pass response body envelope)")
proof
  assume "fst (rpc_call show_json decode ro method params client) = Ok v"
  then show "\<exists>user pass response body envelope. ?ok user pass response body envelope"
    unfolding rpc_call_def rpc_inner_def
    by (auto simp: accept_envelope_Ok Let_def split: sum.splits prod.splits io.splits if_splits)
next
  assume "\<exists>user pass response body envelope. ?ok user pass response body envelope"
  then obtain user pass response body envelope where ok: "?ok user pass response body envelope"
    by blast
  then have "reply_status response \<noteq> 401" "reply_status response \<noteq> 403"
    by (auto simp: word_less_nat_alt)
  with ok show "fst (rpc_call show_json decode ro method params client) = Ok v"
    by (simp add: rpc_call_def rpc_inner_def accept_envelope_Ok)
qed

text \<open>The answer to another call is refused.
  The counter gives any two of \<open>2 ^ 64\<close> consecutive calls different ids, also across
  its wrap-around, so an answer that echoes the id of another call ends in a mismatch
  error, whatever result or error it carries.\<close>

lemma foreign_answer_refused:
  assumes "resolve_auth (ro_read_file ro) (brc_auth client) = Ok (user, pass)"
    and "ro_send ro
      \<lparr>post_url = brc_url client,
       post_body = \<lparr>rpq_jsonrpc = ''1.0'', rpq_id = rpc_id (brc_rpc_seq client),
         rpq_method = method, rpq_params = params\<rparr>,
       post_user = user, post_password = pass\<rparr> = IoOk response"
    and "200 \<le> reply_status response" and "reply_status response < 300"
    and "reply_body response = IoOk body" and "decode body = Ok envelope"
    and "rpr_id envelope = Some (JString (rpc_id (brc_rpc_seq client + of_nat k)))"
    and "0 < k" and "k < 2 ^ 64"
  shows "rpc_call show_json decode ro method params client =
    (Err (RpcIdMismatch (rpc_id (brc_rpc_seq client))
       (show_json (JString (rpc_id (brc_rpc_seq client + of_nat k))))),
     client\<lparr>brc_rpc_seq := brc_rpc_seq client + 1\<rparr>)"
proof -
  have "unat (of_nat k :: u64) = k"
    using assms(9) by (simp add: unsigned_of_nat take_bit_nat_eq_self)
  then have "(of_nat k :: u64) \<noteq> 0"
    using assms(8) by auto
  then have "rpc_id (brc_rpc_seq client + of_nat k) \<noteq> rpc_id (brc_rpc_seq client)"
    by (simp add: rpc_id_inject)
  moreover have "reply_status response \<noteq> 401" "reply_status response \<noteq> 403"
    using assms(4) by (auto simp: word_less_nat_alt)
  ultimately show ?thesis
    using assms(1-7) by (simp add: rpc_call_def rpc_inner_def accept_envelope_def)
qed

text \<open>The peer summary adds up.
  With as many peers as a vector can hold, the inbound and outbound counts add up to
  the peer count without wrapping; the block-relay-only count is reported exactly when
  some peer names its connection type, and never exceeds the peer count.\<close>

lemma peer_summary_counts:
  assumes "length peers < 2 ^ 64"
  shows "\<exists>i out. ps_inbound_count (peer_summary_state peers) = Some i \<and>
      ps_outbound_count (peer_summary_state peers) = Some out \<and>
      unat (ps_peer_count (peer_summary_state peers)) = length peers \<and>
      unat i = length (filter pie_inbound peers) \<and> unat i + unat out = length peers \<and>
      (case ps_block_relay_only_count (peer_summary_state peers) of
         None \<Rightarrow> \<forall>p \<in> set peers. pie_connection_type p = None
       | Some n \<Rightarrow> (\<exists>p \<in> set peers. pie_connection_type p \<noteq> None) \<and> unat n \<le> length peers)"
proof -
  have len: "unat (of_nat (length (filter P peers)) :: u64) = length (filter P peers)" for P
    using le_less_trans [OF length_filter_le assms, of P]
    by (simp add: unsigned_of_nat take_bit_nat_eq_self)
  have all: "unat (of_nat (length peers) :: u64) = length peers"
    using len [of "\<lambda>_. True"] by simp
  have "(of_nat (length (filter pie_inbound peers)) :: u64) \<le> of_nat (length peers)"
    by (simp add: word_le_nat_alt len all)
  then have "unat (of_nat (length peers) - of_nat (length (filter pie_inbound peers)) :: u64)
      = length peers - length (filter pie_inbound peers)"
    by (simp add: unat_sub len all)
  then show ?thesis
    by (auto simp: peer_summary_state_def Let_def len all list_ex_iff)
qed

section \<open>What a poll collects\<close>

text \<open>What one answer contributes to the batch: payloads on success, a failure otherwise.\<close>

definition answer_payloads ::
    "string \<Rightarrow> ('a \<Rightarrow> state_observation) \<Rightarrow> rpc_outside \<Rightarrow> rpc_error + 'a \<Rightarrow> observation_payload list" where
  "answer_payloads target to_state ro r =
     (case r of
        Ok info \<Rightarrow>
          [PState (to_state info),
           PHealth \<lparr>health_target = HealthTargetId target, health_status_of = HealthOk,
             health_latency_ms = duration_ms (ro_started ro) (ro_ended ro), health_message = None,
             health_error_of = None\<rparr>]
      | Err _ \<Rightarrow> [])"

definition answer_failures :: "string \<Rightarrow> rpc_outside \<Rightarrow> rpc_error + 'a \<Rightarrow> rpc_failure list" where
  "answer_failures target ro r =
     (case r of Ok _ \<Rightarrow> [] | Err e \<Rightarrow> [(target, ro_started ro, ro_ended ro, e)])"

definition own_observation :: "(nat \<Rightarrow> uuid) \<Rightarrow> bitcoin_core_rpc_collector \<Rightarrow> sidecar_id \<Rightarrow> nat \<Rightarrow> observation \<Rightarrow> bool" where
  "own_observation uids c sidecar_id i ob \<longleftrightarrow>
     obs_id ob = ObservationId (uids i) \<and> obs_subject ob = BitcoinNode (bcr_node_id c) \<and>
     obs_origin ob = Collected \<and> obs_received_at ob = None \<and> obs_attributes ob = [] \<and>
     obs_source ob = \<lparr>src_sidecar_id = sidecar_id, src_collector = descriptor_as_ref (bcr_descriptor c)\<rparr>"

definition collected ::
    "(nat \<Rightarrow> uuid) \<Rightarrow> bitcoin_core_rpc_collector \<Rightarrow> sidecar_id \<Rightarrow> observation_payload list \<Rightarrow> rpc_failure list \<Rightarrow>
     observation list \<times> rpc_failure option \<Rightarrow> bool" where
  "collected uids c sidecar_id payloads failures acc \<longleftrightarrow>
     map obs_payload (fst acc) = payloads \<and>
     (\<forall>i < length (fst acc). own_observation uids c sidecar_id i (fst acc ! i)) \<and>
     snd acc = (case failures of [] \<Rightarrow> None | f # _ \<Rightarrow> Some f)"

lemma collected_nil: "collected uids c sidecar_id [] [] ([], None)"
  by (simp add: collected_def)

lemma collect_result_collected:
  assumes "collected uids c sidecar_id payloads failures acc"
  shows "collected uids c sidecar_id
    (payloads @ answer_payloads target to_state ro r) (failures @ answer_failures target ro r)
    (collect_result uids c sidecar_id target to_state ro r acc)"
proof (cases r)
  case (Inl e)
  then show ?thesis
    using assms by (cases acc; cases failures)
      (auto simp: collected_def collect_result_def answer_payloads_def answer_failures_def)
next
  case (Inr info)
  then show ?thesis
    using assms by (cases acc)
      (auto simp: collected_def collect_result_def answer_payloads_def answer_failures_def own_observation_def
        bcr_obs_context_def observation_defs health_target_id_from_well_known_def empty_attrs_def
        nth_append nth_Cons' less_Suc_eq Let_def)
qed

lemma health_targets_parse:
  assumes "target \<in> set HEALTH_TARGETS"
  shows "health_target_id_parse target = Ok (HealthTargetId target)"
  using assms unfolding HEALTH_TARGETS_def health_target_defs health_target_id_parse_def
  by (auto simp: parse_dotted_name_def MAX_NAME_LEN_def is_segment_body_byte_def is_ascii_lowercase_def is_ascii_digit_def)

lemma bcr_failed_Done:
  assumes "target \<in> set HEALTH_TARGETS"
  shows "\<exists>b. bcr_failed po c ctx (target, s, e, err) partials = Done b \<and>
    batch_result b = ProbeFailed
      \<lparr>health_target = HealthTargetId target, health_status_of = HealthCritical,
       health_latency_ms = duration_ms s e, health_message = Some (rpc_error_display err), health_error_of = None\<rparr>
      partials \<lparr>cerr_kind = rpc_collection_error_kind err, cerr_message = rpc_error_display err\<rparr> \<and>
    pw_started_at (batch_window b) \<le> pw_completed_at (batch_window b)"
  unfolding bcr_failed_def by (simp add: health_targets_parse [OF assms] safe_probe_window_cases bcr_build_batch_def Let_def max_def)

lemma bitcoin_poll_run:
  assumes "get_blockchain_info sd (po_blockchain po) (bcr_client c) = (bc, c1)"
    and "get_mempool_info sd (po_mempool po) c1 = (mp, c2)"
    and "get_network_info sd (po_network po) c2 = (nw, c3)"
    and "get_peer_info sd (po_peers po) c3 = (pe, c4)"
  shows "\<exists>b. bitcoin_poll sd po ctx c = (Done b, c\<lparr>bcr_client := c4\<rparr>) \<and>
    brc_rpc_seq c4 = brc_rpc_seq (bcr_client c) + 4 \<and>
    map obs_payload (observations_from_batch b) =
      answer_payloads HEALTH_BLOCKCHAIN (\<lambda>r. StateBitcoinBlockchain (blockchain_state r)) (po_blockchain po) bc @
      answer_payloads HEALTH_MEMPOOL (\<lambda>r. StateBitcoinMempool (mempool_state r)) (po_mempool po) mp @
      answer_payloads HEALTH_NETWORK (\<lambda>r. StateBitcoinNetwork (network_state r)) (po_network po) nw @
      answer_payloads HEALTH_PEERS (\<lambda>r. StateBitcoinPeerSummary (peer_summary_state r)) (po_peers po) pe \<and>
    (\<forall>i < length (observations_from_batch b).
       own_observation (po_observation_uid po) c (cctx_sidecar_id ctx) i (observations_from_batch b ! i)) \<and>
    (case answer_failures HEALTH_BLOCKCHAIN (po_blockchain po) bc @
          answer_failures HEALTH_MEMPOOL (po_mempool po) mp @
          answer_failures HEALTH_NETWORK (po_network po) nw @
          answer_failures HEALTH_PEERS (po_peers po) pe of
       [] \<Rightarrow> \<exists>obs. batch_result b = ProbeOk obs
     | (target, s, e, err) # _ \<Rightarrow> \<exists>h obs. batch_result b =
         ProbeFailed h obs \<lparr>cerr_kind = rpc_collection_error_kind err, cerr_message = rpc_error_display err\<rparr> \<and>
         health_target h = HealthTargetId target \<and> health_status_of h = HealthCritical \<and>
         health_latency_ms h = duration_ms s e) \<and>
    pw_started_at (batch_window b) \<le> pw_completed_at (batch_window b)"
proof -
  let ?acc1 = "collect_result (po_observation_uid po) c (cctx_sidecar_id ctx) HEALTH_BLOCKCHAIN
    (\<lambda>r. StateBitcoinBlockchain (blockchain_state r)) (po_blockchain po) bc ([], None)"
  let ?acc2 = "collect_result (po_observation_uid po) c (cctx_sidecar_id ctx) HEALTH_MEMPOOL
    (\<lambda>r. StateBitcoinMempool (mempool_state r)) (po_mempool po) mp ?acc1"
  let ?acc3 = "collect_result (po_observation_uid po) c (cctx_sidecar_id ctx) HEALTH_NETWORK
    (\<lambda>r. StateBitcoinNetwork (network_state r)) (po_network po) nw ?acc2"
  let ?fs = "answer_failures HEALTH_BLOCKCHAIN (po_blockchain po) bc @
    answer_failures HEALTH_MEMPOOL (po_mempool po) mp @
    answer_failures HEALTH_NETWORK (po_network po) nw @ answer_failures HEALTH_PEERS (po_peers po) pe"
  obtain partials first_failure where acc4: "collect_result (po_observation_uid po) c (cctx_sidecar_id ctx)
      HEALTH_PEERS (\<lambda>r. StateBitcoinPeerSummary (peer_summary_state r)) (po_peers po) pe ?acc3
      = (partials, first_failure)"
    by (metis surj_pair)
  note collected = collect_result_collected [OF collect_result_collected [OF collect_result_collected
      [OF collect_result_collected [OF collected_nil]]], of "po_observation_uid po" c "cctx_sidecar_id ctx"
      HEALTH_BLOCKCHAIN "\<lambda>r. StateBitcoinBlockchain (blockchain_state r)" "po_blockchain po" bc
      HEALTH_MEMPOOL "\<lambda>r. StateBitcoinMempool (mempool_state r)" "po_mempool po" mp
      HEALTH_NETWORK "\<lambda>r. StateBitcoinNetwork (network_state r)" "po_network po" nw
      HEALTH_PEERS "\<lambda>r. StateBitcoinPeerSummary (peer_summary_state r)" "po_peers po" pe,
      unfolded acc4 append_Nil append_assoc collected_def fst_conv snd_conv]
  have seq: "brc_rpc_seq c4 = brc_rpc_seq (bcr_client c) + 4"
    using assms by (auto simp: get_blockchain_info_def get_mempool_info_def get_network_info_def
        get_peer_info_def rpc_call_def)
  have poll: "bitcoin_poll sd po ctx c =
      (case first_failure of
         Some failure \<Rightarrow> bcr_failed po c ctx failure partials
       | None \<Rightarrow> Done (bcr_build_batch (po_batch_uid po) c (cctx_sidecar_id ctx)
           \<lparr>pw_started_at = (if po_batch_end po < po_started_at po then po_batch_end po else po_started_at po),
            pw_completed_at = po_batch_end po\<rparr> (ProbeOk partials)), c\<lparr>bcr_client := c4\<rparr>)"
    using assms by (simp add: bitcoin_poll_def acc4 safe_probe_window_cases split: option.split)
  show ?thesis
  proof (cases ?fs)
    case Nil
    with collected poll seq show ?thesis
      by (auto simp: bcr_build_batch_def)
  next
    case (Cons f fs)
    obtain target s e err where f: "f = (target, s, e, err)"
      by (cases f)
    have "f \<in> set ?fs"
      by (simp add: Cons)
    then have "target \<in> set HEALTH_TARGETS"
      unfolding f by (auto simp: answer_failures_def HEALTH_TARGETS_def split: sum.splits)
    from bcr_failed_Done [OF this, of po c ctx s e err partials] obtain b where
      b: "bcr_failed po c ctx (target, s, e, err) partials = Done b"
      "batch_result b = ProbeFailed
        \<lparr>health_target = HealthTargetId target, health_status_of = HealthCritical,
         health_latency_ms = duration_ms s e, health_message = Some (rpc_error_display err), health_error_of = None\<rparr>
        partials \<lparr>cerr_kind = rpc_collection_error_kind err, cerr_message = rpc_error_display err\<rparr>"
      "pw_started_at (batch_window b) \<le> pw_completed_at (batch_window b)"
      by blast
    with collected poll seq Cons f show ?thesis
      by (intro exI [of _ b]) simp
  qed
qed

lemma bitcoin_poll_returns: "\<exists>b c'. bitcoin_poll sd po ctx c = (Done b, c')"
proof -
  obtain bc c1 where "get_blockchain_info sd (po_blockchain po) (bcr_client c) = (bc, c1)"
    by (rule prod.exhaust)
  moreover obtain mp c2 where "get_mempool_info sd (po_mempool po) c1 = (mp, c2)"
    by (rule prod.exhaust)
  moreover obtain nw c3 where "get_network_info sd (po_network po) c2 = (nw, c3)"
    by (rule prod.exhaust)
  moreover obtain pe c4 where "get_peer_info sd (po_peers po) c3 = (pe, c4)"
    by (rule prod.exhaust)
  ultimately show ?thesis
    using bitcoin_poll_run [of sd po c bc c1 mp c2 nw c3 pe c4 ctx] by blast
qed

text \<open>C22. The batch of a poll is determined by the four answers, in the order of the documentation.
  A poll never panics and draws four ids. Its observations are exactly the state
  and the health of each call that succeeded, blockchain before mempool before network
  before peers, all about the configured node and with the ids drawn for them in turn.
  It is a success when no call failed; otherwise the first failure in that order,
  not the first in time, is reported with its error kind, message and latency, and
  what the other calls gave is kept.  The probe window is never inverted.\<close>

theorem bitcoin_poll_batch:
  assumes "get_blockchain_info sd (po_blockchain po) (bcr_client c) = (bc, c1)"
    and "get_mempool_info sd (po_mempool po) c1 = (mp, c2)"
    and "get_network_info sd (po_network po) c2 = (nw, c3)"
    and "get_peer_info sd (po_peers po) c3 = (pe, c4)"
  shows "\<exists>b. bitcoin_poll sd po ctx c = (Done b, c\<lparr>bcr_client := c4\<rparr>) \<and>
    brc_rpc_seq c4 = brc_rpc_seq (bcr_client c) + 4 \<and>
    map obs_payload (observations_from_batch b) =
      answer_payloads HEALTH_BLOCKCHAIN (\<lambda>r. StateBitcoinBlockchain (blockchain_state r)) (po_blockchain po) bc @
      answer_payloads HEALTH_MEMPOOL (\<lambda>r. StateBitcoinMempool (mempool_state r)) (po_mempool po) mp @
      answer_payloads HEALTH_NETWORK (\<lambda>r. StateBitcoinNetwork (network_state r)) (po_network po) nw @
      answer_payloads HEALTH_PEERS (\<lambda>r. StateBitcoinPeerSummary (peer_summary_state r)) (po_peers po) pe \<and>
    (\<forall>i < length (observations_from_batch b).
       own_observation (po_observation_uid po) c (cctx_sidecar_id ctx) i (observations_from_batch b ! i)) \<and>
    (case answer_failures HEALTH_BLOCKCHAIN (po_blockchain po) bc @
          answer_failures HEALTH_MEMPOOL (po_mempool po) mp @
          answer_failures HEALTH_NETWORK (po_network po) nw @
          answer_failures HEALTH_PEERS (po_peers po) pe of
       [] \<Rightarrow> \<exists>obs. batch_result b = ProbeOk obs
     | (target, s, e, err) # _ \<Rightarrow> \<exists>h obs. batch_result b =
         ProbeFailed h obs \<lparr>cerr_kind = rpc_collection_error_kind err, cerr_message = rpc_error_display err\<rparr> \<and>
         health_target h = HealthTargetId target \<and> health_status_of h = HealthCritical \<and>
         health_latency_ms h = duration_ms s e) \<and>
    pw_started_at (batch_window b) \<le> pw_completed_at (batch_window b)"
  by (rule bitcoin_poll_run [OF assms])

section \<open>Health reports of the collector\<close>

text \<open>An observation that some poll of a Bitcoin collector put into its batch.\<close>

definition from_bitcoin_poll :: "observation \<Rightarrow> bool" where
  "from_bitcoin_poll obs \<longleftrightarrow>
     (\<exists>sd po ctx c b c'. bitcoin_poll sd po ctx c = (Done b, c') \<and> obs \<in> set (observations_from_batch b))"

definition benign_health :: "observation_payload \<Rightarrow> bool" where
  "benign_health p = (case p of PHealth h \<Rightarrow> health_status_of h = HealthOk | _ \<Rightarrow> True)"

lemma collect_result_benign:
  "list_all (\<lambda>ob. benign_health (obs_payload ob)) (fst acc) \<Longrightarrow>
   list_all (\<lambda>ob. benign_health (obs_payload ob))
     (fst (collect_result uids c sidecar_id target to_state ro r acc))"
  by (cases acc; cases r)
    (auto simp: collect_result_def Let_def observation_defs benign_health_def)

lemma bcr_failed_observations:
  "bcr_failed po c ctx failure partials = Done b \<Longrightarrow> observations_from_batch b = partials"
  by (auto simp: bcr_failed_def bcr_build_batch_def Let_def split: prod.splits sum.splits run.splits)

lemma bitcoin_poll_benign:
  assumes "bitcoin_poll sd po ctx c = (Done b, c')"
  shows "list_all (\<lambda>ob. benign_health (obs_payload ob)) (observations_from_batch b)"
proof -
  let ?run = "\<lambda>bc mp nw pe. collect_result (po_observation_uid po) c (cctx_sidecar_id ctx) HEALTH_PEERS
      (\<lambda>r. StateBitcoinPeerSummary (peer_summary_state r)) (po_peers po) pe
      (collect_result (po_observation_uid po) c (cctx_sidecar_id ctx) HEALTH_NETWORK
        (\<lambda>r. StateBitcoinNetwork (network_state r)) (po_network po) nw
        (collect_result (po_observation_uid po) c (cctx_sidecar_id ctx) HEALTH_MEMPOOL
          (\<lambda>r. StateBitcoinMempool (mempool_state r)) (po_mempool po) mp
          (collect_result (po_observation_uid po) c (cctx_sidecar_id ctx) HEALTH_BLOCKCHAIN
            (\<lambda>r. StateBitcoinBlockchain (blockchain_state r)) (po_blockchain po) bc ([], None))))"
  obtain bc c1 where bc: "get_blockchain_info sd (po_blockchain po) (bcr_client c) = (bc, c1)"
    by (rule prod.exhaust)
  obtain mp c2 where mp: "get_mempool_info sd (po_mempool po) c1 = (mp, c2)"
    by (rule prod.exhaust)
  obtain nw c3 where nw: "get_network_info sd (po_network po) c2 = (nw, c3)"
    by (rule prod.exhaust)
  obtain pe c4 where pe: "get_peer_info sd (po_peers po) c3 = (pe, c4)"
    by (rule prod.exhaust)
  obtain partials first_failure where run: "?run bc mp nw pe = (partials, first_failure)"
    by (rule prod.exhaust)
  have "list_all (\<lambda>ob. benign_health (obs_payload ob)) (fst (?run bc mp nw pe))"
    by (intro collect_result_benign) simp
  moreover have "observations_from_batch b = partials"
    using assms unfolding bitcoin_poll_def Let_def bc mp nw pe run prod.case
    by (auto simp: bcr_build_batch_def split: option.splits run.splits dest: bcr_failed_observations)
  ultimately show ?thesis
    by (simp add: run)
qed

lemma health_entry_Some:
  "health_entry obs = Some (k, h) \<longleftrightarrow> obs_payload obs = PHealth h \<and> k = (obs_subject obs, health_target h)"
  by (cases "obs_payload obs") (auto simp: health_entry_def)

lemma store_health_from_history:
  assumes "read_model_store_new cfg = Done store"
  shows "\<exists>store'. apply_all store_apply store obss = Ok store' \<and>
    (\<forall>s t. store_current_health store' s t = newest None (samples health_entry (s, t) obss))"
proof -
  obtain store' where "apply_all store_apply store obss = Ok store'"
    "apply_all health_apply health_projection_new obss = Ok (rms_health store')"
    using store_apply_all_fields [of store obss] assms by (auto simp: read_model_store_new_Done)
  then show ?thesis
    using health_view.history [of obss] by (simp add: store_current_health_def)
qed

lemma rpc_unreachable_silent:
  assumes "ru_ok r" and "\<forall>s. \<not> ru_emitted r s" and "\<not> all_four_critical ctx"
  shows "\<exists>r'. rpc_unreachable_evaluate r ctx = Done (r', Ok []) \<and> ru_ok r' \<and> (\<forall>s. \<not> ru_emitted r' s)"
proof -
  obtain r' ds where run: "rpc_unreachable_evaluate r ctx = Done (r', Ok ds)"
    using rpc_unreachable_returns [OF assms(1)] by blast
  have "ds = [] \<and> (\<forall>s. \<not> ru_emitted r' s)"
    using assms(1) run
  proof (cases rule: rpc_unreachable_evaluateE)
    case (entry a e)
    have "\<not> a"
      using entry(1) assms(3) by (auto simp: ru_input_def split: entity_ref.splits)
    moreover have "\<not> ru_active_emitted e"
      using assms(2) by (simp add: entry(3) ru_entry_emitted)
    ultimately have step: "snd (ru_step (ru_debounce r) (ctx_subject ctx) (ctx_monotonic_now ctx) a e) = []"
      "\<not> ru_active_emitted (fst (ru_step (ru_debounce r) (ctx_subject ctx) (ctx_monotonic_now ctx) a e))"
      by (simp_all add: ru_step_def)
    then have "\<not> ru_emitted r' (ctx_subject ctx)"
      by (simp add: ru_emitted_def entry(7))
    then have "\<not> ru_emitted r' s" for s
      using rpc_unreachable.strict_frame [OF assms(1) run, of s] assms(2) by (cases "s = ctx_subject ctx") auto
    with step(1) show ?thesis
      by (simp add: entry(6))
  qed (use assms(2) in simp)
  with run rpc_unreachable_ok [OF assms(1) run] show ?thesis
    by blast
qed

text \<open>C25. The collector's own failures never reach the rule that watches for them.
  Take any history of observations in which the health reports all come from polls of
  Bitcoin collectors, successful or failed.  No target is ever read back as critical
  from the read models built from it, so evaluating \<open>bitcoin.rpc_unreachable\<close> on them
  emits nothing, however many polls failed and for however long: a failed poll puts its
  critical health only into the \<open>health\<close> field of its result, which the consumer drops.\<close>

theorem rpc_unreachable_never_fires:
  assumes "\<forall>ob \<in> set history. \<forall>h. obs_payload ob = PHealth h \<longrightarrow> from_bitcoin_poll ob"
    and "read_model_store_new cfg = Done store0"
    and "apply_all store_apply store0 history = Ok store"
    and "ru_ok r" and "\<forall>s. \<not> ru_emitted r s"
  shows "\<exists>r'. rpc_unreachable_evaluate r (store_context store now instant subject) = Done (r', Ok []) \<and>
    ru_ok r' \<and> (\<forall>s. \<not> ru_emitted r' s)"
proof -
  let ?ctx = "store_context store now instant subject"
  have "\<not> all_four_critical ?ctx"
  proof
    assume "all_four_critical ?ctx"
    then obtain p where p: "store_current_health store subject (HealthTargetId HEALTH_PEERS) = Some p"
      "health_status_of (pr_value p) = HealthCritical"
      by (auto simp: all_four_critical_def HEALTH_TARGETS_def store_context_def health_target_id_from_well_known_def)
    with store_health_from_history [OF assms(2), of history] assms(3)
    have "p \<in> set (samples health_entry (subject, HealthTargetId HEALTH_PEERS) history)"
      by (auto dest!: newest_maximum)
    then obtain ob where ob: "ob \<in> set history" "obs_payload ob = PHealth (pr_value p)"
      by (auto simp: samples_set health_entry_Some project_def)
    then have "from_bitcoin_poll ob"
      using assms(1) by blast
    then have "health_status_of (pr_value p) = HealthOk"
      using ob(2) bitcoin_poll_benign unfolding from_bitcoin_poll_def
      by (fastforce simp: list_all_iff benign_health_def)
    with p(2) show False by simp
  qed
  from rpc_unreachable_silent [OF assms(4,5) this] show ?thesis .
qed

section \<open>Examples\<close>

text \<open>
  A node that answers \<open>getpeerinfo\<close> with two peers and refuses every other call: the
  mempool call runs into the timeout, the other two get a server error.
\<close>

definition sample_rpc_collector :: bitcoin_core_rpc_collector where
  "sample_rpc_collector =
     \<lparr>bcr_descriptor = \<lparr>desc_id = CollectorId ''c1'', desc_integration = BitcoinCoreRpc 10,
        desc_target = TargetBitcoinNode (BitcoinNodeId ''n1''), desc_instance_label = ''n1'', desc_description = None\<rparr>,
      bcr_node_id = BitcoinNodeId ''n1'',
      bcr_client = bitcoin_rpc_client_new ''http://n1'' (UserPass ''u'' ''p'') 5\<rparr>"

definition sample_peer_entries :: get_peer_info_response where
  "sample_peer_entries =
     [\<lparr>pie_inbound = True, pie_addr = None, pie_subver = None, pie_connection_type = Some ''inbound''\<rparr>,
      \<lparr>pie_inbound = False, pie_addr = None, pie_subver = None, pie_connection_type = None\<rparr>]"

definition sample_rpc_outside :: "rpc_reply io \<Rightarrow> rpc_outside" where
  "sample_rpc_outside answer =
     \<lparr>ro_started = 1000000, ro_ended = 4000000, ro_read_file = (\<lambda>_. None), ro_send = (\<lambda>_. answer)\<rparr>"

text \<open>Its serde reads every body as the peer answer to the call with the given sequence number.\<close>

definition sample_serde :: "u64 \<Rightarrow> bitcoin_serde" where
  "sample_serde n =
     \<lparr>bs_show = (\<lambda>_. ''id''), bs_blockchain = (\<lambda>_. Err ''e''), bs_mempool = (\<lambda>_. Err ''e''),
      bs_network = (\<lambda>_. Err ''e''),
      bs_peers = (\<lambda>_. Ok \<lparr>rpr_result = Some sample_peer_entries, rpr_error = None, rpr_id = Some (JString (rpc_id n))\<rparr>)\<rparr>"

definition sample_poll_outside :: poll_outside where
  "sample_poll_outside =
     \<lparr>po_started_at = 0, po_batch_end = 5000000,
      po_blockchain = sample_rpc_outside (IoOk \<lparr>reply_status = 500, reply_body = IoOk []\<rparr>),
      po_mempool = sample_rpc_outside IoElapsed,
      po_network = sample_rpc_outside (IoOk \<lparr>reply_status = 500, reply_body = IoOk []\<rparr>),
      po_peers = sample_rpc_outside (IoOk \<lparr>reply_status = 200, reply_body = IoOk []\<rparr>),
      po_observation_uid = of_nat, po_batch_uid = 7\<rparr>"

definition sample_collection_context :: collection_context where
  "sample_collection_context =
     \<lparr>cctx_sidecar_id = SidecarId 3, cctx_collector_id = CollectorId ''c1'',
      cctx_target = TargetBitcoinNode (BitcoinNodeId ''n1''), cctx_now = 0, cctx_run_id = CollectionRunId 1\<rparr>"

lemmas sample_poll_defs =
  sample_rpc_collector_def sample_rpc_outside_def sample_serde_def sample_poll_outside_def
  sample_collection_context_def bitcoin_rpc_client_new_def get_blockchain_info_def get_mempool_info_def
  get_network_info_def get_peer_info_def rpc_call_def rpc_inner_def accept_envelope_def

theorem bitcoin_poll_batch_witness:
  "\<exists>b c'. bitcoin_poll (sample_serde 4) sample_poll_outside sample_collection_context sample_rpc_collector = (Done b, c') \<and>
     map obs_payload (observations_from_batch b) =
       [PState (StateBitcoinPeerSummary (peer_summary_state sample_peer_entries)),
        PHealth \<lparr>health_target = HealthTargetId HEALTH_PEERS, health_status_of = HealthOk,
          health_latency_ms = Some 3, health_message = None, health_error_of = None\<rparr>] \<and>
     (\<exists>h obs. batch_result b = ProbeFailed h obs \<lparr>cerr_kind = ProtocolError, cerr_message = ''http status 500''\<rparr> \<and>
        health_target h = HealthTargetId HEALTH_BLOCKCHAIN)"
proof -
  have ms: "duration_ms 1000000 4000000 = Some 3"
    by (simp add: duration_ms_def num_milliseconds_def)
  have 500: "u16_str 500 = ''500''"
    by (simp add: u16_str_def nat_str.simps char_of_def bit_simps)
  let ?c = "\<lambda>n. (bcr_client sample_rpc_collector)\<lparr>brc_rpc_seq := n\<rparr>"
  have "get_blockchain_info (sample_serde 4) (po_blockchain sample_poll_outside) (bcr_client sample_rpc_collector)
      = (Err (RpcHttpStatus 500), ?c 2)"
    "get_mempool_info (sample_serde 4) (po_mempool sample_poll_outside) (?c 2) = (Err RpcTimeout, ?c 3)"
    "get_network_info (sample_serde 4) (po_network sample_poll_outside) (?c 3) = (Err (RpcHttpStatus 500), ?c 4)"
    "get_peer_info (sample_serde 4) (po_peers sample_poll_outside) (?c 4) = (Ok sample_peer_entries, ?c 5)"
    by (simp_all add: sample_poll_defs)
  from bitcoin_poll_batch [OF this, of sample_collection_context] ms 500 show ?thesis
    by (auto simp: answer_payloads_def answer_failures_def sample_poll_outside_def sample_rpc_outside_def)
qed

theorem rpc_unreachable_never_fires_witness:
  "\<exists>b c' store0 store r'.
     bitcoin_poll (sample_serde 4) sample_poll_outside sample_collection_context sample_rpc_collector = (Done b, c') \<and>
     read_model_store_new sample_config = Done store0 \<and>
     apply_all store_apply store0 (observations_from_batch b) = Ok store \<and>
     rpc_unreachable_evaluate rpc_unreachable_new
       (store_context store 9 9 (BitcoinNode (BitcoinNodeId ''n1''))) = Done (r', Ok [])"
proof -
  obtain b c' where b: "bitcoin_poll (sample_serde 4) sample_poll_outside sample_collection_context
      sample_rpc_collector = (Done b, c')"
    using bitcoin_poll_returns by blast
  obtain store0 where s0: "read_model_store_new sample_config = Done store0"
    using sample_store_new by blast
  obtain store where s: "apply_all store_apply store0 (observations_from_batch b) = Ok store"
    using store_health_from_history [OF s0] by blast
  have "ru_ok rpc_unreachable_new" "\<forall>s. \<not> ru_emitted rpc_unreachable_new s"
    by (simp_all add: rpc_unreachable_new_def ru_with_debounce_def ru_ok_def ru_emitted_def hm_get_def)
  moreover have "\<forall>ob \<in> set (observations_from_batch b). \<forall>h. obs_payload ob = PHealth h \<longrightarrow> from_bitcoin_poll ob"
    using b unfolding from_bitcoin_poll_def by blast
  ultimately show ?thesis
    using rpc_unreachable_never_fires [OF _ s0 s, of rpc_unreachable_new 9 9 "BitcoinNode (BitcoinNodeId ''n1'')"] b s0 s
    by blast
qed

end
