(* ===== verification/Lnd_Client.thy ===== *)
theory Lnd_Client
  imports Observations Notification_Types
begin

text \<open>
  The gRPC client of \<open>collectors/lnd/grpc_client.rs\<close> and the translation of its answers,
  with the channel totals, from \<open>collectors/lnd/grpc_poll.rs\<close>.  Parameters are the file
  system, tonic's construction of an endpoint and of a metadata value, the gRPC service
  itself (which answers, fails with a status, or runs into the timeout) and the \<open>Debug\<close>
  renderings of a string and of a duration.  The messages of the protocol are records of
  the fields the collector reads.
\<close>

section \<open>The gRPC client\<close>

record get_info_response =
  gi_identity_pubkey :: string
  gi_alias :: string
  gi_version :: string
  gi_num_active_channels :: u32
  gi_num_inactive_channels :: u32
  gi_num_pending_channels :: u32
  gi_num_peers :: u32
  gi_block_height :: u32
  gi_synced_to_chain :: bool
  gi_synced_to_graph :: bool

record lnd_channel =
  lc_active :: bool
  lc_remote_pubkey :: string
  lc_channel_point :: string
  lc_chan_id :: u64
  lc_capacity :: i64
  lc_local_balance :: i64
  lc_remote_balance :: i64
  lc_commit_fee :: i64
  lc_unsettled_balance :: i64
  lc_csv_delay :: u32
  lc_private :: bool
  lc_initiator :: bool
  lc_lifetime :: i64

type_synonym list_channels_response = "lnd_channel list"

text \<open>A peer is its public key.\<close>

type_synonym list_peers_response = "string list"

record list_channels_request =
  lcr_active_only :: bool
  lcr_inactive_only :: bool
  lcr_public_only :: bool
  lcr_private_only :: bool
  lcr_peer :: string
  lcr_peer_alias_lookup :: bool

record list_peers_request =
  lpr_latest_error :: bool

datatype tonic_code =
    CodeOk | CodeCancelled | CodeUnknown | CodeInvalidArgument | CodeDeadlineExceeded | CodeNotFound
  | CodeAlreadyExists | CodePermissionDenied | CodeResourceExhausted | CodeFailedPrecondition
  | CodeAborted | CodeOutOfRange | CodeUnimplemented | CodeInternal | CodeUnavailable | CodeDataLoss
  | CodeUnauthenticated

fun code_debug :: "tonic_code \<Rightarrow> string" where
  "code_debug CodeOk = ''Ok''"
| "code_debug CodeCancelled = ''Cancelled''"
| "code_debug CodeUnknown = ''Unknown''"
| "code_debug CodeInvalidArgument = ''InvalidArgument''"
| "code_debug CodeDeadlineExceeded = ''DeadlineExceeded''"
| "code_debug CodeNotFound = ''NotFound''"
| "code_debug CodeAlreadyExists = ''AlreadyExists''"
| "code_debug CodePermissionDenied = ''PermissionDenied''"
| "code_debug CodeResourceExhausted = ''ResourceExhausted''"
| "code_debug CodeFailedPrecondition = ''FailedPrecondition''"
| "code_debug CodeAborted = ''Aborted''"
| "code_debug CodeOutOfRange = ''OutOfRange''"
| "code_debug CodeUnimplemented = ''Unimplemented''"
| "code_debug CodeInternal = ''Internal''"
| "code_debug CodeUnavailable = ''Unavailable''"
| "code_debug CodeDataLoss = ''DataLoss''"
| "code_debug CodeUnauthenticated = ''Unauthenticated''"

datatype lnd_client_build_error =
    TlsCertRead string string
  | MissingScheme string
  | InvalidEndpoint string string
  | TlsConfig string
  | BuildMacaroonInvalid

datatype lnd_rpc_error =
    LndStatus tonic_code string
  | LndTransport string
  | LndDecode string
  | LndTimeout duration
  | LndMacaroonInvalid

record lnd_crates =
  lk_read_file :: "string \<Rightarrow> string + string"
  lk_from_shared :: "string \<Rightarrow> string option"
  lk_tls_config :: "string \<Rightarrow> string option"
  lk_metadata_value :: "string \<Rightarrow> bool"
  lk_debug_str :: "string \<Rightarrow> string"
  lk_debug_duration :: "duration \<Rightarrow> string"

definition lnd_rpc_error_display :: "lnd_crates \<Rightarrow> lnd_rpc_error \<Rightarrow> string" where
  "lnd_rpc_error_display lk e =
     (case e of
        LndStatus code message \<Rightarrow>
          ''tonic status: code='' @ code_debug code @ '' message='' @ lk_debug_str lk message
      | LndTransport t \<Rightarrow> ''transport error: '' @ t
      | LndDecode d \<Rightarrow> ''response decode failed: '' @ d
      | LndTimeout d \<Rightarrow> ''timeout after '' @ lk_debug_duration lk d
      | LndMacaroonInvalid \<Rightarrow> ''macaroon metadata value invalid'')"

fun status_error_kind :: "tonic_code \<Rightarrow> collection_error_kind" where
  "status_error_kind CodeUnavailable = Unreachable"
| "status_error_kind CodeDeadlineExceeded = Timeout"
| "status_error_kind CodeUnauthenticated = AuthenticationFailed"
| "status_error_kind CodePermissionDenied = PermissionDenied"
| "status_error_kind CodeFailedPrecondition = Misconfigured"
| "status_error_kind CodeInternal = InternalKind"
| "status_error_kind CodeUnimplemented = UnsupportedVersion"
| "status_error_kind CodeResourceExhausted = RateLimitedKind"
| "status_error_kind CodeInvalidArgument = InvalidResponse"
| "status_error_kind _ = InternalKind"

fun lnd_collection_error_kind :: "lnd_rpc_error \<Rightarrow> collection_error_kind" where
  "lnd_collection_error_kind (LndTimeout _) = Timeout"
| "lnd_collection_error_kind (LndDecode _) = DecodeError"
| "lnd_collection_error_kind LndMacaroonInvalid = Misconfigured"
| "lnd_collection_error_kind (LndTransport _) = Unreachable"
| "lnd_collection_error_kind (LndStatus code _) = status_error_kind code"

definition hex_digit :: "nat \<Rightarrow> char" where
  "hex_digit n = char_of (if n < 10 then 48 + n else 87 + n)"

definition hex_encode :: "string \<Rightarrow> string" where
  "hex_encode s = concat (map (\<lambda>c. [hex_digit (of_char c div 16), hex_digit (of_char c mod 16)]) s)"

record lnd_node_connection =
  lnc_grpc_endpoint :: string
  lnc_rest_endpoint :: "string option"
  lnc_macaroon :: secret_string
  lnc_tls_cert_path :: string

text \<open>The lazily online_peers channel is known by its endpoint and its certificate.\<close>

record lnd_grpc_client =
  lgc_endpoint :: string
  lgc_certificate :: string
  lgc_macaroon_hex :: secret_string
  lgc_timeout :: duration

definition lnd_grpc_client_new ::
    "lnd_crates \<Rightarrow> string \<Rightarrow> string \<Rightarrow> secret_string \<Rightarrow> duration \<Rightarrow> lnd_client_build_error + lnd_grpc_client" where
  "lnd_grpc_client_new lk endpoint tls_cert_path macaroon tmo =
     (if take 8 endpoint \<noteq> ''https://'' then Err (MissingScheme endpoint)
      else case lk_read_file lk tls_cert_path of
        Err source \<Rightarrow> Err (TlsCertRead tls_cert_path source)
      | Ok pem \<Rightarrow>
          (case lk_from_shared lk endpoint of
             Some reason \<Rightarrow> Err (InvalidEndpoint endpoint reason)
           | None \<Rightarrow>
               (case lk_tls_config lk pem of
                  Some e \<Rightarrow> Err (TlsConfig e)
                | None \<Rightarrow>
                    let macaroon_hex = hex_encode macaroon
                    in if \<not> lk_metadata_value lk macaroon_hex then Err BuildMacaroonInvalid
                       else Ok \<lparr>lgc_endpoint = endpoint, lgc_certificate = pem,
                                lgc_macaroon_hex = macaroon_hex, lgc_timeout = tmo\<rparr>)))"

text \<open>What the service does with a request that carries a macaroon.\<close>

datatype 'a grpc = GrpcOk 'a | GrpcStatus tonic_code string | GrpcElapsed

record 'a timed_call =
  tm_started :: datetime
  tm_ended :: datetime
  tm_call :: 'a

definition stamp_macaroon :: "lnd_crates \<Rightarrow> lnd_grpc_client \<Rightarrow> lnd_rpc_error + string" where
  "stamp_macaroon lk client =
     (if lk_metadata_value lk (lgc_macaroon_hex client) then Ok (lgc_macaroon_hex client)
      else Err LndMacaroonInvalid)"

text \<open>The body the three calls share: stamp, send within the timeout, translate the outcome.\<close>

definition lnd_call ::
    "lnd_crates \<Rightarrow> lnd_grpc_client \<Rightarrow> ('q \<Rightarrow> string \<Rightarrow> 'a grpc) \<Rightarrow> 'q \<Rightarrow> lnd_rpc_error + 'a" where
  "lnd_call lk client service request =
     (case stamp_macaroon lk client of
        Err e \<Rightarrow> Err e
      | Ok macaroon \<Rightarrow>
          (case service request macaroon of
             GrpcElapsed \<Rightarrow> Err (LndTimeout (lgc_timeout client))
           | GrpcStatus code message \<Rightarrow> Err (LndStatus code message)
           | GrpcOk response \<Rightarrow> Ok response))"

definition lnd_get_info ::
    "lnd_crates \<Rightarrow> (unit \<Rightarrow> string \<Rightarrow> get_info_response grpc) \<Rightarrow> lnd_grpc_client \<Rightarrow> lnd_rpc_error + get_info_response" where
  "lnd_get_info lk service client = lnd_call lk client service ()"

definition lnd_list_channels ::
    "lnd_crates \<Rightarrow> (list_channels_request \<Rightarrow> string \<Rightarrow> list_channels_response grpc) \<Rightarrow> lnd_grpc_client \<Rightarrow>
     lnd_rpc_error + list_channels_response" where
  "lnd_list_channels lk service client =
     lnd_call lk client service
       \<lparr>lcr_active_only = False, lcr_inactive_only = False, lcr_public_only = False, lcr_private_only = False,
        lcr_peer = [], lcr_peer_alias_lookup = False\<rparr>"

definition lnd_list_peers ::
    "lnd_crates \<Rightarrow> (list_peers_request \<Rightarrow> string \<Rightarrow> list_peers_response grpc) \<Rightarrow> lnd_grpc_client \<Rightarrow>
     lnd_rpc_error + list_peers_response" where
  "lnd_list_peers lk service client = lnd_call lk client service \<lparr>lpr_latest_error = False\<rparr>"

section \<open>From answers to states\<close>

definition non_empty :: "string \<Rightarrow> string option" where
  "non_empty s = (if s = [] then None else Some s)"

definition node_state_from :: "get_info_response \<Rightarrow> lnd_node_state" where
  "node_state_from info =
     \<lparr>ln_identity_pubkey = gi_identity_pubkey info, ln_alias = non_empty (gi_alias info),
      ln_version = non_empty (gi_version info), ln_num_active_channels = ucast (gi_num_active_channels info),
      ln_num_inactive_channels = Some (ucast (gi_num_inactive_channels info)),
      ln_num_pending_channels = ucast (gi_num_pending_channels info), ln_num_peers = ucast (gi_num_peers info),
      ln_block_height = ucast (gi_block_height info), ln_synced_to_chain = gi_synced_to_chain info,
      ln_synced_to_graph = Some (gi_synced_to_graph info)\<rparr>"

text \<open>
  Addition of \<open>i64\<close>: the build decides whether an overflow panics (\<open>checks\<close>) or wraps.
\<close>

definition i64_range :: "int \<Rightarrow> bool" where
  "i64_range x \<longleftrightarrow> - (2 ^ 63) \<le> x \<and> x < 2 ^ 63"

definition i64_add :: "bool \<Rightarrow> i64 \<Rightarrow> i64 \<Rightarrow> i64 run" where
  "i64_add checks a b =
     (if i64_range (a + b) then Done (a + b)
      else if checks then Panicked else Done (sint (word_of_int (a + b) :: 64 word)))"

definition to_u64 :: "i64 \<Rightarrow> u64" where
  "to_u64 x = of_int (max x 0)"

record channel_totals =
  ct_active :: u64
  ct_inactive :: u64
  ct_total_capacity_sat :: i64
  ct_local_balance_sat :: i64
  ct_remote_balance_sat :: i64
  ct_unsettled_balance_sat :: i64

definition add_channel :: "bool \<Rightarrow> lnd_channel \<Rightarrow> channel_totals \<Rightarrow> channel_totals run" where
  "add_channel checks c t =
     (let t = (if lc_active c then t\<lparr>ct_active := ct_active t + 1\<rparr> else t\<lparr>ct_inactive := ct_inactive t + 1\<rparr>) in
      case i64_add checks (ct_total_capacity_sat t) (lc_capacity c) of
        Panicked \<Rightarrow> Panicked
      | Done capacity \<Rightarrow>
          (case i64_add checks (ct_local_balance_sat t) (lc_local_balance c) of
             Panicked \<Rightarrow> Panicked
           | Done local \<Rightarrow>
               (case i64_add checks (ct_remote_balance_sat t) (lc_remote_balance c) of
                  Panicked \<Rightarrow> Panicked
                | Done remote \<Rightarrow>
                    (case i64_add checks (ct_unsettled_balance_sat t) (lc_unsettled_balance c) of
                       Panicked \<Rightarrow> Panicked
                     | Done unsettled \<Rightarrow>
                         Done (t\<lparr>ct_total_capacity_sat := capacity, ct_local_balance_sat := local,
                                 ct_remote_balance_sat := remote, ct_unsettled_balance_sat := unsettled\<rparr>)))))"

fun add_channels :: "bool \<Rightarrow> lnd_channel list \<Rightarrow> channel_totals \<Rightarrow> channel_totals run" where
  "add_channels checks [] t = Done t"
| "add_channels checks (c # cs) t =
     (case add_channel checks c t of Panicked \<Rightarrow> Panicked | Done t \<Rightarrow> add_channels checks cs t)"

definition channel_summary_from :: "bool \<Rightarrow> list_channels_response \<Rightarrow> lnd_channel_summary_state run" where
  "channel_summary_from checks channels =
     (case add_channels checks channels
             \<lparr>ct_active = 0, ct_inactive = 0, ct_total_capacity_sat = 0, ct_local_balance_sat = 0,
              ct_remote_balance_sat = 0, ct_unsettled_balance_sat = 0\<rparr> of
        Panicked \<Rightarrow> Panicked
      | Done t \<Rightarrow>
          Done \<lparr>cs_active_channels = ct_active t, cs_inactive_channels = ct_inactive t, cs_pending_channels = 0,
                cs_total_capacity_sat = Some (to_u64 (ct_total_capacity_sat t)),
                cs_local_balance_sat = to_u64 (ct_local_balance_sat t),
                cs_remote_balance_sat = to_u64 (ct_remote_balance_sat t),
                cs_unsettled_balance_sat = Some (to_u64 (ct_unsettled_balance_sat t))\<rparr>)"

definition channel_state_from :: "lnd_channel \<Rightarrow> bool option \<Rightarrow> lnd_channel_state" where
  "channel_state_from channel peer_online =
     \<lparr>ch_remote_pubkey = lc_remote_pubkey channel, ch_capacity_sat = to_u64 (lc_capacity channel),
      ch_local_balance_sat = to_u64 (lc_local_balance channel),
      ch_remote_balance_sat = to_u64 (lc_remote_balance channel), ch_active = lc_active channel,
      ch_private = lc_private channel, ch_initiator = lc_initiator channel, ch_csv_delay = lc_csv_delay channel,
      ch_commit_fee_sat = to_u64 (lc_commit_fee channel), ch_lifetime_seconds = to_u64 (lc_lifetime channel),
      ch_last_update_height = None,
      ch_short_channel_id = (if lc_chan_id channel = 0 then None else Some (nat_str (unat (lc_chan_id channel)))),
      ch_peer_online = peer_online\<rparr>"

definition connected_peer_set :: "list_peers_response \<Rightarrow> string set" where
  "connected_peer_set peers = set peers"

section \<open>Channel totals\<close>

lemma i64_add_nonneg: "0 \<le> a \<Longrightarrow> 0 \<le> b \<Longrightarrow> a + b < 2 ^ 63 \<Longrightarrow> i64_add checks a b = Done (a + b)"
  by (simp add: i64_add_def i64_range_def)

definition channel_amounts_ok :: "lnd_channel \<Rightarrow> bool" where
  "channel_amounts_ok c \<longleftrightarrow>
     0 \<le> lc_capacity c \<and> 0 \<le> lc_local_balance c \<and> 0 \<le> lc_remote_balance c \<and> 0 \<le> lc_unsettled_balance c"

definition totals_plus :: "channel_totals \<Rightarrow> lnd_channel list \<Rightarrow> channel_totals" where
  "totals_plus t cs =
     \<lparr>ct_active = ct_active t + of_nat (length (filter lc_active cs)),
      ct_inactive = ct_inactive t + of_nat (length (filter (\<lambda>c. \<not> lc_active c) cs)),
      ct_total_capacity_sat = ct_total_capacity_sat t + sum_list (map lc_capacity cs),
      ct_local_balance_sat = ct_local_balance_sat t + sum_list (map lc_local_balance cs),
      ct_remote_balance_sat = ct_remote_balance_sat t + sum_list (map lc_remote_balance cs),
      ct_unsettled_balance_sat = ct_unsettled_balance_sat t + sum_list (map lc_unsettled_balance cs)\<rparr>"

definition totals_in_range :: "channel_totals \<Rightarrow> bool" where
  "totals_in_range t \<longleftrightarrow>
     (\<forall>x \<in> {ct_total_capacity_sat t, ct_local_balance_sat t, ct_remote_balance_sat t, ct_unsettled_balance_sat t}.
        0 \<le> x \<and> x < 2 ^ 63)"

lemma sum_list_nonneg_int: "(\<And>c. c \<in> set cs \<Longrightarrow> 0 \<le> f c) \<Longrightarrow> (0::int) \<le> sum_list (map f cs)"
  by (induction cs) auto

lemma totals_plus_Cons: "totals_plus t (c # cs) = totals_plus (totals_plus t [c]) cs"
  by (simp add: totals_plus_def)

lemma add_channel_exact:
  assumes "channel_amounts_ok c" and "totals_in_range t" and "totals_in_range (totals_plus t [c])"
  shows "add_channel checks c t = Done (totals_plus t [c])"
  using assms by (simp add: add_channel_def totals_in_range_def totals_plus_def channel_amounts_ok_def i64_add_nonneg)

lemma add_channels_exact:
  assumes "\<forall>c \<in> set cs. channel_amounts_ok c" and "totals_in_range t" and "totals_in_range (totals_plus t cs)"
  shows "add_channels checks cs t = Done (totals_plus t cs)"
  using assms
proof (induction cs arbitrary: t)
  case Nil
  then show ?case by (simp add: totals_plus_def)
next
  case (Cons c cs)
  have rest: "totals_in_range (totals_plus t [c])"
    using Cons.prems sum_list_nonneg_int [of cs lc_capacity] sum_list_nonneg_int [of cs lc_local_balance]
      sum_list_nonneg_int [of cs lc_remote_balance] sum_list_nonneg_int [of cs lc_unsettled_balance]
    by (auto simp: totals_in_range_def totals_plus_def channel_amounts_ok_def)
  then have "add_channel checks c t = Done (totals_plus t [c])"
    using Cons.prems by (intro add_channel_exact) simp_all
  with Cons.IH [of "totals_plus t [c]"] Cons.prems rest show ?case
    by (simp add: totals_plus_Cons [of t c cs])
qed

lemma to_u64_exact: "0 \<le> x \<Longrightarrow> x < 2 ^ 63 \<Longrightarrow> uint (to_u64 x) = x"
  by (simp add: to_u64_def uint_word_of_int_eq take_bit_int_eq_self)

text \<open>The channel summary is exact.
  For amounts that are not negative and whose totals stay below \<open>2 ^ 63\<close>, the summary of
  any channel list is computed without a panic in either build, its balances are the
  sums, and the active and the inactive channels add up to the number of channels.\<close>

lemma channel_summary_exact:
  assumes "\<forall>c \<in> set channels. channel_amounts_ok c" and "length channels < 2 ^ 64"
    and "sum_list (map lc_capacity channels) < 2 ^ 63" and "sum_list (map lc_local_balance channels) < 2 ^ 63"
    and "sum_list (map lc_remote_balance channels) < 2 ^ 63" and "sum_list (map lc_unsettled_balance channels) < 2 ^ 63"
  shows "\<exists>s capacity unsettled. channel_summary_from checks channels = Done s \<and>
    unat (cs_active_channels s) = length (filter lc_active channels) \<and>
    unat (cs_active_channels s) + unat (cs_inactive_channels s) = length channels \<and>
    cs_total_capacity_sat s = Some capacity \<and> uint capacity = sum_list (map lc_capacity channels) \<and>
    uint (cs_local_balance_sat s) = sum_list (map lc_local_balance channels) \<and>
    uint (cs_remote_balance_sat s) = sum_list (map lc_remote_balance channels) \<and>
    cs_unsettled_balance_sat s = Some unsettled \<and> uint unsettled = sum_list (map lc_unsettled_balance channels)"
proof -
  let ?zero = "\<lparr>ct_active = 0, ct_inactive = 0, ct_total_capacity_sat = 0, ct_local_balance_sat = 0,
              ct_remote_balance_sat = 0, ct_unsettled_balance_sat = 0\<rparr>"
  have nonneg: "0 \<le> sum_list (map lc_capacity channels)" "0 \<le> sum_list (map lc_local_balance channels)"
    "0 \<le> sum_list (map lc_remote_balance channels)" "0 \<le> sum_list (map lc_unsettled_balance channels)"
    using assms(1) by (auto intro!: sum_list_nonneg_int simp: channel_amounts_ok_def)
  then have "totals_in_range (totals_plus ?zero channels)" "totals_in_range ?zero"
    using assms(3-6) by (simp_all add: totals_in_range_def totals_plus_def)
  then have "add_channels checks channels ?zero = Done (totals_plus ?zero channels)"
    using assms(1) by (intro add_channels_exact)
  moreover have "unat (of_nat (length (filter P channels)) :: u64) = length (filter P channels)" for P
    using le_less_trans [OF length_filter_le assms(2), of P]
    by (simp add: unsigned_of_nat take_bit_nat_eq_self)
  moreover have "length (filter lc_active channels) + length (filter (\<lambda>c. \<not> lc_active c) channels) = length channels"
    by (rule sum_length_filter_compl)
  ultimately show ?thesis
    using nonneg assms(3-6) by (simp add: channel_summary_from_def totals_plus_def to_u64_exact)
qed

definition sample_channel :: "string \<Rightarrow> lnd_channel" where
  "sample_channel point =
     \<lparr>lc_active = False, lc_remote_pubkey = ''p1'', lc_channel_point = point, lc_chan_id = 0, lc_capacity = 100,
      lc_local_balance = 60, lc_remote_balance = 40, lc_commit_fee = 1, lc_unsettled_balance = 0, lc_csv_delay = 144,
      lc_private = False, lc_initiator = True, lc_lifetime = 10\<rparr>"

end
