(* ===== verification/Lnd_Collector.thy ===== *)
theory Lnd_Collector
  imports Bitcoin_Collector Lnd_Client Consumer_Correct
begin

text \<open>
  The polling collector of \<open>collectors/lnd/grpc_poll.rs\<close>: a poll makes three calls, whose
  results go into the batch in a fixed order.  The clock, the identifiers drawn and the
  overflow behaviour of the build are parameters.  The last section joins the collectors
  with the consumer.
\<close>

section \<open>The collector\<close>

definition HEALTH_GET_INFO :: string where
  "HEALTH_GET_INFO = ''lnd.rpc.get_info''"
definition HEALTH_LIST_CHANNELS :: string where
  "HEALTH_LIST_CHANNELS = ''lnd.rpc.list_channels''"
definition HEALTH_LIST_PEERS :: string where
  "HEALTH_LIST_PEERS = ''lnd.rpc.list_peers''"

definition LND_HEALTH_TARGETS :: "string list" where
  "LND_HEALTH_TARGETS = [HEALTH_GET_INFO, HEALTH_LIST_CHANNELS, HEALTH_LIST_PEERS]"

record lnd_grpc_polling_collector_config =
  lcc_timeout_per_rpc :: duration

definition lnd_grpc_polling_collector_config_default :: lnd_grpc_polling_collector_config where
  "lnd_grpc_polling_collector_config_default = \<lparr>lcc_timeout_per_rpc = from_secs 5\<rparr>"

datatype lnd_build_error = LndWrongTargetKind collector_target | LndClientError lnd_client_build_error

record lnd_grpc_polling_collector =
  lgp_descriptor :: collector_descriptor
  lgp_node_id :: lnd_node_id
  lgp_client :: lnd_grpc_client

definition lnd_grpc_polling_collector_new ::
    "lnd_crates \<Rightarrow> collector_descriptor \<Rightarrow> lnd_node_connection \<Rightarrow> lnd_grpc_polling_collector_config \<Rightarrow>
     lnd_build_error + lnd_grpc_polling_collector" where
  "lnd_grpc_polling_collector_new lk descriptor connection config =
     (case desc_target descriptor of
        TargetLndNode node_id \<Rightarrow>
          (case lnd_grpc_client_new lk (lnc_grpc_endpoint connection) (lnc_tls_cert_path connection)
                  (lnc_macaroon connection) (lcc_timeout_per_rpc config) of
             Err e \<Rightarrow> Err (LndClientError e)
           | Ok client \<Rightarrow> Ok \<lparr>lgp_descriptor = descriptor, lgp_node_id = node_id, lgp_client = client\<rparr>)
      | other \<Rightarrow> Err (LndWrongTargetKind other))"

definition lgp_context ::
    "lnd_grpc_polling_collector \<Rightarrow> sidecar_id \<Rightarrow> entity_ref \<Rightarrow> datetime \<Rightarrow> observation_context" where
  "lgp_context c sidecar_id subject observed_at =
     \<lparr>octx_source = \<lparr>src_sidecar_id = sidecar_id, src_collector = descriptor_as_ref (lgp_descriptor c)\<rparr>,
      octx_subject = subject, octx_observed_at = observed_at, octx_origin = Collected\<rparr>"

definition obs_context_for_node ::
    "lnd_grpc_polling_collector \<Rightarrow> sidecar_id \<Rightarrow> datetime \<Rightarrow> observation_context" where
  "obs_context_for_node c sidecar_id observed_at =
     lgp_context c sidecar_id (LndNode (lgp_node_id c)) observed_at"

definition obs_context_for_channel ::
    "lnd_grpc_polling_collector \<Rightarrow> sidecar_id \<Rightarrow> lnd_channel_id \<Rightarrow> datetime \<Rightarrow> observation_context" where
  "obs_context_for_channel c sidecar_id channel_id observed_at =
     lgp_context c sidecar_id (LndChannel (lgp_node_id c) channel_id) observed_at"

definition lgp_build_batch ::
    "uuid \<Rightarrow> lnd_grpc_polling_collector \<Rightarrow> sidecar_id \<Rightarrow> probe_window \<Rightarrow> probe_result \<Rightarrow> observation_batch" where
  "lgp_build_batch uid c sidecar_id window result =
     \<lparr>batch_id = ObservationBatchId uid, batch_collector = descriptor_as_ref (lgp_descriptor c),
      batch_sidecar_id = sidecar_id, batch_window = window, batch_result = result\<rparr>"

record lnd_poll_outside =
  lo_started_at :: datetime
  lo_batch_end :: datetime
  lo_get_info :: "(unit \<Rightarrow> string \<Rightarrow> get_info_response grpc) timed_call"
  lo_list_channels :: "(list_channels_request \<Rightarrow> string \<Rightarrow> list_channels_response grpc) timed_call"
  lo_list_peers :: "(list_peers_request \<Rightarrow> string \<Rightarrow> list_peers_response grpc) timed_call"
  lo_observation_uid :: "nat \<Rightarrow> uuid"
  lo_batch_uid :: uuid
  lo_overflow_checks :: bool

type_synonym lnd_failure = "string \<times> datetime \<times> datetime \<times> lnd_rpc_error"

definition push_health ::
    "(nat \<Rightarrow> uuid) \<Rightarrow> lnd_grpc_polling_collector \<Rightarrow> sidecar_id \<Rightarrow> string \<Rightarrow> datetime \<Rightarrow> datetime \<Rightarrow>
     observation list \<Rightarrow> observation list" where
  "push_health uids c sidecar_id target s e partials =
     partials @ [observation_health (uids (length partials)) (obs_context_for_node c sidecar_id s)
       (health_target_id_from_well_known target) HealthOk (duration_ms s e) None None empty_attrs]"

definition push_node_state ::
    "(nat \<Rightarrow> uuid) \<Rightarrow> lnd_grpc_polling_collector \<Rightarrow> sidecar_id \<Rightarrow> state_observation \<Rightarrow> datetime \<Rightarrow>
     observation list \<Rightarrow> observation list" where
  "push_node_state uids c sidecar_id st s partials =
     partials @ [observation_state (uids (length partials)) (obs_context_for_node c sidecar_id s) st empty_attrs]"

text \<open>\<open>online_peers\<close> is the lookup of online_peers peers, \<open>None\<close> when \<open>ListPeers\<close> failed.\<close>

fun push_channels ::
    "(nat \<Rightarrow> uuid) \<Rightarrow> lnd_grpc_polling_collector \<Rightarrow> sidecar_id \<Rightarrow> string set option \<Rightarrow> datetime \<Rightarrow>
     lnd_channel list \<Rightarrow> observation list \<Rightarrow> observation list" where
  "push_channels uids c sidecar_id online_peers s [] partials = partials"
| "push_channels uids c sidecar_id online_peers s (channel # channels) partials =
     (if lc_channel_point channel = [] then push_channels uids c sidecar_id online_peers s channels partials
      else
        let channel_id = LndChannelId (lc_channel_point channel);
            peer_online = (case online_peers of None \<Rightarrow> None | Some peers \<Rightarrow> Some (lc_remote_pubkey channel \<in> peers))
        in push_channels uids c sidecar_id online_peers s channels
             (partials @ [observation_state (uids (length partials))
                (obs_context_for_channel c sidecar_id channel_id s)
                (StateLndChannel (channel_state_from channel peer_online)) empty_attrs]))"

definition note_failure ::
    "string \<Rightarrow> datetime \<Rightarrow> datetime \<Rightarrow> lnd_rpc_error \<Rightarrow> lnd_failure option \<Rightarrow> lnd_failure option" where
  "note_failure target s e err first_failure =
     (if first_failure = None then Some (target, s, e, err) else first_failure)"

definition lgp_failed ::
    "lnd_crates \<Rightarrow> lnd_poll_outside \<Rightarrow> lnd_grpc_polling_collector \<Rightarrow> collection_context \<Rightarrow> lnd_failure \<Rightarrow>
     observation list \<Rightarrow> observation_batch run" where
  "lgp_failed lk lo c ctx failure partials =
     (let (target, observed_at, completed_at, err) = failure;
          kind = lnd_collection_error_kind err;
          message = lnd_rpc_error_display lk err;
          latency_ms = duration_ms observed_at completed_at
      in case health_target_id_parse target of
           Err _ \<Rightarrow> Panicked
         | Ok target \<Rightarrow>
             let health = \<lparr>health_target = target, health_status_of = HealthCritical,
                   health_latency_ms = latency_ms, health_message = Some message, health_error_of = None\<rparr>
             in case safe_probe_window (lo_started_at lo) (max (lo_batch_end lo) completed_at) of
                  Panicked \<Rightarrow> Panicked
                | Done window \<Rightarrow>
                    Done (lgp_build_batch (lo_batch_uid lo) c (cctx_sidecar_id ctx) window
                      (ProbeFailed health partials \<lparr>cerr_kind = kind, cerr_message = message\<rparr>)))"

text \<open>The three stages a poll's results go through, in the order of the code.\<close>

definition collect_info ::
    "lnd_poll_outside \<Rightarrow> lnd_grpc_polling_collector \<Rightarrow> sidecar_id \<Rightarrow> lnd_rpc_error + get_info_response \<Rightarrow>
     observation list \<times> lnd_failure option" where
  "collect_info lo c sidecar_id r =
     (let s = tm_started (lo_get_info lo); e = tm_ended (lo_get_info lo) in
      case r of
        Ok info \<Rightarrow>
          (push_health (lo_observation_uid lo) c sidecar_id HEALTH_GET_INFO s e
             (push_node_state (lo_observation_uid lo) c sidecar_id (StateLndNode (node_state_from info)) s []),
           None)
      | Err err \<Rightarrow> ([], Some (HEALTH_GET_INFO, s, e, err)))"

definition collect_channels ::
    "lnd_poll_outside \<Rightarrow> lnd_grpc_polling_collector \<Rightarrow> sidecar_id \<Rightarrow> string set option \<Rightarrow>
     lnd_rpc_error + list_channels_response \<Rightarrow> observation list \<times> lnd_failure option \<Rightarrow>
     (observation list \<times> lnd_failure option) run" where
  "collect_channels lo c sidecar_id online_peers r acc =
     (let (partials, first_failure) = acc;
          s = tm_started (lo_list_channels lo);
          e = tm_ended (lo_list_channels lo)
      in case r of
           Ok channels \<Rightarrow>
             (case channel_summary_from (lo_overflow_checks lo) channels of
                Panicked \<Rightarrow> Panicked
              | Done summary \<Rightarrow>
                  Done (push_health (lo_observation_uid lo) c sidecar_id HEALTH_LIST_CHANNELS s e
                    (push_channels (lo_observation_uid lo) c sidecar_id online_peers s channels
                      (push_node_state (lo_observation_uid lo) c sidecar_id (StateLndChannelSummary summary) s partials)),
                    first_failure))
         | Err err \<Rightarrow> Done (partials, note_failure HEALTH_LIST_CHANNELS s e err first_failure))"

definition collect_peers ::
    "lnd_poll_outside \<Rightarrow> lnd_grpc_polling_collector \<Rightarrow> sidecar_id \<Rightarrow> lnd_rpc_error + list_peers_response \<Rightarrow>
     observation list \<times> lnd_failure option \<Rightarrow> observation list \<times> lnd_failure option" where
  "collect_peers lo c sidecar_id r acc =
     (let (partials, first_failure) = acc;
          s = tm_started (lo_list_peers lo);
          e = tm_ended (lo_list_peers lo)
      in case r of
           Ok _ \<Rightarrow> (push_health (lo_observation_uid lo) c sidecar_id HEALTH_LIST_PEERS s e partials, first_failure)
         | Err err \<Rightarrow> (partials, note_failure HEALTH_LIST_PEERS s e err first_failure))"

definition lnd_poll ::
    "lnd_crates \<Rightarrow> lnd_poll_outside \<Rightarrow> collection_context \<Rightarrow> lnd_grpc_polling_collector \<Rightarrow> observation_batch run" where
  "lnd_poll lk lo ctx c =
     (let gi = lnd_get_info lk (tm_call (lo_get_info lo)) (lgp_client c);
          lc = lnd_list_channels lk (tm_call (lo_list_channels lo)) (lgp_client c);
          lp = lnd_list_peers lk (tm_call (lo_list_peers lo)) (lgp_client c);
          acc = collect_info lo c (cctx_sidecar_id ctx) gi;
          online_peers = (case lp of Ok peers \<Rightarrow> Some (connected_peer_set peers) | Err _ \<Rightarrow> None)
      in case collect_channels lo c (cctx_sidecar_id ctx) online_peers lc acc of
           Panicked \<Rightarrow> Panicked
         | Done acc \<Rightarrow>
             let (partials, first_failure) = collect_peers lo c (cctx_sidecar_id ctx) lp acc
             in case first_failure of
                  Some failure \<Rightarrow> lgp_failed lk lo c ctx failure partials
                | None \<Rightarrow>
                    (case safe_probe_window (lo_started_at lo) (lo_batch_end lo) of
                       Panicked \<Rightarrow> Panicked
                     | Done window \<Rightarrow>
                         Done (lgp_build_batch (lo_batch_uid lo) c (cctx_sidecar_id ctx) window (ProbeOk partials))))"

section \<open>What a poll collects\<close>

text \<open>Subject and payload of the observations, and the failures, by the three answers.\<close>

definition about :: "observation \<Rightarrow> entity_ref \<times> observation_payload" where
  "about ob = (obs_subject ob, obs_payload ob)"

definition ok_health :: "string \<Rightarrow> 'a timed_call \<Rightarrow> observation_payload" where
  "ok_health target t =
     PHealth \<lparr>health_target = HealthTargetId target, health_status_of = HealthOk,
       health_latency_ms = duration_ms (tm_started t) (tm_ended t), health_message = None, health_error_of = None\<rparr>"

definition info_about ::
    "lnd_poll_outside \<Rightarrow> lnd_node_id \<Rightarrow> lnd_rpc_error + get_info_response \<Rightarrow> (entity_ref \<times> observation_payload) list" where
  "info_about lo node r =
     (case r of
        Ok info \<Rightarrow> [(LndNode node, PState (StateLndNode (node_state_from info))),
                    (LndNode node, ok_health HEALTH_GET_INFO (lo_get_info lo))]
      | Err _ \<Rightarrow> [])"

definition channel_about ::
    "lnd_node_id \<Rightarrow> lnd_rpc_error + list_peers_response \<Rightarrow> lnd_channel \<Rightarrow> entity_ref \<times> observation_payload" where
  "channel_about node lp ch =
     (LndChannel node (LndChannelId (lc_channel_point ch)),
      PState (StateLndChannel (channel_state_from ch
        (case lp of Ok peers \<Rightarrow> Some (lc_remote_pubkey ch \<in> set peers) | Err _ \<Rightarrow> None))))"

definition channels_about ::
    "lnd_poll_outside \<Rightarrow> lnd_node_id \<Rightarrow> lnd_channel_summary_state \<Rightarrow> lnd_rpc_error + list_peers_response \<Rightarrow>
     lnd_rpc_error + list_channels_response \<Rightarrow> (entity_ref \<times> observation_payload) list" where
  "channels_about lo node summary lp r =
     (case r of
        Ok channels \<Rightarrow>
          (LndNode node, PState (StateLndChannelSummary summary))
          # map (channel_about node lp) (filter (\<lambda>ch. lc_channel_point ch \<noteq> []) channels)
          @ [(LndNode node, ok_health HEALTH_LIST_CHANNELS (lo_list_channels lo))]
      | Err _ \<Rightarrow> [])"

definition peers_about ::
    "lnd_poll_outside \<Rightarrow> lnd_node_id \<Rightarrow> lnd_rpc_error + list_peers_response \<Rightarrow> (entity_ref \<times> observation_payload) list" where
  "peers_about lo node r =
     (case r of Ok _ \<Rightarrow> [(LndNode node, ok_health HEALTH_LIST_PEERS (lo_list_peers lo))] | Err _ \<Rightarrow> [])"

definition call_failures :: "string \<Rightarrow> 't timed_call \<Rightarrow> lnd_rpc_error + 'a \<Rightarrow> lnd_failure list" where
  "call_failures target t r =
     (case r of Ok _ \<Rightarrow> [] | Err e \<Rightarrow> [(target, tm_started t, tm_ended t, e)])"

definition first_of :: "'a list \<Rightarrow> 'a option" where
  "first_of xs = (case xs of [] \<Rightarrow> None | x # _ \<Rightarrow> Some x)"

lemmas lnd_observation_defs =
  observation_defs obs_context_for_node_def obs_context_for_channel_def lgp_context_def
  health_target_id_from_well_known_def empty_attrs_def about_def

lemma push_health_about:
  "map about (push_health uids c sid target (tm_started t) (tm_ended t) partials) =
     map about partials @ [(LndNode (lgp_node_id c), ok_health target t)]"
  by (simp add: push_health_def ok_health_def lnd_observation_defs)

lemma push_node_state_about:
  "map about (push_node_state uids c sid st s partials) = map about partials @ [(LndNode (lgp_node_id c), PState st)]"
  by (simp add: push_node_state_def lnd_observation_defs)

lemma push_channels_about:
  assumes "online_peers = (case lp of Ok peers \<Rightarrow> Some (connected_peer_set peers) | Err _ \<Rightarrow> None)"
  shows "map about (push_channels uids c sid online_peers s channels partials) =
    map about partials @ map (channel_about (lgp_node_id c) lp) (filter (\<lambda>ch. lc_channel_point ch \<noteq> []) channels)"
  using assms
  by (induction channels arbitrary: partials)
    (auto simp: lnd_observation_defs channel_about_def connected_peer_set_def Let_def split: sum.split)

lemma note_failure_first: "note_failure t s e err (first_of fs) = first_of (fs @ [(t, s, e, err)])"
  by (cases fs) (simp_all add: note_failure_def first_of_def)

lemma lnd_health_targets_parse:
  assumes "target \<in> set LND_HEALTH_TARGETS"
  shows "health_target_id_parse target = Ok (HealthTargetId target)"
  using assms unfolding LND_HEALTH_TARGETS_def HEALTH_GET_INFO_def HEALTH_LIST_CHANNELS_def HEALTH_LIST_PEERS_def
    health_target_id_parse_def
  by (auto simp: parse_dotted_name_def MAX_NAME_LEN_def is_segment_body_byte_def is_ascii_lowercase_def is_ascii_digit_def)

lemma lgp_failed_Done:
  assumes "target \<in> set LND_HEALTH_TARGETS"
  shows "\<exists>b. lgp_failed lk lo c ctx (target, s, e, err) partials = Done b \<and>
    batch_result b = ProbeFailed
      \<lparr>health_target = HealthTargetId target, health_status_of = HealthCritical,
       health_latency_ms = duration_ms s e, health_message = Some (lnd_rpc_error_display lk err), health_error_of = None\<rparr>
      partials \<lparr>cerr_kind = lnd_collection_error_kind err, cerr_message = lnd_rpc_error_display lk err\<rparr> \<and>
    pw_started_at (batch_window b) \<le> pw_completed_at (batch_window b)"
  unfolding lgp_failed_def
  by (simp add: lnd_health_targets_parse [OF assms] safe_probe_window_cases lgp_build_batch_def Let_def max_def)

lemma collect_info_about:
  "map about (fst (collect_info lo c sid gi)) = info_about lo (lgp_node_id c) gi \<and>
   snd (collect_info lo c sid gi) = first_of (call_failures HEALTH_GET_INFO (lo_get_info lo) gi)"
  by (cases gi) (simp_all add: collect_info_def info_about_def call_failures_def first_of_def Let_def
      push_health_about push_node_state_about)

lemma collect_channels_about:
  assumes "\<And>channels. lc = Ok channels \<Longrightarrow> channel_summary_from (lo_overflow_checks lo) channels = Done summary"
    and "online_peers = (case lp of Ok peers \<Rightarrow> Some (connected_peer_set peers) | Err _ \<Rightarrow> None)"
    and "snd acc = first_of fs"
  shows "\<exists>acc'. collect_channels lo c sid online_peers lc acc = Done acc' \<and>
    map about (fst acc') = map about (fst acc) @ channels_about lo (lgp_node_id c) summary lp lc \<and>
    snd acc' = first_of (fs @ call_failures HEALTH_LIST_CHANNELS (lo_list_channels lo) lc)"
proof (cases lc)
  case (Inl e)
  then show ?thesis
    using assms(3) by (cases acc) (simp add: collect_channels_def channels_about_def call_failures_def note_failure_first)
next
  case (Inr channels)
  then show ?thesis
    using assms(1) [OF Inr] assms(3)
    by (cases acc) (simp add: collect_channels_def channels_about_def call_failures_def push_health_about
        push_channels_about [OF assms(2)] push_node_state_about Let_def)
qed

lemma collect_peers_about:
  assumes "snd acc = first_of fs"
  shows "map about (fst (collect_peers lo c sid lp acc)) = map about (fst acc) @ peers_about lo (lgp_node_id c) lp \<and>
    snd (collect_peers lo c sid lp acc) = first_of (fs @ call_failures HEALTH_LIST_PEERS (lo_list_peers lo) lp)"
  using assms
  by (cases acc; cases lp) (simp_all add: collect_peers_def peers_about_def call_failures_def note_failure_first Let_def
      push_health_about)

lemma lnd_poll_run:
  assumes gi: "lnd_get_info lk (tm_call (lo_get_info lo)) (lgp_client c) = gi"
    and lc: "lnd_list_channels lk (tm_call (lo_list_channels lo)) (lgp_client c) = lc"
    and lp: "lnd_list_peers lk (tm_call (lo_list_peers lo)) (lgp_client c) = lp"
    and summary: "\<And>channels. lc = Ok channels \<Longrightarrow>
      channel_summary_from (lo_overflow_checks lo) channels = Done summary"
  shows "\<exists>b. lnd_poll lk lo ctx c = Done b \<and>
    map about (observations_from_batch b) =
      info_about lo (lgp_node_id c) gi @ channels_about lo (lgp_node_id c) summary lp lc @
      peers_about lo (lgp_node_id c) lp \<and>
    (case call_failures HEALTH_GET_INFO (lo_get_info lo) gi @
          call_failures HEALTH_LIST_CHANNELS (lo_list_channels lo) lc @
          call_failures HEALTH_LIST_PEERS (lo_list_peers lo) lp of
       [] \<Rightarrow> \<exists>obs. batch_result b = ProbeOk obs
     | (target, s, e, err) # _ \<Rightarrow> \<exists>h obs. batch_result b =
         ProbeFailed h obs \<lparr>cerr_kind = lnd_collection_error_kind err, cerr_message = lnd_rpc_error_display lk err\<rparr> \<and>
         health_target h = HealthTargetId target \<and> health_status_of h = HealthCritical \<and>
         health_latency_ms h = duration_ms s e) \<and>
    pw_started_at (batch_window b) \<le> pw_completed_at (batch_window b)"
proof -
  let ?online_peers = "case lp of Ok peers \<Rightarrow> Some (connected_peer_set peers) | Err _ \<Rightarrow> None"
  let ?sid = "cctx_sidecar_id ctx"
  let ?fs = "call_failures HEALTH_GET_INFO (lo_get_info lo) gi @
          call_failures HEALTH_LIST_CHANNELS (lo_list_channels lo) lc @
          call_failures HEALTH_LIST_PEERS (lo_list_peers lo) lp"
  note info = collect_info_about [of lo c ?sid gi]
  obtain acc2 where acc2: "collect_channels lo c ?sid ?online_peers lc (collect_info lo c ?sid gi) = Done acc2"
    "map about (fst acc2) = info_about lo (lgp_node_id c) gi @ channels_about lo (lgp_node_id c) summary lp lc"
    "snd acc2 = first_of (call_failures HEALTH_GET_INFO (lo_get_info lo) gi @
       call_failures HEALTH_LIST_CHANNELS (lo_list_channels lo) lc)"
    using collect_channels_about [OF summary refl conjunct2 [OF info]] info by force
  obtain partials ff where acc3: "collect_peers lo c ?sid lp acc2 = (partials, ff)"
    by (rule prod.exhaust)
  have partials: "map about partials = info_about lo (lgp_node_id c) gi @
      channels_about lo (lgp_node_id c) summary lp lc @ peers_about lo (lgp_node_id c) lp"
    and ff: "ff = first_of ?fs"
    using collect_peers_about [OF acc2(3), of lo c ?sid lp] acc2(2) acc3 by simp_all
  have poll: "lnd_poll lk lo ctx c =
      (case ff of Some failure \<Rightarrow> lgp_failed lk lo c ctx failure partials
       | None \<Rightarrow> Done (lgp_build_batch (lo_batch_uid lo) c ?sid
           \<lparr>pw_started_at = (if lo_batch_end lo < lo_started_at lo then lo_batch_end lo else lo_started_at lo),
            pw_completed_at = lo_batch_end lo\<rparr> (ProbeOk partials)))"
    by (simp add: lnd_poll_def gi lc lp acc2(1) acc3 safe_probe_window_cases split: option.split)
  show ?thesis
  proof (cases ?fs)
    case Nil
    with ff partials poll show ?thesis
      by (auto simp: lgp_build_batch_def first_of_def)
  next
    case (Cons f fs)
    obtain target s e err where f: "f = (target, s, e, err)"
      by (cases f)
    have "f \<in> set ?fs"
      by (simp add: Cons)
    then have "target \<in> set LND_HEALTH_TARGETS"
      unfolding f by (auto simp: call_failures_def LND_HEALTH_TARGETS_def split: sum.splits)
    from lgp_failed_Done [OF this, of lk lo c ctx s e err partials] obtain b where
      b: "lgp_failed lk lo c ctx (target, s, e, err) partials = Done b"
      "batch_result b = ProbeFailed
        \<lparr>health_target = HealthTargetId target, health_status_of = HealthCritical,
         health_latency_ms = duration_ms s e, health_message = Some (lnd_rpc_error_display lk err), health_error_of = None\<rparr>
        partials \<lparr>cerr_kind = lnd_collection_error_kind err, cerr_message = lnd_rpc_error_display lk err\<rparr>"
      "pw_started_at (batch_window b) \<le> pw_completed_at (batch_window b)"
      by blast
    with ff partials poll Cons f show ?thesis
      by (intro exI [of _ b]) (simp add: first_of_def)
  qed
qed

lemma lnd_poll_summary:
  assumes "lnd_poll lk lo ctx c = Done b"
    and "lnd_list_channels lk (tm_call (lo_list_channels lo)) (lgp_client c) = Ok channels"
  shows "\<exists>summary. channel_summary_from (lo_overflow_checks lo) channels = Done summary"
  using assms by (auto simp: lnd_poll_def collect_channels_def Let_def split: prod.splits run.splits)

text \<open>C24. The batch of an LND poll is determined by the three answers.
  When the channel totals can be computed a poll does not panic.  Its observations are,
  in this order: the node state and health of \<open>GetInfo\<close>; the channel summary, one
  observation per channel with a funding outpoint, about that channel of this node, in
  the order of the answer, and the health of \<open>ListChannels\<close>; the health of
  \<open>ListPeers\<close>; each for the calls that succeeded.  A channel says that its peer is online
  or offline only when \<open>ListPeers\<close> succeeded, and then by membership in its answer.
  The batch is a failure exactly when a call failed, and reports the first in this order.\<close>

theorem lnd_poll_batch:
  assumes "lnd_get_info lk (tm_call (lo_get_info lo)) (lgp_client c) = gi"
    and "lnd_list_channels lk (tm_call (lo_list_channels lo)) (lgp_client c) = lc"
    and "lnd_list_peers lk (tm_call (lo_list_peers lo)) (lgp_client c) = lp"
    and "\<And>channels. lc = Ok channels \<Longrightarrow>
      channel_summary_from (lo_overflow_checks lo) channels = Done summary"
  shows "\<exists>b. lnd_poll lk lo ctx c = Done b \<and>
    map about (observations_from_batch b) =
      info_about lo (lgp_node_id c) gi @ channels_about lo (lgp_node_id c) summary lp lc @
      peers_about lo (lgp_node_id c) lp \<and>
    (case call_failures HEALTH_GET_INFO (lo_get_info lo) gi @
          call_failures HEALTH_LIST_CHANNELS (lo_list_channels lo) lc @
          call_failures HEALTH_LIST_PEERS (lo_list_peers lo) lp of
       [] \<Rightarrow> \<exists>obs. batch_result b = ProbeOk obs
     | (target, s, e, err) # _ \<Rightarrow> \<exists>h obs. batch_result b =
         ProbeFailed h obs \<lparr>cerr_kind = lnd_collection_error_kind err, cerr_message = lnd_rpc_error_display lk err\<rparr> \<and>
         health_target h = HealthTargetId target \<and> health_status_of h = HealthCritical \<and>
         health_latency_ms h = duration_ms s e) \<and>
    pw_started_at (batch_window b) \<le> pw_completed_at (batch_window b)"
  by (rule lnd_poll_run [OF assms])

section \<open>The rule about channels\<close>

lemma lnd_poll_first_subject:
  assumes "lnd_poll lk lo ctx c = Done b" and "observations_from_batch b = ob # rest"
  shows "obs_subject ob = LndNode (lgp_node_id c)"
proof -
  let ?lc = "lnd_list_channels lk (tm_call (lo_list_channels lo)) (lgp_client c)"
  have "\<exists>summary. \<forall>channels. ?lc = Ok channels \<longrightarrow> channel_summary_from (lo_overflow_checks lo) channels = Done summary"
    using lnd_poll_summary [OF assms(1)] by (cases ?lc) auto
  then obtain summary where
    "\<And>channels. ?lc = Ok channels \<Longrightarrow> channel_summary_from (lo_overflow_checks lo) channels = Done summary"
    by blast
  from lnd_poll_run [where lk = lk and lo = lo and c = c and ctx = ctx, OF refl refl refl this] assms
  have "about ob # map about rest =
      info_about lo (lgp_node_id c) (lnd_get_info lk (tm_call (lo_get_info lo)) (lgp_client c)) @
      channels_about lo (lgp_node_id c) summary (lnd_list_peers lk (tm_call (lo_list_peers lo)) (lgp_client c)) ?lc @
      peers_about lo (lgp_node_id c) (lnd_list_peers lk (tm_call (lo_list_peers lo)) (lgp_client c))"
    by (auto simp del: observations_from_batch.simps)
  then show ?thesis
    by (auto simp: info_about_def channels_about_def peers_about_def about_def split: sum.splits)
qed

lemma bitcoin_poll_first_subject:
  assumes "bitcoin_poll sd po ctx c = (Done b, c')" and "observations_from_batch b = ob # rest"
  shows "obs_subject ob = BitcoinNode (bcr_node_id c)"
proof -
  obtain bc c1 where bc: "get_blockchain_info sd (po_blockchain po) (bcr_client c) = (bc, c1)"
    by (rule prod.exhaust)
  obtain mp c2 where mp: "get_mempool_info sd (po_mempool po) c1 = (mp, c2)"
    by (rule prod.exhaust)
  obtain nw c3 where nw: "get_network_info sd (po_network po) c2 = (nw, c3)"
    by (rule prod.exhaust)
  obtain pe c4 where pe: "get_peer_info sd (po_peers po) c3 = (pe, c4)"
    by (rule prod.exhaust)
  from bitcoin_poll_run [OF bc mp nw pe, of ctx] assms
  have "\<forall>i < length (ob # rest). own_observation (po_observation_uid po) c (cctx_sidecar_id ctx) i ((ob # rest) ! i)"
    by (metis Pair_inject run.inject)
  then show ?thesis
    by (auto simp: own_observation_def)
qed

text \<open>A batch that a collector of the program produced.\<close>

definition collector_batch :: "observation_batch \<Rightarrow> bool" where
  "collector_batch b \<longleftrightarrow>
     (\<exists>lk lo ctx c. lnd_poll lk lo ctx c = Done b) \<or> (\<exists>sd po ctx c c'. bitcoin_poll sd po ctx c = (Done b, c'))"

lemma collector_batch_subject:
  "collector_batch b \<Longrightarrow> observations_from_batch b = ob # rest \<Longrightarrow> subject_kind (obs_subject ob) \<noteq> SkLndChannel"
  unfolding collector_batch_def by (auto dest: lnd_poll_first_subject bitcoin_poll_first_subject simp del: observations_from_batch.simps)

lemma channel_rule_idle:
  "subject_kind (ctx_subject ctx) \<noteq> SkLndChannel \<Longrightarrow>
   rule_evaluate (RuleChannelInactive r) ctx = Done (RuleChannelInactive r, Ok [])"
  by (auto simp: channel_inactive_evaluate_def channel_detail_def map_evaluation_def split: entity_ref.splits)

lemma evaluate_rules_channel:
  assumes "subject_kind (ctx_subject ctx) \<noteq> SkLndChannel" and "evaluate_rules rules ctx = (rules', ds)"
  shows "length rules' = length rules \<and>
    (\<forall>i r. i < length rules \<longrightarrow> rules ! i = RuleChannelInactive r \<longrightarrow> rules' ! i = RuleChannelInactive r)"
  using assms(2)
proof (induction rules arbitrary: rules' ds)
  case (Cons rule rules)
  obtain rules1 ds1 where rest: "evaluate_rules rules ctx = (rules1, ds1)"
    by (rule prod.exhaust)
  obtain rule1 where "rules' = rule1 # rules1"
    "\<And>r. rule = RuleChannelInactive r \<Longrightarrow> rule1 = RuleChannelInactive r"
    using Cons.prems channel_rule_idle [OF assms(1)]
    by (cases "\<exists>r. rule = RuleChannelInactive r")
      (auto simp: rest Let_def simp del: rule_evaluate.simps split: prod.splits)
  with Cons.IH [OF rest] show ?case
    by (auto simp: nth_Cons split: nat.splits)
qed simp

lemma process_batch_channel:
  assumes "collector_batch b" and "process_batch sv rd nrules b cn w = (Done cn', w')"
  shows "length (cn_rules cn') = length (cn_rules cn) \<and>
    (\<forall>i r. i < length (cn_rules cn) \<longrightarrow> cn_rules cn ! i = RuleChannelInactive r \<longrightarrow>
       cn_rules cn' ! i = RuleChannelInactive r)"
proof (cases "observations_from_batch b")
  case Nil
  with assms(2) show ?thesis
    by (auto simp: process_batch_def simp del: observations_from_batch.simps split: prod.splits)
next
  case (Cons ob rest)
  have sk: "subject_kind (ctx_subject (store_context store now instant (obs_subject ob))) \<noteq> SkLndChannel"
    for store now instant
    using collector_batch_subject [OF assms(1) Cons] by (simp add: store_context_def)
  from assms(2) Cons show ?thesis
    by (auto simp: process_batch_def Let_def simp del: observations_from_batch.simps
        split: prod.splits if_splits run.splits dest!: evaluate_rules_channel [OF sk])
qed

lemma process_all_channel:
  assumes "\<forall>b \<in> set bs. collector_batch b" and "process_all sv rd nrules bs (cn, w) = (cn', w')"
  shows "length (cn_rules cn') = length (cn_rules cn) \<and>
    (\<forall>i r. i < length (cn_rules cn) \<longrightarrow> cn_rules cn ! i = RuleChannelInactive r \<longrightarrow>
       cn_rules cn' ! i = RuleChannelInactive r)"
  using assms
proof (induction bs arbitrary: cn w)
  case (Cons b bs)
  obtain cn1 w1 where step: "process_batch sv rd nrules b cn w = (Done cn1, w1)"
    using process_batch_Done [of sv rd nrules b cn w] by blast
  with Cons.prems have "process_all sv rd nrules bs (cn1, w1) = (cn', w')"
    by simp
  with Cons.IH [of cn1 w1] Cons.prems(1) process_batch_channel [OF _ step] show ?case
    by auto
qed simp

text \<open>C23. The rule about inactive channels never sees a channel.
  The consumer evaluates its rules once per batch, about the subject of the first
  observation.  In every batch of every collector of the program that is a node, so over
  any run of the consumer on such batches, whatever its services do, the rule
  \<open>lnd.channel_inactive\<close> emits nothing and stays in the state it started in, although
  the channel observations it waits for are in the read models.\<close>

theorem channel_inactive_never_evaluated:
  assumes "\<forall>b \<in> set (batches inputs). collector_batch b"
    and "consumer_run (process_batch sv rd nrules) inputs cn w = (Done cn', w')"
    and "i < length (cn_rules cn)" and "cn_rules cn ! i = RuleChannelInactive r"
  shows "cn_rules cn' ! i = RuleChannelInactive r \<and>
    (\<forall>b \<in> set (batches inputs). \<forall>ob rest store now instant. observations_from_batch b = ob # rest \<longrightarrow>
       rule_evaluate (RuleChannelInactive r) (store_context store now instant (obs_subject ob)) =
         Done (RuleChannelInactive r, Ok []))"
proof -
  have "process_all sv rd nrules (batches inputs) (cn, w) = (cn', w')"
    using assms(2) by (auto simp: consumer_run_process_all)
  from process_all_channel [OF assms(1) this] assms(3,4) have "cn_rules cn' ! i = RuleChannelInactive r"
    by blast
  moreover have "rule_evaluate (RuleChannelInactive r) (store_context store now instant (obs_subject ob)) =
      Done (RuleChannelInactive r, Ok [])"
    if "b \<in> set (batches inputs)" "observations_from_batch b = ob # rest" for b ob rest store now instant
    using collector_batch_subject [OF _ that(2)] assms(1) that(1)
    by (intro channel_rule_idle) (simp add: store_context_def)
  ultimately show ?thesis
    by blast
qed

section \<open>Examples\<close>

definition sample_lnd_crates :: lnd_crates where
  "sample_lnd_crates =
     \<lparr>lk_read_file = (\<lambda>_. Ok ''pem''), lk_from_shared = (\<lambda>_. None), lk_tls_config = (\<lambda>_. None),
      lk_metadata_value = (\<lambda>_. True), lk_debug_str = (\<lambda>s. s), lk_debug_duration = (\<lambda>_. ''5s'')\<rparr>"

definition sample_lnd_collector :: lnd_grpc_polling_collector where
  "sample_lnd_collector =
     \<lparr>lgp_descriptor = \<lparr>desc_id = CollectorId ''c2'', desc_integration = LndGrpcPoll 10,
        desc_target = TargetLndNode (LndNodeId ''l1''), desc_instance_label = ''l1'', desc_description = None\<rparr>,
      lgp_node_id = LndNodeId ''l1'',
      lgp_client = \<lparr>lgc_endpoint = ''https://l1'', lgc_certificate = ''pem'', lgc_macaroon_hex = ''6d'', lgc_timeout = 5\<rparr>\<rparr>"

text \<open>\<open>GetInfo\<close> is refused, \<open>ListPeers\<close> runs into the timeout, \<open>ListChannels\<close> answers.\<close>

definition sample_lnd_outside :: lnd_poll_outside where
  "sample_lnd_outside =
     \<lparr>lo_started_at = 0, lo_batch_end = 9,
      lo_get_info = \<lparr>tm_started = 1, tm_ended = 2, tm_call = (\<lambda>_ _. GrpcStatus CodeUnauthenticated ''no'')\<rparr>,
      lo_list_channels = \<lparr>tm_started = 1, tm_ended = 3, tm_call = (\<lambda>_ _. GrpcOk [sample_channel ''t:0'', sample_channel []])\<rparr>,
      lo_list_peers = \<lparr>tm_started = 1, tm_ended = 4, tm_call = (\<lambda>_ _. GrpcElapsed)\<rparr>,
      lo_observation_uid = of_nat, lo_batch_uid = 8, lo_overflow_checks = True\<rparr>"

definition sample_summary :: lnd_channel_summary_state where
  "sample_summary =
     \<lparr>cs_active_channels = 0, cs_inactive_channels = 2, cs_pending_channels = 0, cs_total_capacity_sat = Some 200,
      cs_local_balance_sat = 120, cs_remote_balance_sat = 80, cs_unsettled_balance_sat = Some 0\<rparr>"

lemma sample_summary_from:
  "channel_summary_from checks [sample_channel ''t:0'', sample_channel []] = Done sample_summary"
  by (simp add: channel_summary_from_def add_channel_def sample_channel_def i64_add_def i64_range_def
      to_u64_def sample_summary_def)

lemma sample_lnd_calls:
  "lnd_get_info sample_lnd_crates (tm_call (lo_get_info sample_lnd_outside)) (lgp_client sample_lnd_collector) =
     Err (LndStatus CodeUnauthenticated ''no'')"
  "lnd_list_channels sample_lnd_crates (tm_call (lo_list_channels sample_lnd_outside)) (lgp_client sample_lnd_collector) =
     Ok [sample_channel ''t:0'', sample_channel []]"
  "lnd_list_peers sample_lnd_crates (tm_call (lo_list_peers sample_lnd_outside)) (lgp_client sample_lnd_collector) =
     Err (LndTimeout 5)"
  by (simp_all add: lnd_get_info_def lnd_list_channels_def lnd_list_peers_def lnd_call_def stamp_macaroon_def
      sample_lnd_crates_def sample_lnd_outside_def sample_lnd_collector_def)

theorem lnd_poll_batch_witness:
  "\<exists>b. lnd_poll sample_lnd_crates sample_lnd_outside sample_collection_context sample_lnd_collector = Done b \<and>
     map obs_subject (observations_from_batch b) =
       [LndNode (LndNodeId ''l1''), LndChannel (LndNodeId ''l1'') (LndChannelId ''t:0''), LndNode (LndNodeId ''l1'')] \<and>
     (\<exists>h obs. batch_result b = ProbeFailed h obs
        \<lparr>cerr_kind = AuthenticationFailed, cerr_message = ''tonic status: code=Unauthenticated message=no''\<rparr> \<and>
        health_target h = HealthTargetId HEALTH_GET_INFO)"
proof -
  have "channel_summary_from (lo_overflow_checks sample_lnd_outside) channels = Done sample_summary"
    if "Ok [sample_channel ''t:0'', sample_channel []] = (Ok channels :: lnd_rpc_error + list_channels_response)" for channels
    using that sample_summary_from by auto
  from lnd_poll_batch [OF sample_lnd_calls this, of sample_collection_context]
  obtain b where b: "lnd_poll sample_lnd_crates sample_lnd_outside sample_collection_context sample_lnd_collector = Done b"
    "map about (observations_from_batch b) =
       [(LndNode (LndNodeId ''l1''), PState (StateLndChannelSummary sample_summary)),
        channel_about (LndNodeId ''l1'') (Err (LndTimeout 5)) (sample_channel ''t:0''),
        (LndNode (LndNodeId ''l1''), ok_health HEALTH_LIST_CHANNELS (lo_list_channels sample_lnd_outside))]"
    "\<exists>h obs. batch_result b = ProbeFailed h obs
        \<lparr>cerr_kind = AuthenticationFailed, cerr_message = ''tonic status: code=Unauthenticated message=no''\<rparr> \<and>
        health_target h = HealthTargetId HEALTH_GET_INFO"
    by (auto simp: info_about_def channels_about_def peers_about_def call_failures_def sample_lnd_collector_def
        sample_channel_def lnd_rpc_error_display_def sample_lnd_crates_def)
  have "map obs_subject (observations_from_batch b) = map fst (map about (observations_from_batch b))"
    by (simp add: about_def)
  with b show ?thesis
    by (simp add: channel_about_def sample_channel_def)
qed

theorem channel_inactive_never_evaluated_witness:
  "\<exists>b cn' w'.
     lnd_poll sample_lnd_crates sample_lnd_outside sample_collection_context sample_lnd_collector = Done b \<and>
     consumer_run (process_batch (mw_services (numbered (sample_outside False))) sample_renderers []) [GotBatch b]
       \<lparr>cn_rules = [RuleChannelInactive channel_inactive_new], cn_read_models = sample_store, cn_engine = sample_engine\<rparr>
       (sample_world (0, 0) []) = (Done cn', w') \<and>
     cn_rules cn' ! 0 = RuleChannelInactive channel_inactive_new"
proof -
  have "channel_summary_from (lo_overflow_checks sample_lnd_outside) channels = Done sample_summary"
    if "Ok [sample_channel ''t:0'', sample_channel []] = (Ok channels :: lnd_rpc_error + list_channels_response)" for channels
    using that sample_summary_from by auto
  from lnd_poll_run [OF sample_lnd_calls this, of sample_collection_context]
  obtain b where b: "lnd_poll sample_lnd_crates sample_lnd_outside sample_collection_context sample_lnd_collector = Done b"
    by auto
  then have c: "\<forall>b' \<in> set (batches [GotBatch b]). collector_batch b'"
    unfolding collector_batch_def by auto
  let ?run = "consumer_run (process_batch (mw_services (numbered (sample_outside False))) sample_renderers []) [GotBatch b]
       \<lparr>cn_rules = [RuleChannelInactive channel_inactive_new], cn_read_models = sample_store, cn_engine = sample_engine\<rparr>
       (sample_world (0, 0) [])"
  obtain cn' w' where run: "?run = (Done cn', w')"
    by (simp only: consumer_run_process_all)
  from channel_inactive_never_evaluated [OF c run, of 0 channel_inactive_new] b run show ?thesis
    by auto
qed

end
