(* ===== verification/Configuration.thy ===== *)
theory Configuration
  imports Bitcoin_Collector "HOL-Library.Char_ord" "HOL-Library.List_Lexorder"
begin

text \<open>
  The configuration layer (\<open>config/\<close>): the structures the file is decoded into with
  their defaults, the environment overrides and the rejection of inline secrets on the
  parsed document, the validation of cross-references, the resolution of secrets, the
  sidecar id, and the loader that runs these steps in order.  A document is a value of
  the toml crate; its parser, serde's decoding into the structures, the uuid crate and
  the SQLite pool are parameters, as is the host (files, environment, fresh ids), which
  acts on a world \<open>'w\<close>.  A path is its text.  A hash map of the environment is the list
  of its entries in the order in which it is iterated.
\<close>

section \<open>Documents\<close>

text \<open>A table is sorted by its keys, as the toml crate keeps it.\<close>

datatype toml =
    TString string | TInteger i64 | TFloat f64 | TBoolean bool | TDatetime string
  | TArray "toml list" | TTable "(string \<times> toml) list"

fun table_insert :: "string \<Rightarrow> 'v \<Rightarrow> (string \<times> 'v) list \<Rightarrow> (string \<times> 'v) list" where
  "table_insert k v [] = [(k, v)]"
| "table_insert k v ((k', v') # rest) =
     (if k = k' then (k, v) # rest
      else if k < k' then (k, v) # (k', v') # rest
      else (k', v') # table_insert k v rest)"

section \<open>The structures of the file\<close>

record sidecar_config =
  sc_id_file :: string
  sc_log_level :: string

definition default_log_level :: string where
  "default_log_level = ''info''"

record retention_config =
  rt_observations_max_age_days :: u32
  rt_incidents_max_age_days :: u32
  rt_suppressions_grace_days :: u32
  rt_vacuum_interval_hours :: u32

definition retention_config_default :: retention_config where
  "retention_config_default =
     \<lparr>rt_observations_max_age_days = 30, rt_incidents_max_age_days = 365,
      rt_suppressions_grace_days = 90, rt_vacuum_interval_hours = 24\<rparr>"

record storage_config =
  st_db_path :: string
  st_retention :: retention_config

record runtime_config =
  rn_channel_capacity :: u64
  rn_shutdown_deadline_seconds :: u32

definition runtime_config_default :: runtime_config where
  "runtime_config_default = \<lparr>rn_channel_capacity = 1024, rn_shutdown_deadline_seconds = 30\<rparr>"

text \<open>A socket address is the list of the bytes of its IP address and its port.\<close>

record api_config =
  ap_bind :: "u8 list \<times> u16"
  ap_enabled :: bool

definition api_config_default :: api_config where
  "api_config_default = \<lparr>ap_bind = ([127, 0, 0, 1], 8487), ap_enabled = True\<rparr>"

record incidents_config =
  ic_kinds_config_path :: "string option"

datatype bitcoin_auth_config = UserPassConfig string string | CookieFileConfig string

record bitcoin_node_config =
  bn_id :: string
  bn_rpc_url :: string
  bn_zmq_endpoint :: "string option"
  bn_auth :: bitcoin_auth_config

record lnd_node_config =
  lnn_id :: string
  lnn_grpc_endpoint :: string
  lnn_rest_endpoint :: "string option"
  lnn_macaroon_env :: string
  lnn_tls_cert_path :: string

record host_config =
  hc_id :: string

datatype collector_target_config = CfgBitcoinNode string | CfgLndNode string | CfgHost string

fun target_id :: "collector_target_config \<Rightarrow> string" where
  "target_id (CfgBitcoinNode i) = i"
| "target_id (CfgLndNode i) = i"
| "target_id (CfgHost i) = i"

datatype integration_config =
    CfgBitcoinCoreRpc u32 | CfgBitcoinCoreZmq | CfgLndGrpcPoll u32 | CfgLndGrpcStream
  | CfgLndRest u32 | CfgHostIntegration u32

record collector_descriptor_config =
  cd_id :: string
  cd_target :: collector_target_config
  cd_integration :: integration_config
  cd_instance_label :: string
  cd_description :: "string option"

datatype telegram_parse_mode_config = CfgPlain | CfgHtml | CfgMarkdownV2

record telegram_sink_config =
  ts_bot_token_env :: string
  ts_parse_mode :: telegram_parse_mode_config

text \<open>The Discord and webhook blocks have no fields: what counts is that they are present.\<close>

record notifications_config =
  nc_telegram :: "telegram_sink_config option"
  nc_discord :: bool
  nc_webhook :: bool

datatype severity_config = CfgInfo | CfgWarning | CfgCritical

datatype notification_target_config =
    CfgTelegram i64 | CfgDiscord string "u64 option" | CfgWebhook string

record notification_rule_config =
  nrc_id :: string
  nrc_name :: string
  nrc_enabled :: bool
  nrc_min_severity :: severity_config
  nrc_event_kinds :: "string list"
  nrc_target :: notification_target_config

record config =
  cf_sidecar :: sidecar_config
  cf_storage :: storage_config
  cf_runtime :: runtime_config
  cf_api :: api_config
  cf_incidents :: incidents_config
  cf_bitcoin_nodes :: "bitcoin_node_config list"
  cf_lnd_nodes :: "lnd_node_config list"
  cf_hosts :: "host_config list"
  cf_collectors :: "collector_descriptor_config list"
  cf_notifications :: notifications_config
  cf_notification_rules :: "notification_rule_config list"

datatype config_error =
    ReadFile string string
  | ConfigNotFound
  | IoError string
  | TomlError string
  | MissingEnv string
  | Invalid string
  | InlineSecret string
  | StorageOpen string

section \<open>Inline secrets\<close>

definition ends_with :: "string \<Rightarrow> string \<Rightarrow> bool" where
  "ends_with s suf \<longleftrightarrow> length suf \<le> length s \<and> drop (length s - length suf) s = suf"

definition looks_like_inline_secret :: "string \<Rightarrow> bool" where
  "looks_like_inline_secret name =
     (let lower = to_ascii_lowercase name in
      if ends_with lower ''_env'' then False
      else lower = ''password'' \<or> lower = ''token'' \<or> lower = ''secret'' \<or>
           ends_with lower ''_password'' \<or> ends_with lower ''_token'' \<or> ends_with lower ''_secret'')"

fun join_path :: "string list \<Rightarrow> string" where
  "join_path [] = []"
| "join_path [p] = p"
| "join_path (p # ps) = p @ ''.'' @ join_path ps"

text \<open>\<open>walk\<close> with the path from the root; the three functions are its three loops.\<close>

fun walk :: "toml \<Rightarrow> string list \<Rightarrow> config_error + unit"
  and walk_table :: "(string \<times> toml) list \<Rightarrow> string list \<Rightarrow> config_error + unit"
  and walk_array :: "toml list \<Rightarrow> nat \<Rightarrow> string list \<Rightarrow> config_error + unit" where
  "walk (TTable entries) path = walk_table entries path"
| "walk (TArray items) path = walk_array items 0 path"
| "walk _ path = Ok ()"
| "walk_table [] path = Ok ()"
| "walk_table ((key, child) # rest) path =
     (if looks_like_inline_secret key then Err (InlineSecret (join_path (path @ [key])))
      else case walk child (path @ [key]) of Err e \<Rightarrow> Err e | Ok _ \<Rightarrow> walk_table rest path)"
| "walk_array [] idx path = Ok ()"
| "walk_array (item # rest) idx path =
     (case walk item (path @ [''['' @ nat_str idx @ '']'']) of
        Err e \<Rightarrow> Err e | Ok _ \<Rightarrow> walk_array rest (idx + 1) path)"

definition reject_inline_secrets :: "toml \<Rightarrow> config_error + unit" where
  "reject_inline_secrets value = walk value []"

section \<open>Environment overrides\<close>

type_synonym environment = "(string \<times> string) list"

fun parse_bool :: "string \<Rightarrow> bool option" where
  "parse_bool s = (if s = ''true'' then Some True else if s = ''false'' then Some False else None)"

text \<open>\<open>f64::from_str\<close>: an exact decimal, rounded once.\<close>

definition decimal_value :: "string \<Rightarrow> string \<Rightarrow> int \<Rightarrow> rat option" where
  "decimal_value whole fraction e =
     (if whole = [] \<and> fraction = [] \<or> \<not> list_all is_digit (whole @ fraction) then None
      else case digits_value (whole @ fraction) of
        None \<Rightarrow> None
      | Some n \<Rightarrow>
          let ex = e - int (length fraction)
          in Some (if ex \<ge> 0 then of_nat n * 10 ^ nat ex else of_nat n / 10 ^ nat (- ex)))"

definition parse_exponent :: "string \<Rightarrow> int option" where
  "parse_exponent s =
     (case s of
        CHR ''-'' # ds \<Rightarrow> map_option (\<lambda>n. - int n) (digits_value ds)
      | CHR ''+'' # ds \<Rightarrow> map_option int (digits_value ds)
      | ds \<Rightarrow> map_option int (digits_value ds))"

definition parse_f64_unsigned :: "string \<Rightarrow> f64 option" where
  "parse_f64_unsigned s =
     (let lower = to_ascii_lowercase s in
      if lower = ''inf'' \<or> lower = ''infinity'' then Some PosInf
      else if lower = ''nan'' then Some NaN
      else let mantissa = takeWhile (\<lambda>c. c \<noteq> CHR ''e'') lower;
               rest = dropWhile (\<lambda>c. c \<noteq> CHR ''e'') lower;
               whole = takeWhile (\<lambda>c. c \<noteq> CHR ''.'') mantissa;
               fraction = (case dropWhile (\<lambda>c. c \<noteq> CHR ''.'') mantissa of [] \<Rightarrow> [] | _ # ds \<Rightarrow> ds)
           in case (case rest of [] \<Rightarrow> Some 0 | _ # ex \<Rightarrow> parse_exponent ex) of
                None \<Rightarrow> None
              | Some e \<Rightarrow> map_option f64_round (decimal_value whole fraction e))"

definition parse_f64 :: "string \<Rightarrow> f64 option" where
  "parse_f64 s =
     (case s of
        CHR ''-'' # rest \<Rightarrow> map_option f64_neg (parse_f64_unsigned rest)
      | CHR ''+'' # rest \<Rightarrow> parse_f64_unsigned rest
      | _ \<Rightarrow> parse_f64_unsigned s)"

definition coerce_env_value :: "string \<Rightarrow> toml option \<Rightarrow> toml" where
  "coerce_env_value raw existing =
     (case existing of
        Some (TBoolean _) \<Rightarrow> (case parse_bool raw of Some b \<Rightarrow> TBoolean b | None \<Rightarrow> TString raw)
      | Some (TFloat _) \<Rightarrow> (case parse_f64 raw of Some x \<Rightarrow> TFloat x | None \<Rightarrow> TString raw)
      | _ \<Rightarrow> (case parse_i64 raw of Some i \<Rightarrow> TInteger i | None \<Rightarrow> TString raw))"

fun split_at_double :: "string \<Rightarrow> (string \<times> string) option" where
  "split_at_double (a # b # rest) =
     (if a = CHR ''_'' \<and> b = CHR ''_'' then Some ([], rest)
      else map_option (\<lambda>(s, k). (a # s, k)) (split_at_double (b # rest)))"
| "split_at_double _ = None"

definition override_target :: "string \<Rightarrow> (string \<times> string) option" where
  "override_target name =
     (if take 9 name \<noteq> ''BITHOUND_'' then None
      else map_option (\<lambda>(section, key). (to_ascii_lowercase section, to_ascii_lowercase key))
             (split_at_double (drop 9 name)))"

definition apply_override :: "string \<times> string \<Rightarrow> (string \<times> toml) list \<Rightarrow> (string \<times> toml) list" where
  "apply_override entry doc =
     (case override_target (fst entry) of
        None \<Rightarrow> doc
      | Some (section, key) \<Rightarrow>
          let doc = (case map_of doc section of None \<Rightarrow> table_insert section (TTable []) doc | Some _ \<Rightarrow> doc)
          in case map_of doc section of
               Some (TTable section_table) \<Rightarrow>
                 let coerced = coerce_env_value (snd entry) (map_of section_table key)
                 in table_insert section (TTable (table_insert key coerced section_table)) doc
             | _ \<Rightarrow> doc)"

definition apply_env_overrides :: "toml \<Rightarrow> environment \<Rightarrow> toml" where
  "apply_env_overrides raw env =
     (case raw of TTable doc \<Rightarrow> TTable (fold apply_override env doc) | _ \<Rightarrow> raw)"

section \<open>Validation\<close>

text \<open>\<open>debug\<close> is the \<open>Debug\<close> rendering of a string in the messages.\<close>

fun check_targets ::
    "(string \<Rightarrow> string) \<Rightarrow> config \<Rightarrow> collector_descriptor_config list \<Rightarrow> config_error + unit" where
  "check_targets debug config [] = Ok ()"
| "check_targets debug config (collector # rest) =
     (let known = (case cd_target collector of
           CfgBitcoinNode _ \<Rightarrow> set (map bn_id (cf_bitcoin_nodes config))
         | CfgLndNode _ \<Rightarrow> set (map lnn_id (cf_lnd_nodes config))
         | CfgHost _ \<Rightarrow> set (map hc_id (cf_hosts config)))
      in if target_id (cd_target collector) \<notin> known
         then Err (Invalid (''collector '' @ debug (cd_id collector) @ '' targets unknown id '' @
                debug (target_id (cd_target collector))))
         else check_targets debug config rest)"

fun check_unique :: "(string \<Rightarrow> string) \<Rightarrow> string list \<Rightarrow> string set \<Rightarrow> config_error + unit" where
  "check_unique message [] seen = Ok ()"
| "check_unique message (i # rest) seen =
     (if i \<in> seen then Err (Invalid (message i)) else check_unique message rest (insert i seen))"

definition validate_cross_refs :: "(string \<Rightarrow> string) \<Rightarrow> config \<Rightarrow> config_error + unit" where
  "validate_cross_refs debug config =
     (if card (set (map bn_id (cf_bitcoin_nodes config))) \<noteq> length (cf_bitcoin_nodes config)
      then Err (Invalid ''duplicate id in [[bitcoin_nodes]]'')
      else if card (set (map lnn_id (cf_lnd_nodes config))) \<noteq> length (cf_lnd_nodes config)
      then Err (Invalid ''duplicate id in [[lnd_nodes]]'')
      else if card (set (map hc_id (cf_hosts config))) \<noteq> length (cf_hosts config)
      then Err (Invalid ''duplicate id in [[hosts]]'')
      else case check_targets debug config (cf_collectors config) of
        Err e \<Rightarrow> Err e
      | Ok _ \<Rightarrow>
          (case check_unique (\<lambda>i. ''duplicate collector id '' @ debug i) (map cd_id (cf_collectors config)) {} of
             Err e \<Rightarrow> Err e
           | Ok _ \<Rightarrow>
               check_unique (\<lambda>i. ''duplicate notification_rules.id '' @ debug i)
                 (map nrc_id (cf_notification_rules config)) {}))"

section \<open>Secrets\<close>

record resolved_secrets =
  rs_map :: "(string, secret_string) hash_map"

definition secrets_get :: "resolved_secrets \<Rightarrow> string \<Rightarrow> secret_string option" where
  "secrets_get secrets env_name = hm_get (rs_map secrets) env_name"

definition auth_env_refs :: "bitcoin_node_config \<Rightarrow> string list" where
  "auth_env_refs node = (case bn_auth node of UserPassConfig _ password_env \<Rightarrow> [password_env] | CookieFileConfig _ \<Rightarrow> [])"

definition target_env_refs :: "notification_rule_config \<Rightarrow> string list" where
  "target_env_refs rule =
     (case nrc_target rule of CfgTelegram _ \<Rightarrow> [] | CfgDiscord webhook_env _ \<Rightarrow> [webhook_env] | CfgWebhook url_env \<Rightarrow> [url_env])"

definition collect_env_refs :: "config \<Rightarrow> string list" where
  "collect_env_refs config =
     remdups_adj (sort
       (concat (map auth_env_refs (cf_bitcoin_nodes config))
        @ map lnn_macaroon_env (cf_lnd_nodes config)
        @ (case nc_telegram (cf_notifications config) of None \<Rightarrow> [] | Some tg \<Rightarrow> [ts_bot_token_env tg])
        @ concat (map target_env_refs (cf_notification_rules config))))"

fun validate_env_vars :: "string list \<Rightarrow> environment \<Rightarrow> config_error + unit" where
  "validate_env_vars [] env = Ok ()"
| "validate_env_vars (name # needed) env =
     (if map_of env name = None then Err (MissingEnv name) else validate_env_vars needed env)"

fun resolve_into ::
    "string list \<Rightarrow> environment \<Rightarrow> (string, secret_string) hash_map \<Rightarrow> config_error + resolved_secrets" where
  "resolve_into [] env m = Ok \<lparr>rs_map = m\<rparr>"
| "resolve_into (name # needed) env m =
     (case map_of env name of
        None \<Rightarrow> Err (MissingEnv name)
      | Some v \<Rightarrow> resolve_into needed env (hm_insert name v m))"

definition resolve_secrets :: "string list \<Rightarrow> environment \<Rightarrow> config_error + resolved_secrets" where
  "resolve_secrets needed env = resolve_into needed env []"

section \<open>The loader\<close>

text \<open>
  The host: whether a path exists, reading, creating directories and writing (an \<open>Inl\<close> is
  the message of the error), the parent of a path, fresh ids, the text of an id and the
  parsing of one, the toml parser, serde's decoding, and opening the pool.
\<close>

record ('w, 'p) host =
  ho_exists :: "string \<Rightarrow> 'w \<Rightarrow> bool"
  ho_read :: "string \<Rightarrow> 'w \<Rightarrow> string + string"
  ho_create_dir_all :: "string \<Rightarrow> 'w \<Rightarrow> (string + unit) \<times> 'w"
  ho_write :: "string \<Rightarrow> string \<Rightarrow> 'w \<Rightarrow> (string + unit) \<times> 'w"
  ho_parent :: "string \<Rightarrow> string option"
  ho_now_v7 :: "'w \<Rightarrow> uuid \<times> 'w"
  ho_uuid_str :: "uuid \<Rightarrow> string"
  ho_uuid_parse :: "string \<Rightarrow> uuid option"
  ho_toml_parse :: "string \<Rightarrow> string + toml"
  ho_decode :: "toml \<Rightarrow> string + config"
  ho_debug :: "string \<Rightarrow> string"
  ho_open_pool :: "string \<Rightarrow> 'w \<Rightarrow> (string + 'p) \<times> 'w"

record cli =
  cli_config :: "string option"
  cli_check_config :: bool
  cli_version :: bool

definition DEFAULT_LOCAL_PATH :: string where
  "DEFAULT_LOCAL_PATH = ''bithound.toml''"
definition DEFAULT_SYSTEM_PATH :: string where
  "DEFAULT_SYSTEM_PATH = ''/etc/bithound/bithound.toml''"

definition resolve_config_path :: "('w, 'p) host \<Rightarrow> string option \<Rightarrow> 'w \<Rightarrow> config_error + string" where
  "resolve_config_path ho cli_arg w =
     (case cli_arg of
        Some p \<Rightarrow>
          if \<not> ho_exists ho p w then Err (Invalid (''--config path '' @ p @ '' does not exist'')) else Ok p
      | None \<Rightarrow>
          if ho_exists ho DEFAULT_LOCAL_PATH w then Ok DEFAULT_LOCAL_PATH
          else if ho_exists ho DEFAULT_SYSTEM_PATH w then Ok DEFAULT_SYSTEM_PATH
          else Err ConfigNotFound)"

definition from_toml_str :: "('w, 'p) host \<Rightarrow> string \<Rightarrow> config_error + config" where
  "from_toml_str ho s =
     (case ho_toml_parse ho s of
        Err e \<Rightarrow> Err (TomlError e)
      | Ok raw \<Rightarrow>
          (case reject_inline_secrets raw of
             Err e \<Rightarrow> Err e
           | Ok _ \<Rightarrow> (case ho_decode ho raw of Err e \<Rightarrow> Err (TomlError e) | Ok cfg \<Rightarrow> Ok cfg)))"

definition from_toml_file :: "('w, 'p) host \<Rightarrow> string \<Rightarrow> 'w \<Rightarrow> config_error + config" where
  "from_toml_file ho path w =
     (case ho_read ho path w of Err e \<Rightarrow> Err (ReadFile path e) | Ok body \<Rightarrow> from_toml_str ho body)"

definition load_or_generate_sidecar_id ::
    "('w, 'p) host \<Rightarrow> string \<Rightarrow> 'w \<Rightarrow> (config_error + sidecar_id) \<times> 'w" where
  "load_or_generate_sidecar_id ho path w =
     (if ho_exists ho path w then
        (case ho_read ho path w of
           Err e \<Rightarrow> (Err (ReadFile path e), w)
         | Ok raw \<Rightarrow>
             (case ho_uuid_parse ho (str_trim raw) of
                None \<Rightarrow> (Err (Invalid (''sidecar.id_file at '' @ path @ '' does not contain a valid UUID'')), w)
              | Some i \<Rightarrow> (Ok (SidecarId i), w)))
      else
        let (made, w) =
              (case ho_parent ho path of
                 Some parent \<Rightarrow> if parent \<noteq> [] then ho_create_dir_all ho parent w else (Ok (), w)
               | None \<Rightarrow> (Ok (), w))
        in case made of
             Err e \<Rightarrow> (Err (IoError e), w)
           | Ok _ \<Rightarrow>
               let (i, w) = ho_now_v7 ho w
               in (case ho_write ho path (ho_uuid_str ho i @ [CHR 0x0A]) w of
                     (Err e, w) \<Rightarrow> (Err (IoError e), w)
                   | (Ok _, w) \<Rightarrow> (Ok (SidecarId i), w)))"

record 'p loaded_config =
  ld_config :: config
  ld_secrets :: resolved_secrets
  ld_sidecar_id :: sidecar_id
  ld_pool :: 'p

text \<open>The pure steps between the body of the file and the structures, in the order of the loader.\<close>

definition check_document ::
    "('w, 'p) host \<Rightarrow> environment \<Rightarrow> string \<Rightarrow> config_error + config \<times> resolved_secrets" where
  "check_document ho env body =
     (case ho_toml_parse ho body of
        Err e \<Rightarrow> Err (TomlError e)
      | Ok raw \<Rightarrow>
          let raw = apply_env_overrides raw env in
          (case reject_inline_secrets raw of
             Err e \<Rightarrow> Err e
           | Ok _ \<Rightarrow>
               (case ho_decode ho raw of
                  Err e \<Rightarrow> Err (TomlError e)
                | Ok config \<Rightarrow>
                    (case validate_cross_refs (ho_debug ho) config of
                       Err e \<Rightarrow> Err e
                     | Ok _ \<Rightarrow>
                         let needed = collect_env_refs config in
                         (case validate_env_vars needed env of
                            Err e \<Rightarrow> Err e
                          | Ok _ \<Rightarrow>
                              (case resolve_secrets needed env of
                                 Err e \<Rightarrow> Err e
                               | Ok secrets \<Rightarrow> Ok (config, secrets)))))))"

definition load_with_env ::
    "('w, 'p) host \<Rightarrow> cli \<Rightarrow> environment \<Rightarrow> 'w \<Rightarrow> (config_error + 'p loaded_config) \<times> 'w" where
  "load_with_env ho cli env w =
     (case resolve_config_path ho (cli_config cli) w of
        Err e \<Rightarrow> (Err e, w)
      | Ok config_path \<Rightarrow>
          (case ho_read ho config_path w of
             Err e \<Rightarrow> (Err (ReadFile config_path e), w)
           | Ok body \<Rightarrow>
               (case check_document ho env body of
                  Err e \<Rightarrow> (Err e, w)
                | Ok (config, secrets) \<Rightarrow>
                    (case load_or_generate_sidecar_id ho (sc_id_file (cf_sidecar config)) w of
                       (Err e, w) \<Rightarrow> (Err e, w)
                     | (Ok sidecar, w) \<Rightarrow>
                         (case ho_open_pool ho (st_db_path (cf_storage config)) w of
                            (Err e, w) \<Rightarrow> (Err (StorageOpen e), w)
                          | (Ok pool, w) \<Rightarrow>
                              (Ok \<lparr>ld_config = config, ld_secrets = secrets, ld_sidecar_id = sidecar, ld_pool = pool\<rparr>, w))))))"

section \<open>Secrets in documents\<close>

text \<open>The keys of a document, with the paths at which they stand.\<close>

fun doc_keys :: "toml \<Rightarrow> string list"
  and table_keys :: "(string \<times> toml) list \<Rightarrow> string list"
  and array_keys :: "toml list \<Rightarrow> string list" where
  "doc_keys (TTable entries) = table_keys entries"
| "doc_keys (TArray items) = array_keys items"
| "doc_keys _ = []"
| "table_keys [] = []"
| "table_keys ((key, child) # rest) = key # doc_keys child @ table_keys rest"
| "array_keys [] = []"
| "array_keys (item # rest) = doc_keys item @ array_keys rest"

definition secret_free :: "string list \<Rightarrow> bool" where
  "secret_free ks \<longleftrightarrow> list_all (\<lambda>k. \<not> looks_like_inline_secret k) ks"

lemma walk_Ok:
  "walk v path = Ok () \<longleftrightarrow> secret_free (doc_keys v)"
  "walk_table entries path = Ok () \<longleftrightarrow> secret_free (table_keys entries)"
  "walk_array items idx path = Ok () \<longleftrightarrow> secret_free (array_keys items)"
  by (induction v path and entries path and items idx path rule: walk_walk_table_walk_array.induct)
    (auto simp: secret_free_def split: sum.split)

lemma ends_with_iff: "ends_with s suf \<longleftrightarrow> (\<exists>p. s = p @ suf)"
  unfolding ends_with_def by (metis append_take_drop_id append_eq_conv_conj diff_add_inverse2 le_add2 length_append)

lemma join_path_snoc: "ends_with (join_path (path @ [key])) key"
proof -
  have "\<exists>p. join_path (path @ [key]) = p @ key"
  proof (induction path rule: join_path.induct)
    case (3 p q ps)
    then obtain r where "join_path (q # ps @ [key]) = r @ key"
      by auto
    then show ?case by simp
  qed auto
  then show ?thesis
    by (simp add: ends_with_iff)
qed

definition secret_error :: "string list \<Rightarrow> config_error \<Rightarrow> bool" where
  "secret_error ks e \<longleftrightarrow>
     (\<exists>p key. e = InlineSecret p \<and> key \<in> set ks \<and> looks_like_inline_secret key \<and> ends_with p key)"

lemma secret_error_append: "secret_error (ks @ ks') e \<longleftrightarrow> secret_error ks e \<or> secret_error ks' e"
  by (auto simp: secret_error_def)

lemma secret_error_Cons:
  "secret_error (k # ks) e \<longleftrightarrow>
     (\<exists>p. e = InlineSecret p \<and> looks_like_inline_secret k \<and> ends_with p k) \<or> secret_error ks e"
  by (auto simp: secret_error_def)

lemma walk_Err:
  "walk v path = Err e \<Longrightarrow> secret_error (doc_keys v) e"
  "walk_table entries path = Err e \<Longrightarrow> secret_error (table_keys entries) e"
  "walk_array items idx path = Err e \<Longrightarrow> secret_error (array_keys items) e"
  by (induction v path and entries path and items idx path rule: walk_walk_table_walk_array.induct)
    (auto simp: secret_error_append secret_error_Cons join_path_snoc split: sum.split_asm if_split_asm)


section \<open>What validation promises\<close>

lemma then_Ok: "(case x of Inl e \<Rightarrow> Inl e | Inr _ \<Rightarrow> y) = Ok () \<longleftrightarrow> x = Ok () \<and> y = Ok ()" for x :: "'e + unit"
  by (cases x) simp_all

lemma check_unique_Ok: "check_unique message ids seen = Ok () \<longleftrightarrow> distinct ids \<and> set ids \<inter> seen = {}"
  by (induction ids arbitrary: seen) auto

definition known_targets :: "config \<Rightarrow> collector_target_config \<Rightarrow> bool" where
  "known_targets config t =
     (case t of
        CfgBitcoinNode i \<Rightarrow> i \<in> set (map bn_id (cf_bitcoin_nodes config))
      | CfgLndNode i \<Rightarrow> i \<in> set (map lnn_id (cf_lnd_nodes config))
      | CfgHost i \<Rightarrow> i \<in> set (map hc_id (cf_hosts config)))"

lemma check_targets_Ok:
  "check_targets debug config cs = Ok () \<longleftrightarrow> list_all (\<lambda>c. known_targets config (cd_target c)) cs"
  by (induction cs) (auto simp: known_targets_def Let_def split: collector_target_config.splits)

lemma validate_cross_refs_Ok:
  "validate_cross_refs debug config = Ok () \<longleftrightarrow>
     distinct (map bn_id (cf_bitcoin_nodes config)) \<and> distinct (map lnn_id (cf_lnd_nodes config)) \<and>
     distinct (map hc_id (cf_hosts config)) \<and>
     list_all (\<lambda>c. known_targets config (cd_target c)) (cf_collectors config) \<and>
     distinct (map cd_id (cf_collectors config)) \<and> distinct (map nrc_id (cf_notification_rules config))"
proof -
  have card: "card (set (map f xs)) = length xs \<longleftrightarrow> distinct (map f xs)" for f :: "'b \<Rightarrow> string" and xs
    using card_distinct [of "map f xs"] distinct_card [of "map f xs"] by auto
  show ?thesis
    unfolding validate_cross_refs_def card by (simp add: then_Ok check_targets_Ok check_unique_Ok split: if_split)
qed

lemma validate_env_vars_Ok: "validate_env_vars needed env = Ok () \<longleftrightarrow> set needed \<subseteq> dom (map_of env)"
  by (induction needed) auto

lemma resolve_into_Ok:
  "set needed \<subseteq> dom (map_of env) \<Longrightarrow>
   \<exists>s. resolve_into needed env m = Ok s \<and>
     (\<forall>n. secrets_get s n = (if n \<in> set needed then map_of env n else hm_get m n))"
  by (induction needed arbitrary: m) (fastforce simp: secrets_get_def)+

lemma resolve_into_missing:
  "resolve_into needed env m = Err e \<Longrightarrow> \<not> set needed \<subseteq> dom (map_of env)"
  using resolve_into_Ok [of needed env m] by auto

lemma collect_env_refs_set:
  "set (collect_env_refs config) =
     (\<Union>n \<in> set (cf_bitcoin_nodes config). set (auth_env_refs n)) \<union> set (map lnn_macaroon_env (cf_lnd_nodes config))
     \<union> (case nc_telegram (cf_notifications config) of None \<Rightarrow> {} | Some tg \<Rightarrow> {ts_bot_token_env tg})
     \<union> (\<Union>r \<in> set (cf_notification_rules config). set (target_env_refs r))"
  by (auto simp: collect_env_refs_def split: option.split)

lemma check_document_Ok:
  assumes "check_document ho env body = Ok (config, secrets)"
  shows "validate_cross_refs (ho_debug ho) config = Ok () \<and> set (collect_env_refs config) \<subseteq> dom (map_of env) \<and>
    (\<forall>n. secrets_get secrets n = (if n \<in> set (collect_env_refs config) then map_of env n else None))"
proof -
  have v: "validate_cross_refs (ho_debug ho) config = Ok ()"
    "validate_env_vars (collect_env_refs config) env = Ok ()"
    "resolve_secrets (collect_env_refs config) env = Ok secrets"
    using assms by (auto simp: check_document_def Let_def split: sum.splits)
  then show ?thesis
    using resolve_into_Ok [of "collect_env_refs config" env "[]"]
    by (auto simp: validate_env_vars_Ok resolve_secrets_def)
qed

section \<open>Overrides\<close>

definition doc_get :: "(string \<times> toml) list \<Rightarrow> string \<Rightarrow> string \<Rightarrow> toml option" where
  "doc_get doc section key =
     (case map_of doc section of Some (TTable entries) \<Rightarrow> map_of entries key | _ \<Rightarrow> None)"

definition section_open :: "(string \<times> toml) list \<Rightarrow> string \<Rightarrow> bool" where
  "section_open doc section = (case map_of doc section of None \<Rightarrow> True | Some (TTable _) \<Rightarrow> True | _ \<Rightarrow> False)"

lemma map_of_table_insert [simp]: "map_of (table_insert k v m) = (map_of m)(k \<mapsto> v)"
  by (induction k v m rule: table_insert.induct) (auto simp: fun_eq_iff)

lemma apply_override_skip: "override_target (fst entry) = None \<Longrightarrow> apply_override entry doc = doc"
  by (simp add: apply_override_def)

lemma apply_override_closed:
  "override_target (fst entry) = Some (s, k) \<Longrightarrow> \<not> section_open doc s \<Longrightarrow> apply_override entry doc = doc"
  by (cases "map_of doc s"; cases "the (map_of doc s)") (simp_all add: apply_override_def section_open_def)

definition section_entries :: "(string \<times> toml) list \<Rightarrow> string \<Rightarrow> (string \<times> toml) list" where
  "section_entries doc s = (case map_of doc s of Some (TTable t) \<Rightarrow> t | _ \<Rightarrow> [])"

lemma apply_override_hit:
  "override_target (fst entry) = Some (s, k) \<Longrightarrow> section_open doc s \<Longrightarrow>
   map_of (apply_override entry doc) = (map_of doc)(s \<mapsto>
     TTable (table_insert k (coerce_env_value (snd entry) (map_of (section_entries doc s) k)) (section_entries doc s)))"
  by (cases "map_of doc s"; cases "the (map_of doc s)")
    (simp_all add: apply_override_def section_open_def section_entries_def)

lemma doc_get_entries: "section_open doc s \<Longrightarrow> doc_get doc s k = map_of (section_entries doc s) k"
  by (cases "map_of doc s"; cases "the (map_of doc s)") (simp_all add: doc_get_def section_open_def section_entries_def)

lemma apply_override_get:
  "doc_get (apply_override entry doc) s k =
     (if override_target (fst entry) = Some (s, k) \<and> section_open doc s
      then Some (coerce_env_value (snd entry) (doc_get doc s k)) else doc_get doc s k)"
proof (cases "override_target (fst entry)")
  case None
  then show ?thesis by (simp add: apply_override_skip)
next
  case (Some t)
  obtain s' k' where t: "t = (s', k')"
    by (cases t)
  show ?thesis
  proof (cases "section_open doc s'")
    case True
    have "doc_get (apply_override entry doc) s k =
        (if s = s' then if k = k' then Some (coerce_env_value (snd entry) (map_of (section_entries doc s') k'))
           else map_of (section_entries doc s') k else doc_get doc s k)"
      using apply_override_hit [OF Some [unfolded t] True] by (simp add: doc_get_def)
    with Some t True show ?thesis
      by (simp add: doc_get_entries)
  qed (use Some t in \<open>auto simp: apply_override_closed\<close>)
qed

lemma apply_override_open: "section_open (apply_override entry doc) s = section_open doc s"
proof (cases "override_target (fst entry)")
  case None
  then show ?thesis by (simp add: apply_override_skip)
next
  case (Some t)
  obtain s' k' where t: "t = (s', k')"
    by (cases t)
  show ?thesis
  proof (cases "section_open doc s'")
    case True
    then show ?thesis
      using apply_override_hit [OF Some [unfolded t] True] by (auto simp: section_open_def)
  qed (use Some t in \<open>simp add: apply_override_closed\<close>)
qed

text \<open>
  When no two variables name the same key, each named key of a section that is a table or
  absent gets the value of its variable, coerced by what the file says there, and every
  other key keeps its value, in whatever order the environment is iterated.
\<close>

lemma env_overrides_exact:
  assumes "\<And>e e'. e \<in> set env \<Longrightarrow> e' \<in> set env \<Longrightarrow> override_target (fst e) = Some (s, k) \<Longrightarrow>
      override_target (fst e') = Some (s, k) \<Longrightarrow> e = e'" and "distinct env"
  shows "doc_get (fold apply_override env doc) s k =
    (case find (\<lambda>e. override_target (fst e) = Some (s, k)) env of
       Some e \<Rightarrow> if section_open doc s then Some (coerce_env_value (snd e) (doc_get doc s k)) else doc_get doc s k
     | None \<Rightarrow> doc_get doc s k)"
  using assms
proof (induction env arbitrary: doc)
  case (Cons e env)
  note IH = Cons.IH [of "apply_override e doc"]
  show ?case
  proof (cases "override_target (fst e) = Some (s, k)")
    case True
    then have "\<forall>e' \<in> set env. override_target (fst e') \<noteq> Some (s, k)"
      using Cons.prems(1) [of e] Cons.prems(2) by fastforce
    then have "find (\<lambda>e. override_target (fst e) = Some (s, k)) env = None"
      by (auto simp: find_None_iff)
    with IH Cons.prems True show ?thesis
      by (auto simp: apply_override_get)
  next
    case False
    then have "doc_get (apply_override e doc) s k = doc_get doc s k"
      by (simp add: apply_override_get)
    with IH [unfolded apply_override_open] Cons.prems False show ?thesis
      by (auto split: option.split)
  qed
qed simp

section \<open>The sidecar id\<close>

definition plain_char :: "char \<Rightarrow> bool" where
  "plain_char c \<longleftrightarrow> 33 \<le> (of_char c :: nat) \<and> (of_char c :: nat) \<le> 126"

lemma white_space_ends:
  "\<forall>w \<in> set white_space. \<not> plain_char (hd w) \<and> \<not> plain_char (last w) \<and> w \<noteq> []"
  by (simp add: white_space_def plain_char_def)

lemma white_space_front: "\<exists>rest. white_space = [CHR 0x09] # [CHR 0x0A] # rest"
  unfolding white_space_def list.map append_Cons by (simp add: char_of_def bit_Suc bit_0)

lemma trim_front_plain:
  assumes "\<forall>w \<in> set ws. w \<noteq> [] \<and> \<not> plain_char (hd w)" and "plain_char c"
  shows "trim_front ws n (c # s) = c # s"
proof (cases n)
  case (Suc m)
  have "find (\<lambda>w. w \<noteq> [] \<and> take (length w) (c # s) = w) ws = None"
    unfolding find_None_iff using assms by (metis hd_take length_greater_0_conv list.sel(1))
  with Suc show ?thesis by simp
qed simp

lemma str_trim_line:
  assumes "list_all plain_char s" and "s \<noteq> []"
  shows "str_trim (s @ [CHR 0x0A]) = s"
proof -
  obtain c t where s: "s = c # t"
    using assms(2) by (cases s) auto
  obtain d u where r: "rev s = d # u"
    using assms(2) by (cases "rev s") auto
  have d: "plain_char d"
    using assms(1) r by (metis list.set_intros(1) list_all_iff set_rev)
  have front: "trim_front white_space (length (s @ [CHR 0x0A])) (s @ [CHR 0x0A]) = s @ [CHR 0x0A]"
    using trim_front_plain [of white_space c] white_space_ends assms(1) s by (simp del: trim_front.simps)
  obtain rest where ws: "white_space = [CHR 0x09] # [CHR 0x0A] # rest"
    using white_space_front by blast
  have nl: "find (\<lambda>w. w \<noteq> [] \<and> take (length w) (CHR 0x0A # rev s) = w) (map rev white_space) = Some [CHR 0x0A]"
    by (simp add: ws)
  have "trim_front (map rev white_space) (length s) (rev s) = rev s"
    unfolding r by (rule trim_front_plain) (use white_space_ends d in \<open>auto simp: hd_rev\<close>)
  then have "trim_front (map rev white_space) (Suc (length s)) (CHR 0x0A # rev s) = rev s"
    by (simp only: trim_front.simps nl option.case list.size add_0_right) simp
  then show ?thesis
    unfolding str_trim_def front Let_def by simp
qed

text \<open>What the loader relies on: a file written is there and reads back, an id prints as one
  line of visible characters and parses back.\<close>

definition host_keeps_files :: "('w, 'p) host \<Rightarrow> bool" where
  "host_keeps_files ho \<longleftrightarrow>
     (\<forall>p c w w'. ho_write ho p c w = (Ok (), w') \<longrightarrow> ho_exists ho p w' \<and> ho_read ho p w' = Ok c)"

definition host_prints_ids :: "('w, 'p) host \<Rightarrow> bool" where
  "host_prints_ids ho \<longleftrightarrow>
     (\<forall>u. ho_uuid_str ho u \<noteq> [] \<and> list_all plain_char (ho_uuid_str ho u) \<and>
          ho_uuid_parse ho (ho_uuid_str ho u) = Some u)"

text \<open>The identity of the sidecar survives restarts.
  Once a start has obtained an id, whether from the file or by generating one, the next
  start obtains the same id and leaves the host as it is.\<close>

lemma sidecar_id_stable:
  assumes "host_keeps_files ho" and "host_prints_ids ho"
    and "load_or_generate_sidecar_id ho path w = (Ok i, w')"
  shows "load_or_generate_sidecar_id ho path w' = (Ok i, w')"
proof (cases "ho_exists ho path w")
  case True
  then have "w' = w"
    using assms(3) by (auto simp: load_or_generate_sidecar_id_def split: sum.splits option.splits)
  with assms(3) show ?thesis by simp
next
  case False
  then obtain u w1 where "i = SidecarId u" "ho_write ho path (ho_uuid_str ho u @ [CHR 0x0A]) w1 = (Ok (), w')"
    using assms(3) by (auto simp: load_or_generate_sidecar_id_def Let_def split: prod.splits sum.splits)
  moreover from this(2) have "ho_exists ho path w'" "ho_read ho path w' = Ok (ho_uuid_str ho u @ [CHR 0x0A])"
    using assms(1) by (auto simp: host_keeps_files_def)
  moreover have "ho_uuid_parse ho (str_trim (ho_uuid_str ho u @ [CHR 0x0A])) = Some u"
    using assms(2) by (simp add: host_prints_ids_def str_trim_line)
  ultimately show ?thesis
    by (simp add: load_or_generate_sidecar_id_def)
qed

text \<open>A host whose world is its files and a counter, with ids printed in decimal.\<close>

definition sample_host :: "((string \<times> string) list \<times> nat, unit) host" where
  "sample_host =
     \<lparr>ho_exists = (\<lambda>p w. map_of (fst w) p \<noteq> None),
      ho_read = (\<lambda>p w. case map_of (fst w) p of None \<Rightarrow> Err ''no such file'' | Some c \<Rightarrow> Ok c),
      ho_create_dir_all = (\<lambda>_ w. (Ok (), w)),
      ho_write = (\<lambda>p c w. (Ok (), ((p, c) # fst w, snd w))),
      ho_parent = (\<lambda>_. Some ''/var/lib''), ho_now_v7 = (\<lambda>w. (of_nat (snd w), (fst w, Suc (snd w)))),
      ho_uuid_str = (\<lambda>u. nat_str (unat u)), ho_uuid_parse = (\<lambda>s. map_option of_nat (digits_value s)),
      ho_toml_parse = (\<lambda>_. Ok (TTable [])), ho_decode = (\<lambda>_. Err ''empty''), ho_debug = (\<lambda>s. s),
      ho_open_pool = (\<lambda>_ w. (Ok (), w))\<rparr>"

lemma sample_host_ok: "host_keeps_files sample_host" "host_prints_ids sample_host"
proof -
  show "host_keeps_files sample_host"
    by (auto simp: host_keeps_files_def sample_host_def)
  have "list_all plain_char (nat_str n)" for n
    using nat_str_digits [of n] by (auto simp: list_all_iff is_digit_def plain_char_def)
  then show "host_prints_ids sample_host"
    using nat_str_digits by (auto simp: host_prints_ids_def sample_host_def digits_value_nat_str)
qed

end
