(* ===== verification/Bootstrap.thy ===== *)
theory Bootstrap
  imports Configuration Lnd_Client
begin

text \<open>
  From a loaded configuration to the parts of the runtime: the node registry and the
  collectors of \<open>runtime/bootstrap.rs\<close>, the notification rules, the senders and the
  wiring of \<open>main.rs\<close>.  Building the HTTP client, parsing a URL, the constructor of a
  duration, the file system, the decoder of a kind catalog and the repository's
  \<open>load_open\<close> are parameters.
\<close>

section \<open>Collectors\<close>

datatype boot_error =
    TargetNotFound string string
  | BootWrongTargetKind string string string
  | NotImplemented string
  | SecretNotResolved string
  | BootInner string build_error

record node_registry =
  reg_bitcoin_nodes :: "(bitcoin_node_id, bitcoin_node_connection) hash_map"
  reg_lnd_nodes :: "(lnd_node_id, lnd_node_connection) hash_map"
  reg_hosts :: "(host_id, unit) hash_map"

fun collector_target_of :: "collector_target_config \<Rightarrow> collector_target" where
  "collector_target_of (CfgBitcoinNode i) = TargetBitcoinNode (BitcoinNodeId i)"
| "collector_target_of (CfgLndNode i) = TargetLndNode (LndNodeId i)"
| "collector_target_of (CfgHost i) = TargetHost (HostId i)"

fun target_kind_name :: "collector_target \<Rightarrow> string" where
  "target_kind_name (TargetBitcoinNode _) = ''bitcoin_node''"
| "target_kind_name (TargetLndNode _) = ''lnd_node''"
| "target_kind_name (TargetHost _) = ''host''"

definition rpc_auth_of :: "resolved_secrets \<Rightarrow> bitcoin_auth_config \<Rightarrow> boot_error + bitcoin_rpc_auth" where
  "rpc_auth_of secrets auth =
     (case auth of
        UserPassConfig user password_env \<Rightarrow>
          (case secrets_get secrets password_env of
             None \<Rightarrow> Err (SecretNotResolved password_env)
           | Some pass \<Rightarrow> Ok (UserPass user pass))
      | CookieFileConfig path \<Rightarrow> Ok (CookieFile path))"

fun register_nodes ::
    "resolved_secrets \<Rightarrow> bitcoin_node_config list \<Rightarrow> (bitcoin_node_id, bitcoin_node_connection) hash_map \<Rightarrow>
     boot_error + (bitcoin_node_id, bitcoin_node_connection) hash_map" where
  "register_nodes secrets [] m = Ok m"
| "register_nodes secrets (node # rest) m =
     (case rpc_auth_of secrets (bn_auth node) of
        Err e \<Rightarrow> Err e
      | Ok rpc_auth \<Rightarrow>
          register_nodes secrets rest
            (hm_insert (BitcoinNodeId (bn_id node))
               \<lparr>bnc_rpc_url = bn_rpc_url node, bnc_rpc_auth = rpc_auth, bnc_zmq_endpoint = bn_zmq_endpoint node\<rparr> m))"

definition node_registry_from_config :: "config \<Rightarrow> resolved_secrets \<Rightarrow> boot_error + node_registry" where
  "node_registry_from_config config secrets =
     (case register_nodes secrets (cf_bitcoin_nodes config) [] of
        Err e \<Rightarrow> Err e
      | Ok m \<Rightarrow> Ok \<lparr>reg_bitcoin_nodes = m, reg_lnd_nodes = [], reg_hosts = []\<rparr>)"

definition build_rpc_collector ::
    "(i64 \<Rightarrow> chrono_duration run) \<Rightarrow> (string \<Rightarrow> string option) \<Rightarrow> node_registry \<Rightarrow> collector_descriptor_config \<Rightarrow> u32 \<Rightarrow>
     (boot_error + bitcoin_core_rpc_collector) run" where
  "build_rpc_collector seconds parse_url registry cfg interval_seconds =
     (case collector_target_of (cd_target cfg) of
        TargetBitcoinNode node_id \<Rightarrow>
          (case hm_get (reg_bitcoin_nodes registry) node_id of
             None \<Rightarrow> Done (Err (TargetNotFound (cd_id cfg) (case node_id of BitcoinNodeId s \<Rightarrow> s)))
           | Some connection \<Rightarrow>
               (case seconds (uint interval_seconds) of
                  Panicked \<Rightarrow> Panicked
                | Done interval \<Rightarrow>
                    let descriptor =
                          \<lparr>desc_id = CollectorId (cd_id cfg), desc_integration = BitcoinCoreRpc interval,
                           desc_target = TargetBitcoinNode node_id, desc_instance_label = cd_instance_label cfg,
                           desc_description = cd_description cfg\<rparr>
                    in (case bitcoin_core_rpc_collector_new parse_url descriptor connection
                              bitcoin_core_rpc_collector_config_default of
                          Err e \<Rightarrow> Done (Err (BootInner (cd_id cfg) e))
                        | Ok c \<Rightarrow> Done (Ok c))))
      | target \<Rightarrow>
          Done (Err (BootWrongTargetKind (cd_id cfg) (target_kind_name target) ''bitcoin_core_rpc'')))"

fun build_polling_collectors ::
    "(i64 \<Rightarrow> chrono_duration run) \<Rightarrow> (string \<Rightarrow> string option) \<Rightarrow> node_registry \<Rightarrow>
     collector_descriptor_config list \<Rightarrow> (boot_error + bitcoin_core_rpc_collector list) run" where
  "build_polling_collectors seconds parse_url registry [] = Done (Ok [])"
| "build_polling_collectors seconds parse_url registry (cfg # configs) =
     (case cd_integration cfg of
        CfgBitcoinCoreRpc interval_seconds \<Rightarrow>
          (case build_rpc_collector seconds parse_url registry cfg interval_seconds of
             Panicked \<Rightarrow> Panicked
           | Done (Err e) \<Rightarrow> Done (Err e)
           | Done (Ok c) \<Rightarrow>
               (case build_polling_collectors seconds parse_url registry configs of
                  Done (Ok cs) \<Rightarrow> Done (Ok (c # cs))
                | r \<Rightarrow> r))
      | CfgBitcoinCoreZmq \<Rightarrow> build_polling_collectors seconds parse_url registry configs
      | CfgLndGrpcStream \<Rightarrow> build_polling_collectors seconds parse_url registry configs
      | CfgLndGrpcPoll _ \<Rightarrow> Done (Err (NotImplemented ''lnd_grpc_poll''))
      | CfgLndRest _ \<Rightarrow> Done (Err (NotImplemented ''lnd_rest''))
      | CfgHostIntegration _ \<Rightarrow> Done (Err (NotImplemented ''host'')))"

text \<open>No subscription integration is implemented, so the list it returns is empty.\<close>

fun build_subscription_collectors :: "collector_descriptor_config list \<Rightarrow> boot_error + unit list" where
  "build_subscription_collectors [] = Ok []"
| "build_subscription_collectors (cfg # configs) =
     (case cd_integration cfg of
        CfgBitcoinCoreZmq \<Rightarrow> Err (NotImplemented ''bitcoin_core_zmq'')
      | CfgLndGrpcStream \<Rightarrow> Err (NotImplemented ''lnd_grpc_stream'')
      | _ \<Rightarrow> build_subscription_collectors configs)"

section \<open>Notification rules and senders\<close>

fun map_severity :: "severity_config \<Rightarrow> incident_severity" where
  "map_severity CfgInfo = SevInfo"
| "map_severity CfgWarning = SevWarning"
| "map_severity CfgCritical = SevCritical"

fun map_telegram_parse_mode :: "telegram_parse_mode_config \<Rightarrow> telegram_parse_mode" where
  "map_telegram_parse_mode CfgPlain = PlainText"
| "map_telegram_parse_mode CfgHtml = Html"
| "map_telegram_parse_mode CfgMarkdownV2 = Html"

fun parse_dotted_name_error_display :: "(char \<Rightarrow> string) \<Rightarrow> parse_dotted_name_error \<Rightarrow> string" where
  "parse_dotted_name_error_display debug_char Empty = ''name is empty''"
| "parse_dotted_name_error_display debug_char (TooLong got) =
     ''name exceeds '' @ nat_str MAX_NAME_LEN @ '' characters (got '' @ nat_str got @ '')''"
| "parse_dotted_name_error_display debug_char (BadCharacter pos found) =
     ''invalid character '' @ debug_char found @ '' at position '' @ nat_str pos"
| "parse_dotted_name_error_display debug_char (EmptySegment pos) = ''empty segment at position '' @ nat_str pos"
| "parse_dotted_name_error_display debug_char (BadSegmentStart pos) =
     ''segment at position '' @ nat_str pos @ '' must start with a-z''"
| "parse_dotted_name_error_display debug_char NoDot = ''name must contain at least one dot''"

record renderings =
  rg_str :: "string \<Rightarrow> string"
  rg_char :: "char \<Rightarrow> string"

definition rule_target ::
    "renderings \<Rightarrow> telegram_parse_mode \<Rightarrow> resolved_secrets \<Rightarrow> notification_rule_config \<Rightarrow> anyhow_error + notification_target" where
  "rule_target rg parse_mode secrets cfg =
     (case nrc_target cfg of
        CfgTelegram chat_id \<Rightarrow>
          Ok (Telegram \<lparr>tg_chat_id = TelegramChatId chat_id, tg_parse_mode = parse_mode\<rparr>)
      | CfgDiscord webhook_env thread_id \<Rightarrow>
          (case secrets_get secrets webhook_env of
             None \<Rightarrow> Err (''discord rule '' @ rg_str rg (nrc_id cfg) @ '' references unresolved env '' @ rg_str rg webhook_env)
           | Some webhook_url \<Rightarrow>
               Ok (Discord \<lparr>dc_webhook_url = webhook_url, dc_thread_id = map_option DiscordThreadId thread_id,
                    dc_username_override = None, dc_avatar_url_override = None\<rparr>))
      | CfgWebhook url_env \<Rightarrow>
          (case secrets_get secrets url_env of
             None \<Rightarrow> Err (''webhook rule '' @ rg_str rg (nrc_id cfg) @ '' references unresolved env '' @ rg_str rg url_env)
           | Some url \<Rightarrow> Ok (Webhook \<lparr>wh_url = url, wh_method = Post, wh_headers = []\<rparr>)))"

fun parse_event_kinds :: "renderings \<Rightarrow> string \<Rightarrow> string list \<Rightarrow> anyhow_error + incident_kind list" where
  "parse_event_kinds rg rid [] = Ok []"
| "parse_event_kinds rg rid (k # ks) =
     (case incident_kind_parse k of
        Err e \<Rightarrow> Err (''notification rule '' @ rg_str rg rid @ '': invalid event_kind '' @ rg_str rg k @ '': '' @
               parse_dotted_name_error_display (rg_char rg) e)
      | Ok kind \<Rightarrow>
          (case parse_event_kinds rg rid ks of Err e \<Rightarrow> Err e | Ok kinds \<Rightarrow> Ok (kind # kinds)))"

fun build_rules ::
    "renderings \<Rightarrow> telegram_parse_mode \<Rightarrow> resolved_secrets \<Rightarrow> notification_rule_config list \<Rightarrow>
     anyhow_error + notification_rule list" where
  "build_rules rg parse_mode secrets [] = Ok []"
| "build_rules rg parse_mode secrets (cfg # rest) =
     (case rule_target rg parse_mode secrets cfg of
        Err e \<Rightarrow> Err e
      | Ok target \<Rightarrow>
          (case parse_event_kinds rg (nrc_id cfg) (nrc_event_kinds cfg) of
             Err e \<Rightarrow> Err e
           | Ok event_kinds \<Rightarrow>
               (case build_rules rg parse_mode secrets rest of
                  Err e \<Rightarrow> Err e
                | Ok rules \<Rightarrow>
                    Ok (\<lparr>nr_id = NotificationRuleId (nrc_id cfg), nr_name = NotificationRuleName (nrc_name cfg),
                         nr_enabled = nrc_enabled cfg, nr_min_severity = map_severity (nrc_min_severity cfg),
                         nr_event_kinds = event_kinds, nr_target = target\<rparr> # rules))))"

definition build_notification_rules ::
    "renderings \<Rightarrow> notification_rule_config list \<Rightarrow> notifications_config \<Rightarrow> resolved_secrets \<Rightarrow>
     anyhow_error + notification_rule list" where
  "build_notification_rules rg rules notifications secrets =
     (let telegram_parse_mode =
            (case nc_telegram notifications of
               Some t \<Rightarrow> map_telegram_parse_mode (ts_parse_mode t) | None \<Rightarrow> PlainText)
      in build_rules rg telegram_parse_mode secrets rules)"

definition build_senders ::
    "renderings \<Rightarrow> notifications_config \<Rightarrow> resolved_secrets \<Rightarrow> anyhow_error + notifier_senders" where
  "build_senders rg notifications secrets =
     (case nc_telegram notifications of
        None \<Rightarrow> Ok \<lparr>ns_telegram = None, ns_discord = True\<rparr>
      | Some cfg \<Rightarrow>
          (case secrets_get secrets (ts_bot_token_env cfg) of
             None \<Rightarrow> Err (''[notifications.telegram].bot_token_env '' @ rg_str rg (ts_bot_token_env cfg) @ '' not resolved'')
           | Some token \<Rightarrow> Ok \<lparr>ns_telegram = Some (telegram_sender_new token), ns_discord = True\<rparr>))"

section \<open>Wiring\<close>

definition kind_registry_load ::
    "(string \<Rightarrow> string + string) \<Rightarrow> (string \<Rightarrow> string + kind_entry_toml list) \<Rightarrow> string \<Rightarrow> string option \<Rightarrow>
     registry_error + kind_registry" where
  "kind_registry_load read_file from_str builtin user_config =
     (case user_config of
        None \<Rightarrow> load_from_toml_strs from_str builtin None
      | Some path \<Rightarrow>
          (case read_file path of
             Err e \<Rightarrow> Err (InvalidToml e)
           | Ok user_toml \<Rightarrow> load_from_toml_strs from_str builtin (Some user_toml)))"

record boot_outside =
  bo_http :: "string + unit"
  bo_seconds :: "i64 \<Rightarrow> chrono_duration run"
  bo_parse_url :: "string \<Rightarrow> string option"
  bo_read_file :: "string \<Rightarrow> string + string"
  bo_kind_decoder :: "string \<Rightarrow> string + kind_entry_toml list"
  bo_builtin_kinds :: string
  bo_load_open :: "incident_repo_error + incident list"
  bo_renderings :: renderings

datatype boot_failure =
    HttpFailed string
  | CollectorsFailed boot_error
  | KindsFailed registry_error
  | LoadOpenFailed incident_repo_error
  | NotificationsFailed anyhow_error

record runtime_deps =
  dp_sidecar_id :: sidecar_id
  dp_polling_collectors :: "bitcoin_core_rpc_collector list"
  dp_subscription_collectors :: "unit list"
  dp_rules :: "diagnostic_rule list"
  dp_read_models :: read_model_store
  dp_engine :: incident_engine
  dp_notification_rules :: "notification_rule list"
  dp_senders :: notifier_senders
  dp_config :: runtime_config
  dp_api_config :: api_config

definition engine_signal_source :: "sidecar_id \<Rightarrow> observation_source" where
  "engine_signal_source sidecar =
     \<lparr>src_sidecar_id = sidecar,
      src_collector = \<lparr>cref_id = CollectorId ''bithound:engine'', cref_integration = BitcoinCoreRpc 0,
        cref_instance_label = ''engine''\<rparr>\<rparr>"

text \<open>
  The operator \<open>?\<close> on a result, with the conversion of its error, and the sequencing of a
  computation that may panic.
\<close>

definition try_step :: "('e \<Rightarrow> 'f) \<Rightarrow> 'e + 'a \<Rightarrow> ('a \<Rightarrow> ('f + 'b) run) \<Rightarrow> ('f + 'b) run" where
  "try_step conv r k = (case r of Err e \<Rightarrow> Done (Err (conv e)) | Ok x \<Rightarrow> k x)"

definition run_step :: "'a run \<Rightarrow> ('a \<Rightarrow> 'b run) \<Rightarrow> 'b run" where
  "run_step r k = (case r of Panicked \<Rightarrow> Panicked | Done x \<Rightarrow> k x)"

lemma try_step_simps [simp]:
  "try_step conv (Ok x) k = k x" "try_step conv (Err e) k = Done (Err (conv e))"
  by (simp_all add: try_step_def)

lemma run_step_simps [simp]: "run_step (Done x) k = k x" "run_step Panicked k = Panicked"
  by (simp_all add: run_step_def)

text \<open>
  \<open>boot_runtime\<close> up to the start of the runtime: what it hands over, or the error it returns.
  The three repositories it also hands over are handles on the pool of the loaded configuration.
\<close>

definition boot_runtime :: "boot_outside \<Rightarrow> 'p loaded_config \<Rightarrow> (boot_failure + runtime_deps) run" where
  "boot_runtime bo loaded =
     (let config = ld_config loaded; secrets = ld_secrets loaded; sidecar = ld_sidecar_id loaded in
      try_step HttpFailed (bo_http bo) (\<lambda>_.
      try_step CollectorsFailed (node_registry_from_config config secrets) (\<lambda>registry.
      run_step (build_polling_collectors (bo_seconds bo) (bo_parse_url bo) registry (cf_collectors config)) (\<lambda>built.
      try_step CollectorsFailed built (\<lambda>polling.
      try_step CollectorsFailed (build_subscription_collectors (cf_collectors config)) (\<lambda>subscription.
      run_step (read_model_store_new read_model_store_config_default) (\<lambda>read_models.
      try_step KindsFailed (kind_registry_load (bo_read_file bo) (bo_kind_decoder bo) (bo_builtin_kinds bo)
             (ic_kinds_config_path (cf_incidents config))) (\<lambda>kinds.
      try_step LoadOpenFailed (bo_load_open bo) (\<lambda>open_incidents.
      run_step (incident_engine_new kinds sidecar (engine_signal_source sidecar) open_incidents) (\<lambda>engine.
      try_step NotificationsFailed (build_notification_rules (bo_renderings bo) (cf_notification_rules config)
             (cf_notifications config) secrets) (\<lambda>notification_rules.
      try_step NotificationsFailed (build_senders (bo_renderings bo) (cf_notifications config) secrets) (\<lambda>senders.
        Done (Ok \<lparr>dp_sidecar_id = sidecar, dp_polling_collectors = polling,
                  dp_subscription_collectors = subscription,
                  dp_rules = [RuleRpcUnreachable rpc_unreachable_new, RuleNoPeers no_peers_new, RuleTipLag tip_lag_new],
                  dp_read_models = read_models, dp_engine = engine, dp_notification_rules = notification_rules,
                  dp_senders = senders, dp_config = cf_runtime config, dp_api_config = cf_api config\<rparr>)))))))))))))"

text \<open>
  The process (\<open>run\<close> of \<open>main.rs\<close>): its exit code, when it is not zero.  What the runtime does once it
  is wired is an argument.
\<close>

definition EX_CONFIG :: int where
  "EX_CONFIG = 78"

definition main_run ::
    "('w, 'p) host \<Rightarrow> boot_outside \<Rightarrow> (runtime_deps \<Rightarrow> 'w \<Rightarrow> unit run \<times> 'w) \<Rightarrow> cli \<Rightarrow> environment \<Rightarrow> 'w \<Rightarrow>
     (int + unit) run \<times> 'w" where
  "main_run ho bo runtime cli env w =
     (if cli_version cli then (Done (Ok ()), w)
      else case load_with_env ho cli env w of
        (Err _, w) \<Rightarrow> (Done (Err EX_CONFIG), w)
      | (Ok loaded, w) \<Rightarrow>
          if cli_check_config cli then (Done (Ok ()), w)
          else case boot_runtime bo loaded of
                 Panicked \<Rightarrow> (Panicked, w)
               | Done (Err _) \<Rightarrow> (Done (Err EX_CONFIG), w)
               | Done (Ok deps) \<Rightarrow> (case runtime deps w of (Panicked, w) \<Rightarrow> (Panicked, w) | (Done _, w) \<Rightarrow> (Done (Ok ()), w)))"

lemma main_run_exit:
  "fst (main_run ho bo runtime cli env w) = Done (Err code) \<longleftrightarrow>
     \<not> cli_version cli \<and> code = EX_CONFIG \<and>
     ((\<exists>e. fst (load_with_env ho cli env w) = Err e) \<or>
      (\<exists>loaded e. fst (load_with_env ho cli env w) = Ok loaded \<and> \<not> cli_check_config cli \<and> boot_runtime bo loaded = Done (Err e)))"
  by (auto simp: main_run_def split: prod.splits sum.splits run.splits)

section \<open>A validated configuration boots\<close>

definition connection_of :: "resolved_secrets \<Rightarrow> bitcoin_node_config \<Rightarrow> bitcoin_node_connection option" where
  "connection_of secrets node =
     (case rpc_auth_of secrets (bn_auth node) of
        Ok auth \<Rightarrow> Some \<lparr>bnc_rpc_url = bn_rpc_url node, bnc_rpc_auth = auth, bnc_zmq_endpoint = bn_zmq_endpoint node\<rparr>
      | Err _ \<Rightarrow> None)"

definition resolved :: "resolved_secrets \<Rightarrow> string list \<Rightarrow> bool" where
  "resolved secrets names \<longleftrightarrow> list_all (\<lambda>n. secrets_get secrets n \<noteq> None) names"

lemma rpc_auth_resolved: "resolved secrets (auth_env_refs node) \<Longrightarrow> \<exists>auth. rpc_auth_of secrets (bn_auth node) = Ok auth"
  by (auto simp: resolved_def auth_env_refs_def rpc_auth_of_def split: bitcoin_auth_config.splits)

lemma register_nodes_Ok:
  assumes "\<forall>n \<in> set nodes. resolved secrets (auth_env_refs n)" and "distinct (map bn_id nodes)"
  shows "\<exists>m'. register_nodes secrets nodes m = Ok m' \<and>
    (\<forall>i. i \<notin> bn_id ` set nodes \<longrightarrow> hm_get m' (BitcoinNodeId i) = hm_get m (BitcoinNodeId i)) \<and>
    (\<forall>n \<in> set nodes. hm_get m' (BitcoinNodeId (bn_id n)) = connection_of secrets n)"
  using assms
proof (induction nodes arbitrary: m)
  case (Cons node nodes)
  obtain auth where auth: "rpc_auth_of secrets (bn_auth node) = Ok auth"
    using rpc_auth_resolved [of secrets node] Cons.prems(1) by auto
  let ?c = "\<lparr>bnc_rpc_url = bn_rpc_url node, bnc_rpc_auth = auth, bnc_zmq_endpoint = bn_zmq_endpoint node\<rparr>"
  have IH: "\<exists>m'. register_nodes secrets nodes (hm_insert (BitcoinNodeId (bn_id node)) ?c m) = Ok m' \<and>
      (\<forall>i. i \<notin> bn_id ` set nodes \<longrightarrow>
         hm_get m' (BitcoinNodeId i) = hm_get (hm_insert (BitcoinNodeId (bn_id node)) ?c m) (BitcoinNodeId i)) \<and>
      (\<forall>n \<in> set nodes. hm_get m' (BitcoinNodeId (bn_id n)) = connection_of secrets n)"
    by (rule Cons.IH) (use Cons.prems in auto)
  then show ?case
    using Cons.prems(2) auth by (fastforce simp: connection_of_def)
qed simp

text \<open>What the program supports in this version, and what the outside must provide.\<close>

definition supported_collector :: "collector_descriptor_config \<Rightarrow> bool" where
  "supported_collector cfg \<longleftrightarrow>
     (\<exists>n s. cd_target cfg = CfgBitcoinNode n \<and> cd_integration cfg = CfgBitcoinCoreRpc s)"

definition seconds_ok :: "(i64 \<Rightarrow> chrono_duration run) \<Rightarrow> bool" where
  "seconds_ok seconds \<longleftrightarrow> (\<forall>s. 0 \<le> s \<longrightarrow> s < 2 ^ 32 \<longrightarrow> seconds s = Done (s * 1000000000))"

lemma build_rpc_collector_Ok:
  assumes "seconds_ok seconds" and "parse_url (bn_rpc_url node) = None"
    and "hm_get (reg_bitcoin_nodes registry) (BitcoinNodeId (bn_id node)) = connection_of secrets node"
    and "resolved secrets (auth_env_refs node)" and "cd_target cfg = CfgBitcoinNode (bn_id node)"
  shows "\<exists>c. build_rpc_collector seconds parse_url registry cfg s = Done (Ok c) \<and>
    desc_id (bcr_descriptor c) = CollectorId (cd_id cfg) \<and> bcr_node_id c = BitcoinNodeId (bn_id node) \<and>
    brc_url (bcr_client c) = bn_rpc_url node"
proof -
  obtain auth where auth: "rpc_auth_of secrets (bn_auth node) = Ok auth"
    using rpc_auth_resolved [OF assms(4)] by blast
  have "seconds (uint s) = Done (uint s * 1000000000)"
    using assms(1) uint_lt2p [of s] by (simp add: seconds_ok_def)
  then show ?thesis
    using assms(2,3,5) auth
    by (simp add: build_rpc_collector_def connection_of_def bitcoin_core_rpc_collector_new_def bitcoin_rpc_client_new_def)
qed

lemma build_polling_Ok:
  assumes "seconds_ok seconds" and "\<forall>n \<in> set nodes. parse_url (bn_rpc_url n) = None"
    and "\<forall>n \<in> set nodes. hm_get (reg_bitcoin_nodes registry) (BitcoinNodeId (bn_id n)) = connection_of secrets n"
    and "\<forall>n \<in> set nodes. resolved secrets (auth_env_refs n)"
    and "\<forall>cfg \<in> set configs. supported_collector cfg \<and> (\<exists>n \<in> set nodes. cd_target cfg = CfgBitcoinNode (bn_id n))"
  shows "\<exists>cs. build_polling_collectors seconds parse_url registry configs = Done (Ok cs) \<and>
    map (\<lambda>c. desc_id (bcr_descriptor c)) cs = map (\<lambda>cfg. CollectorId (cd_id cfg)) configs \<and>
    (\<forall>c \<in> set cs. \<exists>n \<in> set nodes. bcr_node_id c = BitcoinNodeId (bn_id n) \<and> brc_url (bcr_client c) = bn_rpc_url n)"
  using assms(5)
proof (induction configs)
  case (Cons cfg configs)
  obtain node s where node: "node \<in> set nodes" "cd_target cfg = CfgBitcoinNode (bn_id node)"
    and s: "cd_integration cfg = CfgBitcoinCoreRpc s"
    using Cons.prems by (auto simp: supported_collector_def)
  obtain c where "build_rpc_collector seconds parse_url registry cfg s = Done (Ok c)"
    "desc_id (bcr_descriptor c) = CollectorId (cd_id cfg)" "bcr_node_id c = BitcoinNodeId (bn_id node)"
    "brc_url (bcr_client c) = bn_rpc_url node"
    using build_rpc_collector_Ok [OF assms(1), of parse_url node registry secrets cfg s] assms(2-4) node by auto
  with Cons.IH Cons.prems s node(1) show ?case
    by auto
qed simp

lemma build_subscription_Ok: "\<forall>cfg \<in> set configs. supported_collector cfg \<Longrightarrow> build_subscription_collectors configs = Ok []"
  by (induction configs) (auto simp: supported_collector_def)

definition kinds_parse :: "notification_rule_config \<Rightarrow> bool" where
  "kinds_parse r \<longleftrightarrow> list_all (\<lambda>k. length k \<le> MAX_NAME_LEN \<and> dotted_name k) (nrc_event_kinds r)"

lemma parse_event_kinds_Ok:
  "list_all (\<lambda>k. length k \<le> MAX_NAME_LEN \<and> dotted_name k) ks \<Longrightarrow> parse_event_kinds rg rid ks = Ok (map IncidentKind ks)"
  by (induction ks) (auto simp: kind_name.parse_from_well_known)

lemma build_rules_Ok:
  assumes "\<forall>r \<in> set rules. resolved secrets (target_env_refs r) \<and> kinds_parse r"
  shows "\<exists>rs. build_rules rg mode secrets rules = Ok rs \<and>
    map nr_id rs = map (\<lambda>r. NotificationRuleId (nrc_id r)) rules \<and>
    map nr_event_kinds rs = map (\<lambda>r. map IncidentKind (nrc_event_kinds r)) rules"
  using assms
proof (induction rules)
  case (Cons r rules)
  then have "\<exists>t. rule_target rg mode secrets r = Ok t"
    by (auto simp: resolved_def target_env_refs_def rule_target_def split: notification_target_config.splits)
  with Cons show ?case
    by (auto simp: parse_event_kinds_Ok kinds_parse_def)
qed simp

text \<open>
  What the loader's checks leave open: the collectors are of the kind this version
  implements, URLs and event kinds parse, and the kind registry loads.
\<close>

definition wirable :: "boot_outside \<Rightarrow> config \<Rightarrow> bool" where
  "wirable bo config \<longleftrightarrow>
     list_all supported_collector (cf_collectors config) \<and>
     list_all (\<lambda>n. bo_parse_url bo (bn_rpc_url n) = None) (cf_bitcoin_nodes config) \<and>
     list_all kinds_parse (cf_notification_rules config) \<and>
     seconds_ok (bo_seconds bo) \<and> bo_http bo = Ok () \<and>
     (\<exists>kinds. kind_registry_load (bo_read_file bo) (bo_kind_decoder bo) (bo_builtin_kinds bo)
        (ic_kinds_config_path (cf_incidents config)) = Ok kinds)"

definition bootable :: "boot_outside \<Rightarrow> config \<Rightarrow> incident list \<Rightarrow> bool" where
  "bootable bo config open_incidents \<longleftrightarrow> wirable bo config \<and>
     bo_load_open bo = Ok open_incidents \<and> distinct (map inc_fingerprint open_incidents)"

lemma bootable_engine:
  assumes "bootable bo config open_incidents"
  shows "\<exists>om. open_map_of [] open_incidents = Done om \<and>
    (\<forall>fp i. hm_get om fp = Some i \<longleftrightarrow> i \<in> set open_incidents \<and> inc_fingerprint i = fp) \<and> hm_wf om"
  using open_map_of_fps [of "[]" open_incidents] open_map_of_get [of "[]" open_incidents] open_map_of_wf [of "[]" open_incidents] assms
  by (cases "open_map_of [] open_incidents") (auto simp: bootable_def)

lemma check_document_resolved:
  assumes "check_document ho env body = Ok (config, secrets)"
  shows "\<forall>n \<in> set (cf_bitcoin_nodes config). resolved secrets (auth_env_refs n)"
    and "\<forall>r \<in> set (cf_notification_rules config). resolved secrets (target_env_refs r)"
    and "\<And>tg. nc_telegram (cf_notifications config) = Some tg \<Longrightarrow> secrets_get secrets (ts_bot_token_env tg) \<noteq> None"
proof -
  have got: "secrets_get secrets n \<noteq> None" if "n \<in> set (collect_env_refs config)" for n
    using check_document_Ok [OF assms] that by auto
  show "\<forall>n \<in> set (cf_bitcoin_nodes config). resolved secrets (auth_env_refs n)"
    unfolding resolved_def list_all_iff by (intro ballI got) (auto simp: collect_env_refs_set)
  show "\<forall>r \<in> set (cf_notification_rules config). resolved secrets (target_env_refs r)"
    unfolding resolved_def list_all_iff by (intro ballI got) (auto simp: collect_env_refs_set)
  show "\<And>tg. nc_telegram (cf_notifications config) = Some tg \<Longrightarrow> secrets_get secrets (ts_bot_token_env tg) \<noteq> None"
    by (rule got) (simp add: collect_env_refs_set)
qed

lemma boot_wires:
  assumes "check_document ho env body = Ok (config, secrets)" and "bootable bo config open_incidents"
  shows "\<exists>deps. boot_runtime bo \<lparr>ld_config = config, ld_secrets = secrets, ld_sidecar_id = sidecar, ld_pool = pool\<rparr> =
      Done (Ok deps) \<and>
    map (\<lambda>c. desc_id (bcr_descriptor c)) (dp_polling_collectors deps) =
      map (\<lambda>cfg. CollectorId (cd_id cfg)) (cf_collectors config) \<and>
    (\<forall>c \<in> set (dp_polling_collectors deps). \<exists>n \<in> set (cf_bitcoin_nodes config).
       bcr_node_id c = BitcoinNodeId (bn_id n) \<and> brc_url (bcr_client c) = bn_rpc_url n) \<and>
    map nr_id (dp_notification_rules deps) = map (\<lambda>r. NotificationRuleId (nrc_id r)) (cf_notification_rules config) \<and>
    map nr_event_kinds (dp_notification_rules deps) =
      map (\<lambda>r. map IncidentKind (nrc_event_kinds r)) (cf_notification_rules config) \<and>
    (\<forall>fp i. hm_get (eng_open_incidents (dp_engine deps)) fp = Some i \<longleftrightarrow>
       i \<in> set open_incidents \<and> inc_fingerprint i = fp) \<and>
    hm_wf (eng_open_incidents (dp_engine deps))"
proof -
  note b = assms(2) [unfolded bootable_def wirable_def list_all_iff]
  have v: "distinct (map bn_id (cf_bitcoin_nodes config))"
    "list_all (\<lambda>c. known_targets config (cd_target c)) (cf_collectors config)"
    using check_document_Ok [OF assms(1)] by (simp_all add: validate_cross_refs_Ok)
  obtain m where m: "register_nodes secrets (cf_bitcoin_nodes config) [] = Ok m"
    "\<forall>n \<in> set (cf_bitcoin_nodes config). hm_get m (BitcoinNodeId (bn_id n)) = connection_of secrets n"
    using register_nodes_Ok [OF check_document_resolved(1) [OF assms(1)] v(1)] by blast
  let ?reg = "\<lparr>reg_bitcoin_nodes = m, reg_lnd_nodes = [], reg_hosts = []\<rparr>"
  have "\<forall>cfg \<in> set (cf_collectors config). supported_collector cfg \<and>
      (\<exists>n \<in> set (cf_bitcoin_nodes config). cd_target cfg = CfgBitcoinNode (bn_id n))"
    using b v(2) by (fastforce simp: supported_collector_def list_all_iff known_targets_def)
  then obtain cs where cs: "build_polling_collectors (bo_seconds bo) (bo_parse_url bo) ?reg (cf_collectors config) = Done (Ok cs)"
    "map (\<lambda>c. desc_id (bcr_descriptor c)) cs = map (\<lambda>cfg. CollectorId (cd_id cfg)) (cf_collectors config)"
    "\<forall>c \<in> set cs. \<exists>n \<in> set (cf_bitcoin_nodes config).
       bcr_node_id c = BitcoinNodeId (bn_id n) \<and> brc_url (bcr_client c) = bn_rpc_url n"
    using build_polling_Ok [of "bo_seconds bo" "cf_bitcoin_nodes config" "bo_parse_url bo" ?reg secrets "cf_collectors config"]
      b m(2) check_document_resolved(1) [OF assms(1)] by auto
  obtain store where store: "read_model_store_new read_model_store_config_default = Done store"
    by (simp add: read_model_store_new_Done read_model_store_config_default_def DEFAULT_METRIC_SERIES_CAPACITY_def
        DEFAULT_HEARTBEAT_CAPACITY_def)
  obtain kinds where kinds: "kind_registry_load (bo_read_file bo) (bo_kind_decoder bo) (bo_builtin_kinds bo)
      (ic_kinds_config_path (cf_incidents config)) = Ok kinds"
    using b by blast
  obtain om where om: "open_map_of [] open_incidents = Done om"
    "\<forall>fp i. hm_get om fp = Some i \<longleftrightarrow> i \<in> set open_incidents \<and> inc_fingerprint i = fp" "hm_wf om"
    using bootable_engine [OF assms(2)] by blast
  obtain rules where rules: "build_notification_rules (bo_renderings bo) (cf_notification_rules config)
      (cf_notifications config) secrets = Ok rules"
    "map nr_id rules = map (\<lambda>r. NotificationRuleId (nrc_id r)) (cf_notification_rules config)"
    "map nr_event_kinds rules = map (\<lambda>r. map IncidentKind (nrc_event_kinds r)) (cf_notification_rules config)"
    using build_rules_Ok [of "cf_notification_rules config" secrets] check_document_resolved(2) [OF assms(1)] b
    unfolding build_notification_rules_def Let_def by blast
  obtain senders where senders: "build_senders (bo_renderings bo) (cf_notifications config) secrets = Ok senders"
    using check_document_resolved(3) [OF assms(1)]
    by (cases "nc_telegram (cf_notifications config)") (auto simp: build_senders_def)
  show ?thesis
    using b m(1) cs store kinds om rules senders build_subscription_Ok [of "cf_collectors config"]
    by (simp add: boot_runtime_def node_registry_from_config_def incident_engine_new_def)
qed


definition sample_boot_config :: config where
  "sample_boot_config =
     \<lparr>cf_sidecar = \<lparr>sc_id_file = ''/var/lib/id'', sc_log_level = default_log_level\<rparr>,
      cf_storage = \<lparr>st_db_path = ''/var/lib/db'', st_retention = retention_config_default\<rparr>,
      cf_runtime = runtime_config_default, cf_api = api_config_default,
      cf_incidents = \<lparr>ic_kinds_config_path = None\<rparr>,
      cf_bitcoin_nodes = [\<lparr>bn_id = ''alice'', bn_rpc_url = ''http://a'', bn_zmq_endpoint = None,
        bn_auth = UserPassConfig ''u'' ''ALICE_PASS''\<rparr>],
      cf_lnd_nodes = [], cf_hosts = [],
      cf_collectors = [\<lparr>cd_id = ''alice-rpc'', cd_target = CfgBitcoinNode ''alice'', cd_integration = CfgBitcoinCoreRpc 10,
        cd_instance_label = ''alice'', cd_description = None\<rparr>],
      cf_notifications = \<lparr>nc_telegram = None, nc_discord = False, nc_webhook = False\<rparr>,
      cf_notification_rules = [\<lparr>nrc_id = ''r1'', nrc_name = ''r1'', nrc_enabled = True, nrc_min_severity = CfgWarning,
        nrc_event_kinds = [], nrc_target = CfgWebhook ''HOOK''\<rparr>]\<rparr>"

definition sample_environment :: environment where
  "sample_environment = [(''ALICE_PASS'', ''p''), (''HOOK'', ''https://h/x'')]"

definition sample_boot_outside :: boot_outside where
  "sample_boot_outside =
     \<lparr>bo_http = Ok (), bo_seconds = (\<lambda>s. Done (s * 1000000000)), bo_parse_url = (\<lambda>_. None),
      bo_read_file = (\<lambda>_. Err ''none''), bo_kind_decoder = (\<lambda>_. Ok []), bo_builtin_kinds = [],
      bo_load_open = Ok [], bo_renderings = \<lparr>rg_str = (\<lambda>s. s), rg_char = (\<lambda>c. [c])\<rparr>\<rparr>"

lemma sample_document:
  "\<exists>secrets. check_document (sample_host\<lparr>ho_decode := \<lambda>_. Ok sample_boot_config\<rparr>) sample_environment [] =
     Ok (sample_boot_config, secrets)"
proof -
  have o: "apply_env_overrides (TTable []) sample_environment = TTable []"
    by (simp add: apply_env_overrides_def sample_environment_def apply_override_def override_target_def)
  have refs: "set (collect_env_refs sample_boot_config) = {''ALICE_PASS'', ''HOOK''}"
    by (auto simp: collect_env_refs_set sample_boot_config_def auth_env_refs_def target_env_refs_def)
  then have env: "set (collect_env_refs sample_boot_config) \<subseteq> dom (map_of sample_environment)"
    by (auto simp: sample_environment_def)
  have cross: "validate_cross_refs (\<lambda>s. s) sample_boot_config = Ok ()"
    by (simp add: validate_cross_refs_Ok sample_boot_config_def known_targets_def)
  obtain s where "resolve_secrets (collect_env_refs sample_boot_config) sample_environment = Ok s"
    using resolve_into_Ok [OF env] unfolding resolve_secrets_def by blast
  moreover have "validate_env_vars (collect_env_refs sample_boot_config) sample_environment = Ok ()"
    using env by (simp add: validate_env_vars_Ok)
  ultimately show ?thesis
    using o cross by (simp add: check_document_def sample_host_def reject_inline_secrets_def Let_def)
qed

lemma sample_bootable: "bootable sample_boot_outside sample_boot_config []"
  by (simp add: bootable_def wirable_def sample_boot_outside_def sample_boot_config_def supported_collector_def kinds_parse_def
      seconds_ok_def kind_registry_load_def load_from_toml_strs_def insert_from_toml_def)


end
