(* ===== verification/Sqlite_Tables.thy ===== *)
theory Sqlite_Tables
  imports Storage_Memory "HOL-Library.Multiset"
begin

text \<open>
  The schema of \<open>migrations/0001_initial.sql\<close> as row records and tables, and the
  statements the repositories of \<open>storage/sqlite\<close> execute on them.  A table is the list
  of its rows.  Any statement may fail, for a locked file, a full disk or a lost
  connection: the database carries the outcome of its \<open>n\<close>-th statement, and a statement
  that fails changes no table.  In which order \<open>ORDER BY\<close> puts rows with equal keys is left
  open: the order is an argument, of which \<open>orders\<close> states what SQL promises.  The JSON
  codecs are those of \<open>serde_json\<close>.
\<close>

section \<open>Rows and tables\<close>

record observation_row =
  ob_id :: uuid
  ob_observed_at :: i64
  ob_received_at :: "i64 option"
  ob_subject_kind :: string
  ob_subject_id :: string
  ob_sidecar_id :: uuid
  ob_collector_id :: string
  ob_integration :: string
  ob_instance_label :: string
  ob_origin :: string
  ob_payload_kind :: string
  ob_payload_json :: string
  ob_attributes_json :: string

record incident_row =
  ir_id :: uuid
  ir_fingerprint :: string
  ir_kind :: string
  ir_subject_kind :: string
  ir_subject_id :: string
  ir_severity :: string
  ir_status :: string
  ir_opened_at :: i64
  ir_updated_at :: i64
  ir_resolved_at :: "i64 option"
  ir_incident_json :: string

record suppression_row =
  sr_id :: uuid
  sr_fingerprint :: string
  sr_until :: "i64 option"
  sr_reason :: string
  sr_actor :: string
  sr_created_at :: i64

record attempt_row =
  ar_id :: uuid
  ar_rule_id :: string
  ar_incident_id :: uuid
  ar_lifecycle_kind :: string
  ar_target_kind :: string
  ar_target_summary :: string
  ar_status :: string
  ar_attempt_number :: i64
  ar_parent_attempt_id :: "uuid option"
  ar_next_retry_at :: "i64 option"
  ar_outcome_kind :: "string option"
  ar_outcome_json :: "string option"
  ar_external_ref_json :: "string option"
  ar_attempted_at :: i64
  ar_completed_at :: "i64 option"

record tables =
  tb_observations :: "observation_row list"
  tb_incidents :: "incident_row list"
  tb_suppressions :: "suppression_row list"
  tb_attempts :: "attempt_row list"

definition empty_tables :: tables where
  "empty_tables = \<lparr>tb_observations = [], tb_incidents = [], tb_suppressions = [], tb_attempts = []\<rparr>"

section \<open>Statements\<close>

text \<open>An error of \<open>sqlx\<close> carries its text; only a violated key is told apart.\<close>

datatype sqlx_error = UniqueViolation (sqlx_text: string) | OtherError (sqlx_text: string)

record database =
  db_tables :: tables
  db_fault :: "nat \<Rightarrow> string option"
  db_statements :: nat

definition statement :: "(tables \<Rightarrow> (sqlx_error + 'a) \<times> tables) \<Rightarrow> database \<Rightarrow> (sqlx_error + 'a) \<times> database" where
  "statement stmt db =
     (let n = db_statements db; db = db\<lparr>db_statements := Suc n\<rparr>
      in case db_fault db n of
           Some e \<Rightarrow> (Err (OtherError e), db)
         | None \<Rightarrow> (let (r, t) = stmt (db_tables db) in (r, db\<lparr>db_tables := t\<rparr>)))"

definition faultless :: "database \<Rightarrow> bool" where
  "faultless db \<longleftrightarrow> (\<forall>n. db_fault db n = None)"

definition insert_row :: "('r \<Rightarrow> 'k) \<Rightarrow> 'r \<Rightarrow> 'r list \<Rightarrow> (sqlx_error + unit) \<times> 'r list" where
  "insert_row key r rows =
     (if key r \<in> key ` set rows then (Err (UniqueViolation ''UNIQUE constraint failed''), rows)
      else (Ok (), rows @ [r]))"

definition upsert_row :: "('r \<Rightarrow> 'k) \<Rightarrow> 'r \<Rightarrow> 'r list \<Rightarrow> 'r list" where
  "upsert_row key r rows =
     (if key r \<in> key ` set rows then map (\<lambda>x. if key x = key r then r else x) rows else rows @ [r])"

definition update_rows :: "('r \<Rightarrow> bool) \<Rightarrow> ('r \<Rightarrow> 'r) \<Rightarrow> 'r list \<Rightarrow> nat \<times> 'r list" where
  "update_rows p f rows = (length (filter p rows), map (\<lambda>x. if p x then f x else x) rows)"

definition row_of :: "('r \<Rightarrow> 'k) \<Rightarrow> 'r list \<Rightarrow> 'k \<Rightarrow> 'r option" where
  "row_of key rows k = find (\<lambda>r. key r = k) rows"

definition keyed :: "('r \<Rightarrow> 'k) \<Rightarrow> 'r list \<Rightarrow> bool" where
  "keyed key rows \<longleftrightarrow> distinct (map key rows)"

definition orders :: "(('r \<Rightarrow> int) \<Rightarrow> 'r list \<Rightarrow> 'r list) \<Rightarrow> bool" where
  "orders arrange \<longleftrightarrow> (\<forall>key rows. mset (arrange key rows) = mset rows \<and> sorted (map key (arrange key rows)))"

text \<open>Timestamps as columns: \<open>timestamp_nanos_opt().expect(...)\<close>.\<close>

definition nanos :: "datetime \<Rightarrow> i64 run" where
  "nanos t = (if - (2 ^ 63) \<le> t \<and> t < 2 ^ 63 then Done t else Panicked)"

definition nanos_opt :: "datetime option \<Rightarrow> i64 option run" where
  "nanos_opt t =
     (case t of None \<Rightarrow> Done None
      | Some x \<Rightarrow> (case nanos x of Panicked \<Rightarrow> Panicked | Done n \<Rightarrow> Done (Some n)))"

definition storable :: "datetime \<Rightarrow> bool" where
  "storable t \<longleftrightarrow> - (2 ^ 63) \<le> t \<and> t < 2 ^ 63"

record 'a codec =
  to_json :: "'a \<Rightarrow> string + string"
  from_json :: "string \<Rightarrow> string + 'a"

text \<open>
  What the repositories use of other crates: the codecs, the text of a \<open>Uuid\<close> and its
  parser, Debug and error renderings, and the orders of the three \<open>ORDER BY\<close> queries.
\<close>

record sqlite_outside =
  so_incident :: "incident codec"
  so_outcome :: "delivery_outcome codec"
  so_external_ref :: "external_message_ref codec"
  so_integration :: "integration_kind codec"
  so_payload :: "observation_payload codec"
  so_attributes :: "attributes codec"
  so_uuid_str :: "uuid \<Rightarrow> string"
  so_parse_uuid :: "string \<Rightarrow> string + uuid"
  so_debug :: "string \<Rightarrow> string"
  so_utf8_error :: "string \<Rightarrow> string"
  so_order_incidents :: "(incident_row \<Rightarrow> int) \<Rightarrow> incident_row list \<Rightarrow> incident_row list"
  so_order_attempts :: "(attempt_row \<Rightarrow> int) \<Rightarrow> attempt_row list \<Rightarrow> attempt_row list"
  so_order_observations :: "(observation_row \<Rightarrow> int) \<Rightarrow> observation_row list \<Rightarrow> observation_row list"

definition json_faithful :: "'a codec \<Rightarrow> bool" where
  "json_faithful c \<longleftrightarrow> (\<forall>x s. to_json c x = Ok s \<longrightarrow> from_json c s = Ok x)"

definition round_trips :: "'a codec \<Rightarrow> 'a \<Rightarrow> bool" where
  "round_trips c x \<longleftrightarrow> (\<exists>s. to_json c x = Ok s \<and> from_json c s = Ok x)"

section \<open>Laws\<close>

lemma nanos_storable: "nanos t = Done n \<longleftrightarrow> storable t \<and> n = t"
  by (auto simp: nanos_def storable_def)

lemma nanos_opt_storable: "nanos_opt t = Done n \<longleftrightarrow> (\<forall>x. t = Some x \<longrightarrow> storable x) \<and> n = t"
  by (cases t) (auto simp: nanos_opt_def nanos_def storable_def)

lemma row_of_Nil [simp]: "row_of key [] = Map.empty"
  by (simp add: row_of_def fun_eq_iff)

lemma row_of_Cons [simp]: "row_of key (r # rows) = (row_of key rows)(key r \<mapsto> r)"
  by (auto simp: row_of_def fun_eq_iff)

lemma row_of_append: "row_of key (xs @ ys) = row_of key ys ++ row_of key xs"
  by (induction xs) (auto simp: fun_eq_iff map_add_def split: option.split)

lemma row_of_None: "row_of key rows k = None \<longleftrightarrow> k \<notin> key ` set rows"
  by (induction rows) auto

lemma row_of_SomeD: "row_of key rows k = Some r \<Longrightarrow> r \<in> set rows \<and> key r = k"
  by (induction rows) (auto split: if_splits)

lemma row_of_Some: "keyed key rows \<Longrightarrow> row_of key rows k = Some r \<longleftrightarrow> r \<in> set rows \<and> key r = k"
  by (induction rows) (auto simp: keyed_def image_iff)

lemma keyed_Nil [simp]: "keyed key []"
  by (simp add: keyed_def)

lemma keyed_filter: "keyed key rows \<Longrightarrow> keyed key (filter p rows)"
  unfolding keyed_def by (rule distinct_map_filter)

lemma insert_row_Ok:
  assumes "insert_row key r rows = (Ok (), rows')"
  shows "row_of key rows (key r) = None" and "row_of key rows' = (row_of key rows)(key r \<mapsto> r)"
    and "keyed key rows \<Longrightarrow> keyed key rows'" and "rows' = rows @ [r]"
proof -
  have new: "key r \<notin> key ` set rows" and rows': "rows' = rows @ [r]"
    using assms by (auto simp: insert_row_def split: if_splits)
  show "rows' = rows @ [r]" by (rule rows')
  show none: "row_of key rows (key r) = None"
    using new by (simp add: row_of_None)
  show "row_of key rows' = (row_of key rows)(key r \<mapsto> r)"
    using none by (auto simp: rows' row_of_append map_add_def fun_eq_iff split: option.split)
  show "keyed key rows \<Longrightarrow> keyed key rows'"
    using new by (simp add: keyed_def rows')
qed

lemma insert_row_cases:
  "insert_row key r rows =
     (if row_of key rows (key r) = None then (Ok (), rows @ [r])
      else (Err (UniqueViolation ''UNIQUE constraint failed''), rows))"
  by (simp add: insert_row_def row_of_None)

lemma row_of_map: "\<forall>x \<in> set rows. key (f x) = key x \<Longrightarrow> row_of key (map f rows) k = map_option f (row_of key rows k)"
  by (induction rows) auto

lemma keyed_map: "(\<And>x. key (f x) = key x) \<Longrightarrow> keyed key (map f rows) = keyed key rows"
  by (simp add: keyed_def comp_def)

lemma upsert_row_get: "row_of key (upsert_row key r rows) = (row_of key rows)(key r \<mapsto> r)"
proof
  fix k
  show "row_of key (upsert_row key r rows) k = ((row_of key rows)(key r \<mapsto> r)) k"
  proof (cases "key r \<in> key ` set rows")
    case True
    then have "row_of key (upsert_row key r rows) k = map_option (\<lambda>x. if key x = key r then r else x) (row_of key rows k)"
      unfolding upsert_row_def by (simp add: row_of_map)
    moreover have "row_of key rows (key r) \<noteq> None"
      using True by (simp add: row_of_None)
    ultimately show ?thesis
      using row_of_SomeD [of key rows k] by (cases "row_of key rows k") auto
  next
    case False
    then have "upsert_row key r rows = rows @ [r]" "row_of key rows (key r) = None"
      by (simp_all add: upsert_row_def row_of_None)
    then show ?thesis
      by (auto simp: row_of_append map_add_def split: option.split)
  qed
qed

lemma upsert_row_keyed: "keyed key rows \<Longrightarrow> keyed key (upsert_row key r rows)"
proof -
  assume k: "keyed key rows"
  have "map (key \<circ> (\<lambda>x. if key x = key r then r else x)) rows = map key rows"
    by (induction rows) auto
  with k show ?thesis
    by (cases "key r \<in> key ` set rows") (simp_all add: upsert_row_def keyed_def del: map_eq_conv)
qed

lemma upsert_row_set: "set (upsert_row key r rows) \<subseteq> insert r (set rows)"
  by (auto simp: upsert_row_def)

lemma orders_set: "orders arrange \<Longrightarrow> set (arrange key rows) = set rows"
  unfolding orders_def by (metis set_mset_mset)

lemma orders_sorted: "orders arrange \<Longrightarrow> sorted (map key (arrange key rows))"
  unfolding orders_def by blast

lemma orders_distinct: "orders arrange \<Longrightarrow> distinct (map f (arrange key rows)) = distinct (map f rows)"
  unfolding orders_def by (metis mset_map mset_eq_imp_distinct_iff)

lemma orders_sort_key: "orders (\<lambda>key. sort_key key)"
  by (simp add: orders_def)

lemma statement_tables:
  "statement stmt db = (r, db') \<Longrightarrow>
     db_fault db' = db_fault db \<and>
     ((\<exists>e. db_fault db (db_statements db) = Some e \<and> r = Err (OtherError e) \<and> db_tables db' = db_tables db) \<or>
      db_fault db (db_statements db) = None \<and> stmt (db_tables db) = (r, db_tables db'))"
  by (auto simp: statement_def Let_def split: option.splits prod.splits)

lemma statement_faultless:
  assumes "faultless db"
  shows "\<exists>db'. statement stmt db = (fst (stmt (db_tables db)), db') \<and> faultless db' \<and>
    db_tables db' = snd (stmt (db_tables db))"
  using assms by (auto simp: statement_def faultless_def Let_def split: prod.split)

section \<open>A sample database\<close>

definition sample_codec :: "'a \<Rightarrow> 'a codec" where
  "sample_codec x = \<lparr>to_json = (\<lambda>y. if y = x then Ok ''x'' else Err ''none''), from_json = (\<lambda>_. Ok x)\<rparr>"

lemma sample_codec_faithful: "json_faithful (sample_codec x)"
  by (simp add: json_faithful_def sample_codec_def)

definition sample_sqlite :: sqlite_outside where
  "sample_sqlite =
     \<lparr>so_incident = sample_codec (sample_incident SevWarning StOpen), so_outcome = sample_codec (Delivered None),
      so_external_ref = sample_codec (TelegramMessage (TelegramChatId 1) 2), so_integration = sample_codec (BitcoinCoreRpc 0),
      so_payload = \<lparr>to_json = (\<lambda>_. Ok []), from_json = (\<lambda>_. Err [])\<rparr>,
      so_attributes = \<lparr>to_json = (\<lambda>_. Ok []), from_json = (\<lambda>_. Err [])\<rparr>,
      so_uuid_str = (\<lambda>_. ''0''), so_parse_uuid = (\<lambda>_. Ok 0), so_debug = (\<lambda>s. s), so_utf8_error = (\<lambda>_. []),
      so_order_incidents = (\<lambda>key. sort_key key), so_order_attempts = (\<lambda>key. sort_key key),
      so_order_observations = (\<lambda>key. sort_key key)\<rparr>"

definition empty_db :: database where
  "empty_db = \<lparr>db_tables = empty_tables, db_fault = (\<lambda>_. None), db_statements = 0\<rparr>"

end
