(* ===== verification/Sqlite_Attempts.thy ===== *)
theory Sqlite_Attempts
  imports Sqlite_Tables Senders
begin

text \<open>
  \<open>storage/sqlite/notification_attempt_repository.rs\<close>: the audit log of notification
  dispatches as a table, with the encoding of a row and its decoding.  The repository
  refines the in-memory one.
\<close>

section \<open>Columns\<close>

fun lifecycle_kind_str :: "incident_notification_event_kind \<Rightarrow> string" where
  "lifecycle_kind_str KindOpened = ''Opened''"
| "lifecycle_kind_str KindEscalated = ''Escalated''"
| "lifecycle_kind_str KindResolved = ''Resolved''"

definition lifecycle_kind_from_str :: "string \<Rightarrow> attempt_repo_error + incident_notification_event_kind" where
  "lifecycle_kind_from_str s =
     (if s = ''Opened'' then Ok KindOpened
      else if s = ''Escalated'' then Ok KindEscalated
      else if s = ''Resolved'' then Ok KindResolved
      else Err (AttemptBackend (''unknown lifecycle_kind in row: '' @ s)))"

fun target_kind_str :: "target_kind \<Rightarrow> string" where
  "target_kind_str KindTelegram = ''telegram''"
| "target_kind_str KindDiscord = ''discord''"
| "target_kind_str KindWebhook = ''webhook''"
| "target_kind_str KindStdout = ''stdout''"

definition target_kind_from_str :: "string \<Rightarrow> attempt_repo_error + target_kind" where
  "target_kind_from_str s =
     (if s = ''telegram'' then Ok KindTelegram
      else if s = ''discord'' then Ok KindDiscord
      else if s = ''webhook'' then Ok KindWebhook
      else if s = ''stdout'' then Ok KindStdout
      else Err (AttemptBackend (''unknown target_kind in row: '' @ s)))"

fun att_status_str :: "notification_delivery_status \<Rightarrow> string" where
  "att_status_str Pending = ''Pending''"
| "att_status_str Succeeded = ''Succeeded''"
| "att_status_str FailedTransient = ''FailedTransient''"
| "att_status_str FailedPermanent = ''FailedPermanent''"
| "att_status_str Suppressed = ''Suppressed''"

definition att_status_from_str :: "string \<Rightarrow> attempt_repo_error + notification_delivery_status" where
  "att_status_from_str s =
     (if s = ''Pending'' then Ok Pending
      else if s = ''Succeeded'' then Ok Succeeded
      else if s = ''FailedTransient'' then Ok FailedTransient
      else if s = ''FailedPermanent'' then Ok FailedPermanent
      else if s = ''Suppressed'' then Ok Suppressed
      else Err (AttemptBackend (''unknown status in row: '' @ s)))"

fun outcome_kind_str :: "delivery_outcome \<Rightarrow> string" where
  "outcome_kind_str (Delivered _) = ''Delivered''"
| "outcome_kind_str (Transient _ _) = ''Transient''"
| "outcome_kind_str (Permanent _) = ''Permanent''"

definition attempt_serde_error :: "string \<Rightarrow> attempt_repo_error" where
  "attempt_serde_error e = AttemptBackend (''serde_json: '' @ e)"

definition serialize_outcome ::
    "sqlite_outside \<Rightarrow> delivery_outcome option \<Rightarrow> attempt_repo_error + string option \<times> string option" where
  "serialize_outcome so outcome =
     (case outcome of
        None \<Rightarrow> Ok (None, None)
      | Some x \<Rightarrow>
          (case to_json (so_outcome so) x of
             Err e \<Rightarrow> Err (attempt_serde_error e)
           | Ok json \<Rightarrow> Ok (Some (outcome_kind_str x), Some json)))"

definition serialize_external_ref ::
    "sqlite_outside \<Rightarrow> external_message_ref option \<Rightarrow> attempt_repo_error + string option" where
  "serialize_external_ref so r =
     (case r of
        None \<Rightarrow> Ok None
      | Some x \<Rightarrow>
          (case to_json (so_external_ref so) x of
             Err e \<Rightarrow> Err (attempt_serde_error e)
           | Ok json \<Rightarrow> Ok (Some json)))"

definition decode_opt :: "'a codec \<Rightarrow> string option \<Rightarrow> attempt_repo_error + 'a option" where
  "decode_opt c json =
     (case json of
        None \<Rightarrow> Ok None
      | Some s \<Rightarrow> (case from_json c s of Err e \<Rightarrow> Err (attempt_serde_error e) | Ok x \<Rightarrow> Ok (Some x)))"

fun sql_status_for_outcome :: "delivery_outcome \<Rightarrow> bool \<Rightarrow> notification_delivery_status" where
  "sql_status_for_outcome (Delivered _) will_retry = Succeeded"
| "sql_status_for_outcome (Transient _ _) will_retry = (if will_retry then FailedTransient else FailedPermanent)"
| "sql_status_for_outcome (Permanent _) will_retry = FailedPermanent"

fun map_insert_error :: "notification_attempt_id \<Rightarrow> sqlx_error \<Rightarrow> attempt_repo_error" where
  "map_insert_error k (UniqueViolation _) = AttemptConflict k"
| "map_insert_error k (OtherError e) = AttemptBackend e"

function utf8_valid :: "string \<Rightarrow> bool" where
  "utf8_valid [] = True"
| "utf8_valid (a # rest) = (let (ok, n) = utf8_step a rest in ok \<and> utf8_valid (drop (n - 1) rest))"
  by pat_completeness auto
termination
  by (relation "measure length") (auto simp: less_Suc_eq_le)

fun rule_id_blob :: "notification_rule_id \<Rightarrow> string" where
  "rule_id_blob (NotificationRuleId s) = s"

definition rule_id_from_blob :: "sqlite_outside \<Rightarrow> string \<Rightarrow> attempt_repo_error + notification_rule_id" where
  "rule_id_from_blob so b =
     (if utf8_valid b then Ok (NotificationRuleId b)
      else Err (AttemptBackend (''rule_id is not utf-8: '' @ so_utf8_error so b)))"

section \<open>Operations\<close>

definition attempt_row_of ::
    "sqlite_outside \<Rightarrow> notification_attempt \<Rightarrow> (attempt_repo_error + attempt_row) run" where
  "attempt_row_of so a =
     (case serialize_outcome so (na_outcome a) of
        Err e \<Rightarrow> Done (Err e)
      | Ok (outcome_kind, outcome_json) \<Rightarrow>
     (case serialize_external_ref so (na_external_ref a) of
        Err e \<Rightarrow> Done (Err e)
      | Ok external_ref_json \<Rightarrow>
     (case nanos_opt (na_next_retry_at a) of
        Panicked \<Rightarrow> Panicked
      | Done next_retry_at \<Rightarrow>
     (case nanos (na_attempted_at a) of
        Panicked \<Rightarrow> Panicked
      | Done attempted_at \<Rightarrow>
     (case nanos_opt (na_completed_at a) of
        Panicked \<Rightarrow> Panicked
      | Done completed_at \<Rightarrow>
          Done (Ok \<lparr>ar_id = (case na_id a of NotificationAttemptId u \<Rightarrow> u), ar_rule_id = rule_id_blob (na_rule_id a),
            ar_incident_id = (case na_incident_id a of IncidentId u \<Rightarrow> u),
            ar_lifecycle_kind = lifecycle_kind_str (na_lifecycle_kind a),
            ar_target_kind = target_kind_str (na_target_kind a), ar_target_summary = na_target_summary a,
            ar_status = att_status_str (na_status a), ar_attempt_number = uint (na_attempt_number a),
            ar_parent_attempt_id = map_option (\<lambda>k. case k of NotificationAttemptId u \<Rightarrow> u) (na_parent_attempt_id a),
            ar_next_retry_at = next_retry_at, ar_outcome_kind = outcome_kind, ar_outcome_json = outcome_json,
            ar_external_ref_json = external_ref_json, ar_attempted_at = attempted_at,
            ar_completed_at = completed_at\<rparr>))))))"

definition sar_insert_pending ::
    "sqlite_outside \<Rightarrow> notification_attempt \<Rightarrow> database \<Rightarrow> (attempt_repo_error + unit) run \<times> database" where
  "sar_insert_pending so a db =
     (case attempt_row_of so a of
        Panicked \<Rightarrow> (Panicked, db)
      | Done (Err e) \<Rightarrow> (Done (Err e), db)
      | Done (Ok row) \<Rightarrow>
          (case statement (\<lambda>t. let (r, rows) = insert_row ar_id row (tb_attempts t) in (r, t\<lparr>tb_attempts := rows\<rparr>)) db of
             (Err e, db) \<Rightarrow> (Done (Err (map_insert_error (na_id a) e)), db)
           | (Ok _, db) \<Rightarrow> (Done (Ok ()), db)))"

definition completed_ref :: "delivery_receipt \<Rightarrow> external_message_ref option" where
  "completed_ref receipt = (case rc_outcome receipt of Delivered r \<Rightarrow> r | _ \<Rightarrow> None)"

definition completion ::
    "sqlite_outside \<Rightarrow> delivery_receipt \<Rightarrow> datetime option \<Rightarrow> (attempt_repo_error + (attempt_row \<Rightarrow> attempt_row)) run" where
  "completion so receipt next_retry_at =
     (case serialize_outcome so (Some (rc_outcome receipt)) of
        Err e \<Rightarrow> Done (Err e)
      | Ok (outcome_kind, outcome_json) \<Rightarrow>
     (case serialize_external_ref so (completed_ref receipt) of
        Err e \<Rightarrow> Done (Err e)
      | Ok external_ref_json \<Rightarrow>
     (case nanos_opt next_retry_at of
        Panicked \<Rightarrow> Panicked
      | Done retry_nanos \<Rightarrow>
     (case nanos (rc_completed_at receipt) of
        Panicked \<Rightarrow> Panicked
      | Done completed_nanos \<Rightarrow>
          Done (Ok (\<lambda>row. row\<lparr>ar_status := att_status_str (sql_status_for_outcome (rc_outcome receipt) (next_retry_at \<noteq> None)),
            ar_outcome_kind := outcome_kind, ar_outcome_json := outcome_json,
            ar_external_ref_json := external_ref_json, ar_next_retry_at := retry_nanos,
            ar_completed_at := Some completed_nanos\<rparr>))))))"

definition sar_complete ::
    "sqlite_outside \<Rightarrow> notification_attempt_id \<Rightarrow> delivery_receipt \<Rightarrow> datetime option \<Rightarrow> database \<Rightarrow>
     (attempt_repo_error + unit) run \<times> database" where
  "sar_complete so k receipt next_retry_at db =
     (case completion so receipt next_retry_at of
        Panicked \<Rightarrow> (Panicked, db)
      | Done (Err e) \<Rightarrow> (Done (Err e), db)
      | Done (Ok f) \<Rightarrow>
          (case statement (\<lambda>t. let (n, rows) = update_rows (\<lambda>r. NotificationAttemptId (ar_id r) = k) f (tb_attempts t)
                 in (Ok n, t\<lparr>tb_attempts := rows\<rparr>)) db of
             (Err e, db) \<Rightarrow> (Done (Err (AttemptBackend (sqlx_text e))), db)
           | (Ok n, db) \<Rightarrow> (Done (if n = 0 then Err (AttemptNotFound k) else Ok ()), db)))"

text \<open>
  The fields are decoded in the order of the code: the two JSON columns, the sign of the
  attempt number, then the columns of the struct literal from top to bottom.
\<close>

definition row_to_attempt :: "sqlite_outside \<Rightarrow> attempt_row \<Rightarrow> attempt_repo_error + notification_attempt" where
  "row_to_attempt so row =
     (case decode_opt (so_outcome so) (ar_outcome_json row) of
        Err e \<Rightarrow> Err e
      | Ok outcome \<Rightarrow>
     (case decode_opt (so_external_ref so) (ar_external_ref_json row) of
        Err e \<Rightarrow> Err e
      | Ok external_ref \<Rightarrow>
     if ar_attempt_number row < 0 then Err (AttemptBackend (''attempt_number is negative: '' @ int_str (ar_attempt_number row)))
     else
     (case rule_id_from_blob so (ar_rule_id row) of
        Err e \<Rightarrow> Err e
      | Ok rule_id \<Rightarrow>
     (case lifecycle_kind_from_str (ar_lifecycle_kind row) of
        Err e \<Rightarrow> Err e
      | Ok lifecycle_kind \<Rightarrow>
     (case target_kind_from_str (ar_target_kind row) of
        Err e \<Rightarrow> Err e
      | Ok kind \<Rightarrow>
     (case att_status_from_str (ar_status row) of
        Err e \<Rightarrow> Err e
      | Ok status \<Rightarrow>
          Ok \<lparr>na_id = NotificationAttemptId (ar_id row), na_rule_id = rule_id,
            na_incident_id = IncidentId (ar_incident_id row), na_lifecycle_kind = lifecycle_kind,
            na_target_kind = kind, na_target_summary = ar_target_summary row, na_status = status,
            na_attempt_number = word_of_int (ar_attempt_number row),
            na_parent_attempt_id = map_option NotificationAttemptId (ar_parent_attempt_id row),
            na_next_retry_at = ar_next_retry_at row, na_outcome = outcome, na_external_ref = external_ref,
            na_attempted_at = ar_attempted_at row, na_completed_at = ar_completed_at row\<rparr>))))))"

fun rows_to_attempts :: "sqlite_outside \<Rightarrow> attempt_row list \<Rightarrow> attempt_repo_error + notification_attempt list" where
  "rows_to_attempts so [] = Ok []"
| "rows_to_attempts so (row # rest) =
     (case row_to_attempt so row of
        Err e \<Rightarrow> Err e
      | Ok a \<Rightarrow> (case rows_to_attempts so rest of Err e \<Rightarrow> Err e | Ok as \<Rightarrow> Ok (a # as)))"

definition due_rows :: "i64 \<Rightarrow> attempt_row list \<Rightarrow> attempt_row list" where
  "due_rows now =
     filter (\<lambda>r. ar_status r = att_status_str FailedTransient \<and>
       (case ar_next_retry_at r of None \<Rightarrow> False | Some t \<Rightarrow> t \<le> now))"

definition retry_key :: "attempt_row \<Rightarrow> int" where
  "retry_key r = (case ar_next_retry_at r of None \<Rightarrow> 0 | Some t \<Rightarrow> t)"

definition sar_list_retryable ::
    "sqlite_outside \<Rightarrow> datetime \<Rightarrow> u32 \<Rightarrow> database \<Rightarrow> (attempt_repo_error + notification_attempt list) run \<times> database" where
  "sar_list_retryable so now limit db =
     (case nanos now of
        Panicked \<Rightarrow> (Panicked, db)
      | Done now_nanos \<Rightarrow>
          (case statement (\<lambda>t. (Ok (take (unat limit) (so_order_attempts so retry_key (due_rows now_nanos (tb_attempts t)))), t)) db of
             (Err e, db) \<Rightarrow> (Done (Err (AttemptBackend (sqlx_text e))), db)
           | (Ok rows, db) \<Rightarrow> (Done (rows_to_attempts so rows), db)))"

definition sar_list_for_incident ::
    "sqlite_outside \<Rightarrow> incident_id \<Rightarrow> database \<Rightarrow> (attempt_repo_error + notification_attempt list) \<times> database" where
  "sar_list_for_incident so k db =
     (case statement (\<lambda>t. (Ok (so_order_attempts so (\<lambda>r. - ar_attempted_at r)
             (filter (\<lambda>r. IncidentId (ar_incident_id r) = k) (tb_attempts t))), t)) db of
        (Err e, db) \<Rightarrow> (Err (AttemptBackend (sqlx_text e)), db)
      | (Ok rows, db) \<Rightarrow> (rows_to_attempts so rows, db))"

section \<open>Round trip of a row\<close>

definition storable_attempt :: "sqlite_outside \<Rightarrow> notification_attempt \<Rightarrow> bool" where
  "storable_attempt so a \<longleftrightarrow> storable (na_attempted_at a) \<and> (\<forall>t. na_next_retry_at a = Some t \<longrightarrow> storable t) \<and>
     (\<forall>t. na_completed_at a = Some t \<longrightarrow> storable t) \<and> utf8_valid (rule_id_blob (na_rule_id a)) \<and>
     (\<forall>x. na_outcome a = Some x \<longrightarrow> round_trips (so_outcome so) x) \<and>
     (\<forall>x. na_external_ref a = Some x \<longrightarrow> round_trips (so_external_ref so) x)"

definition storable_receipt :: "sqlite_outside \<Rightarrow> delivery_receipt \<Rightarrow> datetime option \<Rightarrow> bool" where
  "storable_receipt so receipt retry \<longleftrightarrow> storable (rc_completed_at receipt) \<and> (\<forall>t. retry = Some t \<longrightarrow> storable t) \<and>
     round_trips (so_outcome so) (rc_outcome receipt) \<and>
     (\<forall>x. completed_ref receipt = Some x \<longrightarrow> round_trips (so_external_ref so) x)"

lemma lifecycle_kind_round_trip [simp]: "lifecycle_kind_from_str (lifecycle_kind_str l) = Ok l"
  by (cases l) (simp_all add: lifecycle_kind_from_str_def)

lemma target_kind_round_trip [simp]: "target_kind_from_str (target_kind_str k) = Ok k"
  by (cases k) (simp_all add: target_kind_from_str_def)

lemma att_status_round_trip [simp]: "att_status_from_str (att_status_str s) = Ok s"
  by (cases s) (simp_all add: att_status_from_str_def)

lemma att_status_str_inject [simp]: "att_status_str a = att_status_str b \<longleftrightarrow> a = b"
  by (cases a; cases b) simp_all

lemma att_status_str_FailedTransient [simp]: "att_status_str s = ''FailedTransient'' \<longleftrightarrow> s = FailedTransient"
  using att_status_str_inject [of s FailedTransient] by (simp del: att_status_str_inject)

lemma sql_status_for_outcome_memory: "sql_status_for_outcome x retry = status_for_outcome x retry"
  by (cases x) simp_all

lemma rule_id_round_trip: "utf8_valid (rule_id_blob k) \<Longrightarrow> rule_id_from_blob so (rule_id_blob k) = Ok k"
  by (cases k) (simp add: rule_id_from_blob_def)

lemma serialize_outcome_round_trips:
  assumes "\<forall>x. y = Some x \<longrightarrow> round_trips (so_outcome so) x"
  shows "\<exists>k j. serialize_outcome so y = Ok (k, j) \<and> decode_opt (so_outcome so) j = Ok y"
  using assms by (cases y) (auto simp: serialize_outcome_def decode_opt_def round_trips_def)

lemma serialize_external_ref_round_trips:
  assumes "\<forall>x. y = Some x \<longrightarrow> round_trips (so_external_ref so) x"
  shows "\<exists>j. serialize_external_ref so y = Ok j \<and> decode_opt (so_external_ref so) j = Ok y"
  using assms by (cases y) (auto simp: serialize_external_ref_def decode_opt_def round_trips_def)

text \<open>A row that is the encoding of an attempt and decodes to it.\<close>

definition encodes :: "sqlite_outside \<Rightarrow> attempt_row \<Rightarrow> notification_attempt \<Rightarrow> bool" where
  "encodes so row a \<longleftrightarrow> attempt_row_of so a = Done (Ok row) \<and> row_to_attempt so row = Ok a"

lemma attempt_round_trip:
  assumes "storable_attempt so a"
  shows "\<exists>row. encodes so row a"
proof -
  obtain k j where oc: "serialize_outcome so (na_outcome a) = Ok (k, j)" "decode_opt (so_outcome so) j = Ok (na_outcome a)"
    using serialize_outcome_round_trips [of "na_outcome a" so] assms by (auto simp: storable_attempt_def)
  obtain x where ref: "serialize_external_ref so (na_external_ref a) = Ok x"
    "decode_opt (so_external_ref so) x = Ok (na_external_ref a)"
    using serialize_external_ref_round_trips [of "na_external_ref a" so] assms by (auto simp: storable_attempt_def)
  have t: "nanos (na_attempted_at a) = Done (na_attempted_at a)" "nanos_opt (na_next_retry_at a) = Done (na_next_retry_at a)"
    "nanos_opt (na_completed_at a) = Done (na_completed_at a)"
    using assms by (simp_all add: nanos_storable nanos_opt_storable storable_attempt_def)
  have "rule_id_from_blob so (rule_id_blob (na_rule_id a)) = Ok (na_rule_id a)"
    using assms by (simp add: rule_id_round_trip storable_attempt_def)
  moreover have "NotificationAttemptId (case na_id a of NotificationAttemptId u \<Rightarrow> u) = na_id a"
    "IncidentId (case na_incident_id a of IncidentId u \<Rightarrow> u) = na_incident_id a"
    by (simp_all split: notification_attempt_id.split incident_id.split)
  moreover have "map_option NotificationAttemptId (map_option (\<lambda>k. case k of NotificationAttemptId u \<Rightarrow> u) y) = y" for y
    by (cases y) (simp_all split: notification_attempt_id.split)
  ultimately show ?thesis
    using oc ref t by (simp add: encodes_def attempt_row_of_def row_to_attempt_def)
qed

lemma encodes_columns:
  assumes "encodes so row a"
  shows "na_id a = NotificationAttemptId (ar_id row)" and "ar_status row = att_status_str (na_status a)"
    and "ar_next_retry_at row = na_next_retry_at a" and "ar_attempted_at row = na_attempted_at a"
    and "na_incident_id a = IncidentId (ar_incident_id row)"
proof -
  have "attempt_row_of so a = Done (Ok row)"
    using assms by (simp add: encodes_def)
  then show "na_id a = NotificationAttemptId (ar_id row)" "ar_status row = att_status_str (na_status a)"
    "ar_next_retry_at row = na_next_retry_at a" "ar_attempted_at row = na_attempted_at a"
    "na_incident_id a = IncidentId (ar_incident_id row)"
    by (auto simp: attempt_row_of_def nanos_storable nanos_opt_storable
        split: sum.splits run.splits notification_attempt_id.split incident_id.split)
qed

text \<open>Completing an encoded row gives the encoding of the completed attempt.\<close>

lemma completion_encodes:
  assumes "storable_receipt so receipt retry"
  shows "\<exists>f. completion so receipt retry = Done (Ok f) \<and> (\<forall>row. ar_id (f row) = ar_id row) \<and>
    (\<forall>row a. encodes so row a \<longrightarrow> encodes so (f row) (complete_attempt receipt retry a))"
proof -
  obtain k j where oc: "serialize_outcome so (Some (rc_outcome receipt)) = Ok (k, j)"
    "decode_opt (so_outcome so) j = Ok (Some (rc_outcome receipt))"
    using serialize_outcome_round_trips [of "Some (rc_outcome receipt)" so] assms by (auto simp: storable_receipt_def)
  obtain x where ref: "serialize_external_ref so (completed_ref receipt) = Ok x"
    "decode_opt (so_external_ref so) x = Ok (completed_ref receipt)"
    using serialize_external_ref_round_trips [of "completed_ref receipt" so] assms by (auto simp: storable_receipt_def)
  have t: "nanos (rc_completed_at receipt) = Done (rc_completed_at receipt)" "nanos_opt retry = Done retry"
    "nanos_opt (Some (rc_completed_at receipt)) = Done (Some (rc_completed_at receipt))"
    using assms by (simp_all add: nanos_storable nanos_opt_storable storable_receipt_def)
  let ?f = "\<lambda>row. row\<lparr>ar_status := att_status_str (sql_status_for_outcome (rc_outcome receipt) (retry \<noteq> None)),
            ar_outcome_kind := k, ar_outcome_json := j, ar_external_ref_json := x, ar_next_retry_at := retry,
            ar_completed_at := Some (rc_completed_at receipt)\<rparr>"
  have "completion so receipt retry = Done (Ok ?f)"
    using oc ref t by (simp add: completion_def)
  moreover have "encodes so (?f row) (complete_attempt receipt retry a)" if e: "encodes so row a" for row a
  proof -
    have "attempt_row_of so (complete_attempt receipt retry a) = Done (Ok (?f row))"
      using e oc ref t
      by (auto simp: encodes_def attempt_row_of_def complete_attempt_def completed_ref_def sql_status_for_outcome_memory
          split: sum.splits run.splits)
    moreover have "row_to_attempt so (?f row) = Ok (complete_attempt receipt retry a)"
      using e oc ref
      by (auto simp: encodes_def row_to_attempt_def complete_attempt_def completed_ref_def sql_status_for_outcome_memory
          split: sum.splits if_splits)
    ultimately show ?thesis
      by (simp add: encodes_def)
  qed
  ultimately show ?thesis by auto
qed

section \<open>Refinement of the in-memory repository\<close>

text \<open>The table and the map hold the same attempts, in the same order of insertion.\<close>

definition stores :: "sqlite_outside \<Rightarrow> attempt_row \<Rightarrow> notification_attempt_id \<times> notification_attempt \<Rightarrow> bool" where
  "stores so row e \<longleftrightarrow> fst e = na_id (snd e) \<and> encodes so row (snd e)"

definition sar_sim :: "sqlite_outside \<Rightarrow> database \<Rightarrow> memory_attempt_repository \<Rightarrow> bool" where
  "sar_sim so db m \<longleftrightarrow> keyed ar_id (tb_attempts (db_tables db)) \<and>
     list_all2 (stores so) (tb_attempts (db_tables db)) (mar_inner m)"

datatype attempt_op =
    OpInsert notification_attempt
  | OpComplete notification_attempt_id delivery_receipt "datetime option"

fun storable_op :: "sqlite_outside \<Rightarrow> attempt_op \<Rightarrow> bool" where
  "storable_op so (OpInsert a) = storable_attempt so a"
| "storable_op so (OpComplete k receipt retry) = storable_receipt so receipt retry"

fun sar_step :: "sqlite_outside \<Rightarrow> attempt_op \<Rightarrow> database \<Rightarrow> (attempt_repo_error + unit) run \<times> database" where
  "sar_step so (OpInsert a) db = sar_insert_pending so a db"
| "sar_step so (OpComplete k receipt retry) db = sar_complete so k receipt retry db"

fun mar_step :: "attempt_op \<Rightarrow> memory_attempt_repository \<Rightarrow> (attempt_repo_error + unit) \<times> memory_attempt_repository" where
  "mar_step (OpInsert a) m = mar_insert_pending a m"
| "mar_step (OpComplete k receipt retry) m = mar_complete k receipt retry m"

fun sar_run :: "sqlite_outside \<Rightarrow> attempt_op list \<Rightarrow> database \<Rightarrow> (attempt_repo_error + unit) run list \<times> database" where
  "sar_run so [] db = ([], db)"
| "sar_run so (x # xs) db =
     (let (r, db) = sar_step so x db; (rs, db) = sar_run so xs db in (r # rs, db))"

fun mar_run :: "attempt_op list \<Rightarrow> memory_attempt_repository \<Rightarrow>
    (attempt_repo_error + unit) list \<times> memory_attempt_repository" where
  "mar_run [] m = ([], m)"
| "mar_run (x # xs) m = (let (r, m) = mar_step x m; (rs, m) = mar_run xs m in (r # rs, m))"

lemma storesD: "stores so row (k, a) \<Longrightarrow> k = NotificationAttemptId (ar_id row) \<and> na_id a = k \<and> encodes so row a"
  using encodes_columns(1) [of so row a] by (simp add: stores_def)

lemma sim_lookup:
  assumes "list_all2 (stores so) rows entries"
  shows "hm_get entries (NotificationAttemptId u) = None \<longleftrightarrow> row_of ar_id rows u = None"
  using assms
proof (induction rows entries rule: list_all2_induct)
  case (Cons row rows e entries)
  then show ?case
    using storesD [of so row "fst e" "snd e"] by (cases e) (auto simp: hm_get_def)
qed simp

lemma sim_append:
  assumes "list_all2 (stores so) rows entries"
    and "encodes so row a" and "hm_get entries (na_id a) = None"
  shows "list_all2 (stores so) (rows @ [row]) (hm_insert (na_id a) a entries)"
proof -
  have "hm_insert k v m = m @ [(k, v)]" if "hm_get m k = None" for k :: notification_attempt_id and v :: notification_attempt and m
    using that by (induction m) (auto simp: hm_insert_def hm_get_def split: if_splits)
  with assms show ?thesis by (simp add: list_all2_appendI stores_def)
qed

lemma sim_update:
  assumes "list_all2 (stores so) rows entries" and "keyed ar_id rows"
    and "hm_get entries k = Some a" and "\<And>row a. encodes so row a \<Longrightarrow> encodes so (f row) (g a)" and "\<And>a. na_id (g a) = na_id a"
  shows "list_all2 (stores so)
    (map (\<lambda>r. if NotificationAttemptId (ar_id r) = k then f r else r) rows) (hm_insert k (g a) entries)"
  using assms(1-3)
proof (induction rows entries rule: list_all2_induct)
  case (Cons row rows x entries)
  obtain k' a' where x: "x = (k', a')" by (cases x)
  with Cons.hyps(1) have e: "k' = na_id a'" "encodes so row a'" "na_id a' = NotificationAttemptId (ar_id row)"
    using storesD [of so row k' a'] by simp_all
  show ?case
  proof (cases "k' = k")
    case True
    have rest: "map (\<lambda>r. if NotificationAttemptId (ar_id r) = k then f r else r) rows = rows"
      using Cons.prems(1) True e by (intro map_idI) (auto simp: keyed_def image_iff)
    have "a' = a"
      using Cons.prems(2) True x by (simp add: hm_get_def)
    with True e assms(4) [of row a] assms(5) have "stores so (f row) (k, g a)"
      by (simp add: stores_def)
    with True x e Cons.hyps(2) rest show ?thesis
      by (simp add: hm_insert_def)
  next
    case False
    with Cons x e show ?thesis
      by (simp add: hm_insert_def hm_get_def keyed_def)
  qed
qed simp

lemma sar_insert_sim:
  assumes f: "faultless db" and s: "sar_sim so db m" and ok: "storable_attempt so a"
  shows "\<exists>r db' m'. sar_insert_pending so a db = (Done r, db') \<and> mar_insert_pending a m = (r, m') \<and> faultless db' \<and> sar_sim so db' m'"
proof -
  obtain row where row: "encodes so row a"
    using attempt_round_trip [OF ok] by auto
  let ?rows = "tb_attempts (db_tables db)"
  let ?stmt = "\<lambda>t. let (r, rows) = insert_row ar_id row (tb_attempts t) in (r, t\<lparr>tb_attempts := rows\<rparr>)"
  obtain db' where st: "statement ?stmt db = (fst (?stmt (db_tables db)), db')" "faultless db'"
    "db_tables db' = snd (?stmt (db_tables db))"
    using statement_faultless [OF f, of ?stmt] by blast
  have sim: "list_all2 (stores so) ?rows (mar_inner m)" "keyed ar_id ?rows"
    using s by (simp_all add: sar_sim_def)
  note new = sim_lookup [OF sim(1), of "ar_id row", folded encodes_columns(1) [OF row]]
  have save: "sar_insert_pending so a db = (Done (case fst (?stmt (db_tables db)) of Err e \<Rightarrow> Err (map_insert_error (na_id a) e) | Ok _ \<Rightarrow> Ok ()), db')"
    using st(1) row by (simp add: sar_insert_pending_def encodes_def split: sum.split)
  show ?thesis
  proof (cases "row_of ar_id ?rows (ar_id row)")
    case None
    then have "insert_row ar_id row ?rows = (Ok (), ?rows @ [row])"
      by (simp add: insert_row_cases)
    moreover have "keyed ar_id (?rows @ [row])"
      using sim(2) None by (simp add: keyed_def row_of_None)
    ultimately show ?thesis
      using save st(2,3) sim_append [OF sim(1) row] None new
      by (simp add: mar_insert_pending_def hm_contains_key_def sar_sim_def del: hm_contains_key_iff)
  next
    case (Some r)
    then have "insert_row ar_id row ?rows = (Err (UniqueViolation ''UNIQUE constraint failed''), ?rows)"
      by (simp add: insert_row_cases)
    then show ?thesis
      using save st(2,3) sim Some new
      by (simp add: mar_insert_pending_def hm_contains_key_def sar_sim_def del: hm_contains_key_iff)
  qed
qed

lemma sar_complete_sim:
  assumes f: "faultless db" and s: "sar_sim so db m" and ok: "storable_receipt so receipt retry"
  shows "\<exists>r db' m'. sar_complete so k receipt retry db = (Done r, db') \<and> mar_complete k receipt retry m = (r, m') \<and> faultless db' \<and> sar_sim so db' m'"
proof -
  obtain g where g: "completion so receipt retry = Done (Ok g)" "\<And>row. ar_id (g row) = ar_id row"
    "\<And>row a. encodes so row a \<Longrightarrow> encodes so (g row) (complete_attempt receipt retry a)"
    using completion_encodes [OF ok] by auto
  let ?rows = "tb_attempts (db_tables db)"
  let ?rows' = "map (\<lambda>r. if NotificationAttemptId (ar_id r) = k then g r else r) ?rows"
  let ?stmt = "\<lambda>t. let (n, rows) = update_rows (\<lambda>r. NotificationAttemptId (ar_id r) = k) g (tb_attempts t)
                 in (Ok n :: sqlx_error + nat, t\<lparr>tb_attempts := rows\<rparr>)"
  obtain db' where st: "statement ?stmt db = (fst (?stmt (db_tables db)), db')" "faultless db'"
    "db_tables db' = snd (?stmt (db_tables db))"
    using statement_faultless [OF f, of ?stmt] by blast
  have sim: "list_all2 (stores so) ?rows (mar_inner m)" "keyed ar_id ?rows"
    using s by (simp_all add: sar_sim_def)
  obtain u where u: "k = NotificationAttemptId u" by (cases k)
  have none: "filter (\<lambda>r. NotificationAttemptId (ar_id r) = k) ?rows = [] \<longleftrightarrow> hm_get (mar_inner m) k = None"
    using sim_lookup [OF sim(1), of u] by (auto simp: u row_of_None filter_empty_conv)
  have key: "keyed ar_id ?rows'"
    using sim(2) keyed_map [of ar_id "\<lambda>r. if NotificationAttemptId (ar_id r) = k then g r else r" ?rows] g(2) by simp
  have step: "sar_complete so k receipt retry db = (Done (if hm_get (mar_inner m) k = None then Err (AttemptNotFound k) else Ok ()), db')"
    using st(1) g(1) none by (simp add: sar_complete_def update_rows_def)
  have tables: "tb_attempts (db_tables db') = ?rows'"
    using st(3) by (simp add: update_rows_def)
  show ?thesis
  proof (cases "hm_get (mar_inner m) k")
    case None
    then have "?rows' = ?rows"
      using none by (intro map_idI) (auto simp: filter_empty_conv)
    with step tables st(2) sim None show ?thesis
      by (simp add: mar_complete_def sar_sim_def)
  next
    case (Some a)
    have "list_all2 (stores so) ?rows'
        (hm_insert k (complete_attempt receipt retry a) (mar_inner m))"
      by (rule sim_update [OF sim Some g(3)]) (simp_all add: complete_attempt_def)
    with step tables st(2) key Some show ?thesis
      by (simp add: mar_complete_def sar_sim_def)
  qed
qed

lemma sar_step_sim:
  assumes "faultless db" and "sar_sim so db m" and "storable_op so x"
  shows "\<exists>r db' m'. sar_step so x db = (Done r, db') \<and> mar_step x m = (r, m') \<and> faultless db' \<and> sar_sim so db' m'"
  using assms sar_insert_sim [OF assms(1,2)] sar_complete_sim [OF assms(1,2)] by (cases x) auto

lemma sar_run_sim:
  assumes "faultless db" and "sar_sim so db m" and "list_all (storable_op so) xs"
    and "sar_run so xs db = (rs, db')" and "mar_run xs m = (qs, m')"
  shows "rs = map Done qs \<and> faultless db' \<and> sar_sim so db' m'"
  using assms
proof (induction xs arbitrary: db m rs qs)
  case (Cons x xs)
  obtain r db1 m1 where 1: "sar_step so x db = (Done r, db1)" "mar_step x m = (r, m1)" "faultless db1" "sar_sim so db1 m1"
    using sar_step_sim [OF Cons.prems(1,2)] Cons.prems(3) by force
  obtain rs' qs' where 2: "sar_run so xs db1 = (rs', db')" "rs = Done r # rs'" "mar_run xs m1 = (qs', m')" "qs = r # qs'"
    using Cons.prems(4,5) 1 by (auto split: prod.splits)
  from Cons.IH [OF 1(3,4) _ 2(1,3)] Cons.prems(3) 2 show ?case by simp
qed simp

section \<open>Queries\<close>

lemma rows_to_attempts_Ok:
  assumes "\<forall>r \<in> set rows. row_to_attempt so r = Ok (dec r)"
  shows "rows_to_attempts so rows = Ok (map dec rows)"
  using assms by (induction rows) simp_all

lemma sim_decoder:
  assumes "sar_sim so db m"
  shows "\<exists>dec. (\<forall>r \<in> set (tb_attempts (db_tables db)). encodes so r (dec r)) \<and>
    map snd (mar_inner m) = map dec (tb_attempts (db_tables db))"
proof -
  let ?dec = "\<lambda>r. case row_to_attempt so r of Ok a \<Rightarrow> a"
  have "(\<forall>r \<in> set rows. encodes so r (?dec r)) \<and> map snd entries = map ?dec rows"
    if "list_all2 (stores so) rows entries" for rows entries
    using that
  proof (induction rows entries rule: list_all2_induct)
    case (Cons row rows e entries)
    then have "encodes so row (snd e)" "row_to_attempt so row = Ok (snd e)"
      by (simp_all add: stores_def encodes_def)
    with Cons.IH show ?case by simp
  qed simp
  from this [of "tb_attempts (db_tables db)" "mar_inner m"] assms show ?thesis
    unfolding sar_sim_def by (intro exI [of _ ?dec]) simp
qed

text \<open>Two orderings of the same rows show the same keys.\<close>

lemma ordered_keys:
  assumes "mset xs = mset ys" and "sorted (map f xs)" and "sorted (map f ys)"
  shows "map f xs = map f ys"
proof -
  have "sort (map f ys) = map f xs"
    using assms by (intro properties_for_sort) simp_all
  with assms(3) show ?thesis by (simp add: sorted_sort_id)
qed

lemma sim_list_for_incident:
  assumes sim: "sar_sim so db m" and ord: "orders (so_order_attempts so)" and "faultless db"
  shows "\<exists>xs ys. fst (sar_list_for_incident so k db) = Ok xs \<and> mar_list_for_incident k m = Ok ys \<and>
    mset xs = mset ys \<and> map na_attempted_at xs = map na_attempted_at ys"
proof -
  let ?rows = "tb_attempts (db_tables db)"
  obtain dec where dec: "\<forall>r \<in> set ?rows. encodes so r (dec r)" "map snd (mar_inner m) = map dec ?rows"
    using sim_decoder [OF sim] by blast
  have col: "\<And>r. r \<in> set ?rows \<Longrightarrow> na_incident_id (dec r) = IncidentId (ar_incident_id r)"
    using dec(1) encodes_columns(5) by blast
  let ?sel = "filter (\<lambda>r. IncidentId (ar_incident_id r) = k) ?rows"
  let ?key = "\<lambda>r. - ar_attempted_at r"
  let ?xs = "map dec (so_order_attempts so ?key ?sel)"
  let ?ys = "sort_key (\<lambda>a. - na_attempted_at a) (filter (\<lambda>a. na_incident_id a = k) (map snd (mar_inner m)))"
  have sel: "\<forall>r \<in> set (so_order_attempts so ?key ?sel). encodes so r (dec r)"
    using orders_set [OF ord, of ?key ?sel] dec(1) by simp
  have "db_fault db (db_statements db) = None"
    using assms(3) by (simp add: faultless_def)
  then have "fst (sar_list_for_incident so k db) = Ok ?xs"
    using rows_to_attempts_Ok [of "so_order_attempts so ?key ?sel" so dec] sel
    by (simp add: sar_list_for_incident_def statement_def Let_def encodes_def)
  moreover have m: "mset ?xs = mset ?ys"
  proof -
    have "filter (\<lambda>a. na_incident_id a = k) (map dec ?rows) = map dec ?sel"
      unfolding filter_map comp_def by (intro arg_cong [where f = "map dec"] filter_cong refl) (simp add: col)
    then have "mset ?ys = mset (map dec ?sel)"
      unfolding dec(2) by simp
    also have "\<dots> = mset ?xs"
      using ord by (simp only: orders_def mset_map)
    finally show ?thesis by simp
  qed
  moreover have "map na_attempted_at ?xs = map na_attempted_at ?ys"
  proof -
    have "map (\<lambda>a. - na_attempted_at a) ?xs = map ?key (so_order_attempts so ?key ?sel)"
      using sel encodes_columns(4) by (auto intro: arg_cong)
    then have "sorted (map (\<lambda>a. - na_attempted_at a) ?xs)"
      using orders_sorted [OF ord, of ?key ?sel] by (simp only:)
    then have "map (\<lambda>a. - na_attempted_at a) ?xs = map (\<lambda>a. - na_attempted_at a) ?ys"
      by (intro ordered_keys [OF m]) simp_all
    then have "map uminus (map (\<lambda>a. - na_attempted_at a) ?xs) = map uminus (map (\<lambda>a. - na_attempted_at a) ?ys)"
      by (rule arg_cong)
    then show ?thesis by (simp add: comp_def)
  qed
  ultimately show ?thesis
    by (auto simp: mar_list_for_incident_def)
qed

definition retry_at :: "datetime \<Rightarrow> notification_attempt \<Rightarrow> datetime" where
  "retry_at now a = (case na_next_retry_at a of None \<Rightarrow> now | Some t \<Rightarrow> t)"

lemma sim_list_retryable:
  assumes sim: "sar_sim so db m" and ord: "orders (so_order_attempts so)" and "faultless db" and "storable now"
  shows "\<exists>xs ys. fst (sar_list_retryable so now limit db) = Done (Ok xs) \<and> mar_list_retryable now limit m = Ok ys \<and>
    map (retry_at now) xs = map (retry_at now) ys \<and> (length ys < unat limit \<longrightarrow> mset xs = mset ys)"
proof -
  let ?rows = "tb_attempts (db_tables db)"
  obtain dec where dec: "\<forall>r \<in> set ?rows. encodes so r (dec r)" "map snd (mar_inner m) = map dec ?rows"
    using sim_decoder [OF sim] by blast
  have col: "\<And>r. r \<in> set ?rows \<Longrightarrow> ar_status r = att_status_str (na_status (dec r)) \<and>
      ar_next_retry_at r = na_next_retry_at (dec r)"
    using dec(1) encodes_columns(2,3) by blast
  let ?sel = "due_rows now ?rows"
  let ?all = "map dec (so_order_attempts so retry_key ?sel)"
  let ?due = "filter (\<lambda>a. case na_next_retry_at a of None \<Rightarrow> False | Some t \<Rightarrow> t \<le> now)
      (filter (\<lambda>a. na_status a = FailedTransient) (map snd (mar_inner m)))"
  let ?ys = "sort_key (retry_at now) ?due"
  have sel: "\<forall>r \<in> set (so_order_attempts so retry_key ?sel). encodes so r (dec r)"
    using orders_set [OF ord, of retry_key ?sel] dec(1) by (simp add: due_rows_def)
  have "db_fault db (db_statements db) = None" "nanos now = Done now"
    using assms(3,4) by (simp_all add: faultless_def nanos_storable)
  then have "fst (sar_list_retryable so now limit db) = Done (Ok (take (unat limit) ?all))"
    using rows_to_attempts_Ok [of "take (unat limit) (so_order_attempts so retry_key ?sel)" so dec] sel
    by (auto simp: sar_list_retryable_def statement_def Let_def encodes_def take_map dest: in_set_takeD)
  moreover
  have m: "mset ?all = mset ?ys"
  proof -
    have "?due = map dec ?sel"
      unfolding dec(2) due_rows_def filter_map comp_def filter_filter
      by (intro arg_cong [where f = "map dec"] filter_cong refl) (auto simp: col)
    then have "mset ?ys = mset (map dec ?sel)" by simp
    also have "\<dots> = mset ?all"
      using ord by (simp only: orders_def mset_map)
    finally show ?thesis by simp
  qed
  moreover have keys: "map (retry_at now) ?all = map (retry_at now) ?ys"
  proof (rule ordered_keys [OF m])
    have "\<forall>r \<in> set (so_order_attempts so retry_key ?sel). retry_at now (dec r) = retry_key r"
      using orders_set [OF ord, of retry_key ?sel] col
      by (auto simp: retry_at_def retry_key_def due_rows_def split: option.splits)
    then have "map (retry_at now) ?all = map retry_key (so_order_attempts so retry_key ?sel)"
      by simp
    then show "sorted (map (retry_at now) ?all)"
      using orders_sorted [OF ord, of retry_key ?sel] by (simp only:)
  qed simp
  moreover have "mar_list_retryable now limit m = Ok (take (unat limit) ?ys)"
    by (simp add: mar_list_retryable_def retry_at_def [abs_def])
  moreover have "length (take (unat limit) ?ys) < unat limit \<longrightarrow> mset (take (unat limit) ?all) = mset (take (unat limit) ?ys)"
    using m size_mset [of ?all] size_mset [of ?ys] by simp
  moreover have "map (retry_at now) (take (unat limit) ?all) = map (retry_at now) (take (unat limit) ?ys)"
    using keys by (simp only: take_map [symmetric])
  ultimately show ?thesis
    by (intro exI conjI) assumption+
qed

text \<open>C16. The SQLite attempt log refines the in-memory one.
  Run any sequence of inserts and completions whose values can be stored, against a
  database without faults.  Every operation gives the answer of the in-memory repository,
  a conflict and a missing row included, and none panics.  Afterwards the two list
  the same attempts of an incident, newest first, and agree on what is due for a
  retry: the same retry times within the limit, and the same attempts when it is
  not reached.\<close>

theorem sqlite_attempts_refine_memory:
  assumes "orders (so_order_attempts so)" and "faultless db" and "sar_sim so db m"
    and "list_all (storable_op so) ops" and "storable now"
    and "sar_run so ops db = (rs, db')" and "mar_run ops m = (qs, m')"
  shows "rs = map Done qs \<and>
    (\<exists>xs ys. fst (sar_list_for_incident so k db') = Ok xs \<and> mar_list_for_incident k m' = Ok ys \<and>
       mset xs = mset ys \<and> map na_attempted_at xs = map na_attempted_at ys) \<and>
    (\<exists>xs ys. fst (sar_list_retryable so now limit db') = Done (Ok xs) \<and> mar_list_retryable now limit m' = Ok ys \<and>
       map (retry_at now) xs = map (retry_at now) ys \<and> (length ys < unat limit \<longrightarrow> mset xs = mset ys))"
proof -
  have "rs = map Done qs" and f: "faultless db'" and s: "sar_sim so db' m'"
    using sar_run_sim [OF assms(2-4,6,7)] by simp_all
  with sim_list_for_incident [OF s assms(1) f] sim_list_retryable [OF s assms(1) f assms(5)] show ?thesis
    by blast
qed

definition sample_stored_attempt :: notification_attempt where
  "sample_stored_attempt =
     \<lparr>na_id = NotificationAttemptId 5, na_rule_id = NotificationRuleId ''r'', na_incident_id = IncidentId 7,
      na_lifecycle_kind = KindOpened, na_target_kind = KindWebhook, na_target_summary = ''w'', na_status = Pending,
      na_attempt_number = 1, na_parent_attempt_id = None, na_next_retry_at = None, na_outcome = None,
      na_external_ref = None, na_attempted_at = 3, na_completed_at = None\<rparr>"

definition sample_ops :: "attempt_op list" where
  "sample_ops =
     [OpInsert sample_stored_attempt, OpInsert sample_stored_attempt,
      OpComplete (NotificationAttemptId 5) \<lparr>rc_outcome = Delivered None, rc_started_at = 3, rc_completed_at = 4\<rparr> None,
      OpComplete (NotificationAttemptId 6) \<lparr>rc_outcome = Delivered None, rc_started_at = 3, rc_completed_at = 4\<rparr> None]"

theorem sqlite_attempts_refine_memory_witness:
  "\<exists>db' xs. sar_run sample_sqlite sample_ops empty_db =
       ([Done (Ok ()), Done (Err (AttemptConflict (NotificationAttemptId 5))), Done (Ok ()),
         Done (Err (AttemptNotFound (NotificationAttemptId 6)))], db') \<and>
     fst (sar_list_for_incident sample_sqlite (IncidentId 7) db') = Ok xs \<and> map na_attempted_at xs = [3]"
proof -
  have o: "orders (so_order_attempts sample_sqlite)" "faultless empty_db"
    by (simp_all add: sample_sqlite_def orders_sort_key faultless_def empty_db_def)
  have sim: "sar_sim sample_sqlite empty_db mar_new"
    by (simp add: sar_sim_def empty_db_def empty_tables_def mar_new_def)
  have ok: "list_all (storable_op sample_sqlite) sample_ops"
    by (simp add: sample_ops_def storable_attempt_def storable_receipt_def sample_stored_attempt_def storable_def
        sample_sqlite_def sample_codec_def round_trips_def completed_ref_def utf8_step_def utf8_width_def byte_in_def)
  have t: "storable 9"
    by (simp add: storable_def)
  obtain rs db' where run: "sar_run sample_sqlite sample_ops empty_db = (rs, db')"
    by (cases "sar_run sample_sqlite sample_ops empty_db")
  let ?done = "complete_attempt \<lparr>rc_outcome = Delivered None, rc_started_at = 3, rc_completed_at = 4\<rparr> None sample_stored_attempt"
  have mem: "mar_run sample_ops mar_new =
      ([Ok (), Err (AttemptConflict (NotificationAttemptId 5)), Ok (), Err (AttemptNotFound (NotificationAttemptId 6))],
       \<lparr>mar_inner = [(NotificationAttemptId 5, ?done)]\<rparr>)"
    by (simp add: sample_ops_def mar_insert_pending_def mar_complete_def mar_new_def hm_insert_def hm_get_def
        hm_contains_key_def sample_stored_attempt_def del: hm_contains_key_iff)
  note ref = sqlite_attempts_refine_memory [OF o sim ok t run mem, of "IncidentId 7" 1]
  then obtain xs where "fst (sar_list_for_incident sample_sqlite (IncidentId 7) db') = Ok xs" "map na_attempted_at xs = [3]"
    by (auto simp: mar_list_for_incident_def complete_attempt_def sample_stored_attempt_def)
  with ref run show ?thesis by auto
qed


end
