(* ===== verification/Sqlite_Incidents.thy ===== *)
theory Sqlite_Incidents
  imports Sqlite_Tables
begin

text \<open>
  \<open>storage/sqlite/incident_repository.rs\<close>: the incidents table is written by an upsert
  and read by its JSON column.  The contract of an incident repository holds for it, and
  it refines the in-memory repository.
\<close>

section \<open>Operations\<close>

fun inc_severity_str :: "incident_severity \<Rightarrow> string" where
  "inc_severity_str SevInfo = ''Info''"
| "inc_severity_str SevWarning = ''Warning''"
| "inc_severity_str SevCritical = ''Critical''"

fun inc_status_str :: "incident_status \<Rightarrow> string" where
  "inc_status_str StOpen = ''Open''"
| "inc_status_str StAcknowledged = ''Acknowledged''"
| "inc_status_str StResolved = ''Resolved''"
| "inc_status_str StSuppressed = ''Suppressed''"

definition incident_row_of :: "sqlite_outside \<Rightarrow> incident \<Rightarrow> string \<Rightarrow> incident_row run" where
  "incident_row_of so i json =
     (case nanos (inc_opened_at i) of
        Panicked \<Rightarrow> Panicked
      | Done opened_at \<Rightarrow>
          (case nanos (inc_updated_at i) of
             Panicked \<Rightarrow> Panicked
           | Done updated_at \<Rightarrow>
               (case nanos_opt (inc_resolved_at i) of
                  Panicked \<Rightarrow> Panicked
                | Done resolved_at \<Rightarrow>
                    Done \<lparr>ir_id = (case inc_id i of IncidentId u \<Rightarrow> u),
                      ir_fingerprint = as_key (so_uuid_str so) (inc_fingerprint i),
                      ir_kind = incident_kind_as_str (inc_kind i),
                      ir_subject_kind = subject_kind_str (inc_subject i),
                      ir_subject_id = subject_id_str (so_uuid_str so) (inc_subject i),
                      ir_severity = inc_severity_str (inc_severity i), ir_status = inc_status_str (inc_status i),
                      ir_opened_at = opened_at, ir_updated_at = updated_at, ir_resolved_at = resolved_at,
                      ir_incident_json = json\<rparr>)))"

definition sir_save ::
    "sqlite_outside \<Rightarrow> incident \<Rightarrow> database \<Rightarrow> (incident_repo_error + unit) run \<times> database" where
  "sir_save so i db =
     (case to_json (so_incident so) i of
        Err e \<Rightarrow> (Done (Err (IncidentBackend (''serde_json: '' @ e))), db)
      | Ok json \<Rightarrow>
          (case incident_row_of so i json of
             Panicked \<Rightarrow> (Panicked, db)
           | Done row \<Rightarrow>
               (case statement (\<lambda>t. (Ok (), t\<lparr>tb_incidents := upsert_row ir_id row (tb_incidents t)\<rparr>)) db of
                  (Err e, db) \<Rightarrow> (Done (Err (IncidentBackend (sqlx_text e))), db)
                | (Ok _, db) \<Rightarrow> (Done (Ok ()), db))))"

definition decode_incident :: "sqlite_outside \<Rightarrow> incident_row \<Rightarrow> incident_repo_error + incident" where
  "decode_incident so row =
     (case from_json (so_incident so) (ir_incident_json row) of
        Err e \<Rightarrow> Err (IncidentBackend (''serde_json: '' @ e))
      | Ok i \<Rightarrow> Ok i)"

fun decode_incidents :: "sqlite_outside \<Rightarrow> incident_row list \<Rightarrow> incident_repo_error + incident list" where
  "decode_incidents so [] = Ok []"
| "decode_incidents so (row # rest) =
     (case decode_incident so row of
        Err e \<Rightarrow> Err e
      | Ok i \<Rightarrow> (case decode_incidents so rest of Err e \<Rightarrow> Err e | Ok is \<Rightarrow> Ok (i # is)))"

definition sir_load_open :: "sqlite_outside \<Rightarrow> database \<Rightarrow> (incident_repo_error + incident list) \<times> database" where
  "sir_load_open so db =
     (case statement (\<lambda>t. (Ok (so_order_incidents so ir_opened_at
             (filter (\<lambda>r. ir_status r \<noteq> inc_status_str StResolved) (tb_incidents t))), t)) db of
        (Err e, db) \<Rightarrow> (Err (IncidentBackend (sqlx_text e)), db)
      | (Ok rows, db) \<Rightarrow> (decode_incidents so rows, db))"

definition sir_get ::
    "sqlite_outside \<Rightarrow> incident_id \<Rightarrow> database \<Rightarrow> (incident_repo_error + incident option) \<times> database" where
  "sir_get so k db =
     (case statement (\<lambda>t. (Ok (row_of ir_id (tb_incidents t) (case k of IncidentId u \<Rightarrow> u)), t)) db of
        (Err e, db) \<Rightarrow> (Err (IncidentBackend (sqlx_text e)), db)
      | (Ok None, db) \<Rightarrow> (Ok None, db)
      | (Ok (Some row), db) \<Rightarrow>
          (case decode_incident so row of Err e \<Rightarrow> (Err e, db) | Ok i \<Rightarrow> (Ok (Some i), db)))"

section \<open>The contract\<close>

text \<open>
  What the table holds, read through its JSON column, and the invariant that every row
  decodes and that its other columns are those of the incident it decodes to.
\<close>

definition sir_rows :: "sqlite_outside \<Rightarrow> database \<Rightarrow> incident_id \<Rightarrow> incident option" where
  "sir_rows so db k =
     (case row_of ir_id (tb_incidents (db_tables db)) (case k of IncidentId u \<Rightarrow> u) of
        None \<Rightarrow> None
      | Some row \<Rightarrow> (case decode_incident so row of Err _ \<Rightarrow> None | Ok i \<Rightarrow> Some i))"

definition mirrors :: "sqlite_outside \<Rightarrow> incident_row \<Rightarrow> incident \<Rightarrow> bool" where
  "mirrors so row i \<longleftrightarrow> decode_incident so row = Ok i \<and> incident_row_of so i (ir_incident_json row) = Done row"

definition sir_valid :: "sqlite_outside \<Rightarrow> database \<Rightarrow> bool" where
  "sir_valid so db \<longleftrightarrow> keyed ir_id (tb_incidents (db_tables db)) \<and>
     (\<forall>row \<in> set (tb_incidents (db_tables db)). \<exists>i. mirrors so row i)"

text \<open>A caller that sees a panic has no answer; as an answer it counts as an error.\<close>

definition answered :: "'e \<Rightarrow> ('e + 'a) run \<times> 'w \<Rightarrow> ('e + 'a) \<times> 'w" where
  "answered e r = (case r of (Done x, w) \<Rightarrow> (x, w) | (Panicked, w) \<Rightarrow> (Err e, w))"

definition storable_incident :: "incident \<Rightarrow> bool" where
  "storable_incident i \<longleftrightarrow> storable (inc_opened_at i) \<and> storable (inc_updated_at i) \<and>
     (\<forall>t. inc_resolved_at i = Some t \<longrightarrow> storable t)"

lemma inc_status_str_inject [simp]: "inc_status_str a = inc_status_str b \<longleftrightarrow> a = b"
  by (cases a; cases b) simp_all

lemma inc_status_str_Resolved [simp]: "inc_status_str s = ''Resolved'' \<longleftrightarrow> s = StResolved"
  using inc_status_str_inject [of s StResolved] by (simp del: inc_status_str_inject)

lemma incident_row_of_Done:
  "incident_row_of so i json = Done row \<Longrightarrow>
     storable_incident i \<and> IncidentId (ir_id row) = inc_id i \<and> ir_status row = inc_status_str (inc_status i) \<and>
     ir_opened_at row = inc_opened_at i \<and> ir_resolved_at row = inc_resolved_at i \<and> ir_incident_json row = json"
  by (auto simp: incident_row_of_def storable_incident_def nanos_storable nanos_opt_storable
      split: run.splits incident_id.split)

lemma incident_row_of_storable: "storable_incident i \<Longrightarrow> \<exists>row. incident_row_of so i json = Done row"
  by (auto simp: incident_row_of_def storable_incident_def nanos_def nanos_opt_def storable_def split: option.split)

lemma mirrorsD:
  assumes "mirrors so row i"
  shows "IncidentId (ir_id row) = inc_id i" and "ir_status row = inc_status_str (inc_status i)"
    and "ir_opened_at row = inc_opened_at i" and "ir_resolved_at row = inc_resolved_at i"
  using assms incident_row_of_Done [of so i "ir_incident_json row" row] by (auto simp: mirrors_def)

lemma sir_rows_iff:
  assumes "sir_valid so db"
  shows "sir_rows so db k = Some i \<longleftrightarrow>
    (\<exists>row \<in> set (tb_incidents (db_tables db)). mirrors so row i \<and> inc_id i = k)"
proof -
  obtain u where k: "k = IncidentId u" by (cases k)
  have key: "keyed ir_id (tb_incidents (db_tables db))"
    and mir: "\<And>row. row \<in> set (tb_incidents (db_tables db)) \<Longrightarrow> \<exists>j. mirrors so row j"
    using assms by (auto simp: sir_valid_def)
  show ?thesis
  proof
    assume "sir_rows so db k = Some i"
    then obtain row where row: "row_of ir_id (tb_incidents (db_tables db)) u = Some row" "decode_incident so row = Ok i"
      by (auto simp: sir_rows_def k split: option.splits sum.splits)
    moreover obtain j where "mirrors so row j"
      using mir row(1) row_of_SomeD by metis
    ultimately have "mirrors so row i" "row \<in> set (tb_incidents (db_tables db))" "ir_id row = u"
      using row_of_SomeD [OF row(1)] by (auto simp: mirrors_def)
    with mirrorsD(1) show "\<exists>row \<in> set (tb_incidents (db_tables db)). mirrors so row i \<and> inc_id i = k"
      by (metis k)
  next
    assume "\<exists>row \<in> set (tb_incidents (db_tables db)). mirrors so row i \<and> inc_id i = k"
    then obtain row where row: "row \<in> set (tb_incidents (db_tables db))" "mirrors so row i" "inc_id i = k" by blast
    then have "ir_id row = u"
      using mirrorsD(1) [OF row(2)] k by simp
    with row(1) key have "row_of ir_id (tb_incidents (db_tables db)) u = Some row"
      by (simp add: row_of_Some)
    with row(2) show "sir_rows so db k = Some i"
      by (simp add: sir_rows_def k mirrors_def)
  qed
qed

lemma sir_rows_id: "sir_valid so db \<Longrightarrow> sir_rows so db k = Some i \<Longrightarrow> inc_id i = k"
  by (auto simp: sir_rows_iff)

text \<open>A save either writes its incident or leaves the rows as they are.\<close>

lemma sir_save_cases:
  assumes f: "json_faithful (so_incident so)" and v: "sir_valid so db" and s: "sir_save so i db = (r, db')"
  shows "db_fault db' = db_fault db \<and> sir_valid so db' \<and>
    sir_rows so db' = (if r = Done (Ok ()) then (sir_rows so db)(inc_id i \<mapsto> i) else sir_rows so db)"
proof (cases "to_json (so_incident so) i")
  case (Inl e)
  with s v show ?thesis by (auto simp: sir_save_def)
next
  case (Inr json)
  show ?thesis
  proof (cases "incident_row_of so i json")
    case Panicked
    with s v Inr show ?thesis by (auto simp: sir_save_def)
  next
    case (Done row)
    let ?stmt = "\<lambda>t. (Ok (), t\<lparr>tb_incidents := upsert_row ir_id row (tb_incidents t)\<rparr>)"
    obtain q db1 where st: "statement ?stmt db = (q, db1)"
      by (cases "statement ?stmt db")
    have fault: "db_fault db1 = db_fault db"
      using statement_tables [OF st] by blast
    have m: "mirrors so row i"
      using f Inr Done incident_row_of_Done [OF Done] by (auto simp: mirrors_def json_faithful_def decode_incident_def)
    show ?thesis
    proof (cases q)
      case (Inl e)
      then have "db_tables db1 = db_tables db"
        using statement_tables [OF st] by auto
      moreover have "db' = db1" "r \<noteq> Done (Ok ())"
        using s Inr Done st Inl by (auto simp: sir_save_def)
      ultimately show ?thesis
        using v fault by (simp add: sir_valid_def sir_rows_def fun_eq_iff)
    next
      case (Inr u)
      then have t: "db_tables db1 = (db_tables db)\<lparr>tb_incidents := upsert_row ir_id row (tb_incidents (db_tables db))\<rparr>"
        using statement_tables [OF st] by auto
      have r: "db' = db1" "r = Done (Ok ())"
        using s \<open>to_json (so_incident so) i = Inr json\<close> Done st Inr by (auto simp: sir_save_def)
      have "sir_valid so db1"
        using v m upsert_row_keyed upsert_row_set [of ir_id row "tb_incidents (db_tables db)"]
        by (auto simp: sir_valid_def t)
      moreover have "sir_rows so db1 = (sir_rows so db)(inc_id i \<mapsto> i)"
      proof
        fix k
        obtain u where "k = IncidentId u" by (cases k)
        then show "sir_rows so db1 k = ((sir_rows so db)(inc_id i \<mapsto> i)) k"
          using m mirrorsD(1) [OF m, symmetric] by (simp add: sir_rows_def t upsert_row_get mirrors_def)
      qed
      ultimately show ?thesis
        using r fault by simp
    qed
  qed
qed

lemma decode_incidents_valid:
  assumes "\<forall>row \<in> set rows. \<exists>i. mirrors so row i"
  shows "\<exists>is. decode_incidents so rows = Ok is \<and> list_all2 (mirrors so) rows is"
  using assms
proof (induction rows)
  case (Cons row rows)
  then obtain i "is" where "mirrors so row i" "decode_incidents so rows = Ok is" "list_all2 (mirrors so) rows is"
    by auto
  moreover from this(1) have "decode_incident so row = Ok i"
    by (simp add: mirrors_def)
  ultimately show ?case by simp
qed simp

lemma mirrored_columns:
  assumes "list_all2 (mirrors so) rows is"
  shows "map inc_id is = map (\<lambda>r. IncidentId (ir_id r)) rows" and "map inc_opened_at is = map ir_opened_at rows"
    and "set is = {i. \<exists>row \<in> set rows. mirrors so row i}"
proof -
  have eqs: "mirrors so row i \<Longrightarrow> mirrors so row j \<Longrightarrow> i = j" for row i j
    by (simp add: mirrors_def)
  show "map inc_id is = map (\<lambda>r. IncidentId (ir_id r)) rows" "map inc_opened_at is = map ir_opened_at rows"
    using assms by (induction rows "is" rule: list_all2_induct) (simp_all add: mirrorsD)
  show "set is = {i. \<exists>row \<in> set rows. mirrors so row i}"
    using assms by (induction rows "is" rule: list_all2_induct) (auto dest: eqs)
qed

text \<open>What \<open>load_open\<close> answers when the statement succeeds.\<close>

lemma sir_load_open_answer:
  assumes v: "sir_valid so db" and ord: "orders (so_order_incidents so)"
  shows "(\<exists>e. fst (sir_load_open so db) = Err e) \<and> \<not> faultless db \<or>
    (\<exists>is. fst (sir_load_open so db) = Ok is \<and> sorted (map inc_opened_at is) \<and> distinct (map inc_id is) \<and>
       set is = {i. \<exists>k. sir_rows so db k = Some i \<and> inc_status i \<noteq> StResolved})"
proof (cases "db_fault db (db_statements db)")
  case (Some e)
  then show ?thesis
    by (auto simp: sir_load_open_def statement_def Let_def faultless_def)
next
  case None
  let ?rows = "tb_incidents (db_tables db)"
  let ?open = "so_order_incidents so ir_opened_at (filter (\<lambda>r. ir_status r \<noteq> inc_status_str StResolved) ?rows)"
  have set: "set ?open = {r \<in> set ?rows. ir_status r \<noteq> inc_status_str StResolved}"
    using orders_set [OF ord] by auto
  then obtain "is" where dec: "decode_incidents so ?open = Ok is" "list_all2 (mirrors so) ?open is"
    using v decode_incidents_valid [of ?open so] by (auto simp: sir_valid_def)
  have "fst (sir_load_open so db) = Ok is"
    using None dec(1) by (simp add: sir_load_open_def statement_def Let_def)
  moreover have "sorted (map inc_opened_at is)"
    using mirrored_columns(2) [OF dec(2)] orders_sorted [OF ord] by simp
  moreover have "distinct (map inc_id is)"
  proof -
    have "distinct (map ir_id ?open)"
      using v keyed_filter [of ir_id ?rows] orders_distinct [OF ord, of ir_id] by (simp add: sir_valid_def keyed_def)
    then show ?thesis
      unfolding mirrored_columns(1) [OF dec(2)] by (simp add: distinct_map inj_on_def)
  qed
  moreover have "set is = {i. \<exists>k. sir_rows so db k = Some i \<and> inc_status i \<noteq> StResolved}"
    unfolding mirrored_columns(3) [OF dec(2)] set using mirrorsD(2) by (auto simp: sir_rows_iff [OF v])
  ultimately show ?thesis by blast
qed

text \<open>The SQLite repository is an incident repository, whatever fails.\<close>

lemma sir_incident_repository:
  assumes f: "json_faithful (so_incident so)" and ord: "orders (so_order_incidents so)"
  shows "incident_repository (\<lambda>i db. answered e (sir_save so i db)) (\<lambda>db. fst (sir_load_open so db))
    (sir_rows so) (sir_valid so)"
proof unfold_locales
  fix w w' :: database and i e' res "is"
  assume v: "sir_valid so w"
  obtain r db where s: "sir_save so i w = (r, db)" by (cases "sir_save so i w")
  note c = sir_save_cases [OF f v s]
  show "answered e (sir_save so i w) = (Ok (), w') \<Longrightarrow> sir_rows so w' = (sir_rows so w)(inc_id i \<mapsto> i)"
    "answered e (sir_save so i w) = (Err e', w') \<Longrightarrow> sir_rows so w' = sir_rows so w"
    "answered e (sir_save so i w) = (res, w') \<Longrightarrow> sir_valid so w'"
    using s c by (auto simp: answered_def split: run.splits if_splits)
  show "fst (sir_load_open so w) = Ok is \<Longrightarrow>
      set is = {i. \<exists>k. sir_rows so w k = Some i \<and> inc_status i \<noteq> StResolved}"
    "fst (sir_load_open so w) = Ok is \<Longrightarrow> (\<And>k i. sir_rows so w k = Some i \<Longrightarrow> inc_id i = k) \<Longrightarrow> distinct (map inc_id is)"
    using sir_load_open_answer [OF v ord] by auto
qed

section \<open>Refinement of the in-memory repository\<close>

text \<open>The table and the map hold the same incidents, each under its own id.\<close>

definition sir_sim :: "sqlite_outside \<Rightarrow> database \<Rightarrow> memory_incident_repository \<Rightarrow> bool" where
  "sir_sim so db m \<longleftrightarrow> sir_valid so db \<and> hm_wf (mir_inner m) \<and> sir_rows so db = hm_get (mir_inner m)"

fun sir_saves ::
    "sqlite_outside \<Rightarrow> incident list \<Rightarrow> database \<Rightarrow> (incident_repo_error + unit) run list \<times> database" where
  "sir_saves so [] db = ([], db)"
| "sir_saves so (i # is) db =
     (let (r, db) = sir_save so i db; (rs, db) = sir_saves so is db in (r # rs, db))"

text \<open>The memory repository after those saves that were confirmed.\<close>

fun confirmed ::
    "incident list \<Rightarrow> (incident_repo_error + unit) run list \<Rightarrow> memory_incident_repository \<Rightarrow> memory_incident_repository" where
  "confirmed (i # is) (r # rs) m = confirmed is rs (if r = Done (Ok ()) then snd (mir_save i m) else m)"
| "confirmed _ _ m = m"

lemma sir_saves_sim:
  assumes "json_faithful (so_incident so)" and "sir_sim so db m" and "sir_saves so is db = (rs, db')"
  shows "sir_sim so db' (confirmed is rs m) \<and> db_fault db' = db_fault db"
  using assms(2,3)
proof (induction "is" arbitrary: db m rs)
  case (Cons i "is")
  obtain r db1 where s: "sir_save so i db = (r, db1)" by (cases "sir_save so i db")
  obtain rs' where rs: "sir_saves so is db1 = (rs', db')" "rs = r # rs'"
    using Cons.prems(2) s by (auto split: prod.splits)
  have v: "sir_valid so db"
    using Cons.prems(1) by (simp add: sir_sim_def)
  note c = sir_save_cases [OF assms(1) v s]
  have "sir_sim so db1 (if r = Done (Ok ()) then snd (mir_save i m) else m)"
    using c Cons.prems(1) by (simp add: sir_sim_def mir_save_def)
  from Cons.IH [OF this rs(1)] c rs(2) show ?case by simp
qed simp

lemma sir_saves_accepted:
  assumes "faultless db" and "\<forall>i \<in> set is. storable_incident i \<and> (\<exists>s. to_json (so_incident so) i = Ok s)"
  shows "fst (sir_saves so is db) = replicate (length is) (Done (Ok ()))"
  using assms
proof (induction "is" arbitrary: db)
  case (Cons i "is")
  obtain json row where j: "to_json (so_incident so) i = Ok json" "incident_row_of so i json = Done row"
    using Cons.prems(2) incident_row_of_storable by (metis list.set_intros(1))
  let ?stmt = "\<lambda>t. (Ok () :: sqlx_error + unit, t\<lparr>tb_incidents := upsert_row ir_id row (tb_incidents t)\<rparr>)"
  obtain db1 where "statement ?stmt db = (Ok (), db1)" "faultless db1"
    using statement_faultless [OF Cons.prems(1), of ?stmt] by auto
  with j Cons.IH [of db1] Cons.prems(2) show ?case
    by (cases "sir_saves so is db1") (simp add: sir_save_def)
qed simp

lemma sir_get_answer:
  assumes "sir_valid so db"
  shows "(\<exists>e. fst (sir_get so k db) = Err e) \<and> \<not> faultless db \<or> fst (sir_get so k db) = Ok (sir_rows so db k)"
proof (cases "db_fault db (db_statements db)")
  case (Some e)
  then show ?thesis
    by (auto simp: sir_get_def statement_def Let_def faultless_def)
next
  case None
  let ?u = "case k of IncidentId u \<Rightarrow> u"
  show ?thesis
  proof (cases "row_of ir_id (tb_incidents (db_tables db)) ?u")
    case None
    with \<open>db_fault db (db_statements db) = None\<close> show ?thesis
      by (simp add: sir_get_def statement_def Let_def sir_rows_def)
  next
    case (Some row)
    then obtain i where "decode_incident so row = Ok i"
      using assms row_of_SomeD [OF Some] by (auto simp: sir_valid_def mirrors_def)
    with Some \<open>db_fault db (db_statements db) = None\<close> show ?thesis
      by (simp add: sir_get_def statement_def Let_def sir_rows_def)
  qed
qed

lemma sir_sim_load_open:
  assumes sim: "sir_sim so db m" and ord: "orders (so_order_incidents so)" and l: "fst (sir_load_open so db) = Ok xs"
  shows "\<exists>ys. mir_load_open m = Ok ys \<and> mset xs = mset ys \<and> sorted (map inc_opened_at xs)"
proof -
  have v: "sir_valid so db" and wf: "hm_wf (mir_inner m)" and rows: "sir_rows so db = hm_get (mir_inner m)"
    using sim by (simp_all add: sir_sim_def)
  obtain ys where ys: "mir_load_open m = Ok ys"
    by (simp add: mir_load_open_def)
  have xs: "sorted (map inc_opened_at xs)" "distinct (map inc_id xs)"
    "set xs = {i. \<exists>k. sir_rows so db k = Some i \<and> inc_status i \<noteq> StResolved}"
    using sir_load_open_answer [OF v ord] l by auto
  have "set ys = set xs"
    using mir.load_open_set [OF wf ys] xs(3) rows by simp
  moreover have "distinct (map inc_id ys)"
    using mir.load_open_distinct [OF wf ys] sir_rows_id [OF v] rows by metis
  ultimately have "mset xs = mset ys"
    using xs(2) set_eq_iff_mset_eq_distinct [of xs ys] by (simp add: distinct_map)
  with ys xs(1) show ?thesis by blast
qed

text \<open>C15. The SQLite incident repository refines the in-memory one.
  Run any sequence of saves against the database, with any of its statements failing.
  Afterwards it holds what the in-memory repository holds after the confirmed saves: a
  query by id that is answered gives the same incident, and \<open>load_open\<close> the same open
  incidents, oldest first.  A database without faults confirms every incident that has a
  JSON text and whose timestamps are within the years 1677 to 2262, and answers.\<close>

theorem sqlite_incidents_refine_memory:
  assumes "json_faithful (so_incident so)" and "orders (so_order_incidents so)"
    and "sir_sim so db m" and "sir_saves so is db = (rs, db')"
  shows "(\<forall>k x. fst (sir_get so k db') = Ok x \<longrightarrow> mir_get k (confirmed is rs m) = Ok x) \<and>
    (\<forall>xs. fst (sir_load_open so db') = Ok xs \<longrightarrow>
       (\<exists>ys. mir_load_open (confirmed is rs m) = Ok ys \<and> mset xs = mset ys \<and> sorted (map inc_opened_at xs))) \<and>
    (faultless db \<and> list_all (\<lambda>i. storable_incident i \<and> (\<exists>s. to_json (so_incident so) i = Ok s)) is \<longrightarrow>
       rs = replicate (length is) (Done (Ok ())) \<and> (\<exists>xs. fst (sir_load_open so db') = Ok xs) \<and>
       (\<forall>k. fst (sir_get so k db') = mir_get k (confirmed is rs m)))"
proof -
  have sim: "sir_sim so db' (confirmed is rs m)" and fault: "db_fault db' = db_fault db"
    using sir_saves_sim [OF assms(1,3,4)] by simp_all
  then have v: "sir_valid so db'" and rows: "\<And>k. mir_get k (confirmed is rs m) = Ok (sir_rows so db' k)"
    by (simp_all add: sir_sim_def mir_get_def)
  have get: "fst (sir_get so k db') = Ok x \<Longrightarrow> mir_get k (confirmed is rs m) = Ok x" for k x
    using sir_get_answer [OF v, of k] by (auto simp: rows)
  have live: "faultless db' \<Longrightarrow> fst (sir_get so k db') = mir_get k (confirmed is rs m)" for k
    using sir_get_answer [OF v, of k] by (auto simp: rows)
  have loads: "faultless db' \<Longrightarrow> \<exists>xs. fst (sir_load_open so db') = Ok xs"
    using sir_load_open_answer [OF v assms(2)] by auto
  have "faultless db' = faultless db"
    by (simp add: faultless_def fault)
  with get live loads sir_sim_load_open [OF sim assms(2)] sir_saves_accepted [of db "is" so] assms(4)
  show ?thesis by (simp add: list_all_iff)
qed

theorem sqlite_incidents_refine_memory_witness:
  "\<exists>rs db' xs. sir_saves sample_sqlite [sample_incident SevWarning StOpen] empty_db = (rs, db') \<and> rs = [Done (Ok ())] \<and>
     fst (sir_load_open sample_sqlite db') = Ok xs \<and> mset xs = {#sample_incident SevWarning StOpen#}"
proof -
  let ?i = "sample_incident SevWarning StOpen"
  obtain rs db' where run: "sir_saves sample_sqlite [?i] empty_db = (rs, db')"
    by (cases "sir_saves sample_sqlite [?i] empty_db")
  have f: "json_faithful (so_incident sample_sqlite)" "orders (so_order_incidents sample_sqlite)"
    by (simp_all add: sample_sqlite_def sample_codec_faithful orders_sort_key)
  have sim: "sir_sim sample_sqlite empty_db mir_new"
    by (simp add: sir_sim_def sir_valid_def empty_db_def empty_tables_def mir_new_def sir_rows_def fun_eq_iff)
  have live: "faultless empty_db \<and> list_all (\<lambda>i. storable_incident i \<and> (\<exists>s. to_json (so_incident sample_sqlite) i = Ok s)) [?i]"
    by (simp add: faultless_def empty_db_def storable_incident_def storable_def sample_incident_def sample_sqlite_def
        sample_codec_def)
  note ref = sqlite_incidents_refine_memory [OF f sim run]
  from ref live have rs: "rs = [Done (Ok ())]" by simp
  from ref live obtain xs where xs: "fst (sir_load_open sample_sqlite db') = Ok xs" by blast
  with ref rs have "mset xs = mset (map snd (mir_inner (snd (mir_save ?i mir_new))))"
    by (auto simp: mir_load_open_def mir_save_def mir_new_def hm_insert_def sample_incident_def)
  with run rs xs show ?thesis
    by (auto simp: mir_save_def mir_new_def hm_insert_def)
qed


definition sample_retained :: database where
  "sample_retained = snd (sir_saves sample_sqlite [sample_incident SevWarning StOpen] empty_db)"

lemma sample_retained_log: "tb_observations (db_tables sample_retained) = []"
  by (simp add: sample_retained_def sir_save_def statement_def Let_def empty_db_def empty_tables_def
      split: sum.split run.split prod.split)

lemma sample_retained_rows:
  "sir_valid sample_sqlite sample_retained"
  "sir_rows sample_sqlite sample_retained = [IncidentId 7 \<mapsto> sample_incident SevWarning StOpen]"
proof -
  let ?i = "sample_incident SevWarning StOpen"
  have f: "json_faithful (so_incident sample_sqlite)"
    by (simp add: sample_sqlite_def sample_codec_faithful)
  have v: "sir_valid sample_sqlite empty_db"
    by (simp add: sir_valid_def empty_db_def empty_tables_def)
  have "fst (sir_saves sample_sqlite [?i] empty_db) = [Done (Ok ())]"
    using sir_saves_accepted [of empty_db "[?i]" sample_sqlite]
    by (simp add: faultless_def empty_db_def storable_incident_def storable_def sample_incident_def sample_sqlite_def sample_codec_def)
  then obtain db where db: "sir_save sample_sqlite ?i empty_db = (Done (Ok ()), db)" "sample_retained = db"
    by (cases "sir_save sample_sqlite ?i empty_db") (simp add: sample_retained_def)
  from sir_save_cases [OF f v db(1)] db(2)
  show "sir_valid sample_sqlite sample_retained"
    "sir_rows sample_sqlite sample_retained = [IncidentId 7 \<mapsto> ?i]"
    by (auto simp: sample_incident_def sir_rows_def empty_db_def empty_tables_def fun_eq_iff)
qed

end
