(* ===== verification/Retention.thy ===== *)
theory Retention
  imports Sqlite_Incidents Lnd_Client
begin

text \<open>
  \<open>storage/retention.rs\<close>: one sweep deletes what is older than the configured ages from
  the four tables, ignoring errors, and the task sweeps on every tick until shutdown.
\<close>

record retention_ages =
  rt_observations_max_age :: "duration option"
  rt_incidents_max_age :: "duration option"
  rt_suppressions_grace :: "duration option"
  rt_attempts_max_age :: "duration option"
  rt_vacuum_interval :: duration

definition duration_nanos :: "duration \<Rightarrow> i64" where
  "duration_nanos d = (if int d < 2 ^ 63 then int d else 2 ^ 63 - 1)"

text \<open>\<open>now_nanos - duration_nanos(age)\<close>, with the overflow behaviour of the build.\<close>

definition cutoff :: "bool \<Rightarrow> i64 \<Rightarrow> duration \<Rightarrow> i64 run" where
  "cutoff checks now age = i64_add checks now (- duration_nanos age)"

text \<open>One optional \<open>DELETE\<close>; the result of the statement is only logged.\<close>

definition sweep_table ::
    "bool \<Rightarrow> i64 \<Rightarrow> duration option \<Rightarrow> (i64 \<Rightarrow> tables \<Rightarrow> tables) \<Rightarrow> database \<Rightarrow> unit run \<times> database" where
  "sweep_table checks now age del db =
     (case age of
        None \<Rightarrow> (Done (), db)
      | Some a \<Rightarrow>
          (case cutoff checks now a of
             Panicked \<Rightarrow> (Panicked, db)
           | Done c \<Rightarrow> (Done (), snd (statement (\<lambda>t. (Ok (), del c t)) db))))"

definition delete_observations :: "i64 \<Rightarrow> tables \<Rightarrow> tables" where
  "delete_observations c t = t\<lparr>tb_observations := filter (\<lambda>r. \<not> ob_observed_at r < c) (tb_observations t)\<rparr>"

definition delete_incidents :: "i64 \<Rightarrow> tables \<Rightarrow> tables" where
  "delete_incidents c t =
     t\<lparr>tb_incidents := filter (\<lambda>r. \<not> (case ir_resolved_at r of None \<Rightarrow> False | Some x \<Rightarrow> x < c)) (tb_incidents t)\<rparr>"

definition delete_suppressions :: "i64 \<Rightarrow> tables \<Rightarrow> tables" where
  "delete_suppressions c t =
     t\<lparr>tb_suppressions := filter (\<lambda>r. \<not> (case sr_until r of None \<Rightarrow> False | Some x \<Rightarrow> x < c)) (tb_suppressions t)\<rparr>"

definition delete_attempts :: "i64 \<Rightarrow> tables \<Rightarrow> tables" where
  "delete_attempts c t =
     t\<lparr>tb_attempts := filter (\<lambda>r. \<not> (ar_attempted_at r < c \<and> ar_status r \<noteq> ''Pending'')) (tb_attempts t)\<rparr>"

definition and_then :: "unit run \<times> database \<Rightarrow> (database \<Rightarrow> unit run \<times> database) \<Rightarrow> unit run \<times> database" where
  "and_then r k = (case r of (Done _, db) \<Rightarrow> k db | (Panicked, db) \<Rightarrow> (Panicked, db))"

definition sweep :: "bool \<Rightarrow> retention_ages \<Rightarrow> datetime \<Rightarrow> database \<Rightarrow> unit run \<times> database" where
  "sweep checks config now db =
     (case nanos now of
        Panicked \<Rightarrow> (Panicked, db)
      | Done now_nanos \<Rightarrow>
          and_then (sweep_table checks now_nanos (rt_observations_max_age config) delete_observations db) (\<lambda>db.
          and_then (sweep_table checks now_nanos (rt_incidents_max_age config) delete_incidents db) (\<lambda>db.
          and_then (sweep_table checks now_nanos (rt_suppressions_grace config) delete_suppressions db) (\<lambda>db.
          and_then (sweep_table checks now_nanos (rt_attempts_max_age config) delete_attempts db) (\<lambda>db.
            (Done (), snd (statement (\<lambda>t. (Ok (), t)) db)))))))"

datatype retention_event = RetentionTick datetime | RetentionShutdown

fun retention_run :: "bool \<Rightarrow> retention_ages \<Rightarrow> retention_event list \<Rightarrow> database \<Rightarrow> unit run \<times> database" where
  "retention_run checks config [] db = (Done (), db)"
| "retention_run checks config (RetentionShutdown # _) db = (Done (), db)"
| "retention_run checks config (RetentionTick now # events) db =
     and_then (sweep checks config now db) (retention_run checks config events)"

section \<open>What a sweep keeps\<close>

lemma cutoff_after_epoch: "0 \<le> now \<Longrightarrow> now < 2 ^ 63 \<Longrightarrow> cutoff checks now age = Done (now - duration_nanos age)"
  by (simp add: cutoff_def i64_add_def i64_range_def duration_nanos_def)

text \<open>Which rows a sweep may delete at time \<open>now\<close>: those past the age of their table.\<close>

definition past :: "duration option \<Rightarrow> datetime \<Rightarrow> i64 \<Rightarrow> bool" where
  "past age now t \<longleftrightarrow> (\<exists>a. age = Some a \<and> t < now - duration_nanos a)"

definition swept :: "retention_ages \<Rightarrow> datetime \<Rightarrow> tables \<Rightarrow> tables" where
  "swept config now t =
     \<lparr>tb_observations = filter (\<lambda>r. \<not> past (rt_observations_max_age config) now (ob_observed_at r)) (tb_observations t),
      tb_incidents = filter (\<lambda>r. \<not> (\<exists>x. ir_resolved_at r = Some x \<and> past (rt_incidents_max_age config) now x)) (tb_incidents t),
      tb_suppressions = filter (\<lambda>r. \<not> (\<exists>x. sr_until r = Some x \<and> past (rt_suppressions_grace config) now x)) (tb_suppressions t),
      tb_attempts = filter (\<lambda>r. \<not> (ar_status r \<noteq> ''Pending'' \<and> past (rt_attempts_max_age config) now (ar_attempted_at r))) (tb_attempts t)\<rparr>"

text \<open>One \<open>DELETE\<close> happened or failed; without faults it happened.\<close>

definition may_delete :: "datetime \<Rightarrow> duration option \<Rightarrow> (i64 \<Rightarrow> tables \<Rightarrow> tables) \<Rightarrow> database \<Rightarrow> database \<Rightarrow> bool" where
  "may_delete now age del db db' \<longleftrightarrow> db_fault db' = db_fault db \<and>
     (db_tables db' = db_tables db \<or> (\<exists>a. age = Some a \<and> db_tables db' = del (now - duration_nanos a) (db_tables db))) \<and>
     (faultless db \<longrightarrow> (\<forall>a. age = Some a \<longrightarrow> db_tables db' = del (now - duration_nanos a) (db_tables db)))"

lemma sweep_table_tables:
  assumes "0 \<le> now" and "now < 2 ^ 63"
  shows "\<exists>db'. sweep_table checks now age del db = (Done (), db') \<and> may_delete now age del db db'"
proof (cases age)
  case (Some a)
  let ?stmt = "\<lambda>t. (Ok () :: sqlx_error + unit, del (now - duration_nanos a) t)"
  obtain r db' where st: "statement ?stmt db = (r, db')" by (cases "statement ?stmt db")
  have "sweep_table checks now age del db = (Done (), db')"
    using st by (simp add: sweep_table_def Some cutoff_after_epoch [OF assms])
  with statement_tables [OF st] Some show ?thesis
    by (auto simp: faultless_def may_delete_def)
qed (simp add: sweep_table_def may_delete_def)

lemmas delete_defs = delete_observations_def delete_incidents_def delete_suppressions_def delete_attempts_def

text \<open>
  After a sweep every table is as before or without its expired rows, and the latter when
  no statement failed.
\<close>

definition swept_from :: "retention_ages \<Rightarrow> datetime \<Rightarrow> tables \<Rightarrow> tables \<Rightarrow> bool" where
  "swept_from config now t t' \<longleftrightarrow>
     tb_observations t' \<in> {tb_observations t, tb_observations (swept config now t)} \<and>
     tb_incidents t' \<in> {tb_incidents t, tb_incidents (swept config now t)} \<and>
     tb_suppressions t' \<in> {tb_suppressions t, tb_suppressions (swept config now t)} \<and>
     tb_attempts t' \<in> {tb_attempts t, tb_attempts (swept config now t)}"

lemma swept_column:
  "age = Some a \<Longrightarrow> filter (\<lambda>r. \<not> (case f r of None \<Rightarrow> False | Some x \<Rightarrow> x < now - duration_nanos a)) rows =
     filter (\<lambda>r. \<not> (\<exists>x. f r = Some x \<and> past age now x)) rows"
  by (rule filter_cong) (auto simp: past_def split: option.split)

lemma past_None [simp]: "\<not> past None now t"
  by (simp add: past_def)

lemma past_Some [simp]: "past (Some a) now t \<longleftrightarrow> t < now - duration_nanos a"
  by (simp add: past_def)

lemma may_delete_swept:
  "may_delete now (rt_observations_max_age config) delete_observations db db' \<Longrightarrow> db_fault db' = db_fault db \<and>
     db_tables db' \<in> {db_tables db, (db_tables db)\<lparr>tb_observations := tb_observations (swept config now (db_tables db))\<rparr>} \<and>
     (faultless db \<longrightarrow> db_tables db' = (db_tables db)\<lparr>tb_observations := tb_observations (swept config now (db_tables db))\<rparr>)"
  "may_delete now (rt_incidents_max_age config) delete_incidents db db' \<Longrightarrow> db_fault db' = db_fault db \<and>
     db_tables db' \<in> {db_tables db, (db_tables db)\<lparr>tb_incidents := tb_incidents (swept config now (db_tables db))\<rparr>} \<and>
     (faultless db \<longrightarrow> db_tables db' = (db_tables db)\<lparr>tb_incidents := tb_incidents (swept config now (db_tables db))\<rparr>)"
  "may_delete now (rt_suppressions_grace config) delete_suppressions db db' \<Longrightarrow> db_fault db' = db_fault db \<and>
     db_tables db' \<in> {db_tables db, (db_tables db)\<lparr>tb_suppressions := tb_suppressions (swept config now (db_tables db))\<rparr>} \<and>
     (faultless db \<longrightarrow> db_tables db' = (db_tables db)\<lparr>tb_suppressions := tb_suppressions (swept config now (db_tables db))\<rparr>)"
  "may_delete now (rt_attempts_max_age config) delete_attempts db db' \<Longrightarrow> db_fault db' = db_fault db \<and>
     db_tables db' \<in> {db_tables db, (db_tables db)\<lparr>tb_attempts := tb_attempts (swept config now (db_tables db))\<rparr>} \<and>
     (faultless db \<longrightarrow> db_tables db' = (db_tables db)\<lparr>tb_attempts := tb_attempts (swept config now (db_tables db))\<rparr>)"
  subgoal by (cases "rt_observations_max_age config") (auto simp: may_delete_def delete_defs swept_def swept_column conj_commute)
  subgoal by (cases "rt_incidents_max_age config") (auto simp: may_delete_def delete_defs swept_def swept_column conj_commute)
  subgoal by (cases "rt_suppressions_grace config") (auto simp: may_delete_def delete_defs swept_def swept_column conj_commute)
  subgoal by (cases "rt_attempts_max_age config") (auto simp: may_delete_def delete_defs swept_def swept_column conj_commute)
  done

text \<open>Column by column: the swept table is as before or without its expired rows, the others as before.\<close>

lemma may_delete_columns:
  "may_delete now (rt_observations_max_age config) delete_observations db db' \<Longrightarrow>
     tb_observations (db_tables db') \<in> {tb_observations (db_tables db), tb_observations (swept config now (db_tables db))} \<and>
     tb_incidents (db_tables db') = tb_incidents (db_tables db) \<and>
     tb_suppressions (db_tables db') = tb_suppressions (db_tables db) \<and>
     tb_attempts (db_tables db') = tb_attempts (db_tables db)"
  "may_delete now (rt_incidents_max_age config) delete_incidents db db' \<Longrightarrow>
     tb_observations (db_tables db') = tb_observations (db_tables db) \<and>
     tb_incidents (db_tables db') \<in> {tb_incidents (db_tables db), tb_incidents (swept config now (db_tables db))} \<and>
     tb_suppressions (db_tables db') = tb_suppressions (db_tables db) \<and>
     tb_attempts (db_tables db') = tb_attempts (db_tables db)"
  "may_delete now (rt_suppressions_grace config) delete_suppressions db db' \<Longrightarrow>
     tb_observations (db_tables db') = tb_observations (db_tables db) \<and>
     tb_incidents (db_tables db') = tb_incidents (db_tables db) \<and>
     tb_suppressions (db_tables db') \<in> {tb_suppressions (db_tables db), tb_suppressions (swept config now (db_tables db))} \<and>
     tb_attempts (db_tables db') = tb_attempts (db_tables db)"
  "may_delete now (rt_attempts_max_age config) delete_attempts db db' \<Longrightarrow>
     tb_observations (db_tables db') = tb_observations (db_tables db) \<and>
     tb_incidents (db_tables db') = tb_incidents (db_tables db) \<and>
     tb_suppressions (db_tables db') = tb_suppressions (db_tables db) \<and>
     tb_attempts (db_tables db') \<in> {tb_attempts (db_tables db), tb_attempts (swept config now (db_tables db))}"
  subgoal by (drule may_delete_swept(1)) auto
  subgoal by (drule may_delete_swept(2)) auto
  subgoal by (drule may_delete_swept(3)) auto
  subgoal by (drule may_delete_swept(4)) auto
  done

lemma sweep_tables:
  assumes "0 \<le> now" and "now < 2 ^ 63"
  shows "\<exists>db'. sweep checks config now db = (Done (), db') \<and> db_fault db' = db_fault db \<and>
    swept_from config now (db_tables db) (db_tables db') \<and>
    (faultless db \<longrightarrow> db_tables db' = swept config now (db_tables db))"
proof -
  note step = sweep_table_tables [OF assms, of checks]
  obtain d1 where d1: "sweep_table checks now (rt_observations_max_age config) delete_observations db = (Done (), d1)"
    "may_delete now (rt_observations_max_age config) delete_observations db d1" using step by blast
  obtain d2 where d2: "sweep_table checks now (rt_incidents_max_age config) delete_incidents d1 = (Done (), d2)"
    "may_delete now (rt_incidents_max_age config) delete_incidents d1 d2" using step by blast
  obtain d3 where d3: "sweep_table checks now (rt_suppressions_grace config) delete_suppressions d2 = (Done (), d3)"
    "may_delete now (rt_suppressions_grace config) delete_suppressions d2 d3" using step by blast
  obtain d4 where d4: "sweep_table checks now (rt_attempts_max_age config) delete_attempts d3 = (Done (), d4)"
    "may_delete now (rt_attempts_max_age config) delete_attempts d3 d4" using step by blast
  let ?nop = "\<lambda>t. (Ok () :: sqlx_error + unit, t)"
  obtain r db' where v: "statement ?nop d4 = (r, db')" by (cases "statement ?nop d4")
  have db': "db_tables db' = db_tables d4" "db_fault db' = db_fault d4"
    using statement_tables [OF v] by auto
  have run: "sweep checks config now db = (Done (), db')"
    using assms d1(1) d2(1) d3(1) d4(1) v by (simp add: sweep_def and_then_def nanos_def)
  note 1 = may_delete_swept(1) [OF d1(2)] and 2 = may_delete_swept(2) [OF d2(2)]
    and 3 = may_delete_swept(3) [OF d3(2)] and 4 = may_delete_swept(4) [OF d4(2)]
  have fault: "db_fault d1 = db_fault db" "db_fault d2 = db_fault db" "db_fault d3 = db_fault db" "db_fault d4 = db_fault db"
    using 1 2 3 4 by simp_all
  have "tb_observations (db_tables d4) \<in> {tb_observations (db_tables db), tb_observations (swept config now (db_tables db))}"
    "tb_incidents (db_tables d4) \<in> {tb_incidents (db_tables db), tb_incidents (swept config now (db_tables db))}"
    "tb_suppressions (db_tables d4) \<in> {tb_suppressions (db_tables db), tb_suppressions (swept config now (db_tables db))}"
    "tb_attempts (db_tables d4) \<in> {tb_attempts (db_tables db), tb_attempts (swept config now (db_tables db))}"
    using may_delete_columns(1) [OF d1(2)] may_delete_columns(2) [OF d2(2)] may_delete_columns(3) [OF d3(2)]
      may_delete_columns(4) [OF d4(2)] by (simp_all add: swept_def)
  then have "swept_from config now (db_tables db) (db_tables d4)"
    by (simp only: swept_from_def)
  moreover have "db_tables d4 = swept config now (db_tables db)" if "faultless db"
    using that 1 2 3 4 fault by (simp add: faultless_def swept_def)
  ultimately show ?thesis
    using run fault db' by auto
qed

lemma retention_run_step:
  assumes "sweep checks config now db = (Done (), db1)"
  shows "retention_run checks config (RetentionTick now # events) db = retention_run checks config events db1"
  by (simp add: assms and_then_def)

definition open_rows_unresolved :: "sqlite_outside \<Rightarrow> database \<Rightarrow> bool" where
  "open_rows_unresolved so db \<longleftrightarrow> (\<forall>k i. sir_rows so db k = Some i \<and> inc_status i \<noteq> StResolved \<longrightarrow> inc_resolved_at i = None)"

definition pending_rows :: "database \<Rightarrow> attempt_row list" where
  "pending_rows db = filter (\<lambda>r. ar_status r = ''Pending'') (tb_attempts (db_tables db))"

lemma swept_live:
  assumes s: "swept_from config now (db_tables db) (db_tables db')" and v: "sir_valid so db" and u: "open_rows_unresolved so db"
  shows "sir_valid so db' \<and> open_rows_unresolved so db' \<and> pending_rows db' = pending_rows db \<and>
    (\<forall>k i. inc_status i \<noteq> StResolved \<longrightarrow> (sir_rows so db' k = Some i) = (sir_rows so db k = Some i))"
proof -
  let ?old = "tb_incidents (db_tables db)" and ?new = "tb_incidents (db_tables db')"
  have sub: "set ?new \<subseteq> set ?old"
    using s by (auto simp: swept_from_def swept_def)
  have v': "sir_valid so db'"
    using s v keyed_filter [of ir_id ?old] by (auto simp: swept_from_def swept_def sir_valid_def)
  have keep: "row \<in> set ?new" if "row \<in> set ?old" "mirrors so row i" "inc_status i \<noteq> StResolved" for row i
  proof -
    have "sir_rows so db (inc_id i) = Some i"
      using that sir_rows_iff [OF v] by blast
    then have "ir_resolved_at row = None"
      using u that mirrorsD(4) [OF that(2)] by (simp add: open_rows_unresolved_def)
    with s that(1) show ?thesis
      by (auto simp: swept_from_def swept_def)
  qed
  have same: "inc_status i \<noteq> StResolved \<Longrightarrow> (sir_rows so db' k = Some i) = (sir_rows so db k = Some i)" for k i
    unfolding sir_rows_iff [OF v] sir_rows_iff [OF v'] using sub keep by blast
  have "open_rows_unresolved so db'"
    using same u unfolding open_rows_unresolved_def by blast
  moreover have "pending_rows db' = pending_rows db"
  proof -
    have "tb_attempts (db_tables db') = tb_attempts (db_tables db) \<or>
        tb_attempts (db_tables db') = tb_attempts (swept config now (db_tables db))"
      using s by (simp add: swept_from_def)
    moreover have "filter (\<lambda>r. ar_status r = ''Pending'') (tb_attempts (swept config now t)) =
        filter (\<lambda>r. ar_status r = ''Pending'') (tb_attempts t)" for t
      unfolding swept_def tables.select_convs filter_filter by (rule filter_cong) auto
    ultimately show ?thesis
      by (auto simp: pending_rows_def)
  qed
  ultimately show ?thesis
    using v' same by blast
qed

lemma retention_run_live:
  assumes "\<forall>now. RetentionTick now \<in> set events \<longrightarrow> 0 \<le> now \<and> now < 2 ^ 63"
    and "sir_valid so db" and "open_rows_unresolved so db"
  shows "\<exists>db'. retention_run checks config events db = (Done (), db') \<and> (faultless db \<longrightarrow> faultless db') \<and> sir_valid so db' \<and>
    pending_rows db' = pending_rows db \<and>
    (\<forall>k i. inc_status i \<noteq> StResolved \<longrightarrow> (sir_rows so db' k = Some i) = (sir_rows so db k = Some i))"
  using assms
proof (induction events arbitrary: db)
  case (Cons x events)
  show ?case
  proof (cases x)
    case (RetentionTick now)
    then have "0 \<le> now" "now < 2 ^ 63"
      using Cons.prems(1) by auto
    from sweep_tables [OF this, of checks config db]
    obtain db1 where db1: "sweep checks config now db = (Done (), db1)" "swept_from config now (db_tables db) (db_tables db1)"
      "faultless db \<longrightarrow> faultless db1"
      unfolding faultless_def by metis
    note live = swept_live [OF db1(2) Cons.prems(2,3)]
    have "\<exists>db'. retention_run checks config events db1 = (Done (), db') \<and> (faultless db1 \<longrightarrow> faultless db') \<and> sir_valid so db' \<and>
        pending_rows db' = pending_rows db1 \<and>
        (\<forall>k i. inc_status i \<noteq> StResolved \<longrightarrow> (sir_rows so db' k = Some i) = (sir_rows so db1 k = Some i))"
      by (rule Cons.IH) (use Cons.prems(1) live in auto)
    with live db1(3) show ?thesis
      unfolding RetentionTick retention_run_step [OF db1(1)] by auto
  qed (use Cons.prems in simp)
qed simp



end
