(* ===== verification/Sqlite_Observations.thy ===== *)
theory Sqlite_Observations
  imports Sqlite_Tables Bitcoin_Collector
begin

text \<open>
  \<open>storage/sqlite/observation_store.rs\<close>: the observation log as a table, written in one
  transaction per batch.  The subject is stored as two text columns and parsed back, the
  payload, the attributes and the integration as JSON.  The store refines the in-memory
  one for observations whose columns can be read back.
\<close>

section \<open>Columns\<close>

definition split_scoped :: "sqlite_outside \<Rightarrow> string \<Rightarrow> string \<Rightarrow> store_error + string \<times> string" where
  "split_scoped so k kind =
     (case split_once (CHR ''/'') k of
        Some p \<Rightarrow> Ok p
      | None \<Rightarrow> Err (StoreCorruption (''scoped subject_kind '' @ so_debug so kind @ '' expects '' @ [CHR 0x27] @
          ''node_id/sub_id'' @ [CHR 0x27] @ '' but got '' @ so_debug so k)))"

definition scoped :: "(string \<Rightarrow> string \<Rightarrow> entity_ref) \<Rightarrow> store_error + string \<times> string \<Rightarrow> store_error + entity_ref" where
  "scoped mk r = (case r of Err e \<Rightarrow> Err e | Ok (node, sub) \<Rightarrow> Ok (mk node sub))"

definition subject_from_pair :: "sqlite_outside \<Rightarrow> string \<Rightarrow> string \<Rightarrow> store_error + entity_ref" where
  "subject_from_pair so kind k =
     (if kind = ''sidecar'' then
        (case so_parse_uuid so k of
           Err e \<Rightarrow> Err (StoreCorruption (''sidecar subject_id is not a UUID: '' @ e))
         | Ok u \<Rightarrow> Ok (Sidecar (SidecarId u)))
      else if kind = ''host'' then Ok (Host (HostId k))
      else if kind = ''bitcoin_node'' then Ok (BitcoinNode (BitcoinNodeId k))
      else if kind = ''bitcoin_peer'' then
        scoped (\<lambda>n p. BitcoinPeer (BitcoinNodeId n) (BitcoinPeerId p)) (split_scoped so k kind)
      else if kind = ''lnd_node'' then Ok (LndNode (LndNodeId k))
      else if kind = ''lnd_peer'' then scoped (\<lambda>n p. LndPeer (LndNodeId n) (LndPeerId p)) (split_scoped so k kind)
      else if kind = ''lnd_channel'' then
        scoped (\<lambda>n c. LndChannel (LndNodeId n) (LndChannelId c)) (split_scoped so k kind)
      else if kind = ''lnd_invoice'' then
        scoped (\<lambda>n i. LndInvoice (LndNodeId n) (LndInvoiceId i)) (split_scoped so k kind)
      else Err (StoreCorruption (''unknown subject_kind in observations row: '' @ kind)))"

fun origin_str :: "observation_origin \<Rightarrow> string" where
  "origin_str Collected = ''collected''"
| "origin_str Computed = ''computed''"
| "origin_str Imported = ''imported''"
| "origin_str UserReported = ''user_reported''"

definition origin_from_str :: "string \<Rightarrow> store_error + observation_origin" where
  "origin_from_str s =
     (if s = ''collected'' then Ok Collected
      else if s = ''computed'' then Ok Computed
      else if s = ''imported'' then Ok Imported
      else if s = ''user_reported'' then Ok UserReported
      else Err (StoreCorruption (''unknown origin in observations row: '' @ s)))"

fun payload_kind :: "observation_payload \<Rightarrow> string" where
  "payload_kind (PCapability _) = ''capability''"
| "payload_kind (PDiagnosis _) = ''diagnosis''"
| "payload_kind (PEvent _) = ''event''"
| "payload_kind (PHeartbeat _) = ''heartbeat''"
| "payload_kind (PHealth _) = ''health''"
| "payload_kind (PIncidentSignal _) = ''incident_signal''"
| "payload_kind (PInventory _) = ''inventory''"
| "payload_kind (PMetric _) = ''metric''"
| "payload_kind (PState _) = ''state''"
| "payload_kind (PTransition _) = ''transition''"

section \<open>Operations\<close>

definition observation_row_of :: "sqlite_outside \<Rightarrow> observation \<Rightarrow> (store_error + observation_row) run" where
  "observation_row_of so ob =
     (case to_json (so_integration so) (cref_integration (src_collector (obs_source ob))) of
        Err e \<Rightarrow> Done (Err (StoreSerialization e))
      | Ok integration_json \<Rightarrow>
     (case to_json (so_payload so) (obs_payload ob) of
        Err e \<Rightarrow> Done (Err (StoreSerialization e))
      | Ok payload_json \<Rightarrow>
     (case to_json (so_attributes so) (obs_attributes ob) of
        Err e \<Rightarrow> Done (Err (StoreSerialization e))
      | Ok attributes_json \<Rightarrow>
     (case nanos (obs_observed_at ob) of
        Panicked \<Rightarrow> Panicked
      | Done observed_at \<Rightarrow>
     (case nanos_opt (obs_received_at ob) of
        Panicked \<Rightarrow> Panicked
      | Done received_at \<Rightarrow>
          Done (Ok \<lparr>ob_id = (case obs_id ob of ObservationId u \<Rightarrow> u), ob_observed_at = observed_at,
            ob_received_at = received_at, ob_subject_kind = subject_kind_str (obs_subject ob),
            ob_subject_id = subject_id_str (so_uuid_str so) (obs_subject ob),
            ob_sidecar_id = (case src_sidecar_id (obs_source ob) of SidecarId u \<Rightarrow> u),
            ob_collector_id = (case cref_id (src_collector (obs_source ob)) of CollectorId s \<Rightarrow> s),
            ob_integration = integration_json, ob_instance_label = cref_instance_label (src_collector (obs_source ob)),
            ob_origin = origin_str (obs_origin ob), ob_payload_kind = payload_kind (obs_payload ob),
            ob_payload_json = payload_json, ob_attributes_json = attributes_json\<rparr>))))))"

fun insert_observations ::
    "sqlite_outside \<Rightarrow> observation list \<Rightarrow> database \<Rightarrow> (store_error + unit) run \<times> database" where
  "insert_observations so [] db = (Done (Ok ()), db)"
| "insert_observations so (ob # obs) db =
     (case observation_row_of so ob of
        Panicked \<Rightarrow> (Panicked, db)
      | Done (Err e) \<Rightarrow> (Done (Err e), db)
      | Done (Ok row) \<Rightarrow>
          (case statement (\<lambda>t. let (r, rows) = insert_row ob_id row (tb_observations t)
                 in (r, t\<lparr>tb_observations := rows\<rparr>)) db of
             (Err e, db) \<Rightarrow> (Done (Err (StoreDatabase (sqlx_text e))), db)
           | (Ok _, db) \<Rightarrow> insert_observations so obs db))"

text \<open>A transaction that does not commit is rolled back when its handle is dropped.\<close>

definition rolled_back :: "database \<Rightarrow> database \<Rightarrow> database" where
  "rolled_back before db = db\<lparr>db_tables := db_tables before\<rparr>"

definition sos_append_many ::
    "sqlite_outside \<Rightarrow> observation list \<Rightarrow> database \<Rightarrow> (store_error + unit) run \<times> database" where
  "sos_append_many so batch db =
     (if batch = [] then (Done (Ok ()), db)
      else (case statement (\<lambda>t. (Ok (), t)) db of
         (Err e, db) \<Rightarrow> (Done (Err (StoreDatabase (sqlx_text e))), db)
       | (Ok _, begun) \<Rightarrow>
           (case insert_observations so batch begun of
              (Done (Ok _), db) \<Rightarrow>
                (case statement (\<lambda>t. (Ok (), t)) db of
                   (Err e, db) \<Rightarrow> (Done (Err (StoreDatabase (sqlx_text e))), rolled_back begun db)
                 | (Ok _, db) \<Rightarrow> (Done (Ok ()), db))
            | (r, db) \<Rightarrow> (r, rolled_back begun db))))"

definition row_to_observation :: "sqlite_outside \<Rightarrow> observation_row \<Rightarrow> store_error + observation" where
  "row_to_observation so row =
     (case subject_from_pair so (ob_subject_kind row) (ob_subject_id row) of
        Err e \<Rightarrow> Err e
      | Ok subject \<Rightarrow>
     (case origin_from_str (ob_origin row) of
        Err e \<Rightarrow> Err e
      | Ok origin \<Rightarrow>
     (case from_json (so_integration so) (ob_integration row) of
        Err e \<Rightarrow> Err (StoreSerialization e)
      | Ok integration \<Rightarrow>
     (case from_json (so_payload so) (ob_payload_json row) of
        Err e \<Rightarrow> Err (StoreSerialization e)
      | Ok payload \<Rightarrow>
     (case from_json (so_attributes so) (ob_attributes_json row) of
        Err e \<Rightarrow> Err (StoreSerialization e)
      | Ok attrs \<Rightarrow>
          Ok \<lparr>obs_id = ObservationId (ob_id row), obs_observed_at = ob_observed_at row,
            obs_received_at = ob_received_at row,
            obs_source = \<lparr>src_sidecar_id = SidecarId (ob_sidecar_id row),
              src_collector = \<lparr>cref_id = CollectorId (ob_collector_id row), cref_integration = integration,
                cref_instance_label = ob_instance_label row\<rparr>\<rparr>,
            obs_subject = subject, obs_origin = origin, obs_attributes = attrs, obs_payload = payload\<rparr>)))))"

text \<open>The stream of \<open>iter_since\<close> as the list of its items; an error of the query is an item.\<close>

definition sos_iter_since ::
    "sqlite_outside \<Rightarrow> datetime \<Rightarrow> database \<Rightarrow> (store_error + observation) list run \<times> database" where
  "sos_iter_since so since db =
     (case nanos since of
        Panicked \<Rightarrow> (Panicked, db)
      | Done since_nanos \<Rightarrow>
          (case statement (\<lambda>t. (Ok (so_order_observations so ob_observed_at
                 (filter (\<lambda>r. ob_observed_at r \<ge> since_nanos) (tb_observations t))), t)) db of
             (Err e, db) \<Rightarrow> (Done [Err (StoreDatabase (sqlx_text e))], db)
           | (Ok rows, db) \<Rightarrow> (Done (map (row_to_observation so) rows), db)))"

definition sos_get_by_id ::
    "sqlite_outside \<Rightarrow> observation_id \<Rightarrow> database \<Rightarrow> (store_error + observation option) \<times> database" where
  "sos_get_by_id so k db =
     (case statement (\<lambda>t. (Ok (row_of ob_id (tb_observations t) (case k of ObservationId u \<Rightarrow> u)), t)) db of
        (Err e, db) \<Rightarrow> (Err (StoreDatabase (sqlx_text e)), db)
      | (Ok None, db) \<Rightarrow> (Ok None, db)
      | (Ok (Some row), db) \<Rightarrow>
          (case row_to_observation so row of Err e \<Rightarrow> (Err e, db) | Ok ob \<Rightarrow> (Ok (Some ob), db)))"

section \<open>Subjects\<close>

definition uuid_text_ok :: "sqlite_outside \<Rightarrow> bool" where
  "uuid_text_ok so \<longleftrightarrow> (\<forall>u. so_parse_uuid so (so_uuid_str so u) = Ok u)"

definition slash_free :: "entity_ref \<Rightarrow> bool" where
  "slash_free e \<longleftrightarrow> (\<forall>n. scope_of e = Some n \<longrightarrow> CHR ''/'' \<notin> set n)"

lemma split_once_append: "split_once c (n @ [c] @ p) = Some (n, p) \<longleftrightarrow> c \<notin> set n"
proof
  assume "split_once c (n @ [c] @ p) = Some (n, p)"
  then have "takeWhile (\<lambda>x. x \<noteq> c) (n @ [c] @ p) = n"
    by (auto simp: split_once_def split: list.splits)
  then show "c \<notin> set n"
    using set_takeWhileD [of c "\<lambda>x. x \<noteq> c" "n @ [c] @ p"] by auto
next
  assume "c \<notin> set n"
  then have "\<forall>x \<in> set n. x \<noteq> c" by blast
  then show "split_once c (n @ [c] @ p) = Some (n, p)"
    by (simp add: split_once_def dropWhile_append2 takeWhile_append2)
qed

lemma split_scoped_append:
  "split_scoped so (n @ ''/'' @ p) kind = Ok (n, p) \<longleftrightarrow> CHR ''/'' \<notin> set n"
proof -
  have "dropWhile (\<lambda>x. x \<noteq> CHR ''/'') (n @ ''/'' @ p) \<noteq> []"
    by (simp add: dropWhile_eq_Nil_conv)
  then have "split_once (CHR ''/'') (n @ ''/'' @ p) \<noteq> None"
    by (simp add: split_once_def split: list.split)
  then show ?thesis
    using split_once_append [of "CHR ''/''" n p] by (auto simp: split_scoped_def split: option.splits)
qed

text \<open>The stored pair of columns is read back as the subject exactly when its node id has no slash.\<close>

lemma subject_round_trip:
  assumes "uuid_text_ok so"
  shows "subject_from_pair so (subject_kind_str e) (subject_id_str (so_uuid_str so) e) = Ok e \<longleftrightarrow> slash_free e"
proof -
  have pair: "scoped mk (split_scoped so (n @ ''/'' @ p) kind) = Ok (mk n p) \<longleftrightarrow> CHR ''/'' \<notin> set n"
    if "\<And>a b a' b'. mk a b = mk a' b' \<Longrightarrow> a = a' \<and> b = b'" for mk n p kind
    using split_scoped_append [of so n p kind] that
    by (cases "split_scoped so (n @ ''/'' @ p) kind") (auto simp: scoped_def)
  note pairs = pair [of "\<lambda>n p. BitcoinPeer (BitcoinNodeId n) (BitcoinPeerId p)", simplified]
    pair [of "\<lambda>n p. LndPeer (LndNodeId n) (LndPeerId p)", simplified]
    pair [of "\<lambda>n c. LndChannel (LndNodeId n) (LndChannelId c)", simplified]
    pair [of "\<lambda>n i. LndInvoice (LndNodeId n) (LndInvoiceId i)", simplified]
  show ?thesis
    using assms
    by (cases "(so_uuid_str so, e)" rule: subject_id_str.cases)
      (simp_all add: subject_from_pair_def slash_free_def uuid_text_ok_def pairs)
qed

lemma origin_round_trip [simp]: "origin_from_str (origin_str x) = Ok x"
  by (cases x) (simp_all add: origin_from_str_def)

section \<open>Round trip of a row\<close>

definition storable_observation :: "sqlite_outside \<Rightarrow> observation \<Rightarrow> bool" where
  "storable_observation so ob \<longleftrightarrow> storable (obs_observed_at ob) \<and> (\<forall>t. obs_received_at ob = Some t \<longrightarrow> storable t) \<and>
     slash_free (obs_subject ob) \<and> round_trips (so_payload so) (obs_payload ob) \<and>
     round_trips (so_attributes so) (obs_attributes ob) \<and>
     round_trips (so_integration so) (cref_integration (src_collector (obs_source ob)))"

definition records :: "sqlite_outside \<Rightarrow> observation_row \<Rightarrow> observation \<Rightarrow> bool" where
  "records so row ob \<longleftrightarrow> observation_row_of so ob = Done (Ok row) \<and> row_to_observation so row = Ok ob"

lemma observation_round_trip:
  assumes "uuid_text_ok so" and s: "storable_observation so ob"
  shows "\<exists>row. records so row ob"
proof -
  have sub: "subject_from_pair so (subject_kind_str (obs_subject ob)) (subject_id_str (so_uuid_str so) (obs_subject ob)) =
      Ok (obs_subject ob)"
    using subject_round_trip [OF assms(1)] s by (simp add: storable_observation_def)
  obtain p a i where j: "to_json (so_payload so) (obs_payload ob) = Ok p" "from_json (so_payload so) p = Ok (obs_payload ob)"
    "to_json (so_attributes so) (obs_attributes ob) = Ok a" "from_json (so_attributes so) a = Ok (obs_attributes ob)"
    "to_json (so_integration so) (cref_integration (src_collector (obs_source ob))) = Ok i"
    "from_json (so_integration so) i = Ok (cref_integration (src_collector (obs_source ob)))"
    using s by (auto simp: storable_observation_def round_trips_def)
  have t: "nanos (obs_observed_at ob) = Done (obs_observed_at ob)" "nanos_opt (obs_received_at ob) = Done (obs_received_at ob)"
    using s by (simp_all add: nanos_storable nanos_opt_storable storable_observation_def)
  have ids: "ObservationId (case obs_id ob of ObservationId u \<Rightarrow> u) = obs_id ob"
    "SidecarId (case src_sidecar_id (obs_source ob) of SidecarId u \<Rightarrow> u) = src_sidecar_id (obs_source ob)"
    "CollectorId (case cref_id (src_collector (obs_source ob)) of CollectorId s \<Rightarrow> s) = cref_id (src_collector (obs_source ob))"
    by (simp_all split: observation_id.split sidecar_id.split collector_id.split)
  show ?thesis
    using sub j t ids by (simp add: records_def observation_row_of_def row_to_observation_def)
qed

lemma records_columns:
  assumes "records so row ob"
  shows "obs_id ob = ObservationId (ob_id row)" and "ob_observed_at row = obs_observed_at ob"
proof -
  have "observation_row_of so ob = Done (Ok row)"
    using assms by (simp add: records_def)
  then show "obs_id ob = ObservationId (ob_id row)" "ob_observed_at row = obs_observed_at ob"
    by (auto simp: observation_row_of_def nanos_storable nanos_opt_storable
        split: sum.splits run.splits observation_id.split)
qed

section \<open>Refinement of the in-memory store\<close>

definition sos_sim :: "sqlite_outside \<Rightarrow> database \<Rightarrow> memory_observation_store \<Rightarrow> bool" where
  "sos_sim so db m \<longleftrightarrow> keyed ob_id (tb_observations (db_tables db)) \<and>
     list_all2 (records so) (tb_observations (db_tables db)) (mos_inner m)"

lemma sim_ids:
  "list_all2 (records so) rows obs \<Longrightarrow> map obs_id obs = map (\<lambda>r. ObservationId (ob_id r)) rows"
  by (induction rows obs rule: list_all2_induct) (simp_all add: records_columns(1))

text \<open>Inside the transaction: the rows inserted so far are the encodings of a prefix of the batch.\<close>

lemma insert_observations_sim:
  assumes "uuid_text_ok so" and "list_all (storable_observation so) obs" and "sos_sim so db m"
    and "insert_observations so obs db = (r, db')"
  shows "r \<noteq> Panicked \<and> db_fault db' = db_fault db \<and>
    (r = Done (Ok ()) \<longrightarrow> sos_sim so db' \<lparr>mos_inner = mos_inner m @ obs\<rparr>) \<and>
    (faultless db \<and> distinct (map obs_id (mos_inner m @ obs)) \<longrightarrow> r = Done (Ok ()))"
  using assms(2-4)
proof (induction obs arbitrary: db m)
  case (Cons ob obs)
  obtain row where row: "records so row ob"
    using observation_round_trip [OF assms(1)] Cons.prems(1) by auto
  let ?stmt = "\<lambda>t. let (q, rows) = insert_row ob_id row (tb_observations t) in (q, t\<lparr>tb_observations := rows\<rparr>)"
  obtain q db1 where st: "statement ?stmt db = (q, db1)" by (cases "statement ?stmt db")
  have sim: "list_all2 (records so) (tb_observations (db_tables db)) (mos_inner m)"
    "keyed ob_id (tb_observations (db_tables db))"
    using Cons.prems(2) by (simp_all add: sos_sim_def)
  note t = statement_tables [OF st]
  show ?case
  proof (cases q)
    case (Inl e)
    then have "r = Done (Err (StoreDatabase (sqlx_text e)))" "db' = db1"
      using Cons.prems(3) row st by (auto simp: records_def)
    moreover have "\<not> (faultless db \<and> distinct (map obs_id (mos_inner m @ ob # obs)))"
    proof
      assume a: "faultless db \<and> distinct (map obs_id (mos_inner m @ ob # obs))"
      then have "ObservationId (ob_id row) \<notin> set (map (\<lambda>r. ObservationId (ob_id r)) (tb_observations (db_tables db)))"
        unfolding sim_ids [OF sim(1), symmetric] records_columns(1) [OF row, symmetric] by auto
      then have "ob_id row \<notin> ob_id ` set (tb_observations (db_tables db))" by auto
      then show False
        using a t Inl by (auto simp: faultless_def insert_row_def)
    qed
    ultimately show ?thesis
      using t by simp
  next
    case (Inr u)
    obtain v rows' where v: "insert_row ob_id row (tb_observations (db_tables db)) = (v, rows')"
      by (cases "insert_row ob_id row (tb_observations (db_tables db))")
    with t Inr have "v = Ok ()" and e: "(db_tables db)\<lparr>tb_observations := rows'\<rparr> = db_tables db1"
      by auto
    moreover have "rows' = tb_observations (db_tables db1)"
      unfolding e [symmetric] by simp
    ultimately have ins: "insert_row ob_id row (tb_observations (db_tables db)) = (Ok (), tb_observations (db_tables db1))"
      using v by simp
    have "sos_sim so db1 \<lparr>mos_inner = mos_inner m @ [ob]\<rparr>"
      using insert_row_Ok(3,4) [OF ins] sim row by (simp add: sos_sim_def list_all2_appendI)
    moreover have "insert_observations so obs db1 = (r, db')"
      using Cons.prems(3) row st Inr by (simp add: records_def)
    moreover have "faultless db1 = faultless db" "db_fault db1 = db_fault db"
      using t by (simp_all add: faultless_def)
    ultimately show ?thesis
      using Cons.IH [of db1 "\<lparr>mos_inner = mos_inner m @ [ob]\<rparr>"] Cons.prems(1) by simp
  qed
qed (auto simp: sos_sim_def)

lemma mos_append_many_inner: "snd (mos_append_many batch m) = \<lparr>mos_inner = mos_inner m @ batch\<rparr>"
  by (cases m) (simp add: mos_append_many_def)

lemma sos_append_many_cases:
  assumes "uuid_text_ok so" and "list_all (storable_observation so) batch" and "sos_sim so db m"
    and "sos_append_many so batch db = (r, db')"
  shows "(r = Done (Ok ()) \<and> sos_sim so db' (snd (mos_append_many batch m)) \<or>
      (\<exists>e. r = Done (Err e)) \<and> db_tables db' = db_tables db) \<and> db_fault db' = db_fault db \<and>
    (faultless db \<and> distinct (map obs_id (mos_inner m @ batch)) \<longrightarrow> r = Done (Ok ()))"
proof (cases "batch = []")
  case True
  with assms(3,4) show ?thesis
    by (auto simp: sos_append_many_def mos_append_many_def)
next
  case False
  let ?nop = "\<lambda>t. (Ok () :: sqlx_error + unit, t)"
  obtain q begun where b: "statement ?nop db = (q, begun)" by (cases "statement ?nop db")
  note tb = statement_tables [OF b]
  show ?thesis
  proof (cases q)
    case (Inl e)
    with b tb False assms(4) show ?thesis
      by (auto simp: sos_append_many_def faultless_def)
  next
    case (Inr u)
    then have same: "db_tables begun = db_tables db" "db_fault begun = db_fault db"
      using tb by auto
    then have sim: "sos_sim so begun m" and fl: "faultless begun = faultless db"
      using assms(3) by (simp_all add: sos_sim_def faultless_def)
    obtain p db2 where ins: "insert_observations so batch begun = (p, db2)"
      by (cases "insert_observations so batch begun")
    note i = insert_observations_sim [OF assms(1,2) sim ins]
    obtain q' db3 where c: "statement ?nop db2 = (q', db3)" by (cases "statement ?nop db2")
    note tc = statement_tables [OF c]
    show ?thesis
    proof (cases "p = Done (Ok ())")
      case True
      then have "sos_sim so db2 (snd (mos_append_many batch m))"
        using i by (simp add: mos_append_many_inner)
      then have "q' = Ok () \<Longrightarrow> sos_sim so db3 (snd (mos_append_many batch m))"
        using tc by (auto simp: sos_sim_def)
      then show ?thesis
        using assms(4) False b Inr ins True c tc i same
        by (cases q') (auto simp: sos_append_many_def rolled_back_def faultless_def)
    next
      case False
      then obtain x where "p = Done x" "x \<noteq> Ok ()"
        using i by (cases p) auto
      then obtain e where "p = Done (Err e)"
        by (cases x) auto
      then show ?thesis
        using assms(4) \<open>batch \<noteq> []\<close> b Inr ins i same fl False
        by (auto simp: sos_append_many_def rolled_back_def)
    qed
  qed
qed

lemma sim_find:
  assumes "list_all2 (records so) rows obs"
  shows "case row_of ob_id rows u of
      None \<Rightarrow> find (\<lambda>ob. obs_id ob = ObservationId u) obs = None
    | Some row \<Rightarrow> \<exists>ob. row_to_observation so row = Ok ob \<and> find (\<lambda>ob. obs_id ob = ObservationId u) obs = Some ob"
  using assms
proof (induction rows obs rule: list_all2_induct)
  case (Cons row rows ob obs)
  then have "row_to_observation so row = Ok ob" "obs_id ob = ObservationId (ob_id row)"
    using records_columns(1) [of so row ob] by (simp_all add: records_def)
  with Cons.IH show ?case by (auto split: option.splits)
qed simp

lemma sos_get_by_id_sim:
  assumes "sos_sim so db m" and "faultless db"
  shows "fst (sos_get_by_id so k db) = mos_get_by_id k m"
proof -
  obtain u where k: "k = ObservationId u" by (cases k)
  have "db_fault db (db_statements db) = None"
    using assms(2) by (simp add: faultless_def)
  moreover have "list_all2 (records so) (tb_observations (db_tables db)) (mos_inner m)"
    using assms(1) by (simp add: sos_sim_def)
  ultimately show ?thesis
    using sim_find [of so "tb_observations (db_tables db)" "mos_inner m" u]
    by (auto simp: sos_get_by_id_def mos_get_by_id_def statement_def Let_def k split: option.splits)
qed

lemma sim_observation_decoder:
  assumes "list_all2 (records so) rows obs"
  shows "\<exists>dec. (\<forall>r \<in> set rows. records so r (dec r)) \<and> obs = map dec rows"
proof -
  let ?dec = "\<lambda>r. case row_to_observation so r of Ok ob \<Rightarrow> ob"
  have "(\<forall>r \<in> set rows. records so r (?dec r)) \<and> obs = map ?dec rows"
    using assms
  proof (induction rows obs rule: list_all2_induct)
    case (Cons row rows ob obs)
    then have "row_to_observation so row = Ok ob" by (simp add: records_def)
    with Cons show ?case by simp
  qed simp
  then show ?thesis by (intro exI [of _ ?dec])
qed

lemma sos_iter_since_sim:
  assumes sim: "sos_sim so db m" and "faultless db" and ord: "orders (so_order_observations so)" and "storable since"
  shows "\<exists>xs ys. fst (sos_iter_since so since db) = Done (map Ok xs) \<and> mos_iter_since since m = Ok ys \<and>
    mset xs = mset ys \<and> sorted (map obs_observed_at xs)"
proof -
  let ?rows = "tb_observations (db_tables db)"
  obtain dec where dec: "\<forall>r \<in> set ?rows. records so r (dec r)" "mos_inner m = map dec ?rows"
    using sim_observation_decoder [of so ?rows "mos_inner m"] sim by (auto simp: sos_sim_def)
  have col: "\<And>r. r \<in> set ?rows \<Longrightarrow> obs_observed_at (dec r) = ob_observed_at r"
    using dec(1) records_columns(2) by metis
  have row: "\<And>r. r \<in> set ?rows \<Longrightarrow> row_to_observation so r = Ok (dec r)"
    using dec(1) by (simp add: records_def)
  let ?sel = "filter (\<lambda>r. ob_observed_at r \<ge> since) ?rows"
  let ?ord = "so_order_observations so ob_observed_at ?sel"
  have sel: "\<forall>r \<in> set ?ord. r \<in> set ?rows"
    using orders_set [OF ord, of ob_observed_at ?sel] by simp
  have "db_fault db (db_statements db) = None" "nanos since = Done since"
    using assms(2,4) by (simp_all add: faultless_def nanos_storable)
  moreover have "map (row_to_observation so) ?ord = map Ok (map dec ?ord)"
    using sel row by (simp only: map_map map_eq_conv comp_apply) blast
  ultimately have "fst (sos_iter_since so since db) = Done (map Ok (map dec ?ord))"
    by (simp add: sos_iter_since_def statement_def)
  moreover have "mset (map dec ?ord) = mset (sort_key obs_observed_at (filter (\<lambda>ob. obs_observed_at ob \<ge> since) (mos_inner m)))"
  proof -
    have "filter (\<lambda>ob. obs_observed_at ob \<ge> since) (mos_inner m) = map dec ?sel"
      unfolding dec(2) filter_map comp_def by (intro arg_cong [where f = "map dec"] filter_cong refl) (simp add: col)
    then have "mset (sort_key obs_observed_at (filter (\<lambda>ob. obs_observed_at ob \<ge> since) (mos_inner m))) = mset (map dec ?sel)"
      by simp
    also have "\<dots> = mset (map dec ?ord)"
      using ord by (simp only: orders_def mset_map)
    finally show ?thesis by simp
  qed
  moreover have "sorted (map obs_observed_at (map dec ?ord))"
  proof -
    have "map obs_observed_at (map dec ?ord) = map ob_observed_at ?ord"
      using sel col by (simp only: map_map map_eq_conv comp_apply) blast
    then show ?thesis
      using orders_sorted [OF ord, of ob_observed_at ?sel] by (simp only:)
  qed
  moreover have "mos_iter_since since m = Ok (sort_key obs_observed_at (filter (\<lambda>ob. obs_observed_at ob \<ge> since) (mos_inner m)))"
    by (simp add: mos_iter_since_def)
  ultimately show ?thesis
    by (intro exI conjI) assumption+
qed

section \<open>Properties\<close>

text \<open>C20. A stored subject is read back unchanged exactly when its node id has no slash.
  The two text columns of a subject determine it for every kind of entity, except for a
  peer, channel or invoice of a node whose id contains a slash, which comes back as another
  entity: the split is at the first slash.\<close>

theorem stored_subject_read_back:
  assumes "uuid_text_ok so"
  shows "(subject_from_pair so (subject_kind_str e) (subject_id_str (so_uuid_str so) e) = Ok e) =
    (case scope_of e of None \<Rightarrow> True | Some n \<Rightarrow> CHR ''/'' \<notin> set n)"
  using subject_round_trip [OF assms, of e] by (auto simp: slash_free_def split: option.split)

text \<open>C17. The SQLite observation log refines the in-memory one.
  Appending a batch of observations that can be stored either appends all of it or, when
  any statement fails or an id is taken, changes no table; it never panics.  Without faults
  and with fresh ids it succeeds, and then the log answers as the in-memory log: the same
  observation by id, and the same observations since a given time, oldest first.\<close>

theorem sqlite_log_refines_memory:
  assumes "uuid_text_ok so" and "orders (so_order_observations so)" and "sos_sim so db m"
    and "list_all (storable_observation so) batch" and "storable since"
    and "sos_append_many so batch db = (r, db')"
  shows "(r = Done (Ok ()) \<and> sos_sim so db' (snd (mos_append_many batch m)) \<or>
      (\<exists>e. r = Done (Err e)) \<and> db_tables db' = db_tables db) \<and>
    (faultless db \<and> distinct (map obs_id (mos_inner m @ batch)) \<longrightarrow>
      r = Done (Ok ()) \<and>
      (\<forall>k. fst (sos_get_by_id so k db') = mos_get_by_id k (snd (mos_append_many batch m))) \<and>
      (\<exists>xs ys. fst (sos_iter_since so since db') = Done (map Ok xs) \<and>
         mos_iter_since since (snd (mos_append_many batch m)) = Ok ys \<and>
         mset xs = mset ys \<and> sorted (map obs_observed_at xs)))"
proof -
  note c = sos_append_many_cases [OF assms(1,4,3,6)]
  have live: "sos_sim so db' (snd (mos_append_many batch m)) \<and> faultless db'"
    if "faultless db" "distinct (map obs_id (mos_inner m @ batch))"
    using c that by (auto simp: faultless_def)
  show ?thesis
    using c live sos_get_by_id_sim [of so db' "snd (mos_append_many batch m)"]
      sos_iter_since_sim [of so db' "snd (mos_append_many batch m)" since] assms(2,5)
    by simp
qed

theorem stored_subject_read_back_witness:
  "subject_from_pair (sample_sqlite\<lparr>so_uuid_str := \<lambda>u. replicate (unat u) (CHR ''u''), so_parse_uuid := \<lambda>s. Ok (of_nat (length s))\<rparr>)
     ''bitcoin_peer'' ''a/b/p'' \<noteq> Ok (BitcoinPeer (BitcoinNodeId ''a/b'') (BitcoinPeerId ''p''))"
proof -
  let ?so = "sample_sqlite\<lparr>so_uuid_str := \<lambda>u. replicate (unat u) (CHR ''u''), so_parse_uuid := \<lambda>s. Ok (of_nat (length s))\<rparr>"
  have "uuid_text_ok ?so"
    by (simp add: uuid_text_ok_def)
  from stored_subject_read_back [OF this, of "BitcoinPeer (BitcoinNodeId ''a/b'') (BitcoinPeerId ''p'')"]
  show ?thesis by simp
qed

theorem sqlite_log_refines_memory_witness:
  "\<exists>db'. sos_append_many
       (sample_sqlite\<lparr>so_uuid_str := \<lambda>u. replicate (unat u) (CHR ''u''), so_parse_uuid := \<lambda>s. Ok (of_nat (length s)),
          so_payload := sample_codec (obs_payload (sample_state 1 20 True)),
          so_attributes := sample_codec (obs_attributes (sample_state 1 20 True)),
          so_integration := sample_codec (cref_integration (src_collector (obs_source (sample_state 1 20 True))))\<rparr>)
       [sample_state 1 20 True] empty_db = (Done (Ok ()), db')"
proof -
  let ?so = "sample_sqlite\<lparr>so_uuid_str := \<lambda>u. replicate (unat u) (CHR ''u''), so_parse_uuid := \<lambda>s. Ok (of_nat (length s)),
      so_payload := sample_codec (obs_payload (sample_state 1 20 True)),
      so_attributes := sample_codec (obs_attributes (sample_state 1 20 True)),
      so_integration := sample_codec (cref_integration (src_collector (obs_source (sample_state 1 20 True))))\<rparr>"
  have u: "uuid_text_ok ?so"
    by (simp add: uuid_text_ok_def)
  have o: "orders (so_order_observations ?so)"
    by (simp add: sample_sqlite_def orders_sort_key)
  have sim: "sos_sim ?so empty_db mos_new"
    by (simp add: sos_sim_def empty_db_def empty_tables_def mos_new_def)
  have st: "list_all (storable_observation ?so) [sample_state 1 20 True]" "storable 0"
    by (simp_all add: storable_observation_def storable_def slash_free_def round_trips_def sample_codec_def
        sample_state_def observation_defs)
  obtain r db' where run: "sos_append_many ?so [sample_state 1 20 True] empty_db = (r, db')"
    by (cases "sos_append_many ?so [sample_state 1 20 True] empty_db")
  have "faultless empty_db \<and> distinct (map obs_id (mos_inner mos_new @ [sample_state 1 20 True]))"
    by (simp add: faultless_def empty_db_def mos_new_def)
  with sqlite_log_refines_memory [OF u o sim st run] run show ?thesis by blast
qed


end
