(* ===== verification/Http_Api.thy ===== *)
theory Http_Api
  imports Sqlite_Incidents Sqlite_Observations
begin

text \<open>
  The read-only operator API (\<open>api/\<close>): the data transfer objects, the error responses, the
  four handlers and the router, over the repository operations they call; then the API on
  the SQLite repositories.  Rendering a response as JSON, decoding a path and the text
  of a \<open>Uuid\<close> are code of \<open>serde_json\<close>, \<open>axum\<close> and \<open>uuid\<close>: a response is its status and its
  body before rendering, a path the list of its decoded segments.
\<close>

section \<open>Data transfer objects\<close>

datatype subject_dto =
    DtoSidecar uuid
  | DtoHost string
  | DtoBitcoinNode string
  | DtoBitcoinPeer string string
  | DtoLndNode string
  | DtoLndPeer string string
  | DtoLndChannel string string
  | DtoLndInvoice string string

fun subject_dto_of :: "entity_ref \<Rightarrow> subject_dto" where
  "subject_dto_of (Sidecar (SidecarId u)) = DtoSidecar u"
| "subject_dto_of (Host (HostId s)) = DtoHost s"
| "subject_dto_of (BitcoinNode (BitcoinNodeId s)) = DtoBitcoinNode s"
| "subject_dto_of (BitcoinPeer (BitcoinNodeId n) (BitcoinPeerId p)) = DtoBitcoinPeer n p"
| "subject_dto_of (LndNode (LndNodeId s)) = DtoLndNode s"
| "subject_dto_of (LndPeer (LndNodeId n) (LndPeerId p)) = DtoLndPeer n p"
| "subject_dto_of (LndChannel (LndNodeId n) (LndChannelId c)) = DtoLndChannel n c"
| "subject_dto_of (LndInvoice (LndNodeId n) (LndInvoiceId i)) = DtoLndInvoice n i"

record db_health_dto =
  dh_reachable :: bool
  dh_latency_ms :: "u64 option"

record health_dto =
  hd_sidecar_id :: uuid
  hd_version :: string
  hd_uptime_seconds :: nat
  hd_latest_heartbeat_at :: "datetime option"
  hd_db :: db_health_dto

record incident_summary_dto =
  is_id :: uuid
  is_fingerprint :: string
  is_kind :: string
  is_subject :: subject_dto
  is_severity :: incident_severity
  is_status :: incident_status
  is_opened_at :: datetime
  is_updated_at :: datetime
  is_summary :: string

definition incident_uuid :: "incident \<Rightarrow> uuid" where
  "incident_uuid i = (case inc_id i of IncidentId u \<Rightarrow> u)"

definition incident_summary_dto_of :: "(uuid \<Rightarrow> string) \<Rightarrow> incident \<Rightarrow> incident_summary_dto" where
  "incident_summary_dto_of uuid_str i =
     \<lparr>is_id = incident_uuid i, is_fingerprint = as_key uuid_str (inc_fingerprint i),
      is_kind = incident_kind_as_str (inc_kind i), is_subject = subject_dto_of (inc_subject i),
      is_severity = inc_severity i, is_status = inc_status i, is_opened_at = inc_opened_at i,
      is_updated_at = inc_updated_at i, is_summary = inc_summary i\<rparr>"

record incident_list_dto =
  il_count :: nat
  il_incidents :: "incident_summary_dto list"

record incident_detail_dto =
  det_id :: uuid
  det_fingerprint :: string
  det_kind :: string
  det_subject :: subject_dto
  det_severity :: incident_severity
  det_status :: incident_status
  det_opened_at :: datetime
  det_updated_at :: datetime
  det_resolved_at :: "datetime option"
  det_signal_observation_ids :: "uuid list"
  det_evidence :: "uuid list"
  det_summary :: string
  det_evidence_summary :: "string list"

definition incident_detail_dto_of :: "(uuid \<Rightarrow> string) \<Rightarrow> incident \<Rightarrow> incident_detail_dto" where
  "incident_detail_dto_of uuid_str i =
     \<lparr>det_id = incident_uuid i, det_fingerprint = as_key uuid_str (inc_fingerprint i),
      det_kind = incident_kind_as_str (inc_kind i), det_subject = subject_dto_of (inc_subject i),
      det_severity = inc_severity i, det_status = inc_status i, det_opened_at = inc_opened_at i,
      det_updated_at = inc_updated_at i, det_resolved_at = inc_resolved_at i,
      det_signal_observation_ids = map (\<lambda>k. case k of ObservationId u \<Rightarrow> u) (inc_signal_observation_ids i),
      det_evidence = map (\<lambda>e. case e of EvidenceRef (ObservationId u) \<Rightarrow> u) (inc_evidence i),
      det_summary = inc_summary i, det_evidence_summary = inc_evidence_summary i\<rparr>"

record evidence_source_dto =
  es_collector_id :: string
  es_sidecar_id :: uuid

record evidence_observation_dto =
  eo_observation_id :: uuid
  eo_observed_at :: datetime
  eo_subject :: subject_dto
  eo_source :: evidence_source_dto
  eo_origin :: string
  eo_payload :: json

definition evidence_observation_dto_of ::
    "(observation_payload \<Rightarrow> string + json) \<Rightarrow> observation \<Rightarrow> string + evidence_observation_dto" where
  "evidence_observation_dto_of to_value ob =
     (case to_value (obs_payload ob) of
        Err e \<Rightarrow> Err e
      | Ok payload \<Rightarrow>
          Ok \<lparr>eo_observation_id = (case obs_id ob of ObservationId u \<Rightarrow> u), eo_observed_at = obs_observed_at ob,
            eo_subject = subject_dto_of (obs_subject ob),
            eo_source = \<lparr>es_collector_id = (case cref_id (src_collector (obs_source ob)) of CollectorId s \<Rightarrow> s),
              es_sidecar_id = (case src_sidecar_id (obs_source ob) of SidecarId u \<Rightarrow> u)\<rparr>,
            eo_origin = origin_as_str (obs_origin ob), eo_payload = payload\<rparr>)"

record incident_evidence_dto =
  ie_incident_id :: uuid
  ie_evidence :: "evidence_observation_dto list"

section \<open>Errors\<close>

datatype api_error =
    NotFound string
  | ApiBadRequest string
  | Storage incident_repo_error
  | ObservationStore store_error
  | Serialization string
  | Internal string

fun incident_repo_error_display :: "(incident_id \<Rightarrow> string) \<Rightarrow> incident_repo_error \<Rightarrow> string" where
  "incident_repo_error_display dbg (IncidentBackend e) = ''backend: '' @ e"
| "incident_repo_error_display dbg (IncidentConflict k) = ''conflict on incident '' @ dbg k"
| "incident_repo_error_display dbg (IncidentNotFound k) = ''incident not found: '' @ dbg k"

fun store_error_display :: "store_error \<Rightarrow> string" where
  "store_error_display (StoreIo e) = ''io: '' @ e"
| "store_error_display (StoreDatabase e) = ''database: '' @ e"
| "store_error_display (StoreSerialization e) = ''serialization: '' @ e"
| "store_error_display (StoreCorruption e) = ''corruption: '' @ e"
| "store_error_display StoreNotInitialized = ''not initialized''"

fun api_error_display :: "(incident_id \<Rightarrow> string) \<Rightarrow> api_error \<Rightarrow> string" where
  "api_error_display dbg (NotFound s) = ''not found: '' @ s"
| "api_error_display dbg (ApiBadRequest s) = ''bad request: '' @ s"
| "api_error_display dbg (Storage e) = ''storage error: '' @ incident_repo_error_display dbg e"
| "api_error_display dbg (ObservationStore e) = ''observation store error: '' @ store_error_display e"
| "api_error_display dbg (Serialization s) = ''serialization: '' @ s"
| "api_error_display dbg (Internal s) = ''internal: '' @ s"

datatype api_body =
    HealthBody health_dto
  | ListBody incident_list_dto
  | DetailBody incident_detail_dto
  | EvidenceBody incident_evidence_dto
  | ErrorBody string string

fun error_status :: "api_error \<Rightarrow> nat \<times> string" where
  "error_status (NotFound _) = (404, ''not_found'')"
| "error_status (ApiBadRequest _) = (400, ''bad_request'')"
| "error_status (Storage _) = (500, ''internal_error'')"
| "error_status (ObservationStore _) = (500, ''internal_error'')"
| "error_status (Internal _) = (500, ''internal_error'')"
| "error_status (Serialization _) = (500, ''internal_error'')"

definition into_response :: "(incident_id \<Rightarrow> string) \<Rightarrow> api_error \<Rightarrow> nat \<times> api_body" where
  "into_response dbg e = (let (status, tag) = error_status e in (status, ErrorBody tag (api_error_display dbg e)))"

section \<open>Handlers\<close>

record 'w api_deps =
  ad_sidecar_id :: sidecar_id
  ad_sidecar_version :: string
  ad_started_at :: instant
  ad_load_open :: "'w \<Rightarrow> (incident_repo_error + incident list) \<times> 'w"
  ad_get :: "incident_id \<Rightarrow> 'w \<Rightarrow> (incident_repo_error + incident option) \<times> 'w"
  ad_get_by_id :: "observation_id \<Rightarrow> 'w \<Rightarrow> (store_error + observation option) \<times> 'w"
  ad_to_value :: "observation_payload \<Rightarrow> string + json"
  ad_uuid_str :: "uuid \<Rightarrow> string"
  ad_parse_uuid :: "string \<Rightarrow> string + uuid"
  ad_debug_id :: "incident_id \<Rightarrow> string"

definition parse_incident_id :: "(string \<Rightarrow> string + uuid) \<Rightarrow> string \<Rightarrow> string + incident_id" where
  "parse_incident_id parse s = (case parse s of Err e \<Rightarrow> Err e | Ok u \<Rightarrow> Ok (IncidentId u))"

text \<open>The clock readings of a health request: its start, the end of the probe, and the reading of the uptime.\<close>

definition health_handler :: "'w api_deps \<Rightarrow> instant \<Rightarrow> instant \<Rightarrow> instant \<Rightarrow> 'w \<Rightarrow> (nat \<times> api_body) \<times> 'w" where
  "health_handler deps started probed now w =
     (let (db_result, w) = ad_load_open deps w;
          millis = saturating_duration_since probed started div 1000000;
          latency_ms = (if millis < 2 ^ 64 then of_nat millis else - 1 :: u64);
          (status, db) = (case db_result of
              Ok _ \<Rightarrow> (200, \<lparr>dh_reachable = True, dh_latency_ms = Some latency_ms\<rparr>)
            | Err _ \<Rightarrow> (503, \<lparr>dh_reachable = False, dh_latency_ms = None\<rparr>))
      in ((status, HealthBody \<lparr>hd_sidecar_id = (case ad_sidecar_id deps of SidecarId u \<Rightarrow> u),
              hd_version = ad_sidecar_version deps,
              hd_uptime_seconds = saturating_duration_since now (ad_started_at deps) div 1000000000,
              hd_latest_heartbeat_at = None, hd_db = db\<rparr>), w))"

definition list_open :: "'w api_deps \<Rightarrow> 'w \<Rightarrow> (api_error + incident_list_dto) \<times> 'w" where
  "list_open deps w =
     (case ad_load_open deps w of
        (Err e, w) \<Rightarrow> (Err (Storage e), w)
      | (Ok incidents, w) \<Rightarrow>
          let summaries = map (incident_summary_dto_of (ad_uuid_str deps)) (sort_key (\<lambda>i. - inc_opened_at i) incidents)
          in (Ok \<lparr>il_count = length summaries, il_incidents = summaries\<rparr>, w))"

text \<open>The common start of the two handlers with an id: parse it, load the incident, refuse what is not there.\<close>

definition find_incident :: "'w api_deps \<Rightarrow> string \<Rightarrow> 'w \<Rightarrow> (api_error + incident) \<times> 'w" where
  "find_incident deps k w =
     (case parse_incident_id (ad_parse_uuid deps) k of
        Err e \<Rightarrow> (Err (ApiBadRequest (''invalid incident id: '' @ e)), w)
      | Ok parsed \<Rightarrow>
          (case ad_get deps parsed w of
             (Err e, w) \<Rightarrow> (Err (Storage e), w)
           | (Ok None, w) \<Rightarrow> (Err (NotFound (''incident '' @ k @ '' not found'')), w)
           | (Ok (Some incident), w) \<Rightarrow> (Ok incident, w)))"

definition detail :: "'w api_deps \<Rightarrow> string \<Rightarrow> 'w \<Rightarrow> (api_error + incident_detail_dto) \<times> 'w" where
  "detail deps k w =
     (case find_incident deps k w of
        (Err e, w) \<Rightarrow> (Err e, w)
      | (Ok incident, w) \<Rightarrow> (Ok (incident_detail_dto_of (ad_uuid_str deps) incident), w))"

fun load_evidence :: "'w api_deps \<Rightarrow> evidence_ref list \<Rightarrow> 'w \<Rightarrow> (api_error + evidence_observation_dto list) \<times> 'w" where
  "load_evidence deps [] w = (Ok [], w)"
| "load_evidence deps (EvidenceRef k # refs) w =
     (case ad_get_by_id deps k w of
        (Err e, w) \<Rightarrow> (Err (ObservationStore e), w)
      | (Ok None, w) \<Rightarrow> load_evidence deps refs w
      | (Ok (Some ob), w) \<Rightarrow>
          (case evidence_observation_dto_of (ad_to_value deps) ob of
             Err e \<Rightarrow> (Err (Serialization e), w)
           | Ok dto \<Rightarrow>
               (case load_evidence deps refs w of
                  (Err e, w) \<Rightarrow> (Err e, w)
                | (Ok dtos, w) \<Rightarrow> (Ok (dto # dtos), w))))"

definition evidence :: "'w api_deps \<Rightarrow> string \<Rightarrow> 'w \<Rightarrow> (api_error + incident_evidence_dto) \<times> 'w" where
  "evidence deps k w =
     (case find_incident deps k w of
        (Err e, w) \<Rightarrow> (Err e, w)
      | (Ok incident, w) \<Rightarrow>
          (case load_evidence deps (inc_evidence incident) w of
             (Err e, w) \<Rightarrow> (Err e, w)
           | (Ok observations, w) \<Rightarrow>
               (Ok \<lparr>ie_incident_id = incident_uuid incident, ie_evidence = observations\<rparr>, w)))"

text \<open>The router: a literal segment goes before a captured one.\<close>

datatype api_route = RouteHealth | RouteOpen | RouteDetail string | RouteEvidence string

definition build_router :: "string list \<Rightarrow> api_route option" where
  "build_router path =
     (if path = [''health''] then Some RouteHealth
      else if path = [''incidents'', ''open''] then Some RouteOpen
      else case path of
             [p, k] \<Rightarrow> if p = ''incidents'' then Some (RouteDetail k) else None
           | [p, k, q] \<Rightarrow> if p = ''incidents'' \<and> q = ''evidence'' then Some (RouteEvidence k) else None
           | _ \<Rightarrow> None)"

definition respond :: "'w api_deps \<Rightarrow> ('d \<Rightarrow> api_body) \<Rightarrow> (api_error + 'd) \<times> 'w \<Rightarrow> (nat \<times> api_body) \<times> 'w" where
  "respond deps mk r =
     (case r of (Err e, w) \<Rightarrow> (into_response (ad_debug_id deps) e, w) | (Ok d, w) \<Rightarrow> ((200, mk d), w))"

definition serve :: "'w api_deps \<Rightarrow> instant \<times> instant \<times> instant \<Rightarrow> api_route \<Rightarrow> 'w \<Rightarrow> (nat \<times> api_body) \<times> 'w" where
  "serve deps clock route w =
     (case route of
        RouteHealth \<Rightarrow> (case clock of (started, probed, now) \<Rightarrow> health_handler deps started probed now w)
      | RouteOpen \<Rightarrow> respond deps ListBody (list_open deps w)
      | RouteDetail k \<Rightarrow> respond deps DetailBody (detail deps k w)
      | RouteEvidence k \<Rightarrow> respond deps EvidenceBody (evidence deps k w))"

section \<open>The API on the SQLite repositories\<close>

definition sqlite_api ::
    "sqlite_outside \<Rightarrow> (observation_payload \<Rightarrow> string + json) \<Rightarrow> (incident_id \<Rightarrow> string) \<Rightarrow> sidecar_id \<Rightarrow> string \<Rightarrow> instant \<Rightarrow>
     database api_deps" where
  "sqlite_api so to_value dbg sidecar version started_at =
     \<lparr>ad_sidecar_id = sidecar, ad_sidecar_version = version, ad_started_at = started_at, ad_load_open = sir_load_open so,
      ad_get = sir_get so, ad_get_by_id = sos_get_by_id so, ad_to_value = to_value, ad_uuid_str = so_uuid_str so,
      ad_parse_uuid = so_parse_uuid so, ad_debug_id = dbg\<rparr>"

text \<open>Queries change no table.\<close>

definition unwritten :: "database \<Rightarrow> database \<Rightarrow> bool" where
  "unwritten db db' \<longleftrightarrow> db_tables db' = db_tables db \<and> db_fault db' = db_fault db"

lemma unwritten_refl: "unwritten db db"
  by (simp add: unwritten_def)

lemma unwritten_trans: "unwritten a b \<Longrightarrow> unwritten b c \<Longrightarrow> unwritten a c"
  by (simp add: unwritten_def)

lemma statement_unwritten: "(\<And>t. snd (stmt t) = t) \<Longrightarrow> unwritten db (snd (statement stmt db))"
  by (auto simp: unwritten_def statement_def Let_def split: option.split prod.split) (metis snd_conv)

lemma queries_unwritten:
  "unwritten db (snd (sir_load_open so db))" "unwritten db (snd (sir_get so k db))" "unwritten db (snd (sos_get_by_id so ob db))"
  using statement_unwritten [of "\<lambda>t. (Ok (so_order_incidents so ir_opened_at
             (filter (\<lambda>r. ir_status r \<noteq> inc_status_str StResolved) (tb_incidents t))), t)" db]
    statement_unwritten [of "\<lambda>t. (Ok (row_of ir_id (tb_incidents t) (case k of IncidentId u \<Rightarrow> u)), t)" db]
    statement_unwritten [of "\<lambda>t. (Ok (row_of ob_id (tb_observations t) (case ob of ObservationId u \<Rightarrow> u)), t)" db]
  by (auto simp: sir_load_open_def sir_get_def sos_get_by_id_def split: prod.split sum.split option.split)

text \<open>The same state for every query: it depends on the tables only.\<close>

lemma unwritten_views:
  assumes "unwritten db db'"
  shows "sir_valid so db' = sir_valid so db" and "sir_rows so db' = sir_rows so db" and "sos_sim so db' m = sos_sim so db m"
    and "faultless db' = faultless db"
  using assms by (simp_all add: unwritten_def sir_valid_def sir_rows_def sos_sim_def faultless_def fun_eq_iff)

lemma sos_get_by_id_answer:
  assumes "sos_sim so db m"
  shows "(\<exists>e. fst (sos_get_by_id so k db) = Err e) \<and> \<not> faultless db \<or> fst (sos_get_by_id so k db) = mos_get_by_id k m"
proof (cases "db_fault db (db_statements db)")
  case (Some e)
  then show ?thesis
    by (auto simp: sos_get_by_id_def statement_def Let_def faultless_def)
next
  case None
  let ?db = "db\<lparr>db_fault := \<lambda>_. None\<rparr>"
  have "sos_sim so ?db m" "faultless ?db"
    using assms by (simp_all add: sos_sim_def faultless_def)
  then have "fst (sos_get_by_id so k ?db) = mos_get_by_id k m"
    by (rule sos_get_by_id_sim)
  with None show ?thesis
    by (simp add: sos_get_by_id_def statement_def Let_def split: prod.splits option.splits sum.splits)
qed

text \<open>What an incident's evidence is: the observations it names that the log still holds, in its order.\<close>

definition evidence_of :: "memory_observation_store \<Rightarrow> evidence_ref list \<Rightarrow> observation list" where
  "evidence_of m refs =
     concat (map (\<lambda>e. case e of EvidenceRef k \<Rightarrow>
       (case find (\<lambda>ob. obs_id ob = k) (mos_inner m) of None \<Rightarrow> [] | Some ob \<Rightarrow> [ob])) refs)"

definition evidence_answer ::
    "(observation_payload \<Rightarrow> string + json) \<Rightarrow> memory_observation_store \<Rightarrow> evidence_ref list \<Rightarrow> database \<Rightarrow>
     (api_error + evidence_observation_dto list) \<times> database \<Rightarrow> bool" where
  "evidence_answer to_value m refs db r \<longleftrightarrow> unwritten db (snd r) \<and>
     ((\<exists>e. fst r = Err (ObservationStore e)) \<and> \<not> faultless db \<or>
      (\<exists>dtos. fst r = Ok dtos \<and> map Ok dtos = map (evidence_observation_dto_of to_value) (evidence_of m refs)))"

lemma load_evidence_answer:
  fixes so :: sqlite_outside and to_value :: "observation_payload \<Rightarrow> string + json" and dbg :: "incident_id \<Rightarrow> string"
    and sidecar :: sidecar_id and version :: string and started_at :: instant
  defines "deps \<equiv> sqlite_api so to_value dbg sidecar version started_at"
  assumes "sos_sim so db m" and "\<forall>p. \<exists>v. to_value p = Ok v"
  shows "evidence_answer to_value m refs db (load_evidence deps refs db)"
  using assms(2)
proof (induction refs arbitrary: db)
  case Nil
  then show ?case by (simp add: evidence_answer_def evidence_of_def unwritten_refl)
next
  case (Cons r refs)
  obtain k where r: "r = EvidenceRef k" by (cases r)
  obtain q db1 where g: "sos_get_by_id so k db = (q, db1)" by (cases "sos_get_by_id so k db")
  have u: "unwritten db db1"
    using queries_unwritten(3) [of db so k] g by simp
  have ops: "ad_get_by_id deps = sos_get_by_id so" "ad_to_value deps = to_value"
    by (simp_all add: deps_def sqlite_api_def)
  have IH: "evidence_answer to_value m refs db1 (load_evidence deps refs db1)"
    by (rule Cons.IH) (use Cons.prems unwritten_views(3) [OF u] in simp)
  obtain rest db2 where l: "load_evidence deps refs db1 = (rest, db2)" by (cases "load_evidence deps refs db1")
  have u2: "unwritten db db2"
    using unwritten_trans [OF u] IH l by (simp add: evidence_answer_def)
  have f1: "faultless db1 = faultless db"
    by (rule unwritten_views(4) [OF u])
  note defs = evidence_answer_def evidence_of_def
  show ?case
  proof (cases q)
    case (Inl e)
    then have "\<not> faultless db"
      using sos_get_by_id_answer [OF Cons.prems, of k] g by (auto simp: mos_get_by_id_def)
    with Inl u show ?thesis
      by (simp add: r ops g defs)
  next
    case (Inr found)
    then have found: "found = find (\<lambda>ob. obs_id ob = k) (mos_inner m)"
      using sos_get_by_id_answer [OF Cons.prems, of k] g by (auto simp: mos_get_by_id_def)
    show ?thesis
    proof (cases found)
      case None
      with Inr found IH l u2 f1 show ?thesis
        by (simp add: r ops g defs)
    next
      case (Some ob)
      obtain v where "to_value (obs_payload ob) = Ok v"
        using assms(3) by blast
      then obtain dto where dto: "evidence_observation_dto_of to_value ob = Ok dto"
        by (simp add: evidence_observation_dto_of_def)
      show ?thesis
      proof (cases rest)
        case (Inl e)
        with Inr Some found IH l u2 f1 dto show ?thesis
          by (simp add: r ops g defs)
      next
        case (Inr dtos)
        with \<open>q = Inr found\<close> Some found IH l u2 f1 dto show ?thesis
          by (auto simp: r ops g defs intro!: exI [of _ "dto # dtos"])
      qed
    qed
  qed
qed

text \<open>The right answer to a request, on the rows of the incident table and the observations of the log.\<close>

definition right_answer ::
    "sqlite_outside \<Rightarrow> (observation_payload \<Rightarrow> string + json) \<Rightarrow> database \<Rightarrow> memory_observation_store \<Rightarrow> api_route \<Rightarrow>
     nat \<Rightarrow> api_body \<Rightarrow> bool" where
  "right_answer so to_value db m route status body \<longleftrightarrow>
     (case route of
        RouteHealth \<Rightarrow> status = 200 \<and> (\<exists>h. body = HealthBody h \<and> dh_reachable (hd_db h))
      | RouteOpen \<Rightarrow> status = 200 \<and>
          (\<exists>is. body = ListBody \<lparr>il_count = length is, il_incidents = map (incident_summary_dto_of (so_uuid_str so)) is\<rparr> \<and>
             sorted (map (\<lambda>i. - inc_opened_at i) is) \<and> distinct (map inc_id is) \<and>
             set is = {i. \<exists>k. sir_rows so db k = Some i \<and> inc_status i \<noteq> StResolved})
      | RouteDetail k \<Rightarrow>
          (case so_parse_uuid so k of
             Err _ \<Rightarrow> status = 400
           | Ok u \<Rightarrow>
               (case sir_rows so db (IncidentId u) of
                  None \<Rightarrow> status = 404
                | Some i \<Rightarrow> status = 200 \<and> body = DetailBody (incident_detail_dto_of (so_uuid_str so) i)))
      | RouteEvidence k \<Rightarrow>
          (case so_parse_uuid so k of
             Err _ \<Rightarrow> status = 400
           | Ok u \<Rightarrow>
               (case sir_rows so db (IncidentId u) of
                  None \<Rightarrow> status = 404
                | Some i \<Rightarrow> status = 200 \<and>
                    (\<exists>dtos. body = EvidenceBody \<lparr>ie_incident_id = u, ie_evidence = dtos\<rparr> \<and>
                       map Ok dtos = map (evidence_observation_dto_of to_value) (evidence_of m (inc_evidence i))))))"

lemma find_incident_answer:
  fixes so :: sqlite_outside and to_value :: "observation_payload \<Rightarrow> string + json" and dbg :: "incident_id \<Rightarrow> string"
    and sidecar :: sidecar_id and version :: string and started_at :: instant
  defines "deps \<equiv> sqlite_api so to_value dbg sidecar version started_at"
  assumes "sir_valid so db"
  shows "unwritten db (snd (find_incident deps k db)) \<and>
    ((\<exists>e. fst (find_incident deps k db) = Err (Storage e)) \<and> \<not> faultless db \<or>
     (case so_parse_uuid so k of
        Err _ \<Rightarrow> (\<exists>s. fst (find_incident deps k db) = Err (ApiBadRequest s))
      | Ok u \<Rightarrow>
          (case sir_rows so db (IncidentId u) of
             None \<Rightarrow> (\<exists>s. fst (find_incident deps k db) = Err (NotFound s))
           | Some i \<Rightarrow> fst (find_incident deps k db) = Ok i \<and> incident_uuid i = u)))"
proof (cases "so_parse_uuid so k")
  case (Inl e)
  then show ?thesis
    by (simp add: find_incident_def parse_incident_id_def deps_def sqlite_api_def unwritten_refl)
next
  case (Inr u)
  obtain q db1 where g: "sir_get so (IncidentId u) db = (q, db1)" by (cases "sir_get so (IncidentId u) db")
  have un: "unwritten db db1"
    using queries_unwritten(2) [of db so "IncidentId u"] g by simp
  have ans: "(\<exists>e. q = Err e) \<and> \<not> faultless db \<or> q = Ok (sir_rows so db (IncidentId u))"
    using sir_get_answer [OF assms(2), of "IncidentId u"] g by simp
  have ids: "sir_rows so db (IncidentId u) = Some i \<Longrightarrow> incident_uuid i = u" for i
    using sir_rows_id [OF assms(2)] by (simp add: incident_uuid_def)
  show ?thesis
    using Inr g un ans ids
    by (cases "sir_rows so db (IncidentId u)")
      (auto simp: find_incident_def parse_incident_id_def deps_def sqlite_api_def)
qed

text \<open>A request for the evidence of an incident: the incident is looked up, then each reference.\<close>

lemma evidence_answers:
  assumes "sir_valid so db" and "sos_sim so db m" and "\<forall>p. \<exists>v. to_value p = Ok v"
    and "serve (sqlite_api so to_value dbg sidecar version started_at) clock (RouteEvidence k) db = ((status, body), db')"
  shows "unwritten db db' \<and>
    (\<not> faultless db \<and> status = 500 \<or> right_answer so to_value db m (RouteEvidence k) status body)"
proof -
  let ?deps = "sqlite_api so to_value dbg sidecar version started_at"
  note find = find_incident_answer [where to_value = to_value and dbg = dbg and sidecar = sidecar and version = version
      and started_at = started_at, OF assms(1)]
  note err = respond_def into_response_def
  obtain r db2 where f: "find_incident ?deps k db = (r, db2)" by (cases "find_incident ?deps k db")
  show ?thesis
  proof (cases r)
    case (Inl e)
    with find [of k] f assms(4) show ?thesis
      by (auto simp: serve_def evidence_def right_answer_def unwritten_def err split: sum.splits option.splits)
  next
    case (Inr i)
    have u2: "unwritten db db2"
      using find [of k] f by simp
    have sim2: "sos_sim so db2 m"
      using assms(2) unwritten_views(3) [OF u2] by simp
    obtain s db3 where e: "load_evidence ?deps (inc_evidence i) db2 = (s, db3)"
      by (cases "load_evidence ?deps (inc_evidence i) db2")
    note le = load_evidence_answer [where dbg = dbg and sidecar = sidecar and version = version and started_at = started_at
        and refs = "inc_evidence i", OF sim2 assms(3), unfolded e evidence_answer_def fst_conv snd_conv]
    have "unwritten db db3"
      by (rule unwritten_trans [OF u2]) (rule conjunct1 [OF le])
    moreover have "faultless db2 = faultless db"
      by (rule unwritten_views(4) [OF u2])
    ultimately show ?thesis
      using find [of k] f Inr assms(4) e le
      by (cases s) (auto simp: serve_def evidence_def right_answer_def unwritten_def err split: sum.splits option.splits)
  qed
qed

lemma api_answer:
  assumes "sir_valid so db" and "sos_sim so db m" and "orders (so_order_incidents so)" and "\<forall>p. \<exists>v. to_value p = Ok v"
    and "serve (sqlite_api so to_value dbg sidecar version started_at) clock route db = ((status, body), db')"
  shows "unwritten db db' \<and>
    (\<not> faultless db \<and> status = (if route = RouteHealth then 503 else 500) \<or>
     right_answer so to_value db m route status body)"
proof -
  let ?deps = "sqlite_api so to_value dbg sidecar version started_at"
  have ops: "ad_load_open ?deps = sir_load_open so" "ad_uuid_str ?deps = so_uuid_str so"
    by (simp_all add: sqlite_api_def)
  obtain q db1 where l: "sir_load_open so db = (q, db1)" by (cases "sir_load_open so db")
  have u1: "unwritten db db1"
    using queries_unwritten(1) [of db so] l by simp
  have ans: "(\<exists>e. q = Err e) \<and> \<not> faultless db \<or>
      (\<exists>is. q = Ok is \<and> distinct (map inc_id is) \<and>
         set is = {i. \<exists>k. sir_rows so db k = Some i \<and> inc_status i \<noteq> StResolved})"
    using sir_load_open_answer [OF assms(1,3)] l by auto
  note find = find_incident_answer [where to_value = to_value and dbg = dbg and sidecar = sidecar and version = version
      and started_at = started_at, OF assms(1)]
  note err = respond_def into_response_def
  show ?thesis
  proof (cases route)
    case RouteHealth
    with assms(5) l u1 ans show ?thesis
      by (cases q) (auto simp: serve_def health_handler_def ops right_answer_def unwritten_def Let_def split: prod.splits)
  next
    case RouteOpen
    with assms(5) l u1 ans show ?thesis
      by (cases q)
        (auto simp: serve_def list_open_def ops right_answer_def unwritten_def Let_def err
          intro!: exI [of _ "sort_key (\<lambda>i. - inc_opened_at i) _"] simp: distinct_map)
  next
    case (RouteDetail k)
    obtain r db2 where f: "find_incident ?deps k db = (r, db2)" by (cases "find_incident ?deps k db")
    from find [of k] f RouteDetail assms(5) show ?thesis
      by (cases r) (auto simp: serve_def detail_def ops right_answer_def unwritten_def err split: sum.splits option.splits)
  next
    case (RouteEvidence k)
    from evidence_answers [OF assms(1,2,4) assms(5) [unfolded RouteEvidence]] show ?thesis
      by (simp add: RouteEvidence)
  qed
qed

text \<open>C19. The operator API answers with what is stored and never writes.
  Take a database whose rows are valid and whose statements may fail at any point.  Every
  request leaves all tables as they are, and either it reports a failed statement (503
  for the health probe, 500 otherwise) or its answer is right: the open incidents,
  newest first, each once and with their count; 400 for an id that is no UUID, 404 for an
  id that is not stored, the whole incident otherwise; and its evidence, in order, without
  what the log no longer holds.\<close>

theorem api_answers_from_storage:
  assumes "sir_valid so db" and "sos_sim so db m" and "orders (so_order_incidents so)" and "\<forall>p. \<exists>v. to_value p = Ok v"
    and "serve (sqlite_api so to_value dbg sidecar version started_at) clock route db = ((status, body), db')"
  shows "db_tables db' = db_tables db \<and>
    (\<not> faultless db \<and> status = (if route = RouteHealth then 503 else 500) \<or>
     right_answer so to_value db m route status body)"
  using api_answer [OF assms] by (simp add: unwritten_def)

theorem api_answers_from_storage_witness:
  "\<exists>status body db'. serve (sqlite_api sample_sqlite (\<lambda>_. Ok JNull) (\<lambda>_. []) (SidecarId 1) ''v'' 0) (0, 0, 0) RouteOpen
       sample_retained = ((status, body), db') \<and>
     status = 200 \<and> body = ListBody \<lparr>il_count = 1,
       il_incidents = [incident_summary_dto_of (so_uuid_str sample_sqlite) (sample_incident SevWarning StOpen)]\<rparr> \<and>
     db_tables db' = db_tables sample_retained"
proof -
  let ?i = "sample_incident SevWarning StOpen"
  let ?run = "serve (sqlite_api sample_sqlite (\<lambda>_. Ok JNull) (\<lambda>_. []) (SidecarId 1) ''v'' 0) (0, 0, 0) RouteOpen sample_retained"
  obtain status body db' where run: "?run = ((status, body), db')"
    by (metis prod.collapse)
  have sim: "sos_sim sample_sqlite sample_retained mos_new"
    by (simp add: sos_sim_def sample_retained_log mos_new_def)
  have o: "orders (so_order_incidents sample_sqlite)" "\<forall>p. \<exists>v. (\<lambda>_. Ok JNull :: string + json) p = Ok v"
    by (simp_all add: sample_sqlite_def orders_sort_key)
  have f: "faultless sample_retained"
    by (simp add: faultless_def sample_retained_def sir_save_def statement_def Let_def empty_db_def
        split: sum.split run.split prod.split)
  have st: "inc_status ?i \<noteq> StResolved"
    by (simp add: sample_incident_def)
  from api_answers_from_storage [OF sample_retained_rows(1) sim o run] f
  obtain "is" where w: "status = 200" "db_tables db' = db_tables sample_retained"
    "body = ListBody \<lparr>il_count = length is, il_incidents = map (incident_summary_dto_of (so_uuid_str sample_sqlite)) is\<rparr>"
    "distinct (map inc_id is)" "set is = {i. \<exists>k. sir_rows sample_sqlite sample_retained k = Some i \<and> inc_status i \<noteq> StResolved}"
    unfolding right_answer_def by auto
  have "set is = {?i}"
    unfolding w(5) sample_retained_rows(2) using st by (auto split: if_splits)
  moreover have "distinct is"
    using w(4) by (simp add: distinct_map)
  ultimately have "is = [?i]"
    by (metis distinct.simps(2) distinct_singleton list.set(1) list.simps(15) set_empty list.exhaust insertI1 singletonD insert_not_empty list.set_intros(2))
  with run w show ?thesis by simp
qed

section \<open>The server task\<close>

text \<open>
  \<open>api/server.rs\<close>: binding the address, then requests until the shutdown signal or an
  error of the listener.  The outcome of the bind and what the network delivers are
  arguments; each request comes with the three clock readings of its handler.
\<close>

datatype server_error = ServerBind string string | ServerServe string

datatype server_input = Request "instant \<times> instant \<times> instant" api_route | ServerShutdown | ServeFails string

fun serve_until ::
    "'w api_deps \<Rightarrow> server_input list \<Rightarrow> 'w \<Rightarrow> (server_error + unit) \<times> (api_route \<times> nat \<times> api_body) list \<times> 'w" where
  "serve_until deps [] w = (Ok (), [], w)"
| "serve_until deps (ServerShutdown # _) w = (Ok (), [], w)"
| "serve_until deps (ServeFails e # _) w = (Err (ServerServe e), [], w)"
| "serve_until deps (Request clock route # inputs) w =
     (let ((status, body), w) = serve deps clock route w;
          (r, answers, w) = serve_until deps inputs w
      in (r, (route, status, body) # answers, w))"

definition server_run ::
    "string \<Rightarrow> string option \<Rightarrow> 'w api_deps \<Rightarrow> server_input list \<Rightarrow> 'w \<Rightarrow>
     (server_error + unit) \<times> (api_route \<times> nat \<times> api_body) list \<times> 'w" where
  "server_run addr bind_error deps inputs w =
     (case bind_error of
        Some e \<Rightarrow> (Err (ServerBind addr e), [], w)
      | None \<Rightarrow> serve_until deps inputs w)"

text \<open>Every request of a run is answered from the same tables, and the run writes none.\<close>

lemma serve_until_answers:
  assumes o: "orders (so_order_incidents so)" and v: "\<forall>p. \<exists>v. to_value p = Ok v"
  shows "sir_valid so db \<Longrightarrow> sos_sim so db m \<Longrightarrow>
    serve_until (sqlite_api so to_value dbg sidecar version started_at) inputs db = (r, answers, db') \<Longrightarrow>
    unwritten db db' \<and> list_all (\<lambda>(route, status, body). \<not> faultless db \<and> status = (if route = RouteHealth then 503 else 500) \<or>
      right_answer so to_value db m route status body) answers"
proof (induction inputs arbitrary: db answers)
  case (Cons x inputs)
  let ?deps = "sqlite_api so to_value dbg sidecar version started_at"
  show ?case
  proof (cases x)
    case (Request clock route)
    obtain status body db1 where s: "serve ?deps clock route db = ((status, body), db1)"
      by (metis surj_pair)
    obtain more where m: "serve_until ?deps inputs db1 = (r, more, db')" "answers = (route, status, body) # more"
      using Cons.prems(3) s by (auto simp: Request split: prod.splits)
    note first = api_answer [OF Cons.prems(1,2) o v s]
    have u: "unwritten db db1"
      using first by blast
    have same: "right_answer so to_value db1 = right_answer so to_value db" "faultless db1 = faultless db"
      by (intro ext) (simp only: right_answer_def unwritten_views(2) [OF u], rule unwritten_views(4) [OF u])
    have "unwritten db1 db' \<and> list_all (\<lambda>(route, status, body). \<not> faultless db1 \<and> status = (if route = RouteHealth then 503 else 500) \<or>
      right_answer so to_value db1 m route status body) more"
      using Cons.IH [OF _ _ m(1)] Cons.prems(1,2) unwritten_views [OF u] by simp
    with first m(2) unwritten_trans [OF u] show ?thesis
      by (simp add: same)
  qed (use Cons.prems in \<open>auto simp: unwritten_refl\<close>)
qed (auto simp: unwritten_refl)

end
