(* ===== verification/Notifier.thy ===== *)
theory Notifier
  imports Notification_Worker
begin

text \<open>
  The notifier (\<open>notifications/orchestrator.rs\<close>) with the renderers of the three targets
  (\<open>render.rs\<close> under \<open>notifications/targets\<close>): it matches a lifecycle event against its rules and
  delivers the rendered message to each matching one.  The texts of a \<open>Uuid\<close> and of a
  timestamp are arguments.
\<close>

section \<open>Rendering\<close>

record discord_severity_palette =
  pal_info :: u32
  pal_warning :: u32
  pal_critical :: u32
  pal_resolved :: u32

definition discord_severity_palette_default :: discord_severity_palette where
  "discord_severity_palette_default =
     \<lparr>pal_info = 0x3498DB, pal_warning = 0xF39C12, pal_critical = 0xE74C3C, pal_resolved = 0x2ECC71\<rparr>"

record discord_notification_config =
  dnc_min_severity :: incident_severity
  dnc_lifecycle_events :: "incident_notification_event_kind list"
  dnc_default_username :: "string option"
  dnc_default_avatar_url :: "string option"
  dnc_color_palette :: discord_severity_palette

record telegram_notification_config =
  tnc_bot_token :: secret_string
  tnc_pairing_enabled :: bool
  tnc_parse_mode :: telegram_parse_mode
  tnc_min_severity :: incident_severity
  tnc_lifecycle_events :: "incident_notification_event_kind list"

definition pick_color :: "incident_lifecycle_event \<Rightarrow> discord_severity_palette \<Rightarrow> u32" where
  "pick_color event palette =
     (case event of
        Resolved _ \<Rightarrow> pal_resolved palette
      | _ \<Rightarrow>
          (case inc_severity (lifecycle_incident event) of
             SevInfo \<Rightarrow> pal_info palette
           | SevWarning \<Rightarrow> pal_warning palette
           | SevCritical \<Rightarrow> pal_critical palette))"

definition build_fields :: "notification_message \<Rightarrow> discord_embed_field list" where
  "build_fields message =
     (case msg_affected_component message of
        None \<Rightarrow> [] | Some c \<Rightarrow> [\<lparr>def_name = ''Affected'', def_value = c, def_inline = True\<rparr>]) @
     (case msg_diagnostic_summary message of
        None \<Rightarrow> [] | Some d \<Rightarrow> [\<lparr>def_name = ''Diagnostic'', def_value = d, def_inline = False\<rparr>])"

definition discord_render :: "notification_message \<Rightarrow> discord_notification_config \<Rightarrow> discord_payload" where
  "discord_render message config =
     \<lparr>dp_content = None, dp_username = dnc_default_username config, dp_avatar_url = dnc_default_avatar_url config,
      dp_embeds =
        [\<lparr>de_title = Some (msg_title message), de_description = Some (msg_summary message), de_url = None,
          de_color = Some (pick_color (msg_incident_lifecycle_event message) (dnc_color_palette config)),
          de_timestamp = Some (msg_occurred_at message), de_footer = None, de_author = None,
          de_fields = build_fields message\<rparr>],
      dp_allowed_mentions = Some allowed_mentions_none\<rparr>"

definition newlines :: string where
  "newlines = [CHR 0x0A, CHR 0x0A]"

definition format_body :: "notification_message \<Rightarrow> string" where
  "format_body message =
     msg_title message @ newlines @ msg_summary message @
     (case msg_affected_component message of None \<Rightarrow> [] | Some c \<Rightarrow> newlines @ ''Affected: '' @ c) @
     (case msg_diagnostic_summary message of None \<Rightarrow> [] | Some d \<Rightarrow> newlines @ ''Diagnostic: '' @ d)"

definition telegram_render :: "notification_message \<Rightarrow> telegram_notification_config \<Rightarrow> telegram_payload" where
  "telegram_render message config =
     \<lparr>tp_text = format_body message, tp_parse_mode = tnc_parse_mode config, tp_disable_notification = None,
      tp_reply_to_message_id = None, tp_reply_markup = None\<rparr>"

fun event_kind_json :: "incident_notification_event_kind \<Rightarrow> json" where
  "event_kind_json KindOpened = JString ''Opened''"
| "event_kind_json KindEscalated = JString ''Escalated''"
| "event_kind_json KindResolved = JString ''Resolved''"

fun severity_json :: "incident_severity \<Rightarrow> json" where
  "severity_json SevInfo = JString ''Info''"
| "severity_json SevWarning = JString ''Warning''"
| "severity_json SevCritical = JString ''Critical''"

definition webhook_render :: "(uuid \<Rightarrow> string) \<Rightarrow> (datetime \<Rightarrow> string) \<Rightarrow> notification_message \<Rightarrow> webhook_payload" where
  "webhook_render uuid_str to_rfc3339 message =
     (let event_kind = notification_kind (msg_incident_lifecycle_event message);
          incident = lifecycle_incident (msg_incident_lifecycle_event message)
      in \<lparr>wp_body = JObject
            [(''event'', event_kind_json event_kind),
             (''incident_id'', JString (case inc_id incident of IncidentId u \<Rightarrow> uuid_str u)),
             (''kind'', JString (incident_kind_as_str (inc_kind incident))),
             (''severity'', severity_json (inc_severity incident)),
             (''title'', JString (msg_title message)),
             (''summary'', JString (msg_summary message)),
             (''affected_component'', json_option (msg_affected_component message)),
             (''diagnostic_summary'', json_option (msg_diagnostic_summary message)),
             (''occurred_at'', JString (to_rfc3339 (msg_occurred_at message)))]\<rparr>)"

section \<open>The notifier\<close>

record telegram_service =
  tsv_sender :: telegram_sender
  tsv_config :: telegram_notification_config

record notifier =
  nt_rules :: "notification_rule list"
  nt_telegram :: "telegram_service option"
  nt_discord :: "discord_notification_config option"

definition not_configured :: "'w net \<Rightarrow> datetime \<Rightarrow> 'w \<Rightarrow> delivery_receipt run \<times> 'w" where
  "not_configured net started_at w =
     (let (completed_at, w) = net_now net w
      in (Done \<lparr>rc_outcome = Permanent NotConfigured, rc_started_at = started_at, rc_completed_at = completed_at\<rparr>, w))"

definition deliver ::
    "crates \<Rightarrow> (uuid \<Rightarrow> string) \<Rightarrow> (datetime \<Rightarrow> string) \<Rightarrow> 'w net \<Rightarrow> notifier \<Rightarrow> notification_target \<Rightarrow>
     notification_message \<Rightarrow> 'w \<Rightarrow> delivery_receipt run \<times> 'w" where
  "deliver cr uuid_str to_rfc3339 net nt target message w =
     (let (started_at, w) = net_now net w in
      case target of
        Stdout \<Rightarrow>
          let (completed_at, w) = net_now net w
          in (Done \<lparr>rc_outcome = Delivered None, rc_started_at = started_at, rc_completed_at = completed_at\<rparr>, w)
      | Discord t \<Rightarrow>
          (case nt_discord nt of
             Some config \<Rightarrow> discord_send cr net t (discord_render message config) w
           | None \<Rightarrow> not_configured net started_at w)
      | Telegram t \<Rightarrow>
          (case nt_telegram nt of
             Some svc \<Rightarrow> telegram_send cr net (tsv_sender svc) t (telegram_render message (tsv_config svc)) w
           | None \<Rightarrow> not_configured net started_at w)
      | Webhook t \<Rightarrow> webhook_send cr net t (webhook_render uuid_str to_rfc3339 message) w)"

text \<open>
  \<open>join_all\<close> over the deliveries, taken in the order of the rules; a panic of one unwinds
  through the whole dispatch.
\<close>

fun deliver_all ::
    "(notification_target \<Rightarrow> 'w \<Rightarrow> delivery_receipt run \<times> 'w) \<Rightarrow> notification_rule list \<Rightarrow> 'w \<Rightarrow>
     (notification_rule_id \<times> delivery_receipt) list run \<times> 'w" where
  "deliver_all send [] w = (Done [], w)"
| "deliver_all send (rule # rules) w =
     (case send (nr_target rule) w of
        (Panicked, w) \<Rightarrow> (Panicked, w)
      | (Done receipt, w) \<Rightarrow>
          (case deliver_all send rules w of
             (Panicked, w) \<Rightarrow> (Panicked, w)
           | (Done rest, w) \<Rightarrow> (Done ((nr_id rule, receipt) # rest), w)))"

definition notifier_dispatch ::
    "crates \<Rightarrow> (uuid \<Rightarrow> string) \<Rightarrow> (datetime \<Rightarrow> string) \<Rightarrow> 'w net \<Rightarrow> notifier \<Rightarrow> incident_lifecycle_event \<Rightarrow>
     notification_message \<Rightarrow> 'w \<Rightarrow> (notification_rule_id \<times> delivery_receipt) list run \<times> 'w" where
  "notifier_dispatch cr uuid_str to_rfc3339 net nt event message =
     deliver_all (\<lambda>target. deliver cr uuid_str to_rfc3339 net nt target message)
       (filter (\<lambda>r. rule_matches r event) (nt_rules nt))"

section \<open>Deliveries\<close>

lemma deliver_all_ids:
  "deliver_all send rules w = (Done rs, w') \<Longrightarrow> map fst rs = map nr_id rules"
  by (induction rules arbitrary: w rs) (auto split: prod.splits run.splits)

lemma deliver_all_Done:
  assumes "\<And>r w. r \<in> set rules \<Longrightarrow> fst (send (nr_target r) w) \<noteq> Panicked"
  shows "\<exists>rs w'. deliver_all send rules w = (Done rs, w')"
  using assms
proof (induction rules arbitrary: w)
  case (Cons r rules)
  obtain x w1 where "send (nr_target r) w = (Done x, w1)"
    using Cons.prems [of r w] by (cases "send (nr_target r) w"; cases "fst (send (nr_target r) w)") auto
  moreover obtain rs w' where "deliver_all send rules w1 = (Done rs, w')"
    using Cons by fastforce
  ultimately show ?case by simp
qed simp

text \<open>A rendered Discord message names no one: no mention in its text is resolved.\<close>

lemma discord_render_pings_nobody:
  "dp_allowed_mentions (discord_render message config) = Some \<lparr>dam_parse = [], dam_roles = [], dam_users = []\<rparr>"
  by (simp add: discord_render_def allowed_mentions_none_def)

end
