(* ===== verification/Database_Typing.thy ===== *)
theory Database_Typing
  imports Sqlite_Attempts Sqlite_Observations Retention
begin

text \<open>
  The database as a whole: any interleaving of the operations of the three repositories
  and of the retention task, as a step relation.  Its typing invariant says that keys are
  unique and that every row decodes, so that a read fails only when the database does.
\<close>

section \<open>Typing of the tables\<close>

definition typed_rows :: "('r \<Rightarrow> 'k) \<Rightarrow> ('r \<Rightarrow> 'e + 'a) \<Rightarrow> 'r list \<Rightarrow> bool" where
  "typed_rows key decode rows \<longleftrightarrow> keyed key rows \<and> list_all (\<lambda>r. \<exists>x. decode r = Ok x) rows"

definition well_typed :: "sqlite_outside \<Rightarrow> tables \<Rightarrow> bool" where
  "well_typed so t \<longleftrightarrow> typed_rows ob_id (row_to_observation so) (tb_observations t) \<and>
     typed_rows ir_id (decode_incident so) (tb_incidents t) \<and> typed_rows ar_id (row_to_attempt so) (tb_attempts t)"

definition codecs_ok :: "sqlite_outside \<Rightarrow> bool" where
  "codecs_ok so \<longleftrightarrow> json_faithful (so_incident so) \<and> json_faithful (so_outcome so) \<and> json_faithful (so_external_ref so) \<and>
     json_faithful (so_integration so) \<and> uuid_text_ok so"

text \<open>
  The JSON of a payload with a number that is not finite is written without an error and
  cannot be read; hence the condition on an observation.
\<close>

definition readable_json :: "'a codec \<Rightarrow> 'a \<Rightarrow> bool" where
  "readable_json c x \<longleftrightarrow> (\<forall>s. to_json c x = Ok s \<longrightarrow> (\<exists>y. from_json c s = Ok y))"

definition readable :: "sqlite_outside \<Rightarrow> observation \<Rightarrow> bool" where
  "readable so ob \<longleftrightarrow> readable_json (so_payload so) (obs_payload ob) \<and> readable_json (so_attributes so) (obs_attributes ob)"

lemma typed_rows_filter: "typed_rows key decode rows \<Longrightarrow> typed_rows key decode (filter p rows)"
  by (auto simp: typed_rows_def keyed_filter list_all_iff)

lemma typed_rows_insert:
  "typed_rows key decode rows \<Longrightarrow> decode r = Ok x \<Longrightarrow> typed_rows key decode (snd (insert_row key r rows))"
  by (auto simp: typed_rows_def insert_row_def keyed_def list_all_iff)

lemma typed_rows_upsert:
  "typed_rows key decode rows \<Longrightarrow> decode r = Ok x \<Longrightarrow> typed_rows key decode (upsert_row key r rows)"
  using upsert_row_set [of key r rows] by (fastforce simp: typed_rows_def upsert_row_keyed list_all_iff)

lemma typed_rows_update:
  assumes "typed_rows key decode rows" and "\<And>r. key (f r) = key r" and "\<And>r x. decode r = Ok x \<Longrightarrow> \<exists>y. decode (f r) = Ok y"
  shows "typed_rows key decode (snd (update_rows p f rows))"
proof -
  have "map (key \<circ> (\<lambda>x. if p x then f x else x)) rows = map key rows"
    by (simp add: assms(2))
  with assms show ?thesis
    by (auto simp: typed_rows_def update_rows_def keyed_def list_all_iff simp del: map_eq_conv)
qed

section \<open>Written rows decode\<close>

lemma scoped_split_Ok: "\<exists>e. scoped mk (split_scoped so (n @ ''/'' @ p) kind) = Ok e"
proof -
  have "dropWhile (\<lambda>x. x \<noteq> CHR ''/'') (n @ ''/'' @ p) \<noteq> []"
    by (simp add: dropWhile_eq_Nil_conv)
  then show ?thesis
    by (auto simp: scoped_def split_scoped_def split_once_def split: list.split)
qed

lemma subject_decodes:
  assumes "uuid_text_ok so"
  shows "\<exists>e'. subject_from_pair so (subject_kind_str e) (subject_id_str (so_uuid_str so) e) = Ok e'"
  using assms scoped_split_Ok [of _ so, simplified]
  by (cases "(so_uuid_str so, e)" rule: subject_id_str.cases)
    (simp_all add: subject_from_pair_def uuid_text_ok_def)

lemma observation_row_decodes:
  assumes "codecs_ok so" and "observation_row_of so ob = Done (Ok row)" and "readable so ob"
  shows "\<exists>x. row_to_observation so row = Ok x"
proof -
  obtain e where "subject_from_pair so (subject_kind_str (obs_subject ob)) (subject_id_str (so_uuid_str so) (obs_subject ob)) = Ok e"
    using subject_decodes assms(1) by (auto simp: codecs_ok_def)
  with assms show ?thesis
    by (auto simp: observation_row_of_def row_to_observation_def codecs_ok_def json_faithful_def readable_def readable_json_def
        split: sum.splits run.splits)
qed

lemma incident_row_decodes:
  assumes "codecs_ok so" and "to_json (so_incident so) i = Ok json" and "incident_row_of so i json = Done row"
  shows "decode_incident so row = Ok i"
  using assms incident_row_of_Done [OF assms(3)] by (auto simp: decode_incident_def codecs_ok_def json_faithful_def)

lemma serialize_decodes:
  assumes "codecs_ok so"
  shows "serialize_outcome so y = Ok (k, j) \<Longrightarrow> decode_opt (so_outcome so) j = Ok y"
    and "serialize_external_ref so z = Ok l \<Longrightarrow> decode_opt (so_external_ref so) l = Ok z"
  using assms
  by (auto simp: serialize_outcome_def serialize_external_ref_def decode_opt_def codecs_ok_def json_faithful_def
      split: option.splits sum.splits)

lemma attempt_row_decodes:
  assumes "codecs_ok so" and "attempt_row_of so a = Done (Ok row)" and "utf8_valid (rule_id_blob (na_rule_id a))"
  shows "\<exists>x. row_to_attempt so row = Ok x"
  using assms rule_id_round_trip [OF assms(3), of so]
  by (auto simp: attempt_row_of_def row_to_attempt_def serialize_decodes [OF assms(1)] split: sum.splits run.splits prod.splits)

lemma completion_decodes:
  assumes "codecs_ok so" and "completion so receipt retry = Done (Ok f)"
  shows "ar_id (f row) = ar_id row" and "row_to_attempt so row = Ok x \<Longrightarrow> \<exists>y. row_to_attempt so (f row) = Ok y"
  using assms(2)
  by (auto simp: completion_def row_to_attempt_def serialize_decodes [OF assms(1)]
      split: sum.splits run.splits prod.splits if_splits)

section \<open>Operations keep the typing\<close>

lemma typed_statement:
  assumes "\<And>t. well_typed so t \<Longrightarrow> well_typed so (snd (stmt t))" and "well_typed so (db_tables db)"
  shows "well_typed so (db_tables (snd (statement stmt db)))"
proof -
  obtain r db' where s: "statement stmt db = (r, db')" by (cases "statement stmt db")
  from statement_tables [OF s] assms(2) assms(1) [of "db_tables db"] s show ?thesis by auto
qed

lemma snd_statement_case [simp]:
  "snd (case s of (Err e, d) \<Rightarrow> (a e, d) | (Ok x, d) \<Rightarrow> (b x, d)) = snd s"
  by (simp split: prod.split sum.split)

lemma typed_save:
  assumes c: "codecs_ok so" and w: "well_typed so (db_tables db)"
  shows "well_typed so (db_tables (snd (sir_save so i db)))"
proof -
  have "well_typed so (db_tables (snd (statement (\<lambda>t. (Ok () :: sqlx_error + unit,
      t\<lparr>tb_incidents := upsert_row ir_id row (tb_incidents t)\<rparr>)) db)))"
    if "to_json (so_incident so) i = Ok json" "incident_row_of so i json = Done row" for json row
    using typed_rows_upsert [of ir_id "decode_incident so" _ row, OF _ incident_row_decodes [OF c that]]
    by (intro typed_statement w) (simp add: well_typed_def)
  with w show ?thesis
    by (simp add: sir_save_def split: sum.split run.split)
qed

lemma typed_insert_pending:
  assumes c: "codecs_ok so" and w: "well_typed so (db_tables db)" and u: "utf8_valid (rule_id_blob (na_rule_id a))"
  shows "well_typed so (db_tables (snd (sar_insert_pending so a db)))"
proof -
  let ?stmt = "\<lambda>row t. let (r, rows) = insert_row ar_id row (tb_attempts t) in (r, t\<lparr>tb_attempts := rows\<rparr>)"
  have "well_typed so (db_tables (snd (statement (?stmt row) db)))" if r: "attempt_row_of so a = Done (Ok row)" for row
  proof -
    obtain x where "row_to_attempt so row = Ok x"
      using attempt_row_decodes [OF c r u] by blast
    then show ?thesis
      by (intro typed_statement w) (simp add: well_typed_def case_prod_unfold Let_def typed_rows_insert)
  qed
  with w show ?thesis
    by (simp add: sar_insert_pending_def split: sum.split run.split)
qed

lemma typed_complete:
  assumes c: "codecs_ok so" and w: "well_typed so (db_tables db)"
  shows "well_typed so (db_tables (snd (sar_complete so k receipt retry db)))"
proof -
  let ?stmt = "\<lambda>f t. let (n, rows) = update_rows (\<lambda>r. NotificationAttemptId (ar_id r) = k) f (tb_attempts t)
                 in (Ok n :: sqlx_error + nat, t\<lparr>tb_attempts := rows\<rparr>)"
  have "well_typed so (db_tables (snd (statement (?stmt f) db)))" if f: "completion so receipt retry = Done (Ok f)" for f
    using typed_rows_update [of ar_id "row_to_attempt so" _ f, OF _ completion_decodes [OF c f]]
    by (intro typed_statement w) (simp add: well_typed_def case_prod_unfold Let_def)
  with w show ?thesis
    by (simp add: sar_complete_def split: sum.split run.split)
qed

lemma typed_insert_observations:
  assumes c: "codecs_ok so"
  shows "list_all (readable so) obs \<Longrightarrow> well_typed so (db_tables db) \<Longrightarrow>
    well_typed so (db_tables (snd (insert_observations so obs db)))"
proof (induction obs arbitrary: db)
  case (Cons ob obs)
  let ?stmt = "\<lambda>row t. let (r, rows) = insert_row ob_id row (tb_observations t) in (r, t\<lparr>tb_observations := rows\<rparr>)"
  have ins: "well_typed so (db_tables (snd (statement (?stmt row) db)))" if r: "observation_row_of so ob = Done (Ok row)" for row
  proof -
    obtain x where "row_to_observation so row = Ok x"
      using observation_row_decodes [OF c r] Cons.prems(1) by auto
    with Cons.prems(2) show ?thesis
      by (intro typed_statement) (simp_all add: well_typed_def case_prod_unfold Let_def typed_rows_insert)
  qed
  have rest: "well_typed so (db_tables (snd (case s of (Err e, d) \<Rightarrow> (Done (Err (g e)), d) | (Ok _, d) \<Rightarrow> insert_observations so obs d)))"
    if "well_typed so (db_tables (snd s))" for s :: "(sqlx_error + unit) \<times> database" and g
    using that Cons.IH Cons.prems(1) by (auto split: prod.split sum.split)
  show ?case
    using Cons.prems rest [OF ins] by (simp split: sum.split run.split)
qed simp

lemma typed_append_many:
  assumes c: "codecs_ok so" and r: "list_all (readable so) batch" and w: "well_typed so (db_tables db)"
  shows "well_typed so (db_tables (snd (sos_append_many so batch db)))"
proof -
  let ?nop = "\<lambda>t. (Ok () :: sqlx_error + unit, t)"
  have nop: "well_typed so (db_tables (snd (statement ?nop d)))" if "well_typed so (db_tables d)" for d
    using that by (intro typed_statement) auto
  obtain q begun where b: "statement ?nop db = (q, begun)" by (cases "statement ?nop db")
  obtain p d2 where i: "insert_observations so batch begun = (p, d2)" by (cases "insert_observations so batch begun")
  obtain q' d3 where e: "statement ?nop d2 = (q', d3)" by (cases "statement ?nop d2")
  have wb: "well_typed so (db_tables begun)"
    using nop [OF w] b by simp
  then have w2: "well_typed so (db_tables d2)"
    using typed_insert_observations [OF c r, of begun] i by simp
  then have "well_typed so (db_tables d3)"
    using nop [OF w2] e by simp
  with w wb w2 b i e show ?thesis
    by (auto simp: sos_append_many_def rolled_back_def split: sum.split run.split)
qed

text \<open>A sweep only removes rows, whatever the clock and the cutoffs are.\<close>

lemma typed_deletes:
  "well_typed so t \<Longrightarrow> well_typed so (delete_observations c t)" "well_typed so t \<Longrightarrow> well_typed so (delete_incidents c t)"
  "well_typed so t \<Longrightarrow> well_typed so (delete_suppressions c t)" "well_typed so t \<Longrightarrow> well_typed so (delete_attempts c t)"
  by (simp_all add: well_typed_def delete_defs typed_rows_filter)

lemma typed_sweep_table:
  assumes "\<And>c t. well_typed so t \<Longrightarrow> well_typed so (del c t)" and "well_typed so (db_tables db)"
  shows "well_typed so (db_tables (snd (sweep_table checks now age del db)))"
  using assms by (auto simp: sweep_table_def intro!: typed_statement split: option.split run.split)

lemma typed_and_then:
  assumes "well_typed so (db_tables (snd r))" and "\<And>d. well_typed so (db_tables d) \<Longrightarrow> well_typed so (db_tables (snd (k d)))"
  shows "well_typed so (db_tables (snd (and_then r k)))"
  using assms by (cases r; cases "fst r") (auto simp: and_then_def)

lemma typed_sweep:
  assumes w: "well_typed so (db_tables db)"
  shows "well_typed so (db_tables (snd (sweep checks config now db)))"
proof (cases "nanos now")
  case (Done n)
  have "well_typed so (db_tables d) \<Longrightarrow> well_typed so (db_tables (snd (statement (\<lambda>t. (Ok () :: sqlx_error + unit, t)) d)))" for d
    by (rule typed_statement) simp_all
  then show ?thesis
    unfolding sweep_def Done run.case using w by (intro typed_and_then typed_sweep_table typed_deletes) simp_all
qed (use w in \<open>simp add: sweep_def\<close>)

section \<open>Interleavings\<close>

inductive db_step :: "sqlite_outside \<Rightarrow> database \<Rightarrow> database \<Rightarrow> bool" for so where
  append: "list_all (readable so) batch \<Longrightarrow> db_step so db (snd (sos_append_many so batch db))"
| save: "db_step so db (snd (sir_save so i db))"
| insert: "utf8_valid (rule_id_blob (na_rule_id a)) \<Longrightarrow> db_step so db (snd (sar_insert_pending so a db))"
| complete: "db_step so db (snd (sar_complete so k receipt retry db))"
| sweep: "db_step so db (snd (sweep checks config now db))"
| load_open: "db_step so db (snd (sir_load_open so db))"
| get: "db_step so db (snd (sir_get so i db))"
| iter_since: "db_step so db (snd (sos_iter_since so since db))"
| get_by_id: "db_step so db (snd (sos_get_by_id so k db))"
| list_retryable: "db_step so db (snd (sar_list_retryable so now limit db))"
| list_for_incident: "db_step so db (snd (sar_list_for_incident so i db))"

lemma reads_keep_tables:
  "db_tables (snd (sir_load_open so db)) = db_tables db" "db_tables (snd (sir_get so i db)) = db_tables db"
  "db_tables (snd (sos_iter_since so since db)) = db_tables db" "db_tables (snd (sos_get_by_id so k db)) = db_tables db"
  "db_tables (snd (sar_list_retryable so now limit db)) = db_tables db"
  "db_tables (snd (sar_list_for_incident so i db)) = db_tables db"
  by (auto simp: sir_load_open_def sir_get_def sos_iter_since_def sos_get_by_id_def sar_list_retryable_def
      sar_list_for_incident_def statement_def Let_def split: option.splits sum.splits prod.splits run.splits)

lemma typed_step:
  assumes "codecs_ok so" and "db_step so db db'" and "well_typed so (db_tables db)"
  shows "well_typed so (db_tables db')"
  using assms(2,3)
  by (cases rule: db_step.cases)
    (simp_all add: typed_append_many typed_save typed_insert_pending typed_complete typed_sweep assms(1) reads_keep_tables)

lemma typed_steps:
  assumes "codecs_ok so" and "(db_step so)\<^sup>*\<^sup>* db db'" and "well_typed so (db_tables db)"
  shows "well_typed so (db_tables db')"
  using assms(2,3) by (induction rule: rtranclp_induct) (auto intro: typed_step [OF assms(1)])

section \<open>Reads of a typed database\<close>

lemma decode_incidents_typed:
  "list_all (\<lambda>r. \<exists>x. decode_incident so r = Ok x) rows \<Longrightarrow> \<exists>xs. decode_incidents so rows = Ok xs"
  by (induction rows) auto

lemma rows_to_attempts_typed:
  "list_all (\<lambda>r. \<exists>x. row_to_attempt so r = Ok x) rows \<Longrightarrow> \<exists>xs. rows_to_attempts so rows = Ok xs"
  by (induction rows) auto

lemma row_of_typed:
  "typed_rows key decode rows \<Longrightarrow> row_of key rows k = Some r \<Longrightarrow> \<exists>x. decode r = Ok x"
  using row_of_SomeD [of key rows k r] by (auto simp: typed_rows_def list_all_iff)

text \<open>The next statement fails, with this text.\<close>

definition failing :: "database \<Rightarrow> string \<Rightarrow> bool" where
  "failing db e \<longleftrightarrow> db_fault db (db_statements db) = Some e"

lemma statement_failing: "failing db e \<Longrightarrow> fst (statement stmt db) = Err (OtherError e)"
  by (simp add: failing_def statement_def Let_def)

lemma statement_running: "\<forall>e. \<not> failing db e \<Longrightarrow> fst (statement stmt db) = fst (stmt (db_tables db))"
  by (auto simp: failing_def statement_def Let_def split: option.split prod.split)

text \<open>Every read that fails met a failing statement.\<close>

lemma typed_load_open:
  assumes "well_typed so (db_tables db)" and "orders (so_order_incidents so)" and "fst (sir_load_open so db) = Err x"
  shows "\<exists>e. failing db e \<and> x = IncidentBackend e"
proof (rule ccontr)
  assume no: "\<not> ?thesis"
  let ?rows = "\<lambda>t. so_order_incidents so ir_opened_at (filter (\<lambda>r. ir_status r \<noteq> inc_status_str StResolved) (tb_incidents t))"
  obtain q d where s: "statement (\<lambda>t. (Ok (?rows t), t)) db = (q, d)" by (cases "statement (\<lambda>t. (Ok (?rows t), t)) db")
  obtain xs where xs: "decode_incidents so (?rows (db_tables db)) = Ok xs"
    using decode_incidents_typed [of so "?rows (db_tables db)"] orders_set [OF assms(2)] assms(1)
    by (auto simp: well_typed_def typed_rows_def list_all_iff)
  with assms(3) s no show False
    using statement_tables [OF s] by (auto simp: sir_load_open_def failing_def)
qed

lemma typed_get:
  assumes "well_typed so (db_tables db)" and "fst (sir_get so k db) = Err x"
  shows "\<exists>e. failing db e \<and> x = IncidentBackend e"
proof (rule ccontr)
  assume no: "\<not> ?thesis"
  let ?row = "\<lambda>t. row_of ir_id (tb_incidents t) (case k of IncidentId u \<Rightarrow> u)"
  obtain q d where s: "statement (\<lambda>t. (Ok (?row t), t)) db = (q, d)" by (cases "statement (\<lambda>t. (Ok (?row t), t)) db")
  have "\<exists>i. decode_incident so r = Ok i" if "?row (db_tables db) = Some r" for r
    using row_of_typed [OF _ that] assms(1) by (auto simp: well_typed_def)
  with assms(2) s no show False
    using statement_tables [OF s] by (fastforce simp: sir_get_def failing_def split: option.splits sum.splits)
qed

lemma typed_get_by_id:
  assumes "well_typed so (db_tables db)" and "fst (sos_get_by_id so k db) = Err x"
  shows "\<exists>e. failing db e \<and> x = StoreDatabase e"
proof (rule ccontr)
  assume no: "\<not> ?thesis"
  let ?row = "\<lambda>t. row_of ob_id (tb_observations t) (case k of ObservationId u \<Rightarrow> u)"
  obtain q d where s: "statement (\<lambda>t. (Ok (?row t), t)) db = (q, d)" by (cases "statement (\<lambda>t. (Ok (?row t), t)) db")
  have "\<exists>i. row_to_observation so r = Ok i" if "?row (db_tables db) = Some r" for r
    using row_of_typed [OF _ that] assms(1) by (auto simp: well_typed_def)
  with assms(2) s no show False
    using statement_tables [OF s] by (fastforce simp: sos_get_by_id_def failing_def split: option.splits sum.splits)
qed

lemma typed_list_for_incident:
  assumes "well_typed so (db_tables db)" and "orders (so_order_attempts so)" and "fst (sar_list_for_incident so k db) = Err x"
  shows "\<exists>e. failing db e \<and> x = AttemptBackend e"
proof (rule ccontr)
  assume no: "\<not> ?thesis"
  let ?rows = "\<lambda>t. so_order_attempts so (\<lambda>r. - ar_attempted_at r) (filter (\<lambda>r. IncidentId (ar_incident_id r) = k) (tb_attempts t))"
  obtain q d where s: "statement (\<lambda>t. (Ok (?rows t), t)) db = (q, d)" by (cases "statement (\<lambda>t. (Ok (?rows t), t)) db")
  obtain xs where xs: "rows_to_attempts so (?rows (db_tables db)) = Ok xs"
    using rows_to_attempts_typed [of so "?rows (db_tables db)"] orders_set [OF assms(2)] assms(1)
    by (auto simp: well_typed_def typed_rows_def list_all_iff)
  with assms(3) s no show False
    using statement_tables [OF s] by (auto simp: sar_list_for_incident_def failing_def)
qed

lemma typed_list_retryable:
  assumes "well_typed so (db_tables db)" and "orders (so_order_attempts so)"
    and "fst (sar_list_retryable so now limit db) = Done (Err x)"
  shows "\<exists>e. failing db e \<and> x = AttemptBackend e"
proof (rule ccontr)
  assume no: "\<not> ?thesis"
  obtain n where n: "nanos now = Done n"
    using assms(3) by (cases "nanos now") (auto simp: sar_list_retryable_def)
  let ?rows = "\<lambda>t. take (unat limit) (so_order_attempts so retry_key (due_rows n (tb_attempts t)))"
  obtain q d where s: "statement (\<lambda>t. (Ok (?rows t), t)) db = (q, d)" by (cases "statement (\<lambda>t. (Ok (?rows t), t)) db")
  obtain xs where xs: "rows_to_attempts so (?rows (db_tables db)) = Ok xs"
  proof -
    have "set (?rows (db_tables db)) \<subseteq> set (tb_attempts (db_tables db))"
      using set_take_subset orders_set [OF assms(2), of retry_key] by (fastforce simp: due_rows_def)
    then have "list_all (\<lambda>r. \<exists>x. row_to_attempt so r = Ok x) (?rows (db_tables db))"
      using assms(1) unfolding well_typed_def typed_rows_def list_all_iff by blast
    then show ?thesis
      using that rows_to_attempts_typed by blast
  qed
  with assms(3) s n no show False
    using statement_tables [OF s] by (auto simp: sar_list_retryable_def failing_def)
qed

lemma typed_iter_since:
  assumes "well_typed so (db_tables db)" and "orders (so_order_observations so)"
    and "fst (sos_iter_since so since db) = Done items" and "Err x \<in> set items"
  shows "\<exists>e. failing db e \<and> x = StoreDatabase e"
proof (rule ccontr)
  assume no: "\<not> ?thesis"
  obtain n where n: "nanos since = Done n"
    using assms(3) by (cases "nanos since") (auto simp: sos_iter_since_def)
  let ?rows = "\<lambda>t. so_order_observations so ob_observed_at (filter (\<lambda>r. ob_observed_at r \<ge> n) (tb_observations t))"
  obtain q d where s: "statement (\<lambda>t. (Ok (?rows t), t)) db = (q, d)" by (cases "statement (\<lambda>t. (Ok (?rows t), t)) db")
  have "\<exists>ob. row_to_observation so r = Ok ob" if "r \<in> set (?rows (db_tables db))" for r
    using that orders_set [OF assms(2)] assms(1) by (auto simp: well_typed_def typed_rows_def list_all_iff)
  then have dec: "Err x \<notin> row_to_observation so ` set (?rows (db_tables db))"
    by (metis imageE sum.distinct(1))
  show False
    using assms(3,4) s n no dec statement_tables [OF s] by (auto simp: sos_iter_since_def failing_def)
qed

text \<open>C14. No read of the database meets a row it cannot decode.
  Start from tables with unique keys and readable rows and run the operations of the three
  repositories and of the retention task in any order, with any statement failing.  Keys
  stay unique and every row stays readable: whatever a read reports as an error, by id, by
  time, by status or by incident, is the failure of its own statement and never the
  decoding of a row.\<close>

theorem database_stays_typed:
  assumes "codecs_ok so" and "orders (so_order_incidents so)" and "orders (so_order_attempts so)"
    and "orders (so_order_observations so)" and "well_typed so (db_tables db)" and "(db_step so)\<^sup>*\<^sup>* db db'"
  shows "well_typed so (db_tables db') \<and>
    (\<forall>x. fst (sir_load_open so db') = Err x \<longrightarrow> (\<exists>e. failing db' e \<and> x = IncidentBackend e)) \<and>
    (\<forall>k x. fst (sir_get so k db') = Err x \<longrightarrow> (\<exists>e. failing db' e \<and> x = IncidentBackend e)) \<and>
    (\<forall>k x. fst (sos_get_by_id so k db') = Err x \<longrightarrow> (\<exists>e. failing db' e \<and> x = StoreDatabase e)) \<and>
    (\<forall>since items x. fst (sos_iter_since so since db') = Done items \<and> Err x \<in> set items \<longrightarrow>
       (\<exists>e. failing db' e \<and> x = StoreDatabase e)) \<and>
    (\<forall>k x. fst (sar_list_for_incident so k db') = Err x \<longrightarrow> (\<exists>e. failing db' e \<and> x = AttemptBackend e)) \<and>
    (\<forall>now limit x. fst (sar_list_retryable so now limit db') = Done (Err x) \<longrightarrow>
       (\<exists>e. failing db' e \<and> x = AttemptBackend e))"
proof -
  have w: "well_typed so (db_tables db')"
    using typed_steps [OF assms(1,6,5)] .
  show ?thesis
    using w typed_load_open [OF w assms(2)] typed_get [OF w] typed_get_by_id [OF w] typed_iter_since [OF w assms(4)]
      typed_list_for_incident [OF w assms(3)] typed_list_retryable [OF w assms(3)]
    by blast
qed

theorem database_stays_typed_witness:
  "\<forall>x. fst (sir_load_open (sample_sqlite\<lparr>so_uuid_str := \<lambda>u. replicate (unat u) (CHR ''u''), so_parse_uuid := \<lambda>s. Ok (of_nat (length s))\<rparr>)
      (snd (sir_save (sample_sqlite\<lparr>so_uuid_str := \<lambda>u. replicate (unat u) (CHR ''u''), so_parse_uuid := \<lambda>s. Ok (of_nat (length s))\<rparr>)
        (sample_incident SevWarning StOpen) empty_db))) \<noteq> Err x"
proof -
  let ?so = "sample_sqlite\<lparr>so_uuid_str := \<lambda>u. replicate (unat u) (CHR ''u''), so_parse_uuid := \<lambda>s. Ok (of_nat (length s))\<rparr>"
  let ?db = "snd (sir_save ?so (sample_incident SevWarning StOpen) empty_db)"
  have c: "codecs_ok ?so"
    by (simp add: codecs_ok_def sample_sqlite_def sample_codec_faithful uuid_text_ok_def)
  have o: "orders (so_order_incidents ?so)" "orders (so_order_attempts ?so)" "orders (so_order_observations ?so)"
    by (simp_all add: sample_sqlite_def orders_sort_key)
  have w: "well_typed ?so (db_tables empty_db)"
    by (simp add: well_typed_def typed_rows_def keyed_def empty_db_def empty_tables_def)
  have s: "(db_step ?so)\<^sup>*\<^sup>* empty_db ?db"
    by (intro r_into_rtranclp db_step.save)
  have "db_fault ?db = (\<lambda>_. None)"
    by (simp add: sir_save_def statement_def Let_def empty_db_def split: sum.split run.split)
  with database_stays_typed [OF c o w s] show ?thesis
    by (auto simp: failing_def)
qed

end
