(* ===== verification/Runtime.thy ===== *)
theory Runtime
  imports Supervisor Notification_Worker
begin

text \<open>
  The runtime (\<open>runtime/mod.rs\<close>) as one concurrent system: the collector tasks spawned by
  \<open>supervisor::run\<close>, the consumer, the notification worker and the API, with the two bounded
  channels between them, the shutdown broadcast and the bounded join.  A step is one await
  point of one task, so a run is any interleaving of the tasks.  What a batch makes the
  consumer dispatch is left open: any list, chosen when the batch is taken.

  A broadcast receiver gets the signal only if it was created before the signal was sent;
  each flag in the state of a collector records this for one of its receivers.
\<close>

section \<open>State\<close>

datatype collector_phase =
    Unspawned
  | Spawned (outer: bool)
  | Idle (outer: bool) (inner: bool)
  | Sending (outer: bool) (inner: bool) observation_batch
  | Backoff (outer: bool)
  | Stopped

datatype run_outcome = Clean | DeadlineExceeded

record runtime_state =
  rt_signal :: bool
  rt_spawned :: bool
  rt_collectors :: "collector_phase list"
  rt_obs :: "observation_batch list"
  rt_accepted :: "observation_batch list"
  rt_taken :: "observation_batch list"
  rt_consumer_live :: bool
  rt_draining :: bool
  rt_pending :: "notification_dispatch list"
  rt_notif :: "notification_dispatch list"
  rt_worked :: "notification_dispatch list"
  rt_unsent :: "notification_dispatch list"
  rt_worker_live :: bool
  rt_api_live :: bool
  rt_outcome :: "run_outcome option"

text \<open>\<open>mpsc::channel\<close> panics on a capacity of zero.\<close>

definition runtime_start :: "nat \<Rightarrow> nat \<Rightarrow> bool \<Rightarrow> runtime_state run" where
  "runtime_start capacity collectors api_enabled =
     (if capacity = 0 then Panicked
      else Done \<lparr>rt_signal = False, rt_spawned = False, rt_collectors = replicate collectors Unspawned,
             rt_obs = [], rt_accepted = [], rt_taken = [], rt_consumer_live = True, rt_draining = False,
             rt_pending = [], rt_notif = [], rt_worked = [], rt_unsent = [], rt_worker_live = True,
             rt_api_live = api_enabled, rt_outcome = None\<rparr>)"

definition NOTIF_CAPACITY :: nat where
  "NOTIF_CAPACITY = 256"

text \<open>The observation channel is closed: the supervisor and all collector tasks dropped their senders.\<close>

definition obs_closed :: "runtime_state \<Rightarrow> bool" where
  "obs_closed s \<longleftrightarrow> rt_spawned s \<and> list_all (\<lambda>c. c = Stopped) (rt_collectors s)"

section \<open>Steps of the tasks\<close>

datatype collector_event =
    Start
  | Poll "observation_batch run"
  | Send
  | SendFails
  | Notice
  | StopInWait
  | Respawn

text \<open>
  The steps of one collector task, \<open>supervise_polling\<close> with its inner loop: the phases before and
  after, and the batch that enters the channel.
\<close>

inductive collector_step ::
    "bool \<Rightarrow> bool \<Rightarrow> bool \<Rightarrow> collector_event \<Rightarrow> collector_phase \<Rightarrow> collector_phase \<Rightarrow> observation_batch list \<Rightarrow> bool"
    for signal room consumer_live where
  start: "collector_step signal room consumer_live Start (Spawned p) (Idle p (\<not> signal)) []"
| poll: "collector_step signal room consumer_live (Poll (Done b)) (Idle p q) (Sending p q b) []"
| poll_panics: "collector_step signal room consumer_live (Poll Panicked) (Idle p q) (Backoff p) []"
| send: "room \<Longrightarrow> consumer_live \<Longrightarrow> collector_step signal room consumer_live Send (Sending p q b) (Idle p q) [b]"
| send_fails: "\<not> consumer_live \<Longrightarrow> collector_step signal room consumer_live SendFails (Sending p q b) Stopped []"
| noticed: "signal \<Longrightarrow> collector_step signal room consumer_live Notice (Idle p True) Stopped []"
| stop_in_wait: "signal \<Longrightarrow> collector_step signal room consumer_live StopInWait (Backoff True) Stopped []"
| respawn: "collector_step signal room consumer_live Respawn (Backoff p) (Idle p (\<not> signal)) []"

inductive_simps collector_step_Stopped [simp]: "collector_step signal room consumer_live ev Stopped c' bs"
inductive_simps collector_step_SendFails: "collector_step signal room consumer_live SendFails c c' bs"

definition supervisor_spawn :: "runtime_state \<Rightarrow> runtime_state" where
  "supervisor_spawn s =
     s\<lparr>rt_spawned := True,
       rt_collectors := map (\<lambda>c. if c = Unspawned then Spawned (\<not> rt_signal s) else c) (rt_collectors s)\<rparr>"

text \<open>When the worker ends, its receiver is dropped with the dispatches still in the channel.\<close>

definition worker_gone :: "runtime_state \<Rightarrow> runtime_state" where
  "worker_gone s = s\<lparr>rt_worker_live := False, rt_unsent := rt_unsent s @ rt_notif s, rt_notif := []\<rparr>"

text \<open>All tasks of the join set have ended.\<close>

definition all_ended :: "runtime_state \<Rightarrow> bool" where
  "all_ended s \<longleftrightarrow> obs_closed s \<and> \<not> rt_consumer_live s \<and> \<not> rt_worker_live s \<and> \<not> rt_api_live s"

datatype runtime_event =
    SpawnCollectors
  | Collector nat collector_event
  | ConsumerSignal
  | TakeBatch "notification_dispatch list"
  | ConsumerClosed
  | Deliver
  | DeliverFails
  | WorkDispatch
  | WorkerPanics
  | WorkerSignal
  | WorkerClosed
  | ApiExits
  | Signal
  | JoinedAll
  | Deadline

text \<open>The consumer: between batches it may see the signal, take a batch, or find its channel closed.\<close>

inductive consumer_step :: "runtime_event \<Rightarrow> runtime_state \<Rightarrow> runtime_state \<Rightarrow> bool" where
  signal: "rt_consumer_live s \<Longrightarrow> rt_pending s = [] \<Longrightarrow> rt_signal s \<Longrightarrow> \<not> rt_draining s \<Longrightarrow>
    consumer_step ConsumerSignal s (s\<lparr>rt_draining := True\<rparr>)"
| take_batch: "rt_consumer_live s \<Longrightarrow> rt_pending s = [] \<Longrightarrow> rt_obs s = b # rest \<Longrightarrow>
    consumer_step (TakeBatch ds) s (s\<lparr>rt_obs := rest, rt_taken := rt_taken s @ [b], rt_pending := ds\<rparr>)"
| closed: "rt_consumer_live s \<Longrightarrow> rt_pending s = [] \<Longrightarrow> rt_obs s = [] \<Longrightarrow> obs_closed s \<Longrightarrow>
    consumer_step ConsumerClosed s (s\<lparr>rt_consumer_live := False\<rparr>)"
| deliver: "rt_consumer_live s \<Longrightarrow> rt_pending s = d # ds \<Longrightarrow> rt_worker_live s \<Longrightarrow> length (rt_notif s) < NOTIF_CAPACITY \<Longrightarrow>
    consumer_step Deliver s (s\<lparr>rt_pending := ds, rt_notif := rt_notif s @ [d]\<rparr>)"
| deliver_fails: "rt_consumer_live s \<Longrightarrow> rt_pending s = d # ds \<Longrightarrow> \<not> rt_worker_live s \<Longrightarrow>
    consumer_step DeliverFails s (s\<lparr>rt_pending := ds, rt_unsent := rt_unsent s @ [d]\<rparr>)"

inductive worker_step :: "runtime_event \<Rightarrow> runtime_state \<Rightarrow> runtime_state \<Rightarrow> bool" where
  work: "rt_worker_live s \<Longrightarrow> rt_notif s = d # ds \<Longrightarrow>
    worker_step WorkDispatch s (s\<lparr>rt_notif := ds, rt_worked := rt_worked s @ [d]\<rparr>)"
| panics: "rt_worker_live s \<Longrightarrow> rt_notif s = d # ds \<Longrightarrow> worker_step WorkerPanics s (worker_gone s)"
| worker_signal: "rt_worker_live s \<Longrightarrow> rt_signal s \<Longrightarrow> worker_step WorkerSignal s (worker_gone s)"
| worker_closed: "rt_worker_live s \<Longrightarrow> rt_notif s = [] \<Longrightarrow> \<not> rt_consumer_live s \<Longrightarrow>
    worker_step WorkerClosed s (worker_gone s)"

text \<open>The whole runtime, until it has its outcome: a clean end or the deadline.\<close>

inductive runtime_step :: "nat \<Rightarrow> runtime_event \<Rightarrow> runtime_state \<Rightarrow> runtime_state \<Rightarrow> bool" for capacity where
  spawn: "rt_outcome s = None \<Longrightarrow> \<not> rt_spawned s \<Longrightarrow> runtime_step capacity SpawnCollectors s (supervisor_spawn s)"
| collector: "rt_outcome s = None \<Longrightarrow> i < length (rt_collectors s) \<Longrightarrow>
    collector_step (rt_signal s) (length (rt_obs s) < capacity) (rt_consumer_live s) e (rt_collectors s ! i) c bs \<Longrightarrow>
    runtime_step capacity (Collector i e) s
      (s\<lparr>rt_collectors := (rt_collectors s)[i := c], rt_obs := rt_obs s @ bs, rt_accepted := rt_accepted s @ bs\<rparr>)"
| consumer: "rt_outcome s = None \<Longrightarrow> consumer_step ev s t \<Longrightarrow> runtime_step capacity ev s t"
| worker: "rt_outcome s = None \<Longrightarrow> worker_step ev s t \<Longrightarrow> runtime_step capacity ev s t"
| api: "rt_outcome s = None \<Longrightarrow> rt_api_live s \<Longrightarrow> runtime_step capacity ApiExits s (s\<lparr>rt_api_live := False\<rparr>)"
| signal: "rt_outcome s = None \<Longrightarrow> \<not> rt_signal s \<Longrightarrow> runtime_step capacity Signal s (s\<lparr>rt_signal := True\<rparr>)"
| joined: "rt_outcome s = None \<Longrightarrow> rt_signal s \<Longrightarrow> all_ended s \<Longrightarrow>
    runtime_step capacity JoinedAll s (s\<lparr>rt_outcome := Some Clean\<rparr>)"
| deadline: "rt_outcome s = None \<Longrightarrow> rt_signal s \<Longrightarrow>
    runtime_step capacity Deadline s (s\<lparr>rt_outcome := Some DeadlineExceeded\<rparr>)"

inductive runtime_run :: "nat \<Rightarrow> runtime_event list \<Rightarrow> runtime_state \<Rightarrow> runtime_state \<Rightarrow> bool" for capacity where
  stay: "runtime_run capacity [] s s"
| go: "runtime_step capacity ev s t \<Longrightarrow> runtime_run capacity evs t u \<Longrightarrow> runtime_run capacity (ev # evs) s u"

text \<open>Each event decides which step it can be.\<close>

inductive_simps runtime_run_Nil: "runtime_run capacity [] s u"
inductive_simps runtime_run_Cons: "runtime_run capacity (ev # evs) s u"
inductive_simps collector_events:
  "collector_step signal room live Start c c' bs" "collector_step signal room live (Poll r) c c' bs"
  "collector_step signal room live Send c c' bs" "collector_step signal room live Notice c c' bs"
inductive_simps consumer_events:
  "consumer_step SpawnCollectors s t" "consumer_step (Collector i e) s t" "consumer_step ConsumerSignal s t"
  "consumer_step (TakeBatch ds) s t" "consumer_step ConsumerClosed s t" "consumer_step Deliver s t"
  "consumer_step DeliverFails s t" "consumer_step WorkDispatch s t" "consumer_step WorkerPanics s t"
  "consumer_step WorkerSignal s t" "consumer_step WorkerClosed s t" "consumer_step ApiExits s t"
  "consumer_step Signal s t" "consumer_step JoinedAll s t" "consumer_step Deadline s t"
inductive_simps worker_events:
  "worker_step SpawnCollectors s t" "worker_step (Collector i e) s t" "worker_step ConsumerSignal s t"
  "worker_step (TakeBatch ds) s t" "worker_step ConsumerClosed s t" "worker_step Deliver s t"
  "worker_step DeliverFails s t" "worker_step WorkDispatch s t" "worker_step WorkerPanics s t"
  "worker_step WorkerSignal s t" "worker_step WorkerClosed s t" "worker_step ApiExits s t"
  "worker_step Signal s t" "worker_step JoinedAll s t" "worker_step Deadline s t"
inductive_simps runtime_events:
  "runtime_step capacity SpawnCollectors s t" "runtime_step capacity (Collector i e) s t"
  "runtime_step capacity ConsumerSignal s t" "runtime_step capacity (TakeBatch ds) s t"
  "runtime_step capacity ConsumerClosed s t" "runtime_step capacity Deliver s t"
  "runtime_step capacity DeliverFails s t" "runtime_step capacity WorkDispatch s t"
  "runtime_step capacity WorkerSignal s t" "runtime_step capacity Signal s t" "runtime_step capacity JoinedAll s t"

lemmas runtime_simps = runtime_run_Nil runtime_run_Cons collector_events consumer_events worker_events runtime_events

section \<open>The invariant\<close>

text \<open>
  What was accepted is taken or waits, in order; the channels keep their bounds; the consumer
  ends only on a closed and empty channel, and nothing ends cleanly before everyone ended.
\<close>

definition runtime_inv :: "nat \<Rightarrow> runtime_state \<Rightarrow> bool" where
  "runtime_inv capacity s \<longleftrightarrow>
     rt_accepted s = rt_taken s @ rt_obs s \<and> length (rt_obs s) \<le> capacity \<and> length (rt_notif s) \<le> NOTIF_CAPACITY \<and>
     (\<not> rt_consumer_live s \<longrightarrow> rt_obs s = [] \<and> rt_pending s = [] \<and> obs_closed s) \<and>
     (\<not> rt_worker_live s \<longrightarrow> rt_notif s = []) \<and>
     (rt_outcome s = Some Clean \<longrightarrow> all_ended s)"

lemma runtime_inv_step:
  assumes inv: "runtime_inv capacity s" and step: "runtime_step capacity ev s t"
  shows "runtime_inv capacity t"
  using step
proof (cases rule: runtime_step.cases)
  case spawn
  with inv show ?thesis
    by (auto simp: runtime_inv_def supervisor_spawn_def obs_closed_def all_ended_def)
next
  case (collector i e c bs)
  have live: "rt_consumer_live s"
  proof (rule ccontr)
    assume "\<not> rt_consumer_live s"
    then have "rt_collectors s ! i = Stopped"
      using inv collector(4) by (auto simp: runtime_inv_def obs_closed_def list_all_length)
    with collector show False by simp
  qed
  have "length (rt_obs s @ bs) \<le> capacity"
    using collector(5) inv by (cases rule: collector_step.cases) (auto simp: runtime_inv_def)
  with inv collector live show ?thesis
    by (auto simp: runtime_inv_def)
next
  case consumer
  from consumer(2) show ?thesis
    using inv consumer(1) by (cases rule: consumer_step.cases) (auto simp: runtime_inv_def obs_closed_def all_ended_def)
next
  case worker
  from worker(2) show ?thesis
    using inv worker(1)
    by (cases rule: worker_step.cases) (auto simp: runtime_inv_def worker_gone_def obs_closed_def all_ended_def)
qed (use inv in \<open>auto simp: runtime_inv_def obs_closed_def all_ended_def\<close>)

lemma runtime_inv_run:
  "runtime_inv capacity s \<Longrightarrow> runtime_run capacity evs s t \<Longrightarrow> runtime_inv capacity t"
  by (rotate_tac, induction rule: runtime_run.induct) (auto intro: runtime_inv_step)

lemma runtime_inv_start: "runtime_start capacity n api = Done s \<Longrightarrow> runtime_inv capacity s \<and> capacity > 0"
  by (auto simp: runtime_start_def runtime_inv_def split: if_splits)

section \<open>Receivers that hear the signal\<close>

fun hears :: "collector_phase \<Rightarrow> bool" where
  "hears Unspawned = False"
| "hears (Spawned _) = False"
| "hears (Idle _ q) = q"
| "hears (Sending _ q _) = q"
| "hears (Backoff p) = p"
| "hears Stopped = True"

definition started :: "runtime_state \<Rightarrow> bool" where
  "started s \<longleftrightarrow> rt_spawned s \<and> list_all (\<lambda>c. c \<noteq> Unspawned \<and> (\<forall>p. c \<noteq> Spawned p)) (rt_collectors s)"

text \<open>Before the signal every receiver in place will get it.\<close>

fun subscribed :: "collector_phase \<Rightarrow> bool" where
  "subscribed Unspawned = True"
| "subscribed (Spawned p) = p"
| "subscribed (Idle p q) = (p \<and> q)"
| "subscribed (Sending p q _) = (p \<and> q)"
| "subscribed (Backoff p) = p"
| "subscribed Stopped = True"

definition unsignalled_inv :: "runtime_state \<Rightarrow> bool" where
  "unsignalled_inv s \<longleftrightarrow> rt_signal s \<or> list_all subscribed (rt_collectors s)"

lemma list_all_update: "list_all p xs \<Longrightarrow> p x \<Longrightarrow> list_all p (xs[i := x])"
  by (auto simp: list_all_iff dest: set_update_subset_insert [THEN subsetD])

lemma unsignalled_inv_step:
  assumes inv: "unsignalled_inv s" and step: "runtime_step capacity ev s t"
  shows "unsignalled_inv t"
  using step
proof (cases rule: runtime_step.cases)
  case (collector i e c bs)
  have "subscribed c" if "\<not> rt_signal s"
  proof -
    have "subscribed (rt_collectors s ! i)"
      using inv that collector(4) by (simp add: unsignalled_inv_def list_all_length)
    with collector(5) that show ?thesis
      by (cases rule: collector_step.cases) auto
  qed
  with inv collector show ?thesis
    by (auto simp: unsignalled_inv_def intro: list_all_update)
next
  case consumer
  from consumer(2) show ?thesis
    using inv by (cases rule: consumer_step.cases) (auto simp: unsignalled_inv_def)
next
  case worker
  from worker(2) show ?thesis
    using inv by (cases rule: worker_step.cases) (auto simp: unsignalled_inv_def worker_gone_def)
qed (use inv in \<open>auto simp: unsignalled_inv_def supervisor_spawn_def list_all_iff\<close>)

lemma unsignalled_inv_run:
  "unsignalled_inv s \<Longrightarrow> runtime_run capacity evs s t \<Longrightarrow> unsignalled_inv t"
  by (rotate_tac, induction rule: runtime_run.induct) (auto intro: unsignalled_inv_step)

lemma unsignalled_inv_start: "runtime_start capacity n api = Done s \<Longrightarrow> unsignalled_inv s"
  by (auto simp: runtime_start_def unsignalled_inv_def list_all_iff split: if_splits)

definition all_hear :: "runtime_state \<Rightarrow> bool" where
  "all_hear s \<longleftrightarrow> rt_signal s \<and> rt_spawned s \<and> list_all hears (rt_collectors s)"

lemma started_all_hear:
  assumes "unsignalled_inv s" and "started s" and "\<not> rt_signal s"
  shows "all_hear (s\<lparr>rt_signal := True\<rparr>)"
proof -
  have "subscribed c \<Longrightarrow> c \<noteq> Unspawned \<and> (\<forall>p. c \<noteq> Spawned p) \<Longrightarrow> hears c" for c
    by (cases c) auto
  with assms show ?thesis
    by (auto simp: all_hear_def unsignalled_inv_def started_def list_all_iff)
qed

section \<open>After the signal\<close>

text \<open>
  The steps of a shutdown: no task with a pending signal takes the other branch of its
  \<open>select!\<close>, which polls again or ends a backoff, and the deadline does not pass.
\<close>

fun quiet :: "runtime_event \<Rightarrow> bool" where
  "quiet (Collector _ (Poll _)) = False"
| "quiet (Collector _ Respawn) = False"
| "quiet Deadline = False"
| "quiet _ = True"

lemma quiet_hears:
  "collector_step signal room live e c c' bs \<Longrightarrow> quiet (Collector i e) \<Longrightarrow> hears c \<Longrightarrow> hears c'"
  by (erule collector_step.cases) auto

lemma all_hear_step:
  assumes hear: "all_hear s" and q: "quiet ev" and step: "runtime_step capacity ev s t"
  shows "all_hear t"
  using step
proof (cases rule: runtime_step.cases)
  case (collector i e c bs)
  have "hears (rt_collectors s ! i)"
    using hear collector(4) by (simp add: all_hear_def list_all_length)
  then have "hears c"
    using quiet_hears [OF collector(5)] q collector(1) by simp
  with hear collector show ?thesis
    by (auto simp: all_hear_def intro: list_all_update)
next
  case consumer
  from consumer(2) show ?thesis
    using hear by (cases rule: consumer_step.cases) (auto simp: all_hear_def)
next
  case worker
  from worker(2) show ?thesis
    using hear by (cases rule: worker_step.cases) (auto simp: all_hear_def worker_gone_def)
qed (use hear in \<open>auto simp: all_hear_def\<close>)

lemma all_hear_run:
  "all_hear s \<Longrightarrow> runtime_run capacity evs s t \<Longrightarrow> list_all quiet evs \<Longrightarrow> all_hear t"
  by (rotate_tac, induction rule: runtime_run.induct) (auto intro: all_hear_step)

text \<open>Something can always happen: no two tasks wait for each other.\<close>

lemma consumer_moves:
  "rt_outcome s = None \<Longrightarrow> consumer_step ev s t \<Longrightarrow> quiet ev \<Longrightarrow> \<exists>ev t. quiet ev \<and> runtime_step capacity ev s t"
  by (blast intro: runtime_step.consumer)

lemma worker_moves:
  "rt_outcome s = None \<Longrightarrow> worker_step ev s t \<Longrightarrow> quiet ev \<Longrightarrow> \<exists>ev t. quiet ev \<and> runtime_step capacity ev s t"
  by (blast intro: runtime_step.worker)

lemma consumer_progress:
  assumes "rt_consumer_live s" and "rt_outcome s = None" and "rt_pending s \<noteq> [] \<or> rt_obs s \<noteq> [] \<or> obs_closed s"
  shows "\<exists>ev t. quiet ev \<and> runtime_step capacity ev s t"
proof (cases "rt_pending s")
  case Nil
  show ?thesis
  proof (cases "rt_obs s")
    case (Cons b rest)
    with Nil assms show ?thesis
      by (intro consumer_moves [OF _ consumer_step.take_batch [of _ _ _ "[]"]]) simp_all
  next
    case Nil
    with \<open>rt_pending s = []\<close> assms show ?thesis
      by (intro consumer_moves [OF _ consumer_step.closed]) simp_all
  qed
next
  case (Cons d ds)
  show ?thesis
  proof (cases "rt_worker_live s")
    case False
    with Cons assms show ?thesis
      by (intro consumer_moves [OF _ consumer_step.deliver_fails]) simp_all
  next
    case True
    show ?thesis
    proof (cases "rt_notif s")
      case Nil
      with Cons assms True show ?thesis
        by (intro consumer_moves [OF _ consumer_step.deliver]) (simp_all add: NOTIF_CAPACITY_def)
    next
      case (Cons d ds)
      with assms True show ?thesis
        by (intro worker_moves [OF _ worker_step.work]) simp_all
    qed
  qed
qed

lemma collector_progress:
  assumes inv: "runtime_inv capacity s" and cap: "capacity > 0" and hear: "all_hear s" and run: "rt_outcome s = None"
    and i: "i < length (rt_collectors s)" and c: "rt_collectors s ! i \<noteq> Stopped"
  shows "\<exists>ev t. quiet ev \<and> runtime_step capacity ev s t"
proof -
  have live: "rt_consumer_live s"
    using inv i c by (auto simp: runtime_inv_def obs_closed_def list_all_length)
  have sig: "rt_signal s" and h: "hears (rt_collectors s ! i)"
    using hear i by (auto simp: all_hear_def list_all_length)
  note step = runtime_step.collector [OF run i]
  show ?thesis
  proof (cases "rt_collectors s ! i")
    case (Idle p q)
    with h have "collector_step (rt_signal s) (length (rt_obs s) < capacity) (rt_consumer_live s) Notice (rt_collectors s ! i) Stopped []"
      using sig by (auto intro: collector_step.noticed)
    from step [OF this] show ?thesis
      using quiet.simps by blast
  next
    case (Backoff p)
    with h have "collector_step (rt_signal s) (length (rt_obs s) < capacity) (rt_consumer_live s) StopInWait (rt_collectors s ! i) Stopped []"
      using sig by (auto intro: collector_step.stop_in_wait)
    from step [OF this] show ?thesis
      using quiet.simps by blast
  next
    case (Sending p q b)
    show ?thesis
    proof (cases "length (rt_obs s) < capacity")
      case True
      with Sending live have "collector_step (rt_signal s) (length (rt_obs s) < capacity) (rt_consumer_live s) Send (rt_collectors s ! i) (Idle p q) [b]"
        by (auto intro: collector_step.send)
      from step [OF this] show ?thesis
        using quiet.simps by blast
    next
      case False
      with cap have "rt_obs s \<noteq> []" by auto
      with consumer_progress [OF live run] show ?thesis by blast
    qed
  qed (use h c in auto)
qed

lemma shutdown_progress:
  assumes inv: "runtime_inv capacity s" and cap: "capacity > 0" and hear: "all_hear s" and run: "rt_outcome s = None"
  shows "\<exists>ev t. quiet ev \<and> runtime_step capacity ev s t"
proof (cases "obs_closed s")
  case False
  then obtain i where "i < length (rt_collectors s)" "rt_collectors s ! i \<noteq> Stopped"
    using hear by (auto simp: obs_closed_def all_hear_def list_all_length)
  with collector_progress [OF assms] show ?thesis by blast
next
  case True
  have sig: "rt_signal s"
    using hear by (simp add: all_hear_def)
  consider "rt_consumer_live s" | "rt_worker_live s" | "rt_api_live s" | "all_ended s"
    using True by (auto simp: all_ended_def)
  then show ?thesis
  proof cases
    case 1
    with consumer_progress run True show ?thesis by blast
  next
    case 2
    with run sig show ?thesis
      by (intro worker_moves [OF _ worker_step.worker_signal]) simp_all
  next
    case 3
    with run show ?thesis
      by (intro exI [of _ ApiExits] exI [of _ "s\<lparr>rt_api_live := False\<rparr>"] conjI runtime_step.api) simp_all
  next
    case 4
    with run sig show ?thesis
      by (intro exI [of _ JoinedAll] exI [of _ "s\<lparr>rt_outcome := Some Clean\<rparr>"] conjI runtime_step.joined) simp_all
  qed
qed

section \<open>Quiet runs end\<close>

fun weight :: "collector_phase \<Rightarrow> nat" where
  "weight Unspawned = 4"
| "weight (Spawned _) = 3"
| "weight (Idle _ _) = 1"
| "weight (Sending _ _ _) = 2"
| "weight (Backoff _) = 1"
| "weight Stopped = 0"

definition shutdown_rank :: "(runtime_state \<times> runtime_state) set" where
  "shutdown_rank = measures
     [\<lambda>s. if rt_outcome s = None then 1 else 0, \<lambda>s. if rt_spawned s then 0 else 1, \<lambda>s. if rt_signal s then 0 else 1,
      \<lambda>s. \<Sum>c\<leftarrow>rt_collectors s. weight c, \<lambda>s. length (rt_obs s), \<lambda>s. if rt_consumer_live s then 1 else 0,
      \<lambda>s. if rt_draining s then 0 else 1, \<lambda>s. length (rt_pending s), \<lambda>s. length (rt_notif s),
      \<lambda>s. if rt_worker_live s then 1 else 0, \<lambda>s. if rt_api_live s then 1 else 0]"

lemma quiet_weight:
  "collector_step signal room live e c c' bs \<Longrightarrow> quiet (Collector i e) \<Longrightarrow> weight c' < weight c"
  by (erule collector_step.cases) auto

lemma weight_update:
  assumes "i < length cs" and "weight c < weight (cs ! i)"
  shows "(\<Sum>c\<leftarrow>cs[i := c]. weight c) < (\<Sum>c\<leftarrow>cs. weight c)"
proof -
  have "weight (cs ! i) \<le> (\<Sum>c\<leftarrow>cs. weight c)"
    using assms(1) by (intro member_le_sum_list) simp_all
  then show ?thesis
    using assms by (simp add: map_update sum_list_update)
qed

lemma quiet_step_rank:
  assumes step: "runtime_step capacity ev s t" and q: "quiet ev"
  shows "(t, s) \<in> shutdown_rank"
  using step
proof (cases rule: runtime_step.cases)
  case (collector i e c bs)
  have "weight c < weight (rt_collectors s ! i)"
    using quiet_weight [OF collector(5)] q collector(1) by simp
  with collector weight_update [OF collector(4)] show ?thesis
    by (simp add: shutdown_rank_def)
next
  case consumer
  from consumer(2) show ?thesis
    by (cases rule: consumer_step.cases) (auto simp: shutdown_rank_def)
next
  case worker
  from worker(2) show ?thesis
    by (cases rule: worker_step.cases) (auto simp: shutdown_rank_def worker_gone_def)
qed (use q in \<open>auto simp: shutdown_rank_def supervisor_spawn_def\<close>)

lemma quiet_runs_end:
  "\<nexists>f. \<forall>k. \<exists>ev. quiet ev \<and> runtime_step capacity ev (f k) (f (Suc k))"
proof -
  have "wf shutdown_rank"
    by (simp add: shutdown_rank_def)
  then show ?thesis
    using quiet_step_rank unfolding wf_iff_no_infinite_down_chain by blast
qed

lemma quiet_outcome:
  assumes "runtime_run capacity evs s t" and "list_all quiet evs" and "rt_outcome s \<noteq> Some DeadlineExceeded"
  shows "rt_outcome t \<noteq> Some DeadlineExceeded"
  using assms
proof (induction rule: runtime_run.induct)
  case (go ev s t evs u)
  have "rt_outcome t \<noteq> Some DeadlineExceeded"
    using go.hyps(1) go.prems
    by (cases rule: runtime_step.cases)
      (auto simp: supervisor_spawn_def worker_gone_def elim!: consumer_step.cases worker_step.cases)
  with go show ?case by simp
qed

section \<open>A receiver created too late\<close>

definition deaf :: "collector_phase \<Rightarrow> bool" where
  "deaf c \<longleftrightarrow> (\<exists>p. c = Idle p False) \<or> (\<exists>p b. c = Sending p False b)"

lemma deaf_collector_step:
  "collector_step signal room live e c c' bs \<Longrightarrow> deaf c \<Longrightarrow> e \<noteq> Poll Panicked \<Longrightarrow> live \<Longrightarrow> deaf c'"
  by (erule collector_step.cases) (auto simp: deaf_def)

definition stuck_at :: "nat \<Rightarrow> runtime_state \<Rightarrow> bool" where
  "stuck_at i s \<longleftrightarrow> i < length (rt_collectors s) \<and> deaf (rt_collectors s ! i) \<and> rt_outcome s \<noteq> Some Clean"

lemma stuck_at_not_closed: "stuck_at i s \<Longrightarrow> \<not> obs_closed s"
  by (auto simp: stuck_at_def obs_closed_def list_all_length deaf_def)

lemma stuck_at_step:
  assumes stuck: "stuck_at i s" and inv: "runtime_inv capacity s" and ev: "ev \<noteq> Collector i (Poll Panicked)"
    and step: "runtime_step capacity ev s t"
  shows "stuck_at i t"
  using step
proof (cases rule: runtime_step.cases)
  case (collector j e c bs)
  have live: "rt_consumer_live s"
    using inv stuck_at_not_closed [OF stuck] by (auto simp: runtime_inv_def)
  show ?thesis
  proof (cases "j = i")
    case True
    then have "deaf c"
      using deaf_collector_step [OF collector(5)] stuck ev collector(1) live by (auto simp: stuck_at_def)
    with True collector stuck show ?thesis by (auto simp: stuck_at_def)
  qed (use collector stuck in \<open>auto simp: stuck_at_def\<close>)
next
  case consumer
  from consumer(2) show ?thesis
    using stuck by (cases rule: consumer_step.cases) (auto simp: stuck_at_def)
next
  case worker
  from worker(2) show ?thesis
    using stuck by (cases rule: worker_step.cases) (auto simp: stuck_at_def worker_gone_def)
next
  case joined
  with stuck_at_not_closed [OF stuck] show ?thesis by (simp add: all_ended_def)
next
  case spawn
  with stuck show ?thesis by (auto simp: stuck_at_def supervisor_spawn_def deaf_def)
qed (use stuck in \<open>auto simp: stuck_at_def\<close>)

lemma stuck_at_run:
  assumes "runtime_run capacity evs s t" and "stuck_at i s" and "runtime_inv capacity s"
    and "Collector i (Poll Panicked) \<notin> set evs"
  shows "stuck_at i t"
  using assms
proof (induction rule: runtime_run.induct)
  case (go ev s t evs u)
  have "stuck_at i t"
    using stuck_at_step [OF go.prems(1,2) _ go.hyps(1)] go.prems(3) by auto
  with go runtime_inv_step [OF go.prems(2) go.hyps(1)] show ?case by simp
qed

section \<open>Properties\<close>

text \<open>C11. No batch that a collector handed over is lost.
  In every state any interleaving of the tasks can reach, the batches accepted by the
  channel are those the consumer took, in order, followed by those still queued; both
  channels keep their bounds, no collector ever finds the consumer gone, and when the runtime
  reports a clean end the consumer has taken every batch and sent off what it had to.\<close>

theorem no_accepted_batch_lost:
  assumes "runtime_start capacity n api_enabled = Done s0" and "runtime_run capacity evs s0 s"
  shows "rt_accepted s = rt_taken s @ rt_obs s \<and> length (rt_obs s) \<le> capacity \<and> length (rt_notif s) \<le> NOTIF_CAPACITY \<and>
    (\<forall>i t. \<not> runtime_step capacity (Collector i SendFails) s t) \<and>
    (rt_outcome s = Some Clean \<longrightarrow> rt_taken s = rt_accepted s \<and> rt_pending s = [])"
proof -
  have inv: "runtime_inv capacity s"
    using runtime_inv_run [OF _ assms(2)] runtime_inv_start [OF assms(1)] by blast
  have "\<not> runtime_step capacity (Collector i SendFails) s t" for i t
  proof
    assume "runtime_step capacity (Collector i SendFails) s t"
    then show False
    proof (cases rule: runtime_step.cases)
      case (collector c bs)
      then have "\<not> rt_consumer_live s" "rt_collectors s ! i \<noteq> Stopped"
        by (auto simp: collector_step_SendFails)
      with inv collector show False
        by (auto simp: runtime_inv_def obs_closed_def list_all_length)
    qed (auto elim: consumer_step.cases worker_step.cases)
  qed
  with inv show ?thesis
    by (auto simp: runtime_inv_def all_ended_def)
qed

text \<open>C12. A shutdown completes.
  When the signal arrives after all collectors have started, then, however the tasks
  interleave and whatever the API and the worker do, as long as collectors with a pending
  signal do not poll again and the deadline does not pass, the runtime cannot go on forever
  and cannot get stuck before its clean end, with every accepted batch taken by the
  consumer: no pair of tasks waits for each other on the bounded channels.\<close>

theorem shutdown_completes:
  assumes "runtime_start capacity n api_enabled = Done s0" and "runtime_run capacity evs s0 s" and "started s"
    and "runtime_step capacity Signal s t"
  shows "(\<nexists>f. f 0 = t \<and> (\<forall>k. \<exists>ev. quiet ev \<and> runtime_step capacity ev (f k) (f (Suc k)))) \<and>
    (\<forall>evs u. runtime_run capacity evs t u \<and> list_all quiet evs \<and> (\<forall>ev v. quiet ev \<longrightarrow> \<not> runtime_step capacity ev u v) \<longrightarrow>
       rt_outcome u = Some Clean \<and> rt_taken u = rt_accepted u)"
proof -
  have t: "\<not> rt_signal s" "t = s\<lparr>rt_signal := True\<rparr>" "rt_outcome s = None"
    using assms(4) by (cases rule: runtime_step.cases; auto elim: consumer_step.cases worker_step.cases)+
  have inv: "runtime_inv capacity t" "capacity > 0"
    using runtime_inv_step [OF runtime_inv_run [OF _ assms(2)] assms(4)] runtime_inv_start [OF assms(1)] by blast+
  have hear: "all_hear t"
    using started_all_hear [OF unsignalled_inv_run [OF unsignalled_inv_start [OF assms(1)] assms(2)] assms(3)] t by simp
  have "rt_outcome u = Some Clean \<and> rt_taken u = rt_accepted u"
    if run: "runtime_run capacity evs t u" "list_all quiet evs" and stop: "\<forall>ev v. quiet ev \<longrightarrow> \<not> runtime_step capacity ev u v" for evs u
  proof -
    have u: "runtime_inv capacity u" "all_hear u"
      using runtime_inv_run [OF inv(1) run(1)] all_hear_run [OF hear run] by blast+
    then obtain x where x: "rt_outcome u = Some x"
      using shutdown_progress [OF u(1) inv(2) u(2)] stop by blast
    have "rt_outcome u \<noteq> Some DeadlineExceeded"
      using quiet_outcome [OF run] t by simp
    with x have "rt_outcome u = Some Clean"
      by (cases x) auto
    with u(1) show ?thesis
      by (auto simp: runtime_inv_def all_ended_def)
  qed
  with quiet_runs_end show ?thesis by blast
qed

text \<open>C21. A collector that starts after the signal keeps the runtime from ending.
  The inner loop of a collector subscribes anew when it starts.  If the signal comes between
  the spawn of its task and that start, the loop never sees it: until its poll panics, no
  run of the runtime ends cleanly, only by the deadline.\<close>

theorem late_collector_blocks_shutdown:
  assumes "runtime_start capacity n api_enabled = Done s0" and "i < n"
  shows "\<exists>s. runtime_run capacity [SpawnCollectors, Signal, Collector i Start] s0 s \<and>
    (\<forall>evs u. runtime_run capacity evs s u \<and> Collector i (Poll Panicked) \<notin> set evs \<longrightarrow> rt_outcome u \<noteq> Some Clean)"
proof -
  have s0: "rt_outcome s0 = None" "\<not> rt_spawned s0" "\<not> rt_signal s0" "rt_collectors s0 = replicate n Unspawned"
    using assms(1) by (auto simp: runtime_start_def split: if_splits)
  let ?s1 = "supervisor_spawn s0"
  let ?s2 = "?s1\<lparr>rt_signal := True\<rparr>"
  let ?s3 = "?s2\<lparr>rt_collectors := (rt_collectors ?s2)[i := Idle True False], rt_obs := rt_obs ?s2 @ [],
      rt_accepted := rt_accepted ?s2 @ []\<rparr>"
  have "runtime_step capacity SpawnCollectors s0 ?s1"
    using s0 by (intro runtime_step.spawn)
  moreover have "runtime_step capacity Signal ?s1 ?s2"
    using s0 by (intro runtime_step.signal) (simp_all add: supervisor_spawn_def)
  moreover have "runtime_step capacity (Collector i Start) ?s2 ?s3"
  proof (rule runtime_step.collector)
    have "rt_collectors ?s2 ! i = Spawned True"
      using s0 assms(2) by (simp add: supervisor_spawn_def)
    then show "collector_step (rt_signal ?s2) (length (rt_obs ?s2) < capacity) (rt_consumer_live ?s2) Start (rt_collectors ?s2 ! i)
        (Idle True False) []"
      using collector_step.start [of "rt_signal ?s2" "length (rt_obs ?s2) < capacity" "rt_consumer_live ?s2" True] by simp
  qed (use s0 assms(2) in \<open>simp_all add: supervisor_spawn_def\<close>)
  ultimately have run: "runtime_run capacity [SpawnCollectors, Signal, Collector i Start] s0 ?s3"
    by (blast intro: runtime_run.intros)
  have "stuck_at i ?s3"
    using s0 assms(2) by (auto simp: stuck_at_def deaf_def supervisor_spawn_def)
  moreover have "runtime_inv capacity ?s3"
    using runtime_inv_run [OF _ run] runtime_inv_start [OF assms(1)] by blast
  ultimately have "stuck_at i u" if "runtime_run capacity evs ?s3 u" "Collector i (Poll Panicked) \<notin> set evs" for evs u
    using stuck_at_run [OF that(1) _ _ that(2)] by blast
  with run show ?thesis
    unfolding stuck_at_def by blast
qed

definition sample_polled :: observation_batch where
  "sample_polled =
     \<lparr>batch_id = ObservationBatchId 1, batch_collector = src_collector sample_source, batch_sidecar_id = SidecarId 1,
      batch_window = \<lparr>pw_started_at = 0, pw_completed_at = 0\<rparr>, batch_result = ProbeOk []\<rparr>"

definition sample_handover :: "runtime_event list" where
  "sample_handover =
     [SpawnCollectors, Collector 0 Start, Collector 0 (Poll (Done sample_polled)), Collector 0 Send]"

lemma sample_handover_run:
  assumes "runtime_start 1 1 False = Done s0"
  shows "\<exists>s. runtime_run 1 sample_handover s0 s \<and> started s \<and> \<not> rt_signal s \<and> rt_outcome s = None \<and> rt_accepted s = [sample_polled]"
proof -
  let ?s1 = "supervisor_spawn s0"
  let ?s2 = "?s1\<lparr>rt_collectors := [Idle True True]\<rparr>"
  let ?s3 = "?s1\<lparr>rt_collectors := [Sending True True sample_polled]\<rparr>"
  let ?s4 = "?s1\<lparr>rt_collectors := [Idle True True], rt_obs := [sample_polled], rt_accepted := [sample_polled]\<rparr>"
  note s0 = assms [symmetric, unfolded runtime_start_def, simplified]
  have "runtime_step 1 SpawnCollectors s0 ?s1" "runtime_step 1 (Collector 0 Start) ?s1 ?s2"
    "runtime_step 1 (Collector 0 (Poll (Done sample_polled))) ?s2 ?s3" "runtime_step 1 (Collector 0 Send) ?s3 ?s4"
    by (auto simp: runtime_simps s0 supervisor_spawn_def)
  then have "runtime_run 1 sample_handover s0 ?s4"
    unfolding sample_handover_def by (blast intro: runtime_run.intros)
  moreover have "started ?s4" "\<not> rt_signal ?s4" "rt_outcome ?s4 = None" "rt_accepted ?s4 = [sample_polled]"
    by (simp_all add: s0 supervisor_spawn_def started_def)
  ultimately show ?thesis by blast
qed

theorem no_accepted_batch_lost_witness:
  "\<exists>s0 s. runtime_start 1 1 False = Done s0 \<and> runtime_run 1 sample_handover s0 s \<and> rt_taken s @ rt_obs s = [sample_polled]"
proof -
  obtain s0 where s0: "runtime_start 1 1 False = Done s0"
    by (simp add: runtime_start_def)
  obtain s where "runtime_run 1 sample_handover s0 s" "rt_accepted s = [sample_polled]"
    using sample_handover_run [OF s0] by blast
  with no_accepted_batch_lost [OF s0 this(1)] s0 show ?thesis by metis
qed

theorem shutdown_completes_witness:
  "\<exists>s0 s t. runtime_start 1 1 False = Done s0 \<and> runtime_run 1 sample_handover s0 s \<and> runtime_step 1 Signal s t \<and>
     (\<forall>evs u. runtime_run 1 evs t u \<and> list_all quiet evs \<and> (\<forall>ev v. quiet ev \<longrightarrow> \<not> runtime_step 1 ev u v) \<longrightarrow>
        rt_outcome u = Some Clean \<and> rt_taken u = rt_accepted u)"
proof -
  obtain s0 where s0: "runtime_start 1 1 False = Done s0"
    by (simp add: runtime_start_def)
  obtain s where s: "runtime_run 1 sample_handover s0 s" "started s" "\<not> rt_signal s" "rt_outcome s = None"
    using sample_handover_run [OF s0] by blast
  then have "runtime_step 1 Signal s (s\<lparr>rt_signal := True\<rparr>)"
    by (intro runtime_step.signal)
  with shutdown_completes [OF s0 s(1,2) this] s0 s(1) show ?thesis by blast
qed

theorem late_collector_blocks_shutdown_witness:
  "\<exists>s0 s. runtime_start 1 1 False = Done s0 \<and> runtime_run 1 [SpawnCollectors, Signal, Collector 0 Start] s0 s \<and>
     (\<forall>evs u. runtime_run 1 evs s u \<and> Collector 0 (Poll Panicked) \<notin> set evs \<longrightarrow> rt_outcome u \<noteq> Some Clean)"
proof -
  obtain s0 where s0: "runtime_start 1 1 False = Done s0"
    by (simp add: runtime_start_def)
  with late_collector_blocks_shutdown [OF s0, of 0] show ?thesis by auto
qed

end
