(* ===== verification/Sqlite_Consumer.thy ===== *)
theory Sqlite_Consumer
  imports Consumer_Correct Sqlite_Attempts Sqlite_Observations Retention "HOL-Library.Countable"
begin

text \<open>
  The consumer next to the SQLite repositories, as \<open>bootstrap\<close> wires it: every storage
  call is a sequence of statements on one database, any of which may fail.  Shown are
  that no timestamp the process handles makes a repository panic, and that the incident
  table stays in step with the engine, retention sweeps between the batches included.
\<close>

section \<open>The services\<close>

text \<open>
  The clock, the identifiers, the sleeps and the channel to the notification worker; they
  share a state \<open>'n\<close>.
\<close>

record 'n surroundings =
  su_now :: "'n \<Rightarrow> datetime \<times> 'n"
  su_instant :: "'n \<Rightarrow> instant \<times> 'n"
  su_uuid :: "'n \<Rightarrow> uuid \<times> 'n"
  su_sleep_ms :: "nat \<Rightarrow> 'n \<Rightarrow> 'n"
  su_channel_open :: "'n \<Rightarrow> bool \<times> 'n"

record 'n sqlite_world =
  sw_db :: database
  sw_dispatches :: "notification_dispatch list"
  sw_panicked :: bool
  sw_outside :: 'n

text \<open>
  A repository that panics on a timestamp takes the calling task with it: no answer comes
  back.  The world remembers that it happened.
\<close>

definition on_db ::
    "'e \<Rightarrow> (database \<Rightarrow> ('e + unit) run \<times> database) \<Rightarrow> 'n sqlite_world \<Rightarrow> ('e + unit) \<times> 'n sqlite_world" where
  "on_db e op w =
     (case op (sw_db w) of
        (Done r, db) \<Rightarrow> (r, w\<lparr>sw_db := db\<rparr>)
      | (Panicked, db) \<Rightarrow> (Err e, w\<lparr>sw_db := db, sw_panicked := True\<rparr>))"

definition on_surroundings :: "('n \<Rightarrow> 'a \<times> 'n) \<Rightarrow> 'n sqlite_world \<Rightarrow> 'a \<times> 'n sqlite_world" where
  "on_surroundings f w = (let (r, n) = f (sw_outside w) in (r, w\<lparr>sw_outside := n\<rparr>))"

definition sq_services :: "sqlite_outside \<Rightarrow> 'n surroundings \<Rightarrow> 'n sqlite_world services" where
  "sq_services so out =
     \<lparr>sv_now = on_surroundings (su_now out), sv_instant = on_surroundings (su_instant out),
      sv_uuid = on_surroundings (su_uuid out),
      sv_append = (\<lambda>ob. on_db StoreNotInitialized (sos_append_many so [ob])),
      sv_save = (\<lambda>i. on_db (IncidentBackend []) (sir_save so i)),
      sv_insert_pending = (\<lambda>a. on_db (AttemptBackend []) (sar_insert_pending so a)),
      sv_notify = (\<lambda>d w.
        let (ok, n) = su_channel_open out (sw_outside w);
            w = w\<lparr>sw_outside := n\<rparr>
        in (ok, if ok then w\<lparr>sw_dispatches := sw_dispatches w @ [d]\<rparr> else w)),
      sv_sleep_ms = (\<lambda>ms w. w\<lparr>sw_outside := su_sleep_ms out ms (sw_outside w)\<rparr>)\<rparr>"

lemma sq_services_sel [simp]:
  "sv_now (sq_services so out) = on_surroundings (su_now out)"
  "sv_instant (sq_services so out) = on_surroundings (su_instant out)"
  "sv_uuid (sq_services so out) = on_surroundings (su_uuid out)"
  "sv_append (sq_services so out) ob = on_db StoreNotInitialized (sos_append_many so [ob])"
  "sv_save (sq_services so out) i = on_db (IncidentBackend []) (sir_save so i)"
  "sv_insert_pending (sq_services so out) a = on_db (AttemptBackend []) (sar_insert_pending so a)"
  "sv_sleep_ms (sq_services so out) ms w = w\<lparr>sw_outside := su_sleep_ms out ms (sw_outside w)\<rparr>"
  by (simp_all add: sq_services_def)

section \<open>No timestamp panics\<close>

definition timely_observation :: "(datetime \<Rightarrow> bool) \<Rightarrow> observation \<Rightarrow> bool" where
  "timely_observation c ob \<longleftrightarrow> c (obs_observed_at ob) \<and> (\<forall>t. obs_received_at ob = Some t \<longrightarrow> c t)"

definition fresh_attempt :: "(datetime \<Rightarrow> bool) \<Rightarrow> notification_attempt \<Rightarrow> bool" where
  "fresh_attempt c a \<longleftrightarrow> c (na_attempted_at a) \<and> na_next_retry_at a = None \<and> na_completed_at a = None"

definition engine_timely :: "(datetime \<Rightarrow> bool) \<Rightarrow> incident_engine \<Rightarrow> bool" where
  "engine_timely c e \<longleftrightarrow> (\<forall>fp i. hm_get (eng_open_incidents e) fp = Some i \<longrightarrow> timely c i)"

text \<open>
  A world that stays \<open>calm\<close> when it is only given times \<open>c\<close>, next to a clock that shows
  such times.
\<close>

locale calm_services =
  fixes sv :: "'w services" and calm :: "'w \<Rightarrow> bool" and c :: "datetime \<Rightarrow> bool"
  assumes now_calm: "sv_now sv w = (t, w') \<Longrightarrow> calm w \<Longrightarrow> calm w' \<and> c t"
    and instant_calm: "sv_instant sv w = (x, w') \<Longrightarrow> calm w \<Longrightarrow> calm w'"
    and uuid_calm: "sv_uuid sv w = (u, w') \<Longrightarrow> calm w \<Longrightarrow> calm w'"
    and append_calm: "sv_append sv ob w = (r, w') \<Longrightarrow> calm w \<Longrightarrow> timely_observation c ob \<Longrightarrow> calm w'"
    and save_calm: "sv_save sv i w = (s, w') \<Longrightarrow> calm w \<Longrightarrow> timely c i \<Longrightarrow> calm w'"
    and insert_calm: "sv_insert_pending sv a w = (p, w') \<Longrightarrow> calm w \<Longrightarrow> fresh_attempt c a \<Longrightarrow> calm w'"
    and notify_calm: "calm w \<Longrightarrow> calm (snd (sv_notify sv d w))"
    and sleep_calm: "calm w \<Longrightarrow> calm (sv_sleep_ms sv ms w)"
begin

lemma save_attempts_calm:
  "save_attempts sv i indices err w = (r, w') \<Longrightarrow> calm w \<Longrightarrow> timely c i \<Longrightarrow> calm w'"
proof (induction indices arbitrary: err w)
  case (Cons a indices)
  obtain s w1 where s: "sv_save sv i w = (s, w1)" by (cases "sv_save sv i w")
  have "calm w1"
    using save_calm [OF s] Cons.prems by blast
  with Cons s sleep_calm show ?case
    by (cases s) (auto simp: Let_def)
qed (simp split: option.splits)

lemma insert_attempts_calm:
  "insert_attempts sv ev now rules ts w = (ts', w') \<Longrightarrow> calm w \<Longrightarrow> c now \<Longrightarrow> calm w'"
proof (induction rules arbitrary: ts w)
  case (Cons r rules)
  obtain u w1 where u: "sv_uuid sv w = (u, w1)" by (cases "sv_uuid sv w")
  let ?a = "pending_attempt (NotificationAttemptId u) r ev now"
  obtain p w2 where p: "sv_insert_pending sv ?a w1 = (p, w2)" by (cases "sv_insert_pending sv ?a w1")
  have "fresh_attempt c ?a"
    using Cons.prems(3) by (simp add: fresh_attempt_def pending_attempt_def split: prod.split)
  then have "calm w2"
    using insert_calm [OF p] uuid_calm [OF u] Cons.prems(2) by blast
  with Cons u p show ?case by (cases p) auto
qed simp

lemma dispatch_lifecycle_calm: "calm w \<Longrightarrow> c now \<Longrightarrow> calm (dispatch_lifecycle sv rd rules ev now w)"
  using insert_attempts_calm notify_calm by (simp add: dispatch_lifecycle_def Let_def split: prod.split)

definition event_timely :: "incident_event \<Rightarrow> bool" where
  "event_timely ev \<longleftrightarrow>
     (case ev of SignalRecorded ob \<Rightarrow> timely_observation c ob | IncidentTouched i \<Rightarrow> timely c i | _ \<Rightarrow> True)"

lemma process_engine_events_calm:
  assumes "process_engine_events sv rd rules now evs s w = (Done s', w')" and "calm w" and "c now"
    and "list_all event_timely evs"
  shows "calm w'"
  using assms
proof (induction evs arbitrary: s w)
  case (Cons ev evs)
  obtain s1 w1 where e: "process_engine_event sv rd rules now ev s w = (Done s1, w1)"
    using process_engine_event_Done [of sv rd rules now ev s w] by blast
  have "calm w1"
  proof (cases ev)
    case (SignalRecorded ob)
    with e Cons.prems append_calm show ?thesis by (auto simp: event_timely_def split: prod.splits)
  next
    case (IncidentTouched i)
    with e Cons.prems save_attempts_calm show ?thesis
      by (auto simp: event_timely_def save_incident_with_retry_def simp del: upt_Suc split: prod.splits run.splits)
  qed (use e Cons.prems dispatch_lifecycle_calm in auto)
  with Cons e show ?case by simp
qed simp

lemma signal_effect_events:
  assumes "signal_effect u v e spec d now = (m', evs)" and "c now" and "engine_timely c e"
  shows "list_all event_timely evs" and "engine_timely c (e\<lparr>eng_open_incidents := m'\<rparr>)"
proof -
  have "\<And>i. IncidentTouched i \<in> set evs \<Longrightarrow> timely c i"
    using signal_effect_timely [OF assms(1), where c = c] assms(2,3) by (auto simp: engine_timely_def)
  moreover have "\<And>ob. SignalRecorded ob \<notin> set evs"
    using assms(1) by (auto simp: signal_effect_def handle_active_def handle_cleared_def Let_def
        split: signal_status.splits if_splits option.splits)
  ultimately show "list_all event_timely evs"
    by (auto simp: list_all_iff event_timely_def split: incident_event.split)
  show "engine_timely c (e\<lparr>eng_open_incidents := m'\<rparr>)"
    using signal_effect_timely [OF assms(1), where c = c] assms(2,3) by (auto simp: engine_timely_def)
qed

lemma process_drafts_calm:
  assumes "process_drafts sv rd rules now drafts e s w = (Done (e', s'), w')" and "calm w" and "c now"
    and "engine_timely c e"
  shows "calm w' \<and> engine_timely c e'"
  using assms
proof (induction drafts arbitrary: e s w)
  case (Cons d drafts)
  obtain u w1 where u: "sv_uuid sv w = (u, w1)" by (cases "sv_uuid sv w")
  obtain v w2 where v: "sv_uuid sv w1 = (v, w2)" by (cases "sv_uuid sv w1")
  have w2: "calm w2"
    using uuid_calm [OF v] uuid_calm [OF u] Cons.prems(2) by blast
  obtain e1 r where h: "engine_handle u v e (RecordSignal d) now = Done (e1, r)"
    using engine_handle_not_panicked by (metis run.exhaust surj_pair)
  show ?case
  proof (cases r)
    case (Inl err)
    then have "e1 = e"
      using engine_handle_ErrD h by blast
    with Cons.IH [OF _ w2 Cons.prems(3,4)] Cons.prems(1) u v h Inl show ?thesis by simp
  next
    case (Inr evs)
    obtain s1 w3 where p: "process_engine_events sv rd rules now evs s w2 = (Done s1, w3)"
      using process_engine_events_Done [of sv rd rules now evs s w2] by blast
    obtain spec where e1: "e1 = e\<lparr>eng_open_incidents := fst (signal_effect u v e spec d now)\<rparr>"
      and evs: "evs = SignalRecorded (build_signal_observation u e d now) # snd (signal_effect u v e spec d now)"
      using h Inr by (auto elim!: engine_handle_OkE)
    note eff = signal_effect_events [OF surjective_pairing, OF Cons.prems(3,4), of u v spec d]
    have "timely_observation c (build_signal_observation u e d now)"
      using Cons.prems(3) by (simp add: build_signal_observation_def timely_observation_def Let_def store_simps)
    with eff(1) evs have "list_all event_timely evs"
      by (simp add: event_timely_def)
    then have "calm w3"
      using process_engine_events_calm [OF p w2 Cons.prems(3)] by blast
    moreover have "engine_timely c e1"
      using eff(2) e1 by simp
    ultimately show ?thesis
      using Cons.IH [OF _ _ Cons.prems(3)] Cons.prems(1) u v h Inr p by simp
  qed
qed simp

lemma persist_and_apply_calm:
  "persist_and_apply sv obs s w = (ok, s', w') \<Longrightarrow> calm w \<Longrightarrow> list_all (timely_observation c) obs \<Longrightarrow> calm w'"
proof (induction obs arbitrary: s w)
  case (Cons ob obs)
  obtain r w1 where a: "sv_append sv ob w = (r, w1)" by (cases "sv_append sv ob w")
  then have "calm w1"
    using append_calm Cons.prems by auto
  with Cons a show ?case by (cases r) auto
qed simp

lemma process_batch_calm:
  assumes "process_batch sv rd rules batch cn w = (Done cn', w')" and "calm w" and "engine_timely c (cn_engine cn)"
    and "list_all (timely_observation c) (observations_from_batch batch)"
  shows "calm w' \<and> engine_timely c (cn_engine cn')"
proof -
  obtain now w1 where now: "sv_now sv w = (now, w1)" by (cases "sv_now sv w")
  obtain t w2 where t: "sv_instant sv w1 = (t, w2)" by (cases "sv_instant sv w1")
  have w2: "calm w2" "c now"
    using now_calm [OF now] instant_calm [OF t] assms(2) by auto
  show ?thesis
  proof (cases "observations_from_batch batch")
    case Nil
    with now t assms w2 show ?thesis by (simp add: process_batch_def)
  next
    case (Cons first rest)
    obtain full s w3 where p: "persist_and_apply sv (first # rest) (cn_read_models cn) w2 = (full, s, w3)"
      by (cases "persist_and_apply sv (first # rest) (cn_read_models cn) w2")
    have w3: "calm w3"
      using persist_and_apply_calm [OF p w2(1)] assms(4) Cons by simp
    obtain rules' drafts where ev: "evaluate_rules (cn_rules cn) (store_context s now t (obs_subject first)) = (rules', drafts)"
      by (cases "evaluate_rules (cn_rules cn) (store_context s now t (obs_subject first))")
    obtain e s' w4 where d: "process_drafts sv rd rules now drafts (cn_engine cn) s w3 = (Done (e, s'), w4)"
      using process_drafts_Done [of sv rd rules now drafts "cn_engine cn" s w3] by blast
    show ?thesis
      using assms(1,3) now t Cons p ev d w3 process_drafts_calm [OF d w3 w2(2) assms(3)]
      by (cases full) (auto simp: process_batch_def simp del: observations_from_batch.simps persist_and_apply.simps)
  qed
qed

end

text \<open>The repositories panic on no storable timestamp; the world is calm with a storable clock.\<close>

lemma sir_save_Done: "storable_incident i \<Longrightarrow> fst (sir_save so i db) \<noteq> Panicked"
  by (auto simp: sir_save_def incident_row_of_def storable_incident_def nanos_def nanos_opt_def storable_def
      split: sum.split run.split prod.split option.split)

lemma sos_append_Done:
  assumes "timely_observation storable ob"
  shows "fst (sos_append_many so [ob] db) \<noteq> Panicked"
proof -
  have "observation_row_of so ob \<noteq> Panicked"
    using assms by (auto simp: observation_row_of_def timely_observation_def nanos_def nanos_opt_def storable_def
        split: sum.split run.split option.split)
  then show ?thesis
    by (auto simp: sos_append_many_def split: sum.splits run.splits prod.splits)
qed

lemma sar_insert_Done:
  assumes "fresh_attempt storable a"
  shows "fst (sar_insert_pending so a db) \<noteq> Panicked"
proof -
  have "attempt_row_of so a \<noteq> Panicked"
    using assms by (auto simp: attempt_row_of_def fresh_attempt_def nanos_def nanos_opt_def storable_def
        split: sum.split run.split option.split)
  then show ?thesis
    by (auto simp: sar_insert_pending_def split: sum.splits run.splits prod.splits)
qed

lemma on_db_panicked: "sw_panicked (snd (on_db e op w)) \<longleftrightarrow> sw_panicked w \<or> fst (op (sw_db w)) = Panicked"
  by (auto simp: on_db_def split: prod.split run.split)

lemma on_db_calm:
  "on_db e op w = (q, w') \<Longrightarrow> clock \<longrightarrow> \<not> sw_panicked w \<Longrightarrow> (clock \<Longrightarrow> fst (op (sw_db w)) \<noteq> Panicked) \<Longrightarrow>
     clock \<longrightarrow> \<not> sw_panicked w'"
  using on_db_panicked [of e op w] by auto

lemma timely_storable: "timely storable i \<longleftrightarrow> storable_incident i"
  by (simp add: timely_def storable_incident_def)

definition storable_clock :: "'n surroundings \<Rightarrow> bool" where
  "storable_clock out \<longleftrightarrow> (\<forall>n. storable (fst (su_now out n)))"

interpretation sqc: calm_services "sq_services so out" "\<lambda>w. storable_clock out \<longrightarrow> \<not> sw_panicked w"
    "\<lambda>t. storable_clock out \<longrightarrow> storable t" for so out
proof unfold_locales
  fix w w' :: "'a sqlite_world" and t x u ob r i s a p d ms
  let ?c = "\<lambda>t. storable_clock out \<longrightarrow> storable t" and ?calm = "\<lambda>w. storable_clock out \<longrightarrow> \<not> sw_panicked w"
  show "sv_now (sq_services so out) w = (t, w') \<Longrightarrow> ?calm w \<Longrightarrow> ?calm w' \<and> ?c t"
    by (auto simp: on_surroundings_def storable_clock_def split: prod.splits) (metis fst_conv)
  show "sv_append (sq_services so out) ob w = (r, w') \<Longrightarrow> ?calm w \<Longrightarrow> timely_observation ?c ob \<Longrightarrow> ?calm w'"
    unfolding sq_services_sel by (erule on_db_calm) (auto simp: timely_observation_def intro!: sos_append_Done)
  show "sv_save (sq_services so out) i w = (s, w') \<Longrightarrow> ?calm w \<Longrightarrow> timely ?c i \<Longrightarrow> ?calm w'"
    unfolding sq_services_sel by (erule on_db_calm) (auto simp: timely_def storable_incident_def intro!: sir_save_Done)
  show "sv_insert_pending (sq_services so out) a w = (p, w') \<Longrightarrow> ?calm w \<Longrightarrow> fresh_attempt ?c a \<Longrightarrow> ?calm w'"
    unfolding sq_services_sel by (erule on_db_calm) (auto simp: fresh_attempt_def intro!: sar_insert_Done)
qed (auto simp: on_surroundings_def sq_services_def Let_def split: prod.splits)

section \<open>In step with the engine\<close>

text \<open>
  The database never fails three statements in a row: a save and its two retries do not
  all fail.  What other statements do of this and of the incidents.
\<close>

definition seldom_fails :: "database \<Rightarrow> bool" where
  "seldom_fails db \<longleftrightarrow> (\<forall>n. \<exists>k < 3. db_fault db (n + k) = None)"

lemma faultless_seldom: "faultless db \<Longrightarrow> seldom_fails db"
  unfolding faultless_def seldom_fails_def by (metis zero_less_numeral)

lemma insert_observations_other:
  "insert_observations so obs db = (r, db') \<Longrightarrow>
     db_fault db' = db_fault db \<and> tb_incidents (db_tables db') = tb_incidents (db_tables db)"
proof (induction obs arbitrary: db)
  case (Cons ob obs)
  then show ?case
    by (auto simp: statement_def Let_def insert_row_def split: run.splits sum.splits prod.splits option.splits if_splits)
qed simp

lemma sos_append_other:
  assumes "sos_append_many so batch db = (r, db')"
  shows "db_fault db' = db_fault db \<and> tb_incidents (db_tables db') = tb_incidents (db_tables db)"
  using assms insert_observations_other [of so batch]
  by (force simp: sos_append_many_def rolled_back_def statement_def Let_def
      split: if_splits run.splits sum.splits prod.splits option.splits)

lemma sar_insert_other:
  "sar_insert_pending so a db = (r, db') \<Longrightarrow>
     db_fault db' = db_fault db \<and> tb_incidents (db_tables db') = tb_incidents (db_tables db)"
  by (auto simp: sar_insert_pending_def statement_def Let_def insert_row_def
      split: run.splits sum.splits prod.splits option.splits if_splits)

text \<open>A save of a storable incident is one statement.\<close>

lemma sir_save_one:
  assumes "storable_incident i" and "to_json (so_incident so) i = Ok json"
  shows "\<exists>db'. sir_save so i db = (Done (case db_fault db (db_statements db) of None \<Rightarrow> Ok () | Some e \<Rightarrow> Err (IncidentBackend e)), db') \<and>
    db_fault db' = db_fault db \<and> db_statements db' = Suc (db_statements db)"
proof -
  obtain row where "incident_row_of so i json = Done row"
    using incident_row_of_storable [OF assms(1)] by blast
  with assms(2) show ?thesis
    by (simp add: sir_save_def statement_def Let_def split: option.split)
qed

definition sq_valid :: "sqlite_outside \<Rightarrow> 'n sqlite_world \<Rightarrow> bool" where
  "sq_valid so w \<longleftrightarrow> sir_valid so (sw_db w) \<and> seldom_fails (sw_db w)"

lemma sq_save_reliable:
  assumes "\<forall>i. \<exists>json. to_json (so_incident so) i = Ok json"
  shows "save_reliable_on storable (sq_valid so) (sq_services so out)"
  unfolding save_reliable_on_def
proof (intro allI impI)
  fix i and w :: "'a sqlite_world"
  assume iw: "timely storable i \<and> sq_valid so w"
  let ?sv = "sq_services so out" and ?n = "db_statements (sw_db w)" and ?f = "db_fault (sw_db w)"
  have save: "\<exists>v'. sv_save ?sv i v = (case ?f (db_statements (sw_db v)) of None \<Rightarrow> Ok () | Some e \<Rightarrow> Err (IncidentBackend e), v') \<and>
      db_fault (sw_db v') = ?f \<and> db_statements (sw_db v') = Suc (db_statements (sw_db v))"
    if "db_fault (sw_db v) = ?f" for v
    using sir_save_one [of i so _ "sw_db v"] assms iw that by (fastforce simp: on_db_def timely_storable)
  obtain w1 where w1: "sv_save ?sv i w = (case ?f ?n of None \<Rightarrow> Ok () | Some e \<Rightarrow> Err (IncidentBackend e), w1)"
    "db_fault (sw_db w1) = ?f" "db_statements (sw_db w1) = Suc ?n"
    using save [of w] by auto
  obtain w2 where w2: "sv_save ?sv i (sv_sleep_ms ?sv 100 w1) = (case ?f (Suc ?n) of None \<Rightarrow> Ok () | Some e \<Rightarrow> Err (IncidentBackend e), w2)"
    "db_fault (sw_db w2) = ?f" "db_statements (sw_db w2) = Suc (Suc ?n)"
    using save [of "sv_sleep_ms ?sv 100 w1"] w1 by auto
  obtain w3 where w3: "sv_save ?sv i (sv_sleep_ms ?sv 500 w2) = (case ?f (Suc (Suc ?n)) of None \<Rightarrow> Ok () | Some e \<Rightarrow> Err (IncidentBackend e), w3)"
    using save [of "sv_sleep_ms ?sv 500 w2"] w2 by auto
  obtain k where "k < 3" "?f (?n + k) = None"
    using iw by (auto simp: sq_valid_def seldom_fails_def)
  then have "?f ?n = None \<or> ?f (Suc ?n) = None \<or> ?f (Suc (Suc ?n)) = None"
    by (auto simp: less_Suc_eq numeral_eq_Suc)
  then show "\<exists>w'. save_incident_with_retry ?sv i w = (Done (Ok ()), w')"
    unfolding save_retry_policy by (auto simp: w1 w2 w3 simp del: sq_services_sel split: option.split)
qed

text \<open>Identifiers that do not repeat: the \<open>n\<close>-th one drawn is \<open>name n\<close>.\<close>

definition draws :: "(nat \<Rightarrow> uuid) \<Rightarrow> ('n \<Rightarrow> nat) \<Rightarrow> 'n surroundings \<Rightarrow> bool" where
  "draws name drawn out \<longleftrightarrow> inj_on name {..<2 ^ 128} \<and>
     (\<forall>n. fst (su_uuid out n) = name (drawn n) \<and> drawn (snd (su_uuid out n)) = Suc (drawn n)) \<and>
     (\<forall>n. drawn (snd (su_now out n)) = drawn n \<and> drawn (snd (su_instant out n)) = drawn n \<and>
        drawn (snd (su_channel_open out n)) = drawn n) \<and>
     (\<forall>ms n. drawn (su_sleep_ms out ms n) = drawn n)"

lemma sir_same_rows:
  "tb_incidents (db_tables db') = tb_incidents (db_tables db) \<Longrightarrow> sir_rows so db' = sir_rows so db \<and> sir_valid so db' = sir_valid so db"
  by (simp add: sir_rows_def sir_valid_def fun_eq_iff)

lemma on_db_quiet:
  assumes "\<And>r db'. op (sw_db w) = (r, db') \<Longrightarrow>
      db_fault db' = db_fault (sw_db w) \<and> tb_incidents (db_tables db') = tb_incidents (db_tables (sw_db w))"
  shows "kept (\<lambda>w. (sir_rows so (sw_db w), sq_valid so w, drawn (sw_outside w))) w (on_db e op w)"
proof -
  obtain r db' where op: "op (sw_db w) = (r, db')" by (cases "op (sw_db w)")
  have "sir_rows so db' = sir_rows so (sw_db w)" "sir_valid so db' = sir_valid so (sw_db w)"
    "seldom_fails db' = seldom_fails (sw_db w)"
    using assms [OF op] sir_same_rows [of db' "sw_db w"] by (simp_all add: seldom_fails_def)
  with op show ?thesis
    by (cases r) (simp_all add: kept_def on_db_def sq_valid_def)
qed

lemma sq_consumer_sync:
  fixes out :: "'n surroundings"
  assumes f: "json_faithful (so_incident so)" and ord: "orders (so_order_incidents so)"
    and ids: "draws name drawn out" and clock: "storable_clock out"
  shows "consumer_sync (sq_services so out) (\<lambda>w. fst (sir_load_open so (sw_db w))) (\<lambda>w. sir_rows so (sw_db w))
    (sq_valid so) (\<lambda>w. drawn (sw_outside w)) name storable"
proof unfold_locales
  fix w w' :: "'n sqlite_world" and i e res "is" u a ob d ms now k
  let ?sv = "sq_services so out" and ?part = "\<lambda>w. (sir_rows so (sw_db w), sq_valid so w, drawn (sw_outside w))"
  obtain q db where s: "sir_save so i (sw_db w) = (q, db)" by (cases "sir_save so i (sw_db w)")
  have saved: "db_fault db = db_fault (sw_db w)" "sir_valid so db"
      "sir_rows so db = (if q = Done (Ok ()) then (sir_rows so (sw_db w))(inc_id i \<mapsto> i) else sir_rows so (sw_db w))"
    if "sq_valid so w"
    using sir_save_cases [OF f _ s] that by (simp_all add: sq_valid_def)
  show "sq_valid so w \<Longrightarrow> sv_save ?sv i w = (Ok (), w') \<Longrightarrow> sir_rows so (sw_db w') = (sir_rows so (sw_db w))(inc_id i \<mapsto> i)"
    "sq_valid so w \<Longrightarrow> sv_save ?sv i w = (Err e, w') \<Longrightarrow> sir_rows so (sw_db w') = sir_rows so (sw_db w)"
    "sq_valid so w \<Longrightarrow> sv_save ?sv i w = (res, w') \<Longrightarrow> sq_valid so w'"
    using s saved by (auto simp: on_db_def sq_valid_def seldom_fails_def split: run.splits)
  show "kept (\<lambda>w. drawn (sw_outside w)) w (sv_save ?sv i w)"
    by (simp add: kept_def on_db_def split: prod.split run.split)
  show "sq_valid so w \<Longrightarrow> fst (sir_load_open so (sw_db w)) = Ok is \<Longrightarrow>
      set is = {i. \<exists>k. sir_rows so (sw_db w) k = Some i \<and> inc_status i \<noteq> StResolved}"
    "sq_valid so w \<Longrightarrow> fst (sir_load_open so (sw_db w)) = Ok is \<Longrightarrow>
      (\<And>k i. sir_rows so (sw_db w) k = Some i \<Longrightarrow> inc_id i = k) \<Longrightarrow> distinct (map inc_id is)"
    using sir_load_open_answer [OF _ ord, of "sw_db w"] by (auto simp: sq_valid_def)
  show "sv_now ?sv w = (now, w') \<Longrightarrow> storable now"
    using clock by (auto simp: on_surroundings_def storable_clock_def split: prod.splits) (metis fst_conv)
  show "timely storable i" if "sq_valid so w" "sir_rows so (sw_db w) k = Some i"
    using that incident_row_of_Done unfolding timely_storable sq_valid_def
    by (auto simp: sir_rows_iff mirrors_def)
  show "kept ?part w (sv_append ?sv ob w)" "kept ?part w (sv_insert_pending ?sv a w)"
    unfolding sq_services_sel by (rule on_db_quiet, erule sos_append_other) (rule on_db_quiet, erule sar_insert_other)
  show "kept ?part w (sv_now ?sv w)" "kept ?part w (sv_instant ?sv w)" "kept ?part w (sv_notify ?sv d w)"
    "kept ?part w ((), sv_sleep_ms ?sv ms w)" "kept (\<lambda>w. (sir_rows so (sw_db w), sq_valid so w)) w (sv_uuid ?sv w)"
    using ids by (simp_all add: kept_def on_surroundings_def sq_services_def sq_valid_def draws_def Let_def split: prod.split)
      (metis snd_conv)+
  show "sv_uuid ?sv w = (u, w') \<Longrightarrow> u = name (drawn (sw_outside w)) \<and> drawn (sw_outside w') = Suc (drawn (sw_outside w))"
    using ids by (auto simp: on_surroundings_def draws_def split: prod.splits) (metis fst_conv snd_conv)+
  show "inj_on name {..<2 ^ 128}"
    using ids by (simp add: draws_def)
qed

text \<open>
  The table of incidents is in step with an engine: the rows that are not resolved are
  exactly the engine's open incidents.
\<close>

definition in_step :: "sqlite_outside \<Rightarrow> incident_engine \<Rightarrow> database \<Rightarrow> bool" where
  "in_step so e db \<longleftrightarrow> sir_valid so db \<and> engine_inv e \<and>
     (\<forall>i. (\<exists>k. sir_rows so db k = Some i \<and> inc_status i \<noteq> StResolved) \<longleftrightarrow>
          (\<exists>fp. hm_get (eng_open_incidents e) fp = Some i))"

lemma in_step_open:
  assumes "in_step so e db" and "sir_rows so db k = Some i" and "inc_status i \<noteq> StResolved"
  shows "hm_get (eng_open_incidents e) (inc_fingerprint i) = Some i" and "inc_resolved_at i = None"
proof -
  obtain fp where fp: "hm_get (eng_open_incidents e) fp = Some i"
    using assms unfolding in_step_def by blast
  moreover have "open_incident_ok fp i"
    using assms(1) fp by (auto simp: in_step_def engine_inv_def open_map_ok_iff)
  ultimately show "hm_get (eng_open_incidents e) (inc_fingerprint i) = Some i" "inc_resolved_at i = None"
    by (simp_all add: open_incident_ok_def)
qed

lemma in_step_same_open:
  assumes "in_step so e db" and "sir_valid so db'"
    and "\<forall>k i. inc_status i \<noteq> StResolved \<longrightarrow> (sir_rows so db' k = Some i) = (sir_rows so db k = Some i)"
  shows "in_step so e db'"
  using assms unfolding in_step_def by blast

lemma in_step_same_engine:
  assumes "in_step so e db" and "hm_wf (eng_open_incidents e')"
    and "hm_get (eng_open_incidents e') = hm_get (eng_open_incidents e)"
  shows "in_step so e' db"
  using assms by (simp add: in_step_def engine_inv_def open_map_ok_iff)

lemma in_step_load_open:
  assumes "orders (so_order_incidents so)" and "json_faithful (so_incident so)" and s: "in_step so e db"
    and l: "fst (sir_load_open so db) = Ok xs"
  shows "distinct (map inc_fingerprint xs) \<and>
    (\<forall>fp i. hm_get (eng_open_incidents e) fp = Some i \<longleftrightarrow> i \<in> set xs \<and> inc_fingerprint i = fp)"
proof -
  note repo = sir_incident_repository [OF assms(2,1)]
  have v: "sir_valid so db"
    using s by (simp add: in_step_def)
  have sync: "incident_repository.in_sync (sir_rows so) (sir_valid so) e db"
    using s sir_rows_id [OF v] by (simp add: incident_repository.in_sync_def [OF repo] in_step_def)
  obtain e' where e': "incident_engine_new builtin_registry (SidecarId 0) sample_source xs = Done e'"
    "hm_get (eng_open_incidents e') = hm_get (eng_open_incidents e)"
    using incident_repository.rebuild [OF repo sync l] by blast
  then have "distinct (map inc_fingerprint xs)"
    using open_map_of_fps [of "[]" xs] by (auto simp: incident_engine_new_def split: run.splits)
  with incident_engine_new_DoneD(1) [OF e'(1)] e'(2) show ?thesis by simp
qed

section \<open>A healthy database\<close>

text \<open>Every incident row has an identifier this database was given before.\<close>

definition rows_drawn :: "sqlite_outside \<Rightarrow> (nat \<Rightarrow> uuid) \<Rightarrow> ('n \<Rightarrow> nat) \<Rightarrow> 'n sqlite_world \<Rightarrow> bool" where
  "rows_drawn so name drawn w \<longleftrightarrow>
     (\<forall>k i. sir_rows so (sw_db w) k = Some i \<longrightarrow> (\<exists>n < drawn (sw_outside w). k = IncidentId (name n)))"

definition healthy :: "sqlite_outside \<Rightarrow> (nat \<Rightarrow> uuid) \<Rightarrow> ('n \<Rightarrow> nat) \<Rightarrow> consumer \<Rightarrow> 'n sqlite_world \<Rightarrow> bool" where
  "healthy so name drawn cn w \<longleftrightarrow> in_step so (cn_engine cn) (sw_db w) \<and> seldom_fails (sw_db w) \<and>
     rows_drawn so name drawn w \<and> \<not> sw_panicked w"

lemma swept_rows:
  assumes "swept_from ages now (db_tables db) (db_tables db')" and "sir_valid so db" and "sir_valid so db'"
    and "sir_rows so db' k = Some i"
  shows "sir_rows so db k = Some i"
proof -
  have "set (tb_incidents (db_tables db')) \<subseteq> set (tb_incidents (db_tables db))"
    using assms(1) by (auto simp: swept_from_def swept_def)
  with assms(4) show ?thesis
    unfolding sir_rows_iff [OF assms(2)] sir_rows_iff [OF assms(3)] by blast
qed

lemma sweep_healthy:
  assumes "healthy so name drawn cn w" and "0 \<le> now" and "now < 2 ^ 63"
  shows "\<exists>db. sweep checks ages now (sw_db w) = (Done (), db) \<and> healthy so name drawn cn (w\<lparr>sw_db := db\<rparr>)"
proof -
  have step: "in_step so (cn_engine cn) (sw_db w)" and v: "sir_valid so (sw_db w)"
    using assms(1) by (auto simp: healthy_def in_step_def)
  have u: "open_rows_unresolved so (sw_db w)"
    using in_step_open(2) [OF step] by (auto simp: open_rows_unresolved_def)
  obtain db where db: "sweep checks ages now (sw_db w) = (Done (), db)" "db_fault db = db_fault (sw_db w)"
    "swept_from ages now (db_tables (sw_db w)) (db_tables db)"
    using sweep_tables [OF assms(2,3), of checks ages "sw_db w"] by blast
  note kept = swept_live [OF db(3) v u]
  then have "in_step so (cn_engine cn) db"
    by (intro in_step_same_open [OF step]) auto
  moreover have "rows_drawn so name drawn (w\<lparr>sw_db := db\<rparr>)"
    using assms(1) swept_rows [OF db(3) v] kept by (auto simp: healthy_def rows_drawn_def)
  ultimately show ?thesis
    using assms(1) db(1,2) by (simp add: healthy_def seldom_fails_def)
qed

lemma process_batch_healthy:
  fixes out :: "'n surroundings"
  assumes f: "json_faithful (so_incident so)" and ord: "orders (so_order_incidents so)"
    and total: "\<forall>i. \<exists>json. to_json (so_incident so) i = Ok json"
    and ids: "draws name drawn out" and clock: "storable_clock out" and h: "healthy so name drawn cn w"
    and b: "process_batch (sq_services so out) rd rules b cn w = (Done cn', w')" and few: "drawn (sw_outside w') \<le> 2 ^ 128"
    and obs: "list_all (timely_observation storable) (observations_from_batch b)"
  shows "healthy so name drawn cn' w'"
proof -
  note sync = sq_consumer_sync [OF f ord ids clock]
  note repo = consumer_sync.axioms(1) [OF sync]
  have in_sync: "incident_repository.in_sync (\<lambda>w. sir_rows so (sw_db w)) (sq_valid so) e v \<longleftrightarrow>
      in_step so e (sw_db v) \<and> seldom_fails (sw_db v)" for e and v :: "'n sqlite_world"
    using sir_rows_id [of so "sw_db v"]
    by (auto simp: incident_repository.in_sync_def [OF repo] in_step_def sq_valid_def)
  have ids_drawn: "consumer_sync.ids_drawn (\<lambda>w. sir_rows so (sw_db w)) (\<lambda>w. drawn (sw_outside w)) name v \<longleftrightarrow>
      rows_drawn so name drawn v" for v :: "'n sqlite_world"
    by (simp add: consumer_sync.ids_drawn_def [OF sync] rows_drawn_def)
  have v: "sq_valid so w"
    using h by (simp add: healthy_def in_step_def sq_valid_def)
  have "engine_timely storable (cn_engine cn)"
    using h consumer_sync.rows_timely [OF sync v] unfolding engine_timely_def healthy_def in_step_def by blast
  then have "\<not> sw_panicked w'"
    using sqc.process_batch_calm [OF b] h obs clock by (simp add: healthy_def)
  with consumer_sync.process_batch_in_sync [OF sync b sq_save_reliable [OF total]] h few
  show ?thesis by (simp add: in_sync ids_drawn healthy_def)
qed

text \<open>Reading the open incidents leaves a healthy database healthy.\<close>

lemma load_open_healthy:
  assumes "healthy so name drawn cn w"
  shows "healthy so name drawn cn (w\<lparr>sw_db := snd (sir_load_open so (sw_db w))\<rparr>)"
proof -
  have same: "db_tables (snd (sir_load_open so (sw_db w))) = db_tables (sw_db w)"
    "db_fault (snd (sir_load_open so (sw_db w))) = db_fault (sw_db w)"
    by (simp_all add: sir_load_open_def statement_def Let_def split: option.split)
  show ?thesis
    using assms same sir_same_rows [of "snd (sir_load_open so (sw_db w))" "sw_db w" so]
    by (simp add: healthy_def in_step_def seldom_fails_def rows_drawn_def)
qed

section \<open>A codec for every incident\<close>

text \<open>
  That a faithful codec can render every incident: its parts as a tuple of countable
  types, the number of the tuple in unary.
\<close>

fun entity_code :: "entity_ref \<Rightarrow> nat \<times> uuid \<times> string \<times> string" where
  "entity_code (Sidecar (SidecarId u)) = (0, u, [], [])"
| "entity_code (Host (HostId h)) = (1, 0, h, [])"
| "entity_code (BitcoinNode (BitcoinNodeId n)) = (2, 0, n, [])"
| "entity_code (BitcoinPeer (BitcoinNodeId n) (BitcoinPeerId p)) = (3, 0, n, p)"
| "entity_code (LndNode (LndNodeId n)) = (4, 0, n, [])"
| "entity_code (LndPeer (LndNodeId n) (LndPeerId p)) = (5, 0, n, p)"
| "entity_code (LndChannel (LndNodeId n) (LndChannelId c)) = (6, 0, n, c)"
| "entity_code (LndInvoice (LndNodeId n) (LndInvoiceId i)) = (7, 0, n, i)"

lemma entity_code_inject: "entity_code a = entity_code b \<Longrightarrow> a = b"
  by (cases a rule: entity_code.cases; cases b rule: entity_code.cases) simp_all

definition incident_code where
  "incident_code i =
     ((case inc_id i of IncidentId u \<Rightarrow> u),
      (entity_code (fp_subject (inc_fingerprint i)), incident_kind_as_str (fp_kind (inc_fingerprint i)),
       fp_dimension (inc_fingerprint i)),
      incident_kind_as_str (inc_kind i), entity_code (inc_subject i), inc_severity_str (inc_severity i),
      inc_status_str (inc_status i), inc_opened_at i, inc_updated_at i, inc_resolved_at i,
      map (\<lambda>k. case k of ObservationId u \<Rightarrow> u) (inc_signal_observation_ids i),
      map (\<lambda>k. case k of EvidenceRef (ObservationId u) \<Rightarrow> u) (inc_evidence i),
      inc_summary i, inc_evidence_summary i)"

lemma incident_code_inject:
  assumes "incident_code i = incident_code j"
  shows "i = (j :: incident)"
proof -
  have kind: "incident_kind_as_str k = incident_kind_as_str l \<Longrightarrow> k = l" for k l
    by (cases k; cases l) simp
  have sev: "inc_severity_str a = inc_severity_str b \<Longrightarrow> a = b" for a b
    by (cases a; cases b) simp_all
  have "inj (\<lambda>k. case k of ObservationId u \<Rightarrow> u)"
    by (rule injI) (simp split: observation_id.splits)
  moreover have "inj (\<lambda>k. case k of EvidenceRef (ObservationId u) \<Rightarrow> u)"
    by (rule injI) (simp split: observation_id.splits evidence_ref.splits)
  moreover have "inc_id i = inc_id j"
    using assms by (simp add: incident_code_def split: incident_id.splits)
  moreover have "inc_fingerprint i = inc_fingerprint j"
    using assms kind by (simp add: incident_code_def entity_code_inject)
  ultimately show ?thesis
    using assms kind sev by (simp add: incident_code_def entity_code_inject)
qed

definition unary_codec :: "incident codec" where
  "unary_codec =
     \<lparr>to_json = (\<lambda>i. Ok (replicate (to_nat (incident_code i)) (CHR ''x''))),
      from_json = (\<lambda>s. Ok (inv (\<lambda>i. to_nat (incident_code i)) (length s)))\<rparr>"

lemma unary_codec_ok: "json_faithful unary_codec" "\<exists>json. to_json unary_codec i = Ok json"
proof -
  have "inj (\<lambda>i :: incident. to_nat (incident_code i))"
    by (rule injI) (simp add: incident_code_inject)
  then show "json_faithful unary_codec"
    by (auto simp: json_faithful_def unary_codec_def dest: inv_f_f)
qed (simp add: unary_codec_def)

end
