(* ===== verification/Daemon.thy ===== *)
theory Daemon
  imports Runtime Sqlite_Consumer
begin

text \<open>
  The process as a whole: the tasks of \<open>Runtime\<close> with what each of them does to the
  database.  A batch the consumer takes is processed on the SQLite repositories, and the
  dispatches it hands over are the ones of that processing; a dispatch the worker takes is
  sent and its rows are completed in the same database; a retention task, which the program
  has but does not spawn yet, may sweep at any time.  A run of the process projects to a
  run of the tasks.
\<close>

section \<open>The parts\<close>

record 'n wiring =
  wi_sqlite :: sqlite_outside
  wi_surroundings :: "'n surroundings"
  wi_net :: "'n net"
  wi_crates :: crates
  wi_rfc3339 :: "datetime \<Rightarrow> string"
  wi_senders :: notifier_senders
  wi_renderers :: renderers
  wi_rules :: "notification_rule list"
  wi_checks :: bool
  wi_ages :: retention_ages

text \<open>
  The consumer ignores whether the channel took a dispatch: handing it over is one step of
  the consumer, and what becomes of it is a later one.
\<close>

definition daemon_services :: "'n wiring \<Rightarrow> 'n sqlite_world services" where
  "daemon_services wi = sq_services (wi_sqlite wi) ((wi_surroundings wi)\<lparr>su_channel_open := \<lambda>n. (True, n)\<rparr>)"

definition sq_net :: "'n net \<Rightarrow> 'n sqlite_world net" where
  "sq_net net = \<lparr>net_now = on_surroundings (net_now net), net_send = (\<lambda>rq. on_surroundings (net_send net rq))\<rparr>"

definition sq_complete :: "sqlite_outside \<Rightarrow> 'n sqlite_world complete_op" where
  "sq_complete so k receipt next_retry_at = on_db (AttemptBackend []) (sar_complete so k receipt next_retry_at)"

definition daemon_dispatch :: "'n wiring \<Rightarrow> notification_dispatch \<Rightarrow> 'n sqlite_world \<Rightarrow> unit run \<times> 'n sqlite_world" where
  "daemon_dispatch wi = process_dispatch (wi_crates wi) (wi_rfc3339 wi) (sq_net (wi_net wi)) (wi_senders wi)
     (sq_complete (wi_sqlite wi))"

section \<open>Steps\<close>

datatype daemon_event = Task runtime_event | Sweep datetime

text \<open>Steps of a task that touch neither the consumer's state nor the database.\<close>

fun no_storage :: "runtime_event \<Rightarrow> bool" where
  "no_storage (TakeBatch _) = False"
| "no_storage WorkDispatch = False"
| "no_storage WorkerPanics = False"
| "no_storage _ = True"

type_synonym 'n daemon = "runtime_state \<times> consumer \<times> 'n sqlite_world"

inductive daemon_step :: "'n wiring \<Rightarrow> nat \<Rightarrow> daemon_event \<Rightarrow> 'n daemon \<Rightarrow> 'n daemon \<Rightarrow> bool" for wi capacity where
  batch: "runtime_step capacity (TakeBatch ds) s t \<Longrightarrow> rt_obs s = b # rest \<Longrightarrow>
    process_batch (daemon_services wi) (wi_renderers wi) (wi_rules wi) b cn w = (Done cn', w') \<Longrightarrow>
    sw_dispatches w' = sw_dispatches w @ ds \<Longrightarrow> daemon_step wi capacity (Task (TakeBatch ds)) (s, cn, w) (t, cn', w')"
| work: "runtime_step capacity WorkDispatch s t \<Longrightarrow> rt_notif s = d # rest \<Longrightarrow> daemon_dispatch wi d w = (Done (), w') \<Longrightarrow>
    daemon_step wi capacity (Task WorkDispatch) (s, cn, w) (t, cn, w')"
| work_panics: "runtime_step capacity WorkerPanics s t \<Longrightarrow> rt_notif s = d # rest \<Longrightarrow>
    daemon_dispatch wi d w = (Panicked, w') \<Longrightarrow> daemon_step wi capacity (Task WorkerPanics) (s, cn, w) (t, cn, w')"
| task: "runtime_step capacity ev s t \<Longrightarrow> no_storage ev \<Longrightarrow> daemon_step wi capacity (Task ev) (s, cn, w) (t, cn, w)"
| sweeps: "sweep (wi_checks wi) (wi_ages wi) now (sw_db w) = (Done (), db) \<Longrightarrow>
    daemon_step wi capacity (Sweep now) (s, cn, w) (s, cn, w\<lparr>sw_db := db\<rparr>)"
| sweep_panics: "sweep (wi_checks wi) (wi_ages wi) now (sw_db w) = (Panicked, db) \<Longrightarrow>
    daemon_step wi capacity (Sweep now) (s, cn, w) (s, cn, w\<lparr>sw_db := db, sw_panicked := True\<rparr>)"

inductive daemon_run :: "'n wiring \<Rightarrow> nat \<Rightarrow> daemon_event list \<Rightarrow> 'n daemon \<Rightarrow> 'n daemon \<Rightarrow> bool" for wi capacity where
  stay: "daemon_run wi capacity [] x x"
| go: "daemon_step wi capacity ev x y \<Longrightarrow> daemon_run wi capacity evs y z \<Longrightarrow> daemon_run wi capacity (ev # evs) x z"

fun task_event :: "daemon_event \<Rightarrow> runtime_event list" where
  "task_event (Task ev) = [ev]"
| "task_event (Sweep now) = []"

text \<open>A run of the process is a run of its tasks.\<close>

lemma daemon_run_tasks:
  "daemon_run wi capacity evs x y \<Longrightarrow> runtime_run capacity (concat (map task_event evs)) (fst x) (fst y)"
proof (induction rule: daemon_run.induct)
  case (go ev x y evs z)
  from go.hyps(1) show ?case
    by (cases rule: daemon_step.cases) (use go.IH in \<open>auto intro: runtime_run.go\<close>)
qed (simp add: runtime_run.stay)

section \<open>Dispatches\<close>

text \<open>Processing a batch only ever adds dispatches, so the consumer can always take the next batch.\<close>

interpretation sqd: calm_services "sq_services so out" "\<lambda>w. \<exists>ds. sw_dispatches w = sent @ ds" "\<lambda>_. True" for so out sent
  by unfold_locales (auto simp: on_surroundings_def on_db_def sq_services_def Let_def split: prod.splits run.splits)

lemma process_batch_dispatches:
  assumes "process_batch (sq_services so out) rd rules b cn w = (Done cn', w')"
  obtains ds where "sw_dispatches w' = sw_dispatches w @ ds"
proof -
  have "engine_timely (\<lambda>_. True) (cn_engine cn)" "list_all (timely_observation (\<lambda>_. True)) (observations_from_batch b)"
    by (simp_all add: engine_timely_def timely_def timely_observation_def list_all_iff)
  with sqd.process_batch_calm [OF assms, of "sw_dispatches w"] that show thesis by auto
qed

lemma batch_enabled:
  assumes "runtime_step capacity (TakeBatch ds0) s t"
  shows "\<exists>ds x. daemon_step wi capacity (Task (TakeBatch ds)) (s, cn, w) x"
proof -
  obtain b rest where obs: "rt_obs s = b # rest" "rt_outcome s = None" "rt_consumer_live s" "rt_pending s = []"
    using assms by (auto simp: runtime_simps)
  let ?sv = "daemon_services wi"
  obtain cn' w' where b: "process_batch ?sv (wi_renderers wi) (wi_rules wi) b cn w = (Done cn', w')"
    using process_batch_Done [of ?sv "wi_renderers wi" "wi_rules wi" b cn w] by blast
  obtain ds where "sw_dispatches w' = sw_dispatches w @ ds"
    using process_batch_dispatches [OF b [unfolded daemon_services_def]] .
  moreover have "runtime_step capacity (TakeBatch ds) s (s\<lparr>rt_obs := rest, rt_taken := rt_taken s @ [b], rt_pending := ds\<rparr>)"
    using obs by (intro runtime_step.consumer consumer_step.take_batch)
  ultimately show ?thesis
    using daemon_step.batch [OF _ obs(1) b] by blast
qed

section \<open>What the worker leaves alone\<close>

lemma timed_send_clock:
  "timed_send net f w = (Done receipt, w') \<Longrightarrow> \<exists>v v'. net_now net v = (rc_completed_at receipt, v')"
  by (auto simp: timed_send_def Let_def split: prod.splits run.splits) blast

text \<open>Every receipt is completed at a reading of the clock.\<close>

lemma receipt_clock:
  "senders_dispatch cr rfc net senders m t w = (Done receipt, w') \<Longrightarrow> \<exists>v v'. net_now net v = (rc_completed_at receipt, v')"
  by (auto simp: senders_dispatch_def not_configured_receipt_def webhook_send_def telegram_send_def discord_send_def Let_def
      dest: timed_send_clock split: prod.splits notification_target.splits option.splits if_splits) blast+

lemma sar_complete_other:
  "sar_complete so k receipt retry db = (r, db') \<Longrightarrow>
     db_fault db' = db_fault db \<and> tb_incidents (db_tables db') = tb_incidents (db_tables db)"
  by (auto simp: sar_complete_def statement_def Let_def update_rows_def
      split: run.splits sum.splits prod.splits option.splits)

lemma sar_complete_Done:
  "storable (rc_completed_at receipt) \<Longrightarrow> fst (sar_complete so k receipt None db) \<noteq> Panicked"
  by (auto simp: sar_complete_def completion_def nanos_def nanos_opt_def storable_def
      split: run.splits sum.splits prod.splits option.splits)

text \<open>A network that draws no identifiers and whose clock shows storable times.\<close>

definition net_ok :: "('n \<Rightarrow> nat) \<Rightarrow> 'n net \<Rightarrow> bool" where
  "net_ok drawn net \<longleftrightarrow> (\<forall>n. storable (fst (net_now net n)) \<and> drawn (snd (net_now net n)) = drawn n) \<and>
     (\<forall>rq n. drawn (snd (net_send net rq n)) = drawn n)"

definition work_frame :: "('n \<Rightarrow> nat) \<Rightarrow> 'n sqlite_world \<Rightarrow> 'n sqlite_world \<Rightarrow> bool" where
  "work_frame drawn w w' \<longleftrightarrow> tb_incidents (db_tables (sw_db w')) = tb_incidents (db_tables (sw_db w)) \<and>
     db_fault (sw_db w') = db_fault (sw_db w) \<and> drawn (sw_outside w') = drawn (sw_outside w) \<and>
     sw_dispatches w' = sw_dispatches w \<and> sw_panicked w' = sw_panicked w"

lemma work_frame_trans: "work_frame drawn w v \<Longrightarrow> work_frame drawn v u \<Longrightarrow> work_frame drawn w u"
  by (simp add: work_frame_def)

lemma sq_complete_frame:
  assumes "storable (rc_completed_at receipt)" and "sq_complete so k receipt None w = (r, w')"
  shows "work_frame drawn w w'"
proof -
  obtain q db where c: "sar_complete so k receipt None (sw_db w) = (q, db)"
    by (cases "sar_complete so k receipt None (sw_db w)")
  then have "q \<noteq> Panicked"
    using sar_complete_Done [OF assms(1), of so k "sw_db w"] by simp
  with c sar_complete_other [OF c] assms(2) show ?thesis
    by (cases q) (auto simp: sq_complete_def on_db_def work_frame_def)
qed

lemma sq_send_frame:
  assumes "net_ok drawn net" and "senders_dispatch cr rfc (sq_net net) senders m t w = (r, w')"
  shows "work_frame drawn w w'"
proof -
  let ?part = "\<lambda>w. (sw_db w, drawn (sw_outside w), sw_dispatches w, sw_panicked w)"
  have "net_frame ?part (sq_net net)"
    using assms(1) by (auto simp: net_frame_def sq_net_def on_surroundings_def net_ok_def split: prod.splits)
      (metis snd_conv)+
  then have "kept ?part w (senders_dispatch cr rfc (sq_net net) senders m t w)"
    by (rule senders_dispatch_kept)
  with assms(2) show ?thesis
    by (simp add: kept_def work_frame_def)
qed

lemma process_targets_frame:
  assumes net: "net_ok drawn net"
  shows "process_targets (senders_dispatch cr rfc (sq_net net) senders m) (sq_complete so) targets w = (r, w') \<Longrightarrow>
    work_frame drawn w w'"
proof (induction targets arbitrary: w)
  case (Cons x targets)
  obtain k t where x: "x = (k, t)" by (cases x)
  let ?send = "senders_dispatch cr rfc (sq_net net) senders m"
  obtain sent w1 where s: "?send t w = (sent, w1)" by (cases "?send t w")
  note f1 = sq_send_frame [OF net s]
  show ?case
  proof (cases sent)
    case (Done receipt)
    then obtain v v' where "net_now (sq_net net) v = (rc_completed_at receipt, v')"
      using receipt_clock [OF s [unfolded Done]] by blast
    then have "storable (rc_completed_at receipt)"
      using net by (auto simp: sq_net_def on_surroundings_def net_ok_def split: prod.splits) (metis fst_conv)
    moreover obtain res w2 where c: "sq_complete so k receipt None w1 = (res, w2)"
      by (cases "sq_complete so k receipt None w1")
    ultimately have "work_frame drawn w w2"
      using work_frame_trans [OF f1 sq_complete_frame] by blast
    with Cons.IH [of w2] Cons.prems x s Done c show ?thesis
      by (auto intro: work_frame_trans)
  qed (use Cons.prems x s f1 in simp)
qed (simp add: work_frame_def)

section \<open>The invariant of the process\<close>

text \<open>
  What is relied on outside the program: JSON renders every incident and reads it back,
  \<open>ORDER BY\<close> orders, identifiers do not repeat, and the clocks show times from 1677 to 2262.
\<close>

definition wiring_ok :: "'n wiring \<Rightarrow> (nat \<Rightarrow> uuid) \<Rightarrow> ('n \<Rightarrow> nat) \<Rightarrow> bool" where
  "wiring_ok wi name drawn \<longleftrightarrow> json_faithful (so_incident (wi_sqlite wi)) \<and>
     (\<forall>i. \<exists>json. to_json (so_incident (wi_sqlite wi)) i = Ok json) \<and> orders (so_order_incidents (wi_sqlite wi)) \<and>
     draws name drawn (wi_surroundings wi) \<and> storable_clock (wi_surroundings wi) \<and> net_ok drawn (wi_net wi)"

text \<open>What the events may bring in: batches with storable times, and sweeps after 1970.\<close>

definition timely_batch :: "observation_batch \<Rightarrow> bool" where
  "timely_batch b \<longleftrightarrow> list_all (timely_observation storable) (observations_from_batch b)"

definition timely_event :: "daemon_event \<Rightarrow> bool" where
  "timely_event ev \<longleftrightarrow>
     (case ev of
        Task (Collector i (Poll (Done b))) \<Rightarrow> timely_batch b
      | Sweep now \<Rightarrow> 0 \<le> now \<and> now < 2 ^ 63
      | _ \<Rightarrow> True)"

fun timely_phase :: "collector_phase \<Rightarrow> bool" where
  "timely_phase (Sending p q b) = timely_batch b"
| "timely_phase _ = True"

definition batches_timely :: "runtime_state \<Rightarrow> bool" where
  "batches_timely s \<longleftrightarrow> list_all timely_phase (rt_collectors s) \<and> list_all timely_batch (rt_obs s)"

text \<open>Where a dispatch is: worked off, in the channel, in the consumer's hand, or given up.\<close>

definition dispatches :: "runtime_state \<Rightarrow> notification_dispatch multiset" where
  "dispatches s = mset (rt_worked s) + mset (rt_notif s) + mset (rt_pending s) + mset (rt_unsent s)"

definition daemon_inv :: "'n wiring \<Rightarrow> (nat \<Rightarrow> uuid) \<Rightarrow> ('n \<Rightarrow> nat) \<Rightarrow> 'n daemon \<Rightarrow> bool" where
  "daemon_inv wi name drawn x \<longleftrightarrow>
     (case x of (s, cn, w) \<Rightarrow> healthy (wi_sqlite wi) name drawn cn w \<and> batches_timely s \<and> mset (sw_dispatches w) = dispatches s)"

lemma batches_timely_step:
  assumes step: "runtime_step capacity ev s t" and old: "batches_timely s" and new: "timely_event (Task ev)"
  shows "batches_timely t"
  using step
proof (cases rule: runtime_step.cases)
  case (collector i e c bs)
  have "timely_phase (rt_collectors s ! i)"
    using old collector(4) by (simp add: batches_timely_def list_all_length)
  with collector(5) have "timely_phase c \<and> list_all timely_batch bs"
    by (cases rule: collector_step.cases) (use new collector(1) in \<open>auto simp: timely_event_def\<close>)
  with old collector(2) show ?thesis
    by (auto simp: batches_timely_def intro: list_all_update)
next
  case consumer
  from consumer(2) show ?thesis
    by (cases rule: consumer_step.cases) (use old in \<open>auto simp: batches_timely_def\<close>)
next
  case worker
  from worker(2) show ?thesis
    by (cases rule: worker_step.cases) (use old in \<open>auto simp: batches_timely_def worker_gone_def\<close>)
qed (use old in \<open>auto simp: batches_timely_def supervisor_spawn_def list_all_iff\<close>)

text \<open>Only taking a batch brings new dispatches in; none disappears.\<close>

lemma dispatches_step:
  assumes step: "runtime_step capacity ev s t"
  shows "dispatches t = dispatches s + (case ev of TakeBatch ds \<Rightarrow> mset ds | _ \<Rightarrow> {#})"
  using step
proof (cases rule: runtime_step.cases)
  case consumer
  from consumer(2) show ?thesis
    by (cases rule: consumer_step.cases) (auto simp: dispatches_def)
next
  case worker
  from worker(2) show ?thesis
    by (cases rule: worker_step.cases) (auto simp: dispatches_def worker_gone_def)
qed (auto simp: dispatches_def supervisor_spawn_def)

lemma dispatches_no_storage:
  "runtime_step capacity ev s t \<Longrightarrow> \<forall>ds. ev \<noteq> TakeBatch ds \<Longrightarrow> dispatches t = dispatches s"
  using dispatches_step by (cases ev) fastforce+

lemma work_frame_healthy:
  assumes "work_frame drawn w w'" and "healthy so name drawn cn w"
  shows "healthy so name drawn cn w'"
proof -
  have "sir_rows so (sw_db w') = sir_rows so (sw_db w)" "sir_valid so (sw_db w') = sir_valid so (sw_db w)"
    using assms(1) sir_same_rows [of "sw_db w'" "sw_db w" so] by (auto simp: work_frame_def)
  with assms show ?thesis
    by (simp add: healthy_def in_step_def seldom_fails_def rows_drawn_def work_frame_def)
qed

lemma daemon_dispatch_frame:
  "wiring_ok wi name drawn \<Longrightarrow> daemon_dispatch wi d w = (r, w') \<Longrightarrow> work_frame drawn w w'"
  unfolding daemon_dispatch_def process_dispatch_def by (erule process_targets_frame [rotated]) (simp add: wiring_ok_def)

lemma daemon_sync:
  assumes "wiring_ok wi name drawn"
  shows "consumer_sync (daemon_services wi) (\<lambda>w. fst (sir_load_open (wi_sqlite wi) (sw_db w)))
    (\<lambda>w. sir_rows (wi_sqlite wi) (sw_db w)) (sq_valid (wi_sqlite wi)) (\<lambda>w. drawn (sw_outside w)) name storable"
  unfolding daemon_services_def
  by (rule sq_consumer_sync) (use assms in \<open>auto simp: wiring_ok_def draws_def storable_clock_def\<close>)

lemma daemon_step_drawn:
  assumes wi: "wiring_ok wi name drawn" and step: "daemon_step wi capacity ev (s, cn, w) (s', cn', w')"
  shows "drawn (sw_outside w) \<le> drawn (sw_outside w')"
  using step
proof (cases rule: daemon_step.cases)
  case (batch ds b rest)
  then show ?thesis
    using consumer_sync.process_batch_drawn [OF daemon_sync [OF wi] batch(4)] by simp
qed (use daemon_dispatch_frame [OF wi] in \<open>auto simp: work_frame_def\<close>)

lemma daemon_step_inv:
  assumes wi: "wiring_ok wi name drawn" and step: "daemon_step wi capacity ev (s, cn, w) (s', cn', w')"
    and inv: "daemon_inv wi name drawn (s, cn, w)" and ev: "timely_event ev" and few: "drawn (sw_outside w') \<le> 2 ^ 128"
  shows "daemon_inv wi name drawn (s', cn', w')"
proof -
  note old = inv [unfolded daemon_inv_def prod.case]
  from step show ?thesis
  proof (cases rule: daemon_step.cases)
    case (batch ds b rest)
    have "timely_batch b"
      using old batch(3) by (simp add: batches_timely_def)
    then have "healthy (wi_sqlite wi) name drawn cn' w'"
      using wi old few process_batch_healthy [OF _ _ _ _ _ _ batch(4) [unfolded daemon_services_def], of name drawn]
      by (auto simp: wiring_ok_def draws_def storable_clock_def timely_batch_def)
    moreover have "batches_timely s'"
      using batches_timely_step [OF batch(2)] old by (simp add: timely_event_def)
    ultimately show ?thesis
      using old batch(5) dispatches_step [OF batch(2)] by (simp add: daemon_inv_def)
  next
    case (work d rest)
    with old show ?thesis
      using work_frame_healthy [OF daemon_dispatch_frame [OF wi work(5)]] batches_timely_step [OF work(3)]
        dispatches_step [OF work(3)] daemon_dispatch_frame [OF wi work(5)]
      by (simp add: daemon_inv_def timely_event_def work_frame_def)
  next
    case (work_panics d rest)
    with old show ?thesis
      using work_frame_healthy [OF daemon_dispatch_frame [OF wi work_panics(5)]] batches_timely_step [OF work_panics(3)]
        dispatches_step [OF work_panics(3)] daemon_dispatch_frame [OF wi work_panics(5)]
      by (simp add: daemon_inv_def timely_event_def work_frame_def)
  next
    case (task ev')
    then have "\<forall>ds. ev' \<noteq> TakeBatch ds" by auto
    with task old ev show ?thesis
      using batches_timely_step [OF task(4)] dispatches_no_storage [OF task(4)] by (simp add: daemon_inv_def)
  next
    case (sweeps now db)
    with old ev show ?thesis
      using sweep_healthy [of "wi_sqlite wi" name drawn cn w now "wi_checks wi" "wi_ages wi"]
      by (auto simp: daemon_inv_def timely_event_def)
  next
    case (sweep_panics now db)
    with old ev show ?thesis
      using sweep_healthy [of "wi_sqlite wi" name drawn cn w now "wi_checks wi" "wi_ages wi"]
      by (auto simp: timely_event_def)
  qed
qed

lemma daemon_run_drawn:
  assumes wi: "wiring_ok wi name drawn"
  shows "daemon_run wi capacity evs x y \<Longrightarrow> drawn (sw_outside (snd (snd x))) \<le> drawn (sw_outside (snd (snd y)))"
proof (induction rule: daemon_run.induct)
  case (go ev x y evs z)
  obtain s cn w s' cn' w' where xy: "x = (s, cn, w)" "y = (s', cn', w')"
    by (cases x; cases y) blast
  with go daemon_step_drawn [OF wi, of capacity ev s cn w s' cn' w'] show ?case by simp
qed simp

lemma daemon_run_inv:
  assumes wi: "wiring_ok wi name drawn"
  shows "daemon_run wi capacity evs x y \<Longrightarrow> daemon_inv wi name drawn x \<Longrightarrow> list_all timely_event evs \<Longrightarrow>
    drawn (sw_outside (snd (snd y))) \<le> 2 ^ 128 \<Longrightarrow> daemon_inv wi name drawn y"
proof (induction rule: daemon_run.induct)
  case (go ev x y evs z)
  obtain s cn w s' cn' w' where xy: "x = (s, cn, w)" "y = (s', cn', w')"
    by (cases x; cases y) blast
  have "drawn (sw_outside w') \<le> 2 ^ 128"
    using daemon_run_drawn [OF wi go.hyps(2)] go.prems(3) xy by simp
  then have "daemon_inv wi name drawn y"
    using daemon_step_inv [OF wi, of capacity ev s cn w s' cn' w'] go.hyps(1) go.prems(1,2) xy by simp
  with go show ?case by simp
qed simp

section \<open>Every interleaving\<close>

lemma daemon_start_inv:
  assumes "runtime_start capacity n api_enabled = Done s0" and "healthy (wi_sqlite wi) name drawn cn w" and "sw_dispatches w = []"
  shows "daemon_inv wi name drawn (s0, cn, w)"
  using assms by (auto simp: daemon_inv_def runtime_start_def dispatches_def batches_timely_def list_all_iff split: if_splits)

lemma daemon_healthy:
  assumes "wiring_ok wi name drawn" and "runtime_start capacity n api_enabled = Done s0"
    and "healthy (wi_sqlite wi) name drawn cn w" and "sw_dispatches w = []"
    and "daemon_run wi capacity evs (s0, cn, w) (s, cn', w')" and "list_all timely_event evs"
    and "drawn (sw_outside w') \<le> 2 ^ 128"
  shows "healthy (wi_sqlite wi) name drawn cn' w'"
  using daemon_run_inv [OF assms(1,5) daemon_start_inv [OF assms(2-4)] assms(6)] assms(7) by (simp add: daemon_inv_def)


definition sample_so :: sqlite_outside where
  "sample_so = sample_sqlite\<lparr>so_incident := unary_codec\<rparr>"

definition sample_surroundings :: "nat surroundings" where
  "sample_surroundings =
     \<lparr>su_now = (\<lambda>n. (100, n)), su_instant = (\<lambda>n. (n, n)), su_uuid = (\<lambda>n. (of_nat n, Suc n)),
      su_sleep_ms = (\<lambda>ms n. n), su_channel_open = (\<lambda>n. (True, n))\<rparr>"

definition sample_wiring :: "nat wiring" where
  "sample_wiring =
     \<lparr>wi_sqlite = sample_so, wi_surroundings = sample_surroundings,
      wi_net = \<lparr>net_now = (\<lambda>n. (100, n)), net_send = (\<lambda>rq n. (None, n))\<rparr>, wi_crates = sample_crates, wi_rfc3339 = (\<lambda>_. []),
      wi_senders = \<lparr>ns_telegram = None, ns_discord = False\<rparr>, wi_renderers = sample_renderers, wi_rules = [],
      wi_checks = True, wi_ages = \<lparr>rt_observations_max_age = None, rt_incidents_max_age = Some 1,
        rt_suppressions_grace = None, rt_attempts_max_age = None, rt_vacuum_interval = 1\<rparr>\<rparr>"

lemma sample_wiring_ok: "wiring_ok sample_wiring of_nat (\<lambda>n. n)"
  using of_nat_uuid_inj
  by (simp add: wiring_ok_def sample_wiring_def sample_so_def sample_sqlite_def unary_codec_ok orders_sort_key draws_def
      storable_clock_def storable_def sample_surroundings_def net_ok_def)

text \<open>A process that has opened one incident, with the identifier \<open>0\<close>.\<close>

definition sample_lived :: "nat sqlite_world" where
  "sample_lived =
     \<lparr>sw_db = snd (sir_save sample_so sample_open empty_db), sw_dispatches = [], sw_panicked = False, sw_outside = 1\<rparr>"

lemma sample_so_ok:
  "json_faithful (so_incident sample_so)" "\<forall>i. \<exists>json. to_json (so_incident sample_so) i = Ok json"
  "orders (so_order_incidents sample_so)"
  by (simp_all add: sample_so_def sample_sqlite_def unary_codec_ok orders_sort_key)

lemma sample_healthy: "healthy sample_so of_nat (\<lambda>n. n) sample_consumer sample_lived" "faultless (sw_db sample_lived)"
proof -
  let ?db = "sw_db sample_lived"
  have v: "sir_valid sample_so empty_db"
    by (simp add: sir_valid_def empty_db_def empty_tables_def)
  have "storable_incident sample_open"
    by (simp add: storable_incident_def storable_def sample_open_def sample_incident_def)
  then have "fst (sir_saves sample_so [sample_open] empty_db) = [Done (Ok ())]"
    using sir_saves_accepted [of empty_db "[sample_open]" sample_so] sample_so_ok(2)
    by (simp add: faultless_def empty_db_def)
  then have db: "sir_save sample_so sample_open empty_db = (Done (Ok ()), ?db)"
    by (cases "sir_save sample_so sample_open empty_db") (simp add: sample_lived_def)
  note saved = sir_save_cases [OF sample_so_ok(1) v db]
  have "sir_rows sample_so empty_db = Map.empty"
    by (simp add: sir_rows_def empty_db_def empty_tables_def fun_eq_iff)
  then have rows: "sir_rows sample_so ?db = [inc_id sample_open \<mapsto> sample_open]"
    using saved by simp
  have "open_incident_ok (inc_fingerprint sample_open) sample_open"
    by (simp add: sample_open_def sample_incident_def open_incident_ok_def compute_fingerprint_def sample_draft_def)
  then have "in_step sample_so (cn_engine sample_consumer) ?db"
    using rows saved
    by (auto simp: in_step_def sample_consumer_def engine_inv_def open_map_ok_def hm_wf_def hm_get_def open_incident_ok_def
        split: if_splits)
  moreover have "rows_drawn sample_so of_nat (\<lambda>n. n) sample_lived"
  proof -
    have "sw_outside sample_lived = 1" "inc_id sample_open = IncidentId 0"
      by (simp_all add: sample_lived_def sample_open_def)
    then show ?thesis by (simp add: rows_drawn_def rows)
  qed
  moreover show "faultless ?db"
    using saved by (simp add: faultless_def empty_db_def)
  ultimately show "healthy sample_so of_nat (\<lambda>n. n) sample_consumer sample_lived"
    by (simp add: healthy_def faultless_seldom) (simp add: sample_lived_def)
qed

lemma sample_state_timely: "timely_observation storable (sample_state 1 20 True)"
  by (simp add: timely_observation_def sample_state_def storable_def store_simps)

lemma sample_lived_batch:
  "\<exists>cn' db. process_batch (daemon_services sample_wiring) sample_renderers [] (sample_batch [sample_state 1 20 True])
       sample_consumer sample_lived = (Done cn', sample_lived\<lparr>sw_db := db\<rparr>) \<and>
     cn_engine cn' = cn_engine sample_consumer \<and> faultless db"
proof -
  let ?ob = "sample_state 1 20 True"
  obtain p db where a: "sos_append_many sample_so [?ob] (sw_db sample_lived) = (p, db)"
    by (cases "sos_append_many sample_so [?ob] (sw_db sample_lived)")
  obtain x where p: "p = Done x"
    using sos_append_Done [OF sample_state_timely, of sample_so "sw_db sample_lived"] a by (cases p) auto
  have "faultless db"
    using sos_append_other [OF a] sample_healthy(2) by (simp add: faultless_def)
  with a p show ?thesis
    by (cases x; simp add: process_batch_def on_surroundings_def sample_surroundings_def sample_batch_def on_db_def
        sample_consumer_def daemon_services_def sample_wiring_def Let_def; blast)
qed

definition sample_daemon_events :: "daemon_event list" where
  "sample_daemon_events =
     map Task [SpawnCollectors, Collector 0 Start, Collector 0 (Poll (Done (sample_batch [sample_state 1 20 True]))),
       Collector 0 Send, TakeBatch []] @ [Sweep 100]"

lemma sample_events_timely: "list_all timely_event sample_daemon_events"
  using sample_state_timely by (simp add: sample_daemon_events_def timely_event_def timely_batch_def sample_batch_def)

lemma sample_daemon_run:
  assumes "runtime_start 1 1 False = Done s0"
  obtains s cn' w' where "daemon_run sample_wiring 1 sample_daemon_events (s0, sample_consumer, sample_lived) (s, cn', w')"
    "cn_engine cn' = cn_engine sample_consumer" "faultless (sw_db w')" "sw_outside w' \<le> 2 ^ 128"
    "rt_taken s = [sample_batch [sample_state 1 20 True]]"
proof -
  let ?b = "sample_batch [sample_state 1 20 True]"
  let ?s1 = "supervisor_spawn s0"
  let ?s2 = "?s1\<lparr>rt_collectors := [Idle True True]\<rparr>"
  let ?s3 = "?s1\<lparr>rt_collectors := [Sending True True ?b]\<rparr>"
  let ?s4 = "?s1\<lparr>rt_collectors := [Idle True True], rt_obs := [?b], rt_accepted := [?b]\<rparr>"
  let ?s5 = "?s4\<lparr>rt_obs := [], rt_taken := [?b], rt_pending := []\<rparr>"
  note s0 = assms [symmetric, unfolded runtime_start_def, simplified]
  have steps: "runtime_step 1 SpawnCollectors s0 ?s1" "runtime_step 1 (Collector 0 Start) ?s1 ?s2"
    "runtime_step 1 (Collector 0 (Poll (Done ?b))) ?s2 ?s3" "runtime_step 1 (Collector 0 Send) ?s3 ?s4"
    "runtime_step 1 (TakeBatch []) ?s4 ?s5"
    by (auto simp: runtime_simps s0 supervisor_spawn_def)
  obtain cn' db1 where batch: "process_batch (daemon_services sample_wiring) sample_renderers [] ?b sample_consumer sample_lived =
      (Done cn', sample_lived\<lparr>sw_db := db1\<rparr>)" "cn_engine cn' = cn_engine sample_consumer" "faultless db1"
    using sample_lived_batch by blast
  obtain db where sweep: "sweep (wi_checks sample_wiring) (wi_ages sample_wiring) 100 db1 = (Done (), db)" "faultless db"
    using sweep_tables [of 100 "wi_checks sample_wiring" "wi_ages sample_wiring" db1] batch(3) by (auto simp: faultless_def)
  let ?w1 = "sample_lived\<lparr>sw_db := db1\<rparr>"
  have "daemon_step sample_wiring 1 (Task (TakeBatch [])) (?s4, sample_consumer, sample_lived) (?s5, cn', ?w1)"
    by (rule daemon_step.batch [OF steps(5)]) (use batch(1) in \<open>simp_all add: sample_wiring_def\<close>)
  moreover have "daemon_step sample_wiring 1 (Sweep 100) (?s5, cn', ?w1) (?s5, cn', ?w1\<lparr>sw_db := db\<rparr>)"
    by (rule daemon_step.sweeps) (use sweep(1) in simp)
  ultimately have "daemon_run sample_wiring 1 sample_daemon_events (s0, sample_consumer, sample_lived) (?s5, cn', ?w1\<lparr>sw_db := db\<rparr>)"
    unfolding sample_daemon_events_def using steps(1-4)
    by (auto intro!: daemon_run.intros daemon_step.task)
  with that batch(2) sweep(2) show thesis by (simp add: sample_lived_def)
qed


end
