(* ===== verification/Domain_Events.thy ===== *)
theory Domain_Events
  imports Notification_Flow
begin

text \<open>
  The vocabularies that cross the borders of the contexts: the per-context events and
  their envelope (\<open>domain_events.rs\<close>, \<open>*/events.rs\<close>), the suppression commands
  (\<open>incidents/suppression.rs\<close>), and the sink of a subscription collector
  (\<open>collectors/traits.rs\<close>).
\<close>

section \<open>Events\<close>

datatype observation_event_t = BatchProduced observation_batch | ObservationAppended observation

datatype read_model_event = Applied observation

datatype diagnostic_event =
    DraftEmitted (de_rule_id: string) (de_draft: incident_signal_draft)
  | RuleFailed (de_rule_id: string) (de_error: string)

datatype notification_event = DispatchedEvent notification_attempt | SuppressedEvent notification_attempt

datatype domain_event =
    ObservationEv observation_event_t
  | ReadModelEv read_model_event
  | DiagnosticEv diagnostic_event
  | IncidentEv incident_event
  | NotificationEv notification_event

section \<open>Suppression commands\<close>

datatype suppression_command =
    Suppress (sc_fingerprint: incident_fingerprint) (sc_until: "datetime option") (sc_by: actor_id) (sc_reason: string)
  | Unsuppress (sc_fingerprint: incident_fingerprint) (sc_by: actor_id)

datatype suppression_error = SuppressionNotYetImplemented string | SuppressionRepository incident_repo_error

fun suppression_error_str :: "(incident_repo_error \<Rightarrow> string) \<Rightarrow> suppression_error \<Rightarrow> string" where
  "suppression_error_str repo (SuppressionNotYetImplemented what) = ''suppression not yet implemented: '' @ what"
| "suppression_error_str repo (SuppressionRepository e) = ''repository: '' @ repo e"

section \<open>The batch sink\<close>

text \<open>
  A sender of a bounded channel: sending waits for room (\<open>None\<close> here: not now), and fails
  once the receiver is gone.
\<close>

datatype sink_error = SinkClosed

record batch_sink =
  bs_queue :: "observation_batch list"
  bs_capacity :: nat
  bs_receiver :: bool

definition batch_sink_send :: "batch_sink \<Rightarrow> observation_batch \<Rightarrow> ((sink_error + unit) \<times> batch_sink) option" where
  "batch_sink_send sink batch =
     (if \<not> bs_receiver sink then Some (Err SinkClosed, sink)
      else if length (bs_queue sink) < bs_capacity sink
           then Some (Ok (), sink\<lparr>bs_queue := bs_queue sink @ [batch]\<rparr>)
           else None)"

text \<open>
  What a collector pushes through a sink arrives in its order and within the capacity; a
  collector waits only for a receiver that is there.
\<close>

fun push_all :: "batch_sink \<Rightarrow> observation_batch list \<Rightarrow> (sink_error + unit) \<times> batch_sink" where
  "push_all sink [] = (Ok (), sink)"
| "push_all sink (b # bs) =
     (case batch_sink_send sink b of
        None \<Rightarrow> (Ok (), sink)
      | Some (Err e, sink) \<Rightarrow> (Err e, sink)
      | Some (Ok _, sink) \<Rightarrow> push_all sink bs)"

lemma push_all_prefix:
  assumes "push_all sink bs = (r, sink')" and "length (bs_queue sink) \<le> bs_capacity sink"
  shows "\<exists>k \<le> length bs. bs_queue sink' = bs_queue sink @ take k bs \<and> length (bs_queue sink') \<le> bs_capacity sink' \<and>
    (r = Err SinkClosed \<longrightarrow> \<not> bs_receiver sink \<and> bs \<noteq> [])"
  using assms
proof (induction bs arbitrary: sink)
  case (Cons b bs)
  show ?case
  proof (cases "bs_receiver sink \<and> length (bs_queue sink) < bs_capacity sink")
    case True
    let ?next = "sink\<lparr>bs_queue := bs_queue sink @ [b]\<rparr>"
    obtain k where "k \<le> length bs" "bs_queue sink' = bs_queue ?next @ take k bs" "length (bs_queue sink') \<le> bs_capacity sink'"
      "r = Err SinkClosed \<longrightarrow> \<not> bs_receiver ?next \<and> bs \<noteq> []"
      using Cons.IH [of ?next] Cons.prems True by (auto simp: batch_sink_send_def)
    then show ?thesis
      using True by (intro exI [of _ "Suc k"]) simp
  next
    case False
    then have "sink' = sink" "r = Err SinkClosed \<longrightarrow> \<not> bs_receiver sink"
      using Cons.prems(1) by (auto simp: batch_sink_send_def split: if_splits)
    with Cons.prems(2) show ?thesis
      by (intro exI [of _ 0]) simp
  qed
qed auto

end
