(* ===== verification/Telegram_Pairing.thy ===== *)
theory Telegram_Pairing
  imports Notification_Types
begin

text \<open>
  Pairing a Telegram chat (\<open>notifications/targets/telegram/types.rs\<close>): the code a user types,
  its normal form, its display form and its keyed hash.  A text is the list of its
  characters, a character its code point.  The Unicode tables behind \<open>is_whitespace\<close> and
  \<open>to_uppercase\<close>, the random generator, the HMAC and the hex encoding are arguments.
\<close>

section \<open>Data\<close>

datatype telegram_user_id = TelegramUserId i64
datatype telegram_subscription_id = TelegramSubscriptionId uuid
datatype telegram_pairing_challenge_id = TelegramPairingChallengeId uuid
datatype telegram_chat_kind = ChatPrivate | ChatGroup | ChatSupergroup | ChatChannel

type_synonym code_point = nat

datatype pairing_code = PairingCode "code_point list"
datatype pairing_code_hash = PairingCodeHash string

record telegram_subscription =
  ts_id :: telegram_subscription_id
  ts_challenge_id :: telegram_pairing_challenge_id
  ts_chat_id :: telegram_chat_id
  ts_chat_kind :: telegram_chat_kind
  ts_chat_title :: "string option"
  ts_user_id :: "telegram_user_id option"
  ts_username :: "string option"
  ts_min_severity :: incident_severity
  ts_lifecycle_events :: "incident_notification_event_kind list"
  ts_enabled :: bool
  ts_created_at :: datetime

record telegram_pairing_challenge =
  pc_id :: telegram_pairing_challenge_id
  pc_code_hash :: pairing_code_hash
  pc_created_at :: datetime
  pc_expires_at :: datetime
  pc_consumed_at :: "datetime option"

datatype telegram_command = StartCmd "code_point list" | TestAlert | StatusCmd | HelpCmd | Unpair

section \<open>Codes\<close>

record unicode =
  un_whitespace :: "code_point \<Rightarrow> bool"
  un_uppercase :: "code_point \<Rightarrow> code_point list"

text \<open>What the tables say of ASCII.\<close>

definition unicode_ascii :: "unicode \<Rightarrow> bool" where
  "unicode_ascii un \<longleftrightarrow> (\<forall>c < 128. (un_whitespace un c \<longleftrightarrow> c = 32 \<or> 9 \<le> c \<and> c \<le> 13) \<and>
     un_uppercase un c = [if 97 \<le> c \<and> c \<le> 122 then c - 32 else c])"

definition trim :: "unicode \<Rightarrow> code_point list \<Rightarrow> code_point list" where
  "trim un s = rev (dropWhile (un_whitespace un) (rev (dropWhile (un_whitespace un) s)))"

definition pairing_normalize :: "unicode \<Rightarrow> code_point list \<Rightarrow> pairing_code" where
  "pairing_normalize un raw =
     PairingCode (concat (map (un_uppercase un) (filter (\<lambda>c. c \<noteq> 45 \<and> \<not> un_whitespace un c) (trim un raw))))"

text \<open>\<open>ABCDEFGHJKMNPQRSTUVWXYZ23456789\<close>: no \<open>I\<close>, \<open>L\<close>, \<open>O\<close>, \<open>0\<close> and \<open>1\<close>.\<close>

definition CHARSET :: "code_point list" where
  "CHARSET = [65, 66, 67, 68, 69, 70, 71, 72, 74, 75, 77, 78, 80, 81, 82, 83, 84, 85, 86, 87, 88, 89, 90,
     50, 51, 52, 53, 54, 55, 56, 57]"

text \<open>\<open>random_range(0..n)\<close> as a function of the generator's state; \<open>generate\<close> draws eight times.\<close>

fun draw_chars :: "(nat \<Rightarrow> 'g \<Rightarrow> nat \<times> 'g) \<Rightarrow> nat \<Rightarrow> 'g \<Rightarrow> code_point list \<times> 'g" where
  "draw_chars random_range 0 g = ([], g)"
| "draw_chars random_range (Suc n) g =
     (let (i, g) = random_range (length CHARSET) g;
          (cs, g) = draw_chars random_range n g
      in (CHARSET ! i # cs, g))"

definition pairing_generate :: "(nat \<Rightarrow> 'g \<Rightarrow> nat \<times> 'g) \<Rightarrow> 'g \<Rightarrow> pairing_code \<times> 'g" where
  "pairing_generate random_range g = (let (cs, g) = draw_chars random_range 8 g in (PairingCode cs, g))"

definition utf8_len :: "code_point \<Rightarrow> nat" where
  "utf8_len c = (if c < 0x80 then 1 else if c < 0x800 then 2 else if c < 0x10000 then 3 else 4)"

text \<open>The text before byte \<open>n\<close> and the text from there; \<open>None\<close> inside a character, where the slice panics.\<close>

fun split_bytes :: "nat \<Rightarrow> code_point list \<Rightarrow> (code_point list \<times> code_point list) option" where
  "split_bytes n [] = (if n = 0 then Some ([], []) else None)"
| "split_bytes n (c # cs) =
     (if n = 0 then Some ([], c # cs)
      else if utf8_len c \<le> n then map_option (\<lambda>(a, b). (c # a, b)) (split_bytes (n - utf8_len c) cs)
      else None)"

fun pairing_formatted :: "pairing_code \<Rightarrow> code_point list run" where
  "pairing_formatted (PairingCode cs) =
     (if sum_list (map utf8_len cs) = 8
      then (case split_bytes 4 cs of None \<Rightarrow> Panicked | Some (a, b) \<Rightarrow> Done (a @ [45] @ b))
      else Done cs)"

fun pairing_from_code ::
    "(code_point list \<Rightarrow> string) \<Rightarrow> (string \<Rightarrow> string \<Rightarrow> string) \<Rightarrow> (string \<Rightarrow> string) \<Rightarrow> string \<Rightarrow> pairing_code \<Rightarrow>
     pairing_code_hash" where
  "pairing_from_code as_bytes hmac_sha256 hex_encode secret (PairingCode cs) =
     PairingCodeHash (hex_encode (hmac_sha256 secret (as_bytes cs)))"

section \<open>Round trip\<close>

text \<open>A character that the normal form keeps: one of the charset is.\<close>

definition plain :: "unicode \<Rightarrow> code_point \<Rightarrow> bool" where
  "plain un c \<longleftrightarrow> c \<noteq> 45 \<and> \<not> un_whitespace un c \<and> un_uppercase un c = [c]"

lemma filter_dropWhile: "(\<And>c. P c \<Longrightarrow> \<not> Q c) \<Longrightarrow> filter Q (dropWhile P xs) = filter Q xs"
  by (induction xs) auto

lemma filter_trim: "filter (\<lambda>c. c \<noteq> 45 \<and> \<not> un_whitespace un c) (trim un s) = filter (\<lambda>c. c \<noteq> 45 \<and> \<not> un_whitespace un c) s"
proof -
  let ?Q = "\<lambda>c. c \<noteq> 45 \<and> \<not> un_whitespace un c"
  have "filter ?Q (trim un s) = rev (filter ?Q (dropWhile (un_whitespace un) (rev (dropWhile (un_whitespace un) s))))"
    by (simp add: trim_def rev_filter)
  also have "\<dots> = rev (filter ?Q (rev (dropWhile (un_whitespace un) s)))"
    by (subst filter_dropWhile) simp_all
  also have "\<dots> = filter ?Q (dropWhile (un_whitespace un) s)"
    by (simp add: rev_filter)
  also have "\<dots> = filter ?Q s"
    by (rule filter_dropWhile) simp
  finally show ?thesis .
qed

lemma pairing_normalize_alt:
  "pairing_normalize un raw = PairingCode (concat (map (un_uppercase un) (filter (\<lambda>c. c \<noteq> 45 \<and> \<not> un_whitespace un c) raw)))"
  by (simp add: pairing_normalize_def filter_trim)

lemma concat_plain: "list_all (plain un) cs \<Longrightarrow> concat (map (un_uppercase un) cs) = cs"
  by (induction cs) (auto simp: plain_def)

lemma filter_plain: "list_all (plain un) cs \<Longrightarrow> filter (\<lambda>c. c \<noteq> 45 \<and> \<not> un_whitespace un c) cs = cs"
  by (induction cs) (auto simp: plain_def)

text \<open>Separators between the characters of a code do not change what it normalizes to.\<close>

lemma normalize_separated:
  assumes "filter (\<lambda>c. c \<noteq> 45 \<and> \<not> un_whitespace un c) raw = cs" and "list_all (plain un) cs"
  shows "pairing_normalize un raw = PairingCode cs"
  using assms by (simp add: pairing_normalize_alt concat_plain)

lemma charset_plain: "unicode_ascii un \<Longrightarrow> c \<in> set CHARSET \<Longrightarrow> plain un c \<and> utf8_len c = 1"
  by (auto simp: CHARSET_def plain_def unicode_ascii_def utf8_len_def)

lemma draw_chars_charset:
  assumes "\<And>n g. 0 < n \<Longrightarrow> fst (random_range n g) < n"
  shows "draw_chars random_range n g = (cs, g') \<Longrightarrow> length cs = n \<and> set cs \<subseteq> set CHARSET"
proof (induction n arbitrary: g cs g')
  case (Suc n)
  obtain i g1 where i: "random_range (length CHARSET) g = (i, g1)" by (cases "random_range (length CHARSET) g")
  obtain ds g2 where d: "draw_chars random_range n g1 = (ds, g2)" by (cases "draw_chars random_range n g1")
  have "i < length CHARSET"
    using assms [of "length CHARSET" g] i by (simp add: CHARSET_def)
  with Suc.IH [OF d] Suc.prems i d show ?case by auto
qed simp

lemma split_bytes_ascii: "list_all (\<lambda>c. utf8_len c = 1) cs \<Longrightarrow> n \<le> length cs \<Longrightarrow> split_bytes n cs = Some (take n cs, drop n cs)"
  by (induction cs arbitrary: n) (auto simp: take_Cons' drop_Cons')

lemma sum_utf8_ascii: "list_all (\<lambda>c. utf8_len c = 1) cs \<Longrightarrow> sum_list (map utf8_len cs) = length cs"
  by (induction cs) auto

text \<open>
  A generated code is shown as four characters, a dash and four characters, and whatever
  separators the user types, and in whichever case, it is the generated code again: the
  hash of what was typed is the hash of the challenge.
\<close>

lemma pairing_code_round_trip:
  assumes un: "unicode_ascii un" and rng: "\<And>n g. 0 < n \<Longrightarrow> fst (random_range n g) < n"
    and gen: "pairing_generate random_range g = (code, g')"
  shows "\<exists>shown. pairing_formatted code = Done shown \<and> length shown = 9 \<and> shown ! 4 = 45 \<and>
    pairing_normalize un shown = code \<and>
    (\<forall>raw. map (\<lambda>c. if 97 \<le> c \<and> c \<le> 122 then c - 32 else c) (filter (\<lambda>c. c \<noteq> 45 \<and> \<not> un_whitespace un c) raw) =
         filter (\<lambda>c. c \<noteq> 45) shown \<and> list_all (\<lambda>c. c < 128) raw \<longrightarrow>
       pairing_from_code bytes hmac hex secret (pairing_normalize un raw) = pairing_from_code bytes hmac hex secret code)"
proof -
  obtain cs where code: "code = PairingCode cs" and draw: "draw_chars random_range 8 g = (cs, g')"
    using gen by (auto simp: pairing_generate_def split: prod.splits)
  have len: "length cs = 8" and cs: "set cs \<subseteq> set CHARSET"
    using draw_chars_charset [OF rng draw] by auto
  have p: "list_all (plain un) cs" and u: "list_all (\<lambda>c. utf8_len c = 1) cs" and d: "filter (\<lambda>c. c \<noteq> 45) cs = cs"
    using cs charset_plain [OF un] by (auto simp: list_all_iff plain_def intro!: filter_True)
  let ?shown = "take 4 cs @ [45] @ drop 4 cs"
  have shown: "pairing_formatted code = Done ?shown"
    using split_bytes_ascii [OF u, of 4] sum_utf8_ascii [OF u] len by (simp add: code)
  have "filter (\<lambda>c. c \<noteq> 45 \<and> \<not> un_whitespace un c) ?shown = filter (\<lambda>c. c \<noteq> 45 \<and> \<not> un_whitespace un c) (take 4 cs @ drop 4 cs)"
    unfolding filter_append by simp
  then have norm: "pairing_normalize un ?shown = code"
    unfolding code using filter_plain [OF p] by (intro normalize_separated [OF _ p]) simp
  have "filter (\<lambda>c. c \<noteq> 45) ?shown = filter (\<lambda>c. c \<noteq> 45) (take 4 cs @ drop 4 cs)"
    unfolding filter_append by simp
  then have dash: "filter (\<lambda>c. c \<noteq> 45) ?shown = cs"
    using d by simp
  have "pairing_normalize un raw = code"
    if "map (\<lambda>c. if 97 \<le> c \<and> c \<le> 122 then c - 32 else c) (filter (\<lambda>c. c \<noteq> 45 \<and> \<not> un_whitespace un c) raw) = cs"
      "list_all (\<lambda>c. c < 128) raw" for raw
  proof -
    have "concat (map (un_uppercase un) ys) = map (\<lambda>c. if 97 \<le> c \<and> c \<le> 122 then c - 32 else c) ys"
      if "list_all (\<lambda>c. c < 128) ys" for ys
      using that un by (induction ys) (auto simp: unicode_ascii_def)
    moreover have "list_all (\<lambda>c. c < 128) (filter (\<lambda>c. c \<noteq> 45 \<and> \<not> un_whitespace un c) raw)"
      using that(2) by (auto simp: list_all_iff)
    ultimately show ?thesis
      using that(1) by (simp add: pairing_normalize_alt code)
  qed
  with shown norm dash len show ?thesis
    by (intro exI [of _ ?shown]) (auto simp: nth_append)
qed

text \<open>
  A text the user typed need not be ASCII: one of eight bytes with a character across the
  fourth byte panics when it is shown, as \<open>ABC\<close>, a capital E with an acute accent, \<open>123\<close>.
\<close>

lemma pairing_formatted_panics: "pairing_formatted (PairingCode [65, 66, 67, 0xC9, 49, 50, 51]) = Panicked"
  by (simp add: utf8_len_def)

end
